(* ===== verification/Prelude.thy ===== *)
theory Prelude
  imports Complex_Main "HOL-Library.Word"
begin

text \<open>
  The vocabulary every component of the model shares.

  \<^item> Machine integers: \<open>unsigned int\<close> and \<open>int\<close> are 32-bit words (an \<open>int\<close> is read with
    \<open>sint\<close>; the conversions between the two keep the bits, as in C++), \<open>unsigned long long\<close>
    is a 64-bit word. A \<open>float\<close> is a real number: the code copies, compares and clamps floats,
    which is exact; where it computes with them the definitions state the unrounded value.
  \<^item> Effects: a member function that changes shared state or can throw is a function from the
    state to a result and the state it leaves. A thrown exception leaves the state as the
    statements before the throw have made it.
  \<^item> Undefined behaviour (a null or dangling pointer, an index out of range, an invalid
    iterator) is an outcome of its own, so that a definition never invents what the code
    would do after it.
\<close>

section \<open>Machine integers\<close>

type_synonym uint = "32 word"
type_synonym sint32 = "32 word"
type_synonym ulonglong = "64 word"
type_synonym addr = nat

section \<open>Exceptions and undefined behaviour\<close>

datatype ub =
    NullDeref
  | DanglingDeref
  | OutOfBounds
  | InvalidIterator
  | UninitialisedRead
  | DivisionByZero
  | FloatConversion

text \<open>
  The exceptions of the code by what is thrown: an object derived from \<open>std::exception\<close>
  (the only kind the server's handler catches), a string literal, a \<open>std::string\<close>, or a
  pointer made with \<open>throw new\<close>. \<open>NoReturn\<close> stands for a call that does not come back and
  \<open>AssertFailed\<close> for a failed assertion, which ends the process.
\<close>

datatype exn =
    StdException string
  | ThrowLiteral string
  | ThrowString string
  | ThrowPointer string
  | UB ub
  | NoReturn
  | AssertFailed

type_synonym 'a res = "exn + 'a"
type_synonym ('s, 'a) cxx = "'s \<Rightarrow> 'a res \<times> 's"

section \<open>Sequencing\<close>

named_theorems cxx_simps
named_theorems preserves_intros

definition ret :: "'a \<Rightarrow> ('s, 'a) cxx" where
  "ret a = (\<lambda>s. (Inr a, s))"

definition throw :: "exn \<Rightarrow> ('s, 'a) cxx" where
  "throw e = (\<lambda>s. (Inl e, s))"

definition bindX :: "('s, 'a) cxx \<Rightarrow> ('a \<Rightarrow> ('s, 'b) cxx) \<Rightarrow> ('s, 'b) cxx" where
  "bindX m f = (\<lambda>s. case m s of (Inl e, s') \<Rightarrow> (Inl e, s') | (Inr a, s') \<Rightarrow> f a s')"

definition thenX :: "('s, unit) cxx \<Rightarrow> ('s, 'b) cxx \<Rightarrow> ('s, 'b) cxx" where
  "thenX m n = bindX m (\<lambda>_. n)"

definition getS :: "('s \<Rightarrow> 'a) \<Rightarrow> ('s, 'a) cxx" where
  "getS f = (\<lambda>s. (Inr (f s), s))"

definition modS :: "('s \<Rightarrow> 's) \<Rightarrow> ('s, unit) cxx" where
  "modS f = (\<lambda>s. (Inr (), f s))"

definition whenX :: "bool \<Rightarrow> ('s, unit) cxx \<Rightarrow> ('s, unit) cxx" where
  "whenX b m = (if b then m else ret ())"

definition liftR :: "'a res \<Rightarrow> ('s, 'a) cxx" where
  "liftR r = (\<lambda>s. (r, s))"

primrec forX :: "'a list \<Rightarrow> ('a \<Rightarrow> ('s, unit) cxx) \<Rightarrow> ('s, unit) cxx" where
  "forX [] f = ret ()"
| "forX (x # xs) f = thenX (f x) (forX xs f)"

definition bindR :: "'a res \<Rightarrow> ('a \<Rightarrow> 'b res) \<Rightarrow> 'b res" where
  "bindR r f = (case r of Inl e \<Rightarrow> Inl e | Inr a \<Rightarrow> f a)"

lemma ret_run [simp, cxx_simps]: "ret a s = (Inr a, s)"
  by (simp add: ret_def)

lemma throw_run [simp, cxx_simps]: "throw e s = (Inl e, s)"
  by (simp add: throw_def)

lemma getS_run [simp, cxx_simps]: "getS f s = (Inr (f s), s)"
  by (simp add: getS_def)

lemma modS_run [simp, cxx_simps]: "modS f s = (Inr (), f s)"
  by (simp add: modS_def)

lemma liftR_run [simp, cxx_simps]: "liftR r s = (r, s)"
  by (simp add: liftR_def)

lemma bindX_Inr [simp]: "m s = (Inr a, s') \<Longrightarrow> bindX m f s = f a s'"
  by (simp add: bindX_def)

lemma bindX_Inl [simp]: "m s = (Inl e, s') \<Longrightarrow> bindX m f s = (Inl e, s')"
  by (simp add: bindX_def)

lemma thenX_Inr [simp]: "m s = (Inr (), s') \<Longrightarrow> thenX m n s = n s'"
  by (simp add: thenX_def)

lemma thenX_Inl [simp]: "m s = (Inl e, s') \<Longrightarrow> thenX m n s = (Inl e, s')"
  by (simp add: thenX_def)

lemma whenX_simps [simp]: "whenX True m = m" "whenX False m = ret ()"
  by (simp_all add: whenX_def)

lemma bindR_simps [simp]: "bindR (Inr a) f = f a" "bindR (Inl e) f = Inl e"
  by (simp_all add: bindR_def)

lemma bindX_ret [simp]: "bindX (ret a) f = f a"
  by (rule ext) simp

lemma bindX_throw [simp]: "bindX (throw e) f = throw e"
  by (rule ext) simp

lemma bindX_assoc: "bindX (bindX m f) g = bindX m (\<lambda>a. bindX (f a) g)"
  by (rule ext) (auto simp: bindX_def split: prod.splits sum.splits)

lemma bindX_eq_Inr:
  "bindX m f s = (Inr b, s'') \<longleftrightarrow> (\<exists>a s'. m s = (Inr a, s') \<and> f a s' = (Inr b, s''))"
  by (auto simp: bindX_def split: prod.splits sum.splits)

lemma thenX_eq_Inr:
  "thenX m n s = (Inr b, s'') \<longleftrightarrow> (\<exists>s'. m s = (Inr (), s') \<and> n s' = (Inr b, s''))"
  by (auto simp: thenX_def bindX_eq_Inr)

lemma forX_append: "forX (xs @ ys) f = thenX (forX xs f) (forX ys f)"
  by (induction xs) (auto simp: thenX_def bindX_assoc)

section \<open>Invariants of effectful functions\<close>

text \<open>
  \<open>preserves P m\<close>: whatever \<open>m\<close> does (return or throw), it leads from a state with \<open>P\<close> to
  a state with \<open>P\<close>.
\<close>

definition preserves :: "('s \<Rightarrow> bool) \<Rightarrow> ('s, 'a) cxx \<Rightarrow> bool" where
  "preserves P m \<longleftrightarrow> (\<forall>s. P s \<longrightarrow> P (snd (m s)))"

lemma preservesI: "(\<And>s. P s \<Longrightarrow> P (snd (m s))) \<Longrightarrow> preserves P m"
  by (simp add: preserves_def)

lemma preservesD: "preserves P m \<Longrightarrow> P s \<Longrightarrow> m s = (r, s') \<Longrightarrow> P s'"
  by (force simp: preserves_def)

lemma preserves_snd: "preserves P m \<Longrightarrow> P s \<Longrightarrow> P (snd (m s))"
  by (simp add: preserves_def)

lemma preserves_ret [preserves_intros]: "preserves P (ret a)"
  by (simp add: preserves_def)

lemma preserves_throw [preserves_intros]: "preserves P (throw e)"
  by (simp add: preserves_def)

lemma preserves_getS [preserves_intros]: "preserves P (getS f)"
  by (simp add: preserves_def)

lemma preserves_liftR [preserves_intros]: "preserves P (liftR r)"
  by (simp add: preserves_def)

lemma preserves_modS: "(\<And>s. P s \<Longrightarrow> P (f s)) \<Longrightarrow> preserves P (modS f)"
  by (simp add: preserves_def)

lemma preserves_bindX [preserves_intros]:
  "preserves P m \<Longrightarrow> (\<And>a. preserves P (f a)) \<Longrightarrow> preserves P (bindX m f)"
  by (fastforce simp: preserves_def bindX_def split: prod.splits sum.splits)

lemma preserves_thenX [preserves_intros]:
  "preserves P m \<Longrightarrow> preserves P n \<Longrightarrow> preserves P (thenX m n)"
  by (simp add: thenX_def preserves_bindX)

lemma preserves_whenX [preserves_intros]: "preserves P m \<Longrightarrow> preserves P (whenX b m)"
  by (simp add: whenX_def preserves_ret)

lemma preserves_if [preserves_intros]:
  "preserves P m \<Longrightarrow> preserves P n \<Longrightarrow> preserves P (if b then m else n)"
  by simp

lemma preserves_case_option [preserves_intros]:
  "preserves P m \<Longrightarrow> (\<And>x. preserves P (f x)) \<Longrightarrow>
     preserves P (case o' of None \<Rightarrow> m | Some x \<Rightarrow> f x)"
  by (simp split: option.split)

lemma preserves_forX [preserves_intros]:
  "(\<And>x. preserves P (f x)) \<Longrightarrow> preserves P (forX xs f)"
  by (induction xs) (simp_all add: preserves_intros)

section \<open>What a function has established when it returns\<close>

text \<open>\<open>returns Q m\<close>: whenever \<open>m\<close> returns, its result and the state it leaves satisfy \<open>Q\<close>.\<close>

definition returns :: "('a \<Rightarrow> 's \<Rightarrow> bool) \<Rightarrow> ('s, 'a) cxx \<Rightarrow> bool" where
  "returns Q m \<longleftrightarrow> (\<forall>s b s'. m s = (Inr b, s') \<longrightarrow> Q b s')"

lemma returnsD: "returns Q m \<Longrightarrow> m s = (Inr b, s') \<Longrightarrow> Q b s'"
  by (simp add: returns_def)

lemma returns_bindX: "(\<And>a. returns Q (f a)) \<Longrightarrow> returns Q (bindX m f)"
  by (auto simp: returns_def bindX_eq_Inr)

lemma returns_thenX: "returns Q n \<Longrightarrow> returns Q (thenX m n)"
  by (auto simp: returns_def thenX_eq_Inr)

lemma returns_if: "(b \<Longrightarrow> returns Q m) \<Longrightarrow> (\<not> b \<Longrightarrow> returns Q n) \<Longrightarrow> returns Q (if b then m else n)"
  by simp

lemma returns_case_option:
  "returns Q m \<Longrightarrow> (\<And>x. returns Q (f x)) \<Longrightarrow> returns Q (case o' of None \<Rightarrow> m | Some x \<Rightarrow> f x)"
  by (simp split: option.split)

lemma returns_ret: "(\<And>s. Q a s) \<Longrightarrow> returns Q (ret a)"
  by (simp add: returns_def)

lemma returns_after_modS: "(\<And>s. Q a (f s)) \<Longrightarrow> returns Q (thenX (modS f) (ret a))"
  by (simp add: returns_def)

lemma returns_use: "returns R m \<Longrightarrow> 
    (\<And>a s. R a s \<Longrightarrow> case f a s of (Inr b, s') \<Rightarrow> Q b s' | _ \<Rightarrow> True) \<Longrightarrow> returns Q (bindX m f)"
  by (fastforce simp: returns_def bindX_eq_Inr split: prod.splits sum.splits)

section \<open>Conversions of the language\<close>

text \<open>
  \<open>std::round\<close> rounds half away from zero; a conversion of a float to an integer type drops
  the fraction and is undefined when the value does not fit.
\<close>

definition std_round :: "real \<Rightarrow> real" where
  "std_round x = (if 0 \<le> x then of_int \<lfloor>x + 1/2\<rfloor> else - of_int \<lfloor>- x + 1/2\<rfloor>)"

definition trunc_real :: "real \<Rightarrow> int" where
  "trunc_real x = (if 0 \<le> x then \<lfloor>x\<rfloor> else - \<lfloor>- x\<rfloor>)"

definition float_to_uint :: "real \<Rightarrow> uint res" where
  "float_to_uint x =
     (let n = trunc_real x in
      if 0 \<le> n \<and> n < 2 ^ 32 then Inr (word_of_int n) else Inl (UB FloatConversion))"

definition float_to_int :: "real \<Rightarrow> int res" where
  "float_to_int x =
     (let n = trunc_real x in
      if - (2 ^ 31) \<le> n \<and> n < 2 ^ 31 then Inr n else Inl (UB FloatConversion))"

lemma trunc_real_of_nat [simp]: "trunc_real (of_nat n) = int n"
  by (simp add: trunc_real_def)

lemma trunc_real_of_int [simp]: "trunc_real (of_int n) = n"
  by (simp add: trunc_real_def)

lemma std_round_of_int [simp]: "std_round (of_int n) = of_int n"
proof -
  have "\<lfloor>real_of_int m + 1/2\<rfloor> = m" for m :: int
    by linarith
  from this [of n] this [of "- n"] show ?thesis
    by (simp add: std_round_def)
qed

lemma std_round_Ints: "std_round x \<in> \<int>"
  by (simp add: std_round_def)

lemma std_round_error: "\<bar>std_round x - x\<bar> \<le> 1/2"
  unfolding std_round_def by (auto simp: abs_if) linarith+

section \<open>Lists and lookups\<close>

lemma take_drop_append [simp]: "take n xs @ drop n xs @ ys = xs @ ys"
  by (simp flip: append_assoc)

definition nth_opt :: "'a list \<Rightarrow> nat \<Rightarrow> 'a option" where
  "nth_opt xs i = (if i < length xs then Some (xs ! i) else None)"

lemma nth_opt_None [simp]: "nth_opt xs i = None \<longleftrightarrow> length xs \<le> i"
  by (auto simp: nth_opt_def)

lemma nth_opt_Some: "nth_opt xs i = Some x \<longleftrightarrow> i < length xs \<and> xs ! i = x"
  by (auto simp: nth_opt_def)

lemma nth_opt_simps [simp]:
  "nth_opt [] i = None" "nth_opt (x # xs) 0 = Some x" "nth_opt (x # xs) (Suc i) = nth_opt xs i"
  by (simp_all add: nth_opt_def)

lemma nth_opt_append:
  "nth_opt (xs @ ys) i = (if i < length xs then nth_opt xs i else nth_opt ys (i - length xs))"
  by (auto simp: nth_opt_def nth_append)

definition remove_nth :: "nat \<Rightarrow> 'a list \<Rightarrow> 'a list" where
  "remove_nth i xs = take i xs @ drop (Suc i) xs"

lemma length_remove_nth [simp]: "i < length xs \<Longrightarrow> length (remove_nth i xs) = length xs - 1"
  by (simp add: remove_nth_def)

lemma remove_nth_Cons [simp]:
  "remove_nth 0 (x # xs) = xs" "remove_nth (Suc i) (x # xs) = x # remove_nth i xs"
  by (simp_all add: remove_nth_def)

lemma remove_nth_Nil_iff: "i < length xs \<Longrightarrow> remove_nth i xs = [] \<longleftrightarrow> length xs = 1"
  by (cases xs) (auto simp: remove_nth_def)

lemma set_remove_nth: "set (remove_nth i xs) \<subseteq> set xs"
  by (auto simp: remove_nth_def dest: in_set_takeD in_set_dropD)

text \<open>The number of elements as an \<open>unsigned int\<close>.\<close>

abbreviation size32 :: "'a list \<Rightarrow> uint" where
  "size32 xs \<equiv> of_nat (length xs)"

lemma unat_size32: "length xs < 2 ^ 32 \<Longrightarrow> unat (size32 xs) = length xs"
  by (simp add: unat_of_nat)

end
