(* ===== verification/External.thy ===== *)
theory External
  imports Prelude
begin

text \<open>
  The code the engine calls and that is not part of the repository: openFrameworks,
  \<open>nlohmann::json\<close> (the submodule behind \<open>ofJson\<close>), the AVFoundation video player and the
  operating system. None of it is defined here. Each library is a record of the functions
  the engine uses, and every definition of the model that calls one takes the record as an
  argument. What the engine relies on is stated below as predicates over such a record
  (\<open>clamp_doc\<close>, \<open>blend_doc\<close>, \<open>json_doc\<close>, \<open>player_doc\<close>); a theorem that needs one of them
  has it as a hypothesis.
\<close>

section \<open>openFrameworks and the operating system\<close>

text \<open>
  \<open>doesFileExist\<close> looks below the data folder and \<open>doesFileExist_abs\<close> at the path as it is;
  \<open>fstream_opens\<close> says whether opening a file for reading succeeds, \<open>image_loads\<close> whether an
  image loads, \<open>ofBufferToFile\<close> what writing a text to a path does to the files and whether it succeeds; the camera and Syphon fields are what the devices answer; the \<open>bundle\<close> fields are
  what the application bundle answers; the \<open>junk\<close> fields are what a variable that is read
  before it is written happens to hold.
\<close>

record of_api =
  ofClamp :: "real \<Rightarrow> real \<Rightarrow> real \<Rightarrow> real"
  target_is_osx :: bool
  getUserHomeDir :: string
  path_join :: "string \<Rightarrow> string \<Rightarrow> string"
  getEnclosingDirectory :: "string \<Rightarrow> string"
  getFileName :: "string \<Rightarrow> string"
  getBaseName :: "string \<Rightarrow> string"
  doesFileExist :: "string \<Rightarrow> bool"
  doesFileExist_abs :: "string \<Rightarrow> bool"
  doesDirectoryExist :: "string \<Rightarrow> bool"
  ofToDataPath :: "string \<Rightarrow> string"
  fstream_opens :: "string \<Rightarrow> bool"
  ofSystem :: "string \<Rightarrow> string"
  ofToString_uint :: "uint \<Rightarrow> string"
  ofToString_int :: "int \<Rightarrow> string"
  ofToString_ptr :: "addr \<Rightarrow> string"
  ofToFloat :: "string \<Rightarrow> real"
  ofStringReplace :: "string \<Rightarrow> string \<Rightarrow> string \<Rightarrow> string"
  ofBufferToFile :: "string \<Rightarrow> string \<Rightarrow> (string \<rightharpoonup> string) \<Rightarrow> bool \<times> (string \<rightharpoonup> string)"
  OF_BLENDMODE_DISABLED :: uint
  OF_BLENDMODE_ALPHA :: uint
  OF_BLENDMODE_ADD :: uint
  OF_BLENDMODE_SUBTRACT :: uint
  OF_BLENDMODE_MULTIPLY :: uint
  OF_BLENDMODE_SCREEN :: uint
  syphon_texture_allocated :: bool
  camera_names :: "string list"
  camera_frame_new :: bool
  image_loads :: "string \<Rightarrow> bool"
  junk_bool :: bool
  junk_int :: sint32
  junk_ull :: ulonglong
  bundle_path :: string
  bundle_vert :: "string option"
  bundle_frag :: "string option"

text \<open>\<open>ofClamp(value, min, max)\<close> returns the value limited to the range.\<close>

definition clamp_doc :: "of_api \<Rightarrow> bool" where
  "clamp_doc F \<longleftrightarrow>
     (\<forall>v lo hi. lo \<le> hi \<longrightarrow> ofClamp F v lo hi = (if v < lo then lo else if hi < v then hi else v))"

text \<open>The numbers of the blend modes.\<close>

definition blend_doc :: "of_api \<Rightarrow> bool" where
  "blend_doc F \<longleftrightarrow>
     OF_BLENDMODE_DISABLED F = 0 \<and> OF_BLENDMODE_ALPHA F = 1 \<and> OF_BLENDMODE_ADD F = 2 \<and>
     OF_BLENDMODE_SUBTRACT F = 3 \<and> OF_BLENDMODE_MULTIPLY F = 4 \<and> OF_BLENDMODE_SCREEN F = 5"

text \<open>\<open>ofStringReplace(input, search, replacement)\<close> replaces every occurrence, from the left.\<close>

definition replace_doc :: "of_api \<Rightarrow> bool" where
  "replace_doc F \<longleftrightarrow>
     (\<forall>search rest. search \<noteq> [] \<and> (\<forall>a b. rest \<noteq> a @ search @ b) \<longrightarrow>
        ofStringReplace F (search @ rest) search [] = rest)"

lemma ofClamp_range:
  assumes "clamp_doc F" "lo \<le> hi"
  shows "lo \<le> ofClamp F v lo hi" "ofClamp F v lo hi \<le> hi"
  using assms by (simp_all add: clamp_doc_def)

lemma ofClamp_id: "clamp_doc F \<Longrightarrow> lo \<le> v \<Longrightarrow> v \<le> hi \<Longrightarrow> ofClamp F v lo hi = v"
  by (auto simp: clamp_doc_def)

lemma ofClamp_eq:
  "clamp_doc F \<Longrightarrow> lo \<le> hi \<Longrightarrow> ofClamp F v lo hi = max lo (min v hi)"
  by (auto simp: clamp_doc_def max_def min_def)

lemma ofClamp_nat: "clamp_doc F \<Longrightarrow> ofClamp F (real a) 0 (real b) = real (min a b)"
  by (auto simp: ofClamp_eq)

lemma ofClamp_mono:
  "clamp_doc F \<Longrightarrow> lo \<le> hi \<Longrightarrow> v \<le> w \<Longrightarrow> ofClamp F v lo hi \<le> ofClamp F w lo hi"
  by (auto simp: ofClamp_eq)

section \<open>JSON values\<close>

text \<open>
  \<open>j_at\<close> is \<open>operator[]\<close> on a value the code reads (a missing key gives null, a value that is
  neither an object nor null throws); \<open>j_set\<close> and \<open>j_push\<close> are \<open>j[k] = v\<close> and \<open>push_back\<close> on
  the values the code builds; \<open>j_obj\<close> and \<open>j_arr\<close> are the initializer lists; \<open>j_braces\<close> is the
  \<open>{}\<close> of an initializer list; \<open>j_items\<close> is what a range-for visits; the \<open>j_get\<close> functions
  are \<open>get<T>()\<close> and throw on a value of another type.
\<close>

record 'j json_api =
  j_null :: 'j
  j_braces :: 'j
  j_at :: "'j \<Rightarrow> string \<Rightarrow> 'j res"
  j_set :: "'j \<Rightarrow> string \<Rightarrow> 'j \<Rightarrow> 'j"
  j_push :: "'j \<Rightarrow> 'j \<Rightarrow> 'j"
  j_obj :: "(string \<times> 'j) list \<Rightarrow> 'j"
  j_arr :: "'j list \<Rightarrow> 'j"
  j_items :: "'j \<Rightarrow> 'j list"
  is_number :: "'j \<Rightarrow> bool"
  is_string :: "'j \<Rightarrow> bool"
  is_array :: "'j \<Rightarrow> bool"
  is_object :: "'j \<Rightarrow> bool"
  j_empty :: "'j \<Rightarrow> bool"
  j_get_float :: "'j \<Rightarrow> real res"
  j_get_int :: "'j \<Rightarrow> sint32 res"
  j_get_uint :: "'j \<Rightarrow> uint res"
  j_get_string :: "'j \<Rightarrow> string res"
  j_float :: "real \<Rightarrow> 'j"
  j_uint :: "uint \<Rightarrow> 'j"
  j_int :: "sint32 \<Rightarrow> 'j"
  j_ull :: "ulonglong \<Rightarrow> 'j"
  j_bool :: "bool \<Rightarrow> 'j"
  j_string :: "string \<Rightarrow> 'j"
  j_parse :: "string \<Rightarrow> 'j res"
  j_dump :: "int \<Rightarrow> 'j \<Rightarrow> string"

definition json_index_doc :: "'j json_api \<Rightarrow> bool" where
  "json_index_doc J \<longleftrightarrow>
     (\<forall>k. j_at J (j_null J) k = Inr (j_null J)) \<and>
     (\<forall>kvs k. j_at J (j_obj J kvs) k =
        Inr (case map_of kvs k of None \<Rightarrow> j_null J | Some v \<Rightarrow> v)) \<and>
     (\<forall>j k v k'. is_object J j \<longrightarrow>
        j_at J (j_set J j k v) k' = (if k' = k then Inr v else j_at J j k')) \<and>
     (\<forall>k v k'. j_at J (j_set J (j_null J) k v) k' = Inr (if k' = k then v else j_null J)) \<and>
     (\<forall>j k. is_object J j \<longrightarrow> (\<exists>v. j_at J j k = Inr v))"

definition json_type_doc :: "'j json_api \<Rightarrow> bool" where
  "json_type_doc J \<longleftrightarrow>
     \<not> is_number J (j_null J) \<and> \<not> is_string J (j_null J) \<and>
     \<not> is_array J (j_null J) \<and> \<not> is_object J (j_null J) \<and>
     (\<forall>kvs. is_object J (j_obj J kvs)) \<and>
     (\<forall>j k v. is_object J j \<longrightarrow> is_object J (j_set J j k v)) \<and>
     (\<forall>k v. is_object J (j_set J (j_null J) k v)) \<and>
     (\<forall>x. is_number J (j_float J x)) \<and> (\<forall>n. is_number J (j_uint J n)) \<and>
     (\<forall>n. is_number J (j_int J n)) \<and> (\<forall>s. is_string J (j_string J s)) \<and>
     (\<forall>j. is_number J j \<longrightarrow>
        (\<exists>x. j_get_float J j = Inr x) \<and> (\<exists>n. j_get_int J j = Inr n) \<and>
        (\<exists>n. j_get_uint J j = Inr n)) \<and>
     (\<forall>j. is_string J j \<longrightarrow> (\<exists>s. j_get_string J j = Inr s))"

definition json_value_doc :: "'j json_api \<Rightarrow> bool" where
  "json_value_doc J \<longleftrightarrow>
     (\<forall>x. j_get_float J (j_float J x) = Inr x) \<and>
     (\<forall>n. j_get_int J (j_uint J n) = Inr n) \<and> (\<forall>n. j_get_int J (j_int J n) = Inr n) \<and>
     (\<forall>n. j_get_uint J (j_uint J n) = Inr n) \<and> (\<forall>n. j_get_uint J (j_int J n) = Inr n) \<and>
     (\<forall>s. j_get_string J (j_string J s) = Inr s)"

definition json_array_doc :: "'j json_api \<Rightarrow> bool" where
  "json_array_doc J \<longleftrightarrow>
     (\<forall>xs. is_array J (j_arr J xs)) \<and> (\<forall>xs. j_items J (j_arr J xs) = xs) \<and>
     j_items J (j_null J) = [] \<and>
     (\<forall>v. is_array J (j_push J (j_null J) v) \<and> j_items J (j_push J (j_null J) v) = [v]) \<and>
     (\<forall>j v. is_array J j \<longrightarrow>
        is_array J (j_push J j v) \<and> j_items J (j_push J j v) = j_items J j @ [v])"

definition json_doc :: "'j json_api \<Rightarrow> bool" where
  "json_doc J \<longleftrightarrow>
     json_index_doc J \<and> json_type_doc J \<and> json_value_doc J \<and> json_array_doc J"

lemma json_at [simp]:
  assumes "json_doc J"
  shows "j_at J (j_null J) k = Inr (j_null J)"
    and "j_at J (j_obj J kvs) k = Inr (case map_of kvs k of None \<Rightarrow> j_null J | Some v \<Rightarrow> v)"
    and "is_object J j \<Longrightarrow> j_at J (j_set J j k v) k' = (if k' = k then Inr v else j_at J j k')"
    and "j_at J (j_set J (j_null J) k v) k' = Inr (if k' = k then v else j_null J)"
  using assms unfolding json_doc_def json_index_doc_def by simp_all

lemma json_at_object:
  "json_doc J \<Longrightarrow> is_object J j \<Longrightarrow> \<exists>v. j_at J j k = Inr v"
  unfolding json_doc_def json_index_doc_def by blast

lemma json_types [simp]:
  assumes "json_doc J"
  shows "\<not> is_number J (j_null J)" "\<not> is_string J (j_null J)"
    and "\<not> is_array J (j_null J)" "\<not> is_object J (j_null J)"
    and "is_object J (j_obj J kvs)" "is_object J j \<Longrightarrow> is_object J (j_set J j k v)"
    and "is_object J (j_set J (j_null J) k v)"
    and "is_number J (j_float J x)" "is_number J (j_uint J n)"
    and "is_number J (j_int J m)" "is_string J (j_string J s)"
  using assms unfolding json_doc_def json_type_doc_def by blast+

lemma json_number_gets:
  assumes "json_doc J" "is_number J j"
  shows "\<exists>x. j_get_float J j = Inr x" "\<exists>n. j_get_int J j = Inr n" "\<exists>n. j_get_uint J j = Inr n"
  using assms unfolding json_doc_def json_type_doc_def by blast+

lemma json_string_get:
  "json_doc J \<Longrightarrow> is_string J j \<Longrightarrow> \<exists>s. j_get_string J j = Inr s"
  unfolding json_doc_def json_type_doc_def by blast

lemma json_values [simp]:
  assumes "json_doc J"
  shows "j_get_float J (j_float J x) = Inr x" "j_get_int J (j_uint J n) = Inr n"
    and "j_get_int J (j_int J n) = Inr n" "j_get_uint J (j_uint J n) = Inr n"
    and "j_get_uint J (j_int J n) = Inr n" "j_get_string J (j_string J s) = Inr s"
  using assms unfolding json_doc_def json_value_doc_def by blast+

lemma json_arrays [simp]:
  assumes "json_doc J"
  shows "is_array J (j_arr J xs)" "j_items J (j_arr J xs) = xs" "j_items J (j_null J) = []"
    and "is_array J (j_push J (j_null J) v)" "j_items J (j_push J (j_null J) v) = [v]"
    and "is_array J j \<Longrightarrow> is_array J (j_push J j v)"
    and "is_array J j \<Longrightarrow> j_items J (j_push J j v) = j_items J j @ [v]"
  using assms unfolding json_doc_def json_array_doc_def by blast+

text \<open>A state array is built by pushing onto a null value: it stays null when there is nothing.\<close>

primrec j_push_all :: "'j json_api \<Rightarrow> 'j \<Rightarrow> 'j list \<Rightarrow> 'j" where
  "j_push_all J j [] = j"
| "j_push_all J j (x # xs) = j_push_all J (j_push J j x) xs"

lemma j_push_all_array:
  "json_doc J \<Longrightarrow> is_array J j \<Longrightarrow>
     is_array J (j_push_all J j xs) \<and> j_items J (j_push_all J j xs) = j_items J j @ xs"
  by (induction xs arbitrary: j) auto

lemma j_items_push_all [simp]:
  "json_doc J \<Longrightarrow> j_items J (j_push_all J (j_null J) xs) = xs"
  by (cases xs) (auto simp: j_push_all_array)

lemma is_array_push_all [simp]:
  "json_doc J \<Longrightarrow> is_array J (j_push_all J (j_null J) xs) \<longleftrightarrow> xs \<noteq> []"
  by (cases xs) (auto simp: j_push_all_array)

text \<open>Parsing is described separately.\<close>

lemma json_doc_parse: "json_doc (J\<lparr>j_parse := p\<rparr>) = json_doc J"
proof -
  have "json_index_doc (J\<lparr>j_parse := p\<rparr>) = json_index_doc J" unfolding json_index_doc_def by (simp cong: option.case_cong)
  moreover have "json_type_doc (J\<lparr>j_parse := p\<rparr>) = json_type_doc J" unfolding json_type_doc_def by simp
  moreover have "json_value_doc (J\<lparr>j_parse := p\<rparr>) = json_value_doc J" unfolding json_value_doc_def by simp
  moreover have "json_array_doc (J\<lparr>j_parse := p\<rparr>) = json_array_doc J" unfolding json_array_doc_def by simp
  ultimately show ?thesis by (simp only: json_doc_def)
qed

section \<open>The video player\<close>

datatype ofLoopType = OF_LOOP_NONE | OF_LOOP_PALINDROME | OF_LOOP_NORMAL

record 'v player_api =
  v_new :: 'v
  v_load :: "string \<Rightarrow> 'v \<Rightarrow> bool \<times> 'v"
  v_close :: "'v \<Rightarrow> 'v"
  v_play :: "'v \<Rightarrow> 'v"
  v_stop :: "'v \<Rightarrow> 'v"
  v_firstFrame :: "'v \<Rightarrow> 'v"
  v_update :: "'v \<Rightarrow> 'v"
  v_setFrame :: "int \<Rightarrow> 'v \<Rightarrow> 'v"
  v_setPosition :: "real \<Rightarrow> 'v \<Rightarrow> 'v"
  v_setSpeed :: "real \<Rightarrow> 'v \<Rightarrow> 'v"
  v_setLoopState :: "ofLoopType \<Rightarrow> 'v \<Rightarrow> 'v"
  v_isLoaded :: "'v \<Rightarrow> bool"
  v_isPlaying :: "'v \<Rightarrow> bool"
  v_getSpeed :: "'v \<Rightarrow> real"
  v_getCurrentFrame :: "'v \<Rightarrow> int"
  v_getTotalNumFrames :: "'v \<Rightarrow> int"

definition player_speed_doc :: "'v player_api \<Rightarrow> bool" where
  "player_speed_doc V \<longleftrightarrow>
     (\<forall>s v. v_getSpeed V (v_setSpeed V s v) = s) \<and>
     (\<forall>p v. v_getSpeed V (v_setPosition V p v) = v_getSpeed V v) \<and>
     (\<forall>l v. v_getSpeed V (v_setLoopState V l v) = v_getSpeed V v) \<and>
     (\<forall>v. v_getSpeed V (v_update V v) = v_getSpeed V v)"

definition player_load_doc :: "'v player_api \<Rightarrow> bool" where
  "player_load_doc V \<longleftrightarrow>
     \<not> v_isLoaded V (v_new V) \<and> (\<forall>v. \<not> v_isLoaded V (v_close V v)) \<and>
     (\<forall>v. v_isLoaded V (v_play V v) = v_isLoaded V v) \<and>
     (\<forall>v. v_isLoaded V (v_stop V v) = v_isLoaded V v) \<and>
     (\<forall>v. v_isLoaded V v \<longrightarrow> v_isPlaying V (v_play V v)) \<and>
     (\<forall>v. \<not> v_isPlaying V (v_stop V v))"

definition player_open_doc :: "'v player_api \<Rightarrow> bool" where
  "player_open_doc V \<longleftrightarrow> (\<forall>p v v'. v_load V p v = (True, v') \<longrightarrow> v_isLoaded V v')"

definition player_doc :: "'v player_api \<Rightarrow> bool" where
  "player_doc V \<longleftrightarrow> player_speed_doc V \<and> player_load_doc V \<and> player_open_doc V"

lemma player_speed [simp]:
  assumes "player_doc V"
  shows "v_getSpeed V (v_setSpeed V s v) = s"
    and "v_getSpeed V (v_setPosition V p v) = v_getSpeed V v"
    and "v_getSpeed V (v_setLoopState V l v) = v_getSpeed V v"
    and "v_getSpeed V (v_update V v) = v_getSpeed V v"
  using assms unfolding player_doc_def player_speed_doc_def by simp_all

lemma player_loaded [simp]:
  assumes "player_doc V"
  shows "\<not> v_isLoaded V (v_new V)" "\<not> v_isLoaded V (v_close V v)"
    and "v_isLoaded V (v_play V v) = v_isLoaded V v"
    and "v_isLoaded V (v_stop V v) = v_isLoaded V v"
    and "v_isLoaded V v \<Longrightarrow> v_isPlaying V (v_play V v)"
    and "\<not> v_isPlaying V (v_stop V v)"
  using assms unfolding player_doc_def player_load_doc_def by simp_all

lemma player_load: "player_doc V \<Longrightarrow> v_load V p v = (True, v') \<Longrightarrow> v_isLoaded V v'"
  unfolding player_doc_def player_open_doc_def by blast

end
