(* ===== verification/External_Instances.thy ===== *)
theory External_Instances
  imports External
begin

text \<open>
  One concrete instance of each library record, with the documented behaviour. Nothing in
  the model uses them: they show that the hypotheses of the theorems can hold, and the
  witnesses evaluate the model on them.
\<close>

section \<open>openFrameworks\<close>

definition ex_F :: of_api where
  "ex_F =
     \<lparr>ofClamp = (\<lambda>v lo hi. if v < lo then lo else if hi < v then hi else v),
      target_is_osx = True,
      getUserHomeDir = ''/Users/vj'',
      path_join = (\<lambda>a b. a @ ''/'' @ b),
      getEnclosingDirectory = (\<lambda>p. ''/sets''),
      getFileName = (\<lambda>p. p),
      getBaseName = (\<lambda>p. p),
      doesFileExist = (\<lambda>p. True),
      doesFileExist_abs = (\<lambda>p. p = ''/sets/a.mov''),
      doesDirectoryExist = (\<lambda>p. True),
      ofToDataPath = (\<lambda>p. p),
      fstream_opens = (\<lambda>p. p = ''/sets/a.mov''),
      ofSystem = (\<lambda>c. ''MD5 (x) = 0123456789abcdef''),
      ofToString_uint = (\<lambda>n. ''n''),
      ofToString_int = (\<lambda>n. ''n''),
      ofToString_ptr = (\<lambda>a. ''p''),
      ofToFloat = (\<lambda>s. 0),
      ofStringReplace = (\<lambda>s search r. if take (length search) s = search then r @ drop (length search) s else s),
      ofBufferToFile = (\<lambda>p t fs. (True, fs(p \<mapsto> t))),
      OF_BLENDMODE_DISABLED = 0, OF_BLENDMODE_ALPHA = 1, OF_BLENDMODE_ADD = 2,
      OF_BLENDMODE_SUBTRACT = 3, OF_BLENDMODE_MULTIPLY = 4, OF_BLENDMODE_SCREEN = 5,
      syphon_texture_allocated = True,
      camera_names = [''FaceTime''],
      camera_frame_new = True,
      image_loads = (\<lambda>p. True),
      junk_bool = False, junk_int = 0, junk_ull = 0,
      bundle_path = ''/Applications/Arbutus.app'',
      bundle_vert = Some ''layerShader.vert'',
      bundle_frag = Some ''layerShader.frag''\<rparr>"

lemma clamp_doc_ex_F [simp]: "clamp_doc ex_F"
  by (simp add: clamp_doc_def ex_F_def)

lemma blend_doc_ex_F [simp]: "blend_doc ex_F"
  by (simp add: blend_doc_def ex_F_def)

lemma replace_doc_ex_F [simp]: "replace_doc ex_F"
  by (simp add: replace_doc_def ex_F_def)

section \<open>JSON\<close>

datatype jval =
    JNull
  | JBool bool
  | JInt int
  | JFloat real
  | JStr string
  | JArr "jval list"
  | JObj "(string \<times> jval) list"

fun jv_at :: "jval \<Rightarrow> string \<Rightarrow> jval res" where
  "jv_at JNull k = Inr JNull"
| "jv_at (JObj kvs) k = Inr (case map_of kvs k of None \<Rightarrow> JNull | Some v \<Rightarrow> v)"
| "jv_at _ k = Inl (StdException ''type_error'')"

fun jv_set :: "jval \<Rightarrow> string \<Rightarrow> jval \<Rightarrow> jval" where
  "jv_set JNull k v = JObj [(k, v)]"
| "jv_set (JObj kvs) k v = JObj ((k, v) # kvs)"
| "jv_set j k v = j"

fun jv_push :: "jval \<Rightarrow> jval \<Rightarrow> jval" where
  "jv_push JNull v = JArr [v]"
| "jv_push (JArr xs) v = JArr (xs @ [v])"
| "jv_push j v = j"

fun jv_items :: "jval \<Rightarrow> jval list" where
  "jv_items JNull = []"
| "jv_items (JArr xs) = xs"
| "jv_items (JObj kvs) = map snd kvs"
| "jv_items j = [j]"

fun jv_is_number :: "jval \<Rightarrow> bool" where
  "jv_is_number (JInt _) = True"
| "jv_is_number (JFloat _) = True"
| "jv_is_number _ = False"

fun jv_int :: "jval \<Rightarrow> uint res" where
  "jv_int (JInt n) = Inr (word_of_int n)"
| "jv_int (JFloat x) = Inr (word_of_int (trunc_real x))"
| "jv_int _ = Inl (StdException ''type_error'')"

fun jv_float :: "jval \<Rightarrow> real res" where
  "jv_float (JInt n) = Inr (of_int n)"
| "jv_float (JFloat x) = Inr x"
| "jv_float _ = Inl (StdException ''type_error'')"

fun jv_string :: "jval \<Rightarrow> string res" where
  "jv_string (JStr s) = Inr s"
| "jv_string _ = Inl (StdException ''type_error'')"

definition ex_J :: "jval json_api" where
  "ex_J =
     \<lparr>j_null = JNull, j_braces = JNull, j_at = jv_at, j_set = jv_set, j_push = jv_push,
      j_obj = JObj, j_arr = JArr, j_items = jv_items, is_number = jv_is_number,
      is_string = (\<lambda>j. case j of JStr _ \<Rightarrow> True | _ \<Rightarrow> False),
      is_array = (\<lambda>j. case j of JArr _ \<Rightarrow> True | _ \<Rightarrow> False),
      is_object = (\<lambda>j. case j of JObj _ \<Rightarrow> True | _ \<Rightarrow> False),
      j_empty = (\<lambda>j. jv_items j = []),
      j_get_float = jv_float, j_get_int = jv_int, j_get_uint = jv_int, j_get_string = jv_string,
      j_float = JFloat, j_uint = (\<lambda>n. JInt (uint n)), j_int = (\<lambda>n. JInt (sint n)),
      j_ull = (\<lambda>n. JInt (uint n)), j_bool = JBool, j_string = JStr,
      j_parse = (\<lambda>s. Inl (StdException ''parse_error'')), j_dump = (\<lambda>n j. ''json'')\<rparr>"

lemma ex_J_sel [simp]:
  "j_null ex_J = JNull" "j_at ex_J = jv_at" "j_set ex_J = jv_set" "j_push ex_J = jv_push"
  "j_obj ex_J = JObj" "j_arr ex_J = JArr" "j_items ex_J = jv_items"
  "is_number ex_J = jv_is_number" "j_get_float ex_J = jv_float" "j_get_int ex_J = jv_int"
  "j_get_uint ex_J = jv_int" "j_get_string ex_J = jv_string" "j_float ex_J = JFloat"
  "j_uint ex_J = (\<lambda>n. JInt (uint n))" "j_int ex_J = (\<lambda>n. JInt (sint n))" "j_string ex_J = JStr"
  "is_string ex_J = (\<lambda>j. case j of JStr _ \<Rightarrow> True | _ \<Rightarrow> False)"
  "is_array ex_J = (\<lambda>j. case j of JArr _ \<Rightarrow> True | _ \<Rightarrow> False)"
  "is_object ex_J = (\<lambda>j. case j of JObj _ \<Rightarrow> True | _ \<Rightarrow> False)"
  "j_bool ex_J = JBool" "j_ull ex_J = (\<lambda>n. JInt (uint n))"
  by (simp_all add: ex_J_def)

lemma json_doc_ex_J [simp]: "json_doc ex_J"
proof -
  have "json_index_doc ex_J"
    by (auto simp: json_index_doc_def split: jval.splits option.split)
  moreover have "json_type_doc ex_J"
    by (auto simp: json_type_doc_def split: jval.splits elim: jv_is_number.elims)
  moreover have "json_value_doc ex_J"
    by (simp add: json_value_doc_def)
  moreover have "json_array_doc ex_J"
    by (auto simp: json_array_doc_def split: jval.splits)
  ultimately show ?thesis by (simp add: json_doc_def)
qed

section \<open>The video player\<close>

record ex_player =
  ep_loaded :: bool
  ep_playing :: bool
  ep_speed :: real
  ep_frame :: int

definition ex_V :: "ex_player player_api" where
  "ex_V =
     \<lparr>v_new = \<lparr>ep_loaded = False, ep_playing = False, ep_speed = 1, ep_frame = 0\<rparr>,
      v_load = (\<lambda>p v. (True, v\<lparr>ep_loaded := True, ep_playing := False\<rparr>)),
      v_close = (\<lambda>v. v\<lparr>ep_loaded := False, ep_playing := False\<rparr>),
      v_play = (\<lambda>v. v\<lparr>ep_playing := ep_loaded v\<rparr>),
      v_stop = (\<lambda>v. v\<lparr>ep_playing := False\<rparr>),
      v_firstFrame = (\<lambda>v. v\<lparr>ep_frame := 0\<rparr>),
      v_update = (\<lambda>v. v),
      v_setFrame = (\<lambda>n v. v\<lparr>ep_frame := n\<rparr>),
      v_setPosition = (\<lambda>x v. v),
      v_setSpeed = (\<lambda>x v. v\<lparr>ep_speed := x\<rparr>),
      v_setLoopState = (\<lambda>l v. v),
      v_isLoaded = ep_loaded, v_isPlaying = ep_playing, v_getSpeed = ep_speed,
      v_getCurrentFrame = ep_frame, v_getTotalNumFrames = (\<lambda>v. 100)\<rparr>"

lemma player_doc_ex_V [simp]: "player_doc ex_V"
  by (simp add: player_doc_def player_speed_doc_def player_load_doc_def player_open_doc_def ex_V_def)

end
