(* ===== verification/Utils.thy ===== *)
theory Utils
  imports External_Instances
begin

text \<open>
  \<open>Misc/Utils\<close>: the string hash behind every \<open>switch\<close> over names (\<open>str2int\<close>), the \<open>md5\<close>
  helper, rounding to a number of decimals, and the tags of the full-state description.
\<close>

section \<open>str2int\<close>

text \<open>
  \<open>!str[h] ? 5381 : (str2int(str, h+1) * 33) ^ str[h]\<close> over the C string: it ends at the
  first NUL character, and a \<open>char\<close> is signed, so it is sign-extended to the word.
\<close>

unbundle bit_operations_syntax

definition char_to_uint :: "char \<Rightarrow> uint" where
  "char_to_uint c = signed_take_bit 7 (of_char c)"

fun str2int :: "string \<Rightarrow> uint" where
  "str2int [] = 5381"
| "str2int (c # cs) =
     (if of_char c = (0 :: nat) then 5381 else (str2int cs * 33) XOR char_to_uint c)"

lemma str2int_stops_at_NUL: "of_char c = (0 :: nat) \<Longrightarrow> str2int (xs @ c # ys) = str2int xs"
  by (induction xs) simp_all

text \<open>
  The hashes of the names the engine switches over. They are pairwise different numbers, so
  a \<open>switch\<close> over these hashes selects the case of the name.
\<close>

named_theorems label_hash

lemma str2int_labels [label_hash]:
  "str2int ''alpha'' = 170104145"
  "str2int ''red'' = 193404534"
  "str2int ''green'' = 180575678"
  "str2int ''blue'' = 2087430971"
  "str2int ''brightness'' = 189287532"
  "str2int ''contrast'' = 1982456263"
  "str2int ''saturation'' = 2793039833"
  "str2int ''zoomX'' = 241404266"
  "str2int ''zoomY'' = 233533931"
  "str2int ''centerX'' = 910396566"
  "str2int ''centerY'' = 704137431"
  "str2int ''percentagePlayed'' = 3645649944"
  "str2int ''startPercentage'' = 4063059005"
  "str2int ''endPercentage'' = 2910442802"
  "str2int ''effects_drywet'' = 1726340951"
  "str2int ''direction'' = 863746208"
  "str2int ''loopMode'' = 1518793306"
  "str2int ''triggerMode'' = 1046303134"
  "str2int ''blurH'' = 223574308"
  "str2int ''blurV'' = 224844218"
  "str2int ''Alpha'' = 170104177"
  "str2int ''Brightness'' = 189287500"
  "str2int ''Contrast'' = 1982456295"
  "str2int ''Saturation'' = 2793039865"
  "str2int ''Red'' = 193404502"
  "str2int ''Green'' = 180575646"
  "str2int ''Blue'' = 2087430939"
  "str2int ''Blur'' = 2088286060"
  "str2int ''Start'' = 182273573"
  "str2int ''End'' = 193404714"
  "str2int ''Played'' = 1122004928"
  "str2int ''Direction'' = 863746176"
  "str2int ''ping'' = 2087627861"
  "str2int ''getState'' = 266195620"
  "str2int ''setState'' = 266195632"
  "str2int ''getFullState'' = 3226765847"
  "str2int ''setLayerControl'' = 3466579907"
  "str2int ''updateState'' = 1951408483"
  "str2int ''Horizontal Blur'' = 2273838802"
  "str2int ''Vertical Blur'' = 672361086"
  "str2int ''Zoom X'' = 3612354826"
  "str2int ''Zoom Y'' = 3497316459"
  "str2int ''Center X'' = 3973795190"
  "str2int ''Center Y'' = 3025323799"
  "str2int ''Loop Mode'' = 2776329690"
  "str2int ''Layer Alpha'' = 3218084690"
  "str2int ''Layer Brightness'' = 3400201071"
  "str2int ''Layer Contrast'' = 1600578116"
  "str2int ''Layer Saturation'' = 4016859098"
  "str2int ''Layer Red'' = 3334545141"
  "str2int ''Layer Green'' = 2266329021"
  "str2int ''Layer Blue'' = 3687539128"
  "str2int ''Layer Blur'' = 94166351"
  "str2int ''Layer Horizontal Blur'' = 1393153905"
  "str2int ''Layer Vertical Blur'' = 3699731677"
  "str2int ''Visual Alpha'' = 3976854341"
  "str2int ''Visual Brightness'' = 3816353816"
  "str2int ''Visual Contrast'' = 1045780627"
  "str2int ''Visual Saturation'' = 3941014733"
  "str2int ''Visual Red'' = 3378587202"
  "str2int ''Visual Green'' = 2164927626"
  "str2int ''Visual Blue'' = 2123529519"
  "str2int ''Visual Zoom X'' = 710954142"
  "str2int ''Visual Zoom Y'' = 3565986975"
  "str2int ''Visual Center X'' = 1414502498"
  "str2int ''Visual Center Y'' = 2173201315"
  "str2int ''Visual Start'' = 1158679697"
  "str2int ''Visual End'' = 3808184254"
  "str2int ''Visual Played'' = 3858207508"
  "str2int ''Visual Loop Mode'' = 952808270"
  "str2int ''Visual Direction'' = 2427819220"
  by (simp_all add: char_to_uint_def)

declare str2int.simps [simp del]

section \<open>md5\<close>

text \<open>
  The digest is what the command \<open>md5\<close> prints, less the last two characters;
  \<open>erase\<close> throws \<open>std::out_of_range\<close> on shorter output, and the handler returns the empty
  string.
\<close>

definition md5 :: "of_api \<Rightarrow> string \<Rightarrow> string" where
  "md5 F message =
     (let result = ofSystem F (''md5 -q -s '' @ message)
      in if length result < 2 then [] else take (length result - 2) result)"

lemma md5_drops_two:
  "2 \<le> length (ofSystem F (''md5 -q -s '' @ m)) \<Longrightarrow>
     length (md5 F m) = length (ofSystem F (''md5 -q -s '' @ m)) - 2"
  by (simp add: md5_def Let_def)

section \<open>roundWithPrecision\<close>

definition pow10 :: "int \<Rightarrow> real" where
  "pow10 p = (if 0 \<le> p then 10 ^ nat p else 1 / 10 ^ nat (- p))"

definition roundWithPrecision :: "real \<Rightarrow> int \<Rightarrow> real res" where
  "roundWithPrecision x precision =
     bindR (float_to_uint (pow10 precision)) (\<lambda>factor.
     bindR (float_to_int (std_round (x * real (unat factor)))) (\<lambda>n.
     if factor = 0 then Inl (UB DivisionByZero) else Inr (of_int n / real (unat factor))))"

lemma float_to_uint_small:
  "0 \<le> n \<Longrightarrow> n < 2 ^ 32 \<Longrightarrow> float_to_uint (real_of_int n) = Inr (word_of_int n)"
  by (simp add: float_to_uint_def)

lemma float_to_int_of_int:
  "- (2 ^ 31) \<le> n \<Longrightarrow> n < 2 ^ 31 \<Longrightarrow> float_to_int (real_of_int n) = Inr n"
  by (simp add: float_to_int_def)

lemma float_to_int_Inr: "float_to_int x = Inr n \<Longrightarrow> n = trunc_real x"
  by (auto simp: float_to_int_def Let_def split: if_splits)

lemma factor_2: "float_to_uint (pow10 2) = Inr 100"
  using float_to_uint_small [of 100] by (simp add: pow10_def)

lemma roundWithPrecision_2:
  "roundWithPrecision x 2 =
     bindR (float_to_int (std_round (x * 100))) (\<lambda>n. Inr (of_int n / 100))"
  by (simp add: roundWithPrecision_def factor_2)

lemma trunc_std_round: "of_int (trunc_real (std_round x)) = std_round x"
  using std_round_Ints [of x] by (auto elim!: Ints_cases)

lemma roundWithPrecision_2_Inr:
  "roundWithPrecision x 2 = Inr y \<Longrightarrow> y = std_round (x * 100) / 100"
  by (cases "float_to_int (std_round (x * 100))")
    (auto simp: roundWithPrecision_2 trunc_std_round dest: float_to_int_Inr)

lemma roundWithPrecision_2_error:
  assumes "roundWithPrecision x 2 = Inr y"
  shows "\<bar>y - x\<bar> \<le> 1 / 200"
  using std_round_error [of "x * 100"] roundWithPrecision_2_Inr [OF assms]
  by (simp add: abs_if field_simps split: if_splits)

lemma roundWithPrecision_2_defined:
  assumes "\<bar>x\<bar> \<le> 20000000"
  shows "roundWithPrecision x 2 = Inr (std_round (x * 100) / 100)"
proof -
  obtain n where n: "std_round (x * 100) = of_int n"
    using std_round_Ints [of "x * 100"] by (auto elim: Ints_cases)
  have "\<bar>std_round (x * 100)\<bar> \<le> 2000000001"
    using std_round_error [of "x * 100"] assms by linarith
  with n have "\<bar>n\<bar> \<le> 2000000001" by linarith
  then have "- (2 ^ 31) \<le> n" "n < 2 ^ 31" by simp_all
  then have "float_to_int (std_round (x * 100)) = Inr n"
    by (simp add: n float_to_int_of_int)
  with n show ?thesis by (simp add: roundWithPrecision_2)
qed

lemma roundWithPrecision_2_idem:
  assumes "roundWithPrecision x 2 = Inr y"
  shows "roundWithPrecision y 2 = Inr y"
proof -
  obtain n where n: "float_to_int (std_round (x * 100)) = Inr n" and y: "y = of_int n / 100"
    using assms by (cases "float_to_int (std_round (x * 100))") (auto simp: roundWithPrecision_2)
  have "- (2 ^ 31) \<le> n \<and> n < 2 ^ 31"
    using n by (auto simp: float_to_int_def Let_def split: if_splits)
  then show ?thesis by (simp add: roundWithPrecision_2 y float_to_int_of_int)
qed

section \<open>State types\<close>

datatype StateType =
    StateType_Invalid
  | StateType_Integer
  | StateType_Float
  | StateType_String
  | StateType_ButtonGroup
  | StateType_ToggleButtonGroup

primrec StateType_num :: "StateType \<Rightarrow> sint32" where
  "StateType_num StateType_Invalid = 0"
| "StateType_num StateType_Integer = 1"
| "StateType_num StateType_Float = 2"
| "StateType_num StateType_String = 3"
| "StateType_num StateType_ButtonGroup = 4"
| "StateType_num StateType_ToggleButtonGroup = 5"

fun contains :: "string \<Rightarrow> string \<Rightarrow> bool" where
  "contains [] pat = (pat = [])"
| "contains (c # cs) pat = (take (length pat) (c # cs) = pat \<or> contains cs pat)"

definition getStateTypeForTypeidName :: "string \<Rightarrow> StateType" where
  "getStateTypeForTypeidName typeidName =
     (if typeidName = ''f'' then StateType_Float
      else if typeidName = ''j'' then StateType_Integer
      else if contains typeidName ''basic_string'' then StateType_String
      else StateType_Invalid)"

text \<open>The names \<open>typeid\<close> gives the types of the fields on the platform the engine is built for.\<close>

abbreviation typeid_float :: string where "typeid_float \<equiv> ''f''"
abbreviation typeid_uint :: string where "typeid_uint \<equiv> ''j''"
abbreviation typeid_string :: string where
  "typeid_string \<equiv> ''NSt3__112basic_stringIcNS_11char_traitsIcEENS_9allocatorIcEEEE''"

lemma getStateType_float [simp]: "getStateTypeForTypeidName typeid_float = StateType_Float"
  by (simp add: getStateTypeForTypeidName_def)

lemma getStateType_uint [simp]: "getStateTypeForTypeidName typeid_uint = StateType_Integer"
  by (simp add: getStateTypeForTypeidName_def)

lemma getStateType_string [simp]: "getStateTypeForTypeidName typeid_string = StateType_String"
  by (simp add: getStateTypeForTypeidName_def)

end
