(* ===== verification/Properties.thy ===== *)
theory Properties
  imports Utils
begin

text \<open>
  \<open>Properties/Properties\<close>: the base class of the layer and visual-instance properties. The
  class is an extensible record, so that its member functions apply to the derived classes
  as they do in the code; a getter that only returns a field is the field itself.
\<close>

section \<open>Limits\<close>

record floatLimits =
  fmin :: real
  fmax :: real

type_synonym limits = "string \<rightharpoonup> floatLimits"

text \<open>
  \<open>std::map::insert\<close> keeps an entry that is there; \<open>operator[]\<close> gives a zero entry where
  there is none.
\<close>

definition map_insert :: "limits \<Rightarrow> string \<Rightarrow> real \<Rightarrow> real \<Rightarrow> limits" where
  "map_insert m k lo hi =
     (case m k of None \<Rightarrow> m(k \<mapsto> \<lparr>fmin = lo, fmax = hi\<rparr>) | Some _ \<Rightarrow> m)"

definition map_index :: "limits \<Rightarrow> string \<Rightarrow> floatLimits" where
  "map_index m k = (case m k of None \<Rightarrow> \<lparr>fmin = 0, fmax = 0\<rparr> | Some l \<Rightarrow> l)"

lemma map_index_insert:
  "map_index (map_insert m k lo hi) k' =
     (if k' = k \<and> m k = None then \<lparr>fmin = lo, fmax = hi\<rparr> else map_index m k')"
  by (auto simp: map_index_def map_insert_def split: option.splits)

lemma map_insert_None [simp]: "map_insert m k lo hi k' = None \<longleftrightarrow> m k' = None \<and> k' \<noteq> k"
  by (auto simp: map_insert_def split: option.splits)

section \<open>The class\<close>

record Properties =
  name :: string
  alpha :: real
  red :: real
  green :: real
  blue :: real
  brightness :: real
  contrast :: real
  saturation :: real
  floatPropertiesLimits :: limits

definition Properties_setLimits :: "'a Properties_scheme \<Rightarrow> 'a Properties_scheme" where
  "Properties_setLimits p =
     (let m = floatPropertiesLimits p;
          m = map_insert m ''alpha'' 0 1;
          m = map_insert m ''red'' (-1) 1;
          m = map_insert m ''green'' (-1) 1;
          m = map_insert m ''blue'' (-1) 1;
          m = map_insert m ''brightness'' 0 2;
          m = map_insert m ''contrast'' 0 2;
          m = map_insert m ''saturation'' 0 2
      in p\<lparr>floatPropertiesLimits := m\<rparr>)"

definition Properties_reset :: "'a Properties_scheme \<Rightarrow> 'a Properties_scheme" where
  "Properties_reset p =
     p\<lparr>alpha := 1, red := 0, green := 0, blue := 0,
       brightness := 1, contrast := 1, saturation := 1\<rparr>"

text \<open>The constructor, on an object whose string is empty and whose map has no entries.\<close>

definition Properties_ctor :: "'a Properties_scheme \<Rightarrow> 'a Properties_scheme" where
  "Properties_ctor p =
     Properties_reset (Properties_setLimits (p\<lparr>name := [], floatPropertiesLimits := Map.empty\<rparr>))"

definition setName :: "string \<Rightarrow> 'a Properties_scheme \<Rightarrow> 'a Properties_scheme" where
  "setName s p = p\<lparr>name := s\<rparr>"

definition setAlpha :: "of_api \<Rightarrow> real \<Rightarrow> 'a Properties_scheme \<Rightarrow> 'a Properties_scheme" where
  "setAlpha F v p =
     (let l = map_index (floatPropertiesLimits p) ''alpha''
      in p\<lparr>alpha := ofClamp F v (fmin l) (fmax l)\<rparr>)"

definition setRed :: "of_api \<Rightarrow> real \<Rightarrow> 'a Properties_scheme \<Rightarrow> 'a Properties_scheme" where
  "setRed F v p =
     (let l = map_index (floatPropertiesLimits p) ''red''
      in p\<lparr>red := ofClamp F v (fmin l) (fmax l)\<rparr>)"

definition setGreen :: "of_api \<Rightarrow> real \<Rightarrow> 'a Properties_scheme \<Rightarrow> 'a Properties_scheme" where
  "setGreen F v p =
     (let l = map_index (floatPropertiesLimits p) ''green''
      in p\<lparr>green := ofClamp F v (fmin l) (fmax l)\<rparr>)"

definition setBlue :: "of_api \<Rightarrow> real \<Rightarrow> 'a Properties_scheme \<Rightarrow> 'a Properties_scheme" where
  "setBlue F v p =
     (let l = map_index (floatPropertiesLimits p) ''blue''
      in p\<lparr>blue := ofClamp F v (fmin l) (fmax l)\<rparr>)"

definition setBrightness :: "of_api \<Rightarrow> real \<Rightarrow> 'a Properties_scheme \<Rightarrow> 'a Properties_scheme" where
  "setBrightness F v p =
     (let l = map_index (floatPropertiesLimits p) ''brightness''
      in p\<lparr>brightness := ofClamp F v (fmin l) (fmax l)\<rparr>)"

definition setContrast :: "of_api \<Rightarrow> real \<Rightarrow> 'a Properties_scheme \<Rightarrow> 'a Properties_scheme" where
  "setContrast F v p =
     (let l = map_index (floatPropertiesLimits p) ''contrast''
      in p\<lparr>contrast := ofClamp F v (fmin l) (fmax l)\<rparr>)"

definition setSaturation :: "of_api \<Rightarrow> real \<Rightarrow> 'a Properties_scheme \<Rightarrow> 'a Properties_scheme" where
  "setSaturation F v p =
     (let l = map_index (floatPropertiesLimits p) ''saturation''
      in p\<lparr>saturation := ofClamp F v (fmin l) (fmax l)\<rparr>)"

text \<open>\<open>set(string, float)\<close> switches over the hash of the name; another name changes nothing.\<close>

definition Properties_set ::
  "of_api \<Rightarrow> string \<Rightarrow> real \<Rightarrow> 'a Properties_scheme \<Rightarrow> 'a Properties_scheme" where
  "Properties_set F property value p =
     (let h = str2int property in
      if h = str2int ''alpha'' then setAlpha F value p
      else if h = str2int ''red'' then setRed F value p
      else if h = str2int ''green'' then setGreen F value p
      else if h = str2int ''blue'' then setBlue F value p
      else if h = str2int ''brightness'' then setBrightness F value p
      else if h = str2int ''contrast'' then setContrast F value p
      else if h = str2int ''saturation'' then setSaturation F value p
      else p)"

section \<open>State as JSON\<close>

definition Properties_getState :: "'j json_api \<Rightarrow> 'a Properties_scheme \<Rightarrow> 'j" where
  "Properties_getState J p =
     j_obj J
      [(''name'', j_string J (name p)),
       (''alpha'', j_float J (alpha p)),
       (''red'', j_float J (red p)),
       (''green'', j_float J (green p)),
       (''blue'', j_float J (blue p)),
       (''brightness'', j_float J (brightness p)),
       (''contrast'', j_float J (contrast p)),
       (''saturation'', j_float J (saturation p))]"

abbreviation j_typeid :: "'j json_api \<Rightarrow> string \<Rightarrow> 'j" where
  "j_typeid J n \<equiv> j_int J (StateType_num (getStateTypeForTypeidName n))"

text \<open>The description of a float: title, type, value and limits; some also have a default.\<close>

definition float_descr ::
  "'j json_api \<Rightarrow> limits \<Rightarrow> string \<Rightarrow> string \<Rightarrow> real \<Rightarrow> (string \<times> 'j) list" where
  "float_descr J m key title value =
     [(''title'', j_string J title),
      (''type'', j_typeid J typeid_float),
      (''value'', j_float J value),
      (''min'', j_float J (fmin (map_index m key))),
      (''max'', j_float J (fmax (map_index m key)))]"

definition Properties_getFullState :: "'j json_api \<Rightarrow> 'a Properties_scheme \<Rightarrow> 'j" where
  "Properties_getFullState J p =
     (let m = floatPropertiesLimits p;
          descr = (\<lambda>key title value. j_obj J (float_descr J m key title value));
          descr_default = (\<lambda>key title value.
            j_obj J (float_descr J m key title value @
              [(''defaultValue'', j_float J (fmax (map_index m key)))]))
      in j_obj J
          [(''name'', j_obj J [(''title'', j_string J ''Name''),
                               (''type'', j_typeid J typeid_string),
                               (''value'', j_string J (name p))]),
           (''alpha'', descr_default ''alpha'' ''Alpha'' (alpha p)),
           (''red'', descr_default ''red'' ''Red'' (red p)),
           (''green'', descr_default ''green'' ''Green'' (green p)),
           (''blue'', descr_default ''blue'' ''Blue'' (blue p)),
           (''brightness'', descr ''brightness'' ''Brightness'' (brightness p)),
           (''saturation'', descr ''saturation'' ''Saturation'' (saturation p)),
           (''contrast'', descr ''contrast'' ''Contrast'' (contrast p))])"

section \<open>Well-formedness\<close>

text \<open>
  The limits are the ones the constructor has inserted, and every float is within its limits.
\<close>

definition limits_ok :: "'a Properties_scheme \<Rightarrow> bool" where
  "limits_ok p \<longleftrightarrow>
     (let l = map_index (floatPropertiesLimits p) in
      l ''alpha'' = \<lparr>fmin = 0, fmax = 1\<rparr> \<and>
      l ''red'' = \<lparr>fmin = (-1), fmax = 1\<rparr> \<and>
      l ''green'' = \<lparr>fmin = (-1), fmax = 1\<rparr> \<and>
      l ''blue'' = \<lparr>fmin = (-1), fmax = 1\<rparr> \<and>
      l ''brightness'' = \<lparr>fmin = 0, fmax = 2\<rparr> \<and>
      l ''contrast'' = \<lparr>fmin = 0, fmax = 2\<rparr> \<and>
      l ''saturation'' = \<lparr>fmin = 0, fmax = 2\<rparr>)"

definition wf_Properties :: "'a Properties_scheme \<Rightarrow> bool" where
  "wf_Properties p \<longleftrightarrow> limits_ok p \<and>
     0 \<le> alpha p \<and> alpha p \<le> 1 \<and>
     -1 \<le> red p \<and> red p \<le> 1 \<and>
     -1 \<le> green p \<and> green p \<le> 1 \<and>
     -1 \<le> blue p \<and> blue p \<le> 1 \<and>
     0 \<le> brightness p \<and> brightness p \<le> 2 \<and>
     0 \<le> contrast p \<and> contrast p \<le> 2 \<and>
     0 \<le> saturation p \<and> saturation p \<le> 2"

lemmas Properties_setter_defs =
  setAlpha_def setRed_def setGreen_def setBlue_def setBrightness_def setContrast_def setSaturation_def

lemma wf_Properties_ctor: "wf_Properties (Properties_ctor p)"
  by (simp add: Properties_ctor_def Properties_reset_def Properties_setLimits_def
      wf_Properties_def limits_ok_def map_index_insert)

lemma wf_Properties_setName [simp]: "wf_Properties (setName s p) = wf_Properties p"
  by (simp add: setName_def wf_Properties_def limits_ok_def)

section \<open>The contract of a clamped property\<close>

text \<open>
  What a client relies on when it sets a property that has limits: the setter stores the
  clamped value, changes nothing else (a second call replaces the first) and keeps the
  object well-formed.
\<close>

locale bounded_setter =
  fixes setter :: "of_api \<Rightarrow> real \<Rightarrow> 'p \<Rightarrow> 'p"
    and getter :: "'p \<Rightarrow> real"
    and lo :: real
    and hi :: real
    and wf :: "'p \<Rightarrow> bool"
  assumes lo_le_hi: "lo \<le> hi"
    and get_set: "wf p \<Longrightarrow> getter (setter F v p) = ofClamp F v lo hi"
    and set_set: "setter F v (setter F u p) = setter F v p"
    and set_same: "wf p \<Longrightarrow> ofClamp F v lo hi = getter p \<Longrightarrow> setter F v p = p"
    and wf_set: "clamp_doc F \<Longrightarrow> wf p \<Longrightarrow> wf (setter F v p)"
begin

lemma set_in_range:
  "clamp_doc F \<Longrightarrow> wf p \<Longrightarrow> lo \<le> getter (setter F v p) \<and> getter (setter F v p) \<le> hi"
  by (simp add: get_set ofClamp_range lo_le_hi)

lemma set_stores: "clamp_doc F \<Longrightarrow> wf p \<Longrightarrow> lo \<le> v \<Longrightarrow> v \<le> hi \<Longrightarrow> getter (setter F v p) = v"
  by (simp add: get_set ofClamp_id)

lemma set_current:
  "clamp_doc F \<Longrightarrow> wf p \<Longrightarrow> lo \<le> getter p \<Longrightarrow> getter p \<le> hi \<Longrightarrow> setter F (getter p) p = p"
  by (simp add: set_same ofClamp_id)

lemma set_mono:
  "clamp_doc F \<Longrightarrow> wf p \<Longrightarrow> wf q \<Longrightarrow> u \<le> v \<Longrightarrow> getter (setter F u p) \<le> getter (setter F v q)"
  by (simp add: get_set ofClamp_mono lo_le_hi)

lemma sets_wf: "clamp_doc F \<Longrightarrow> wf p \<Longrightarrow> wf (fold (setter F) vs p)"
  by (induction vs arbitrary: p) (simp_all add: wf_set)

lemma sets_last:
  assumes "clamp_doc F" "wf p" "vs \<noteq> []"
  shows "getter (fold (setter F) vs p) = ofClamp F (last vs) lo hi"
  using assms by (cases vs rule: rev_cases) (simp_all add: get_set sets_wf)

end

interpretation alpha_prop: bounded_setter setAlpha alpha "0" 1 wf_Properties
  by unfold_locales
    (auto simp: setAlpha_def Let_def wf_Properties_def limits_ok_def ofClamp_range)

interpretation red_prop: bounded_setter setRed red "-1" 1 wf_Properties
  by unfold_locales
    (auto simp: setRed_def Let_def wf_Properties_def limits_ok_def ofClamp_range)

interpretation green_prop: bounded_setter setGreen green "-1" 1 wf_Properties
  by unfold_locales
    (auto simp: setGreen_def Let_def wf_Properties_def limits_ok_def ofClamp_range)

interpretation blue_prop: bounded_setter setBlue blue "-1" 1 wf_Properties
  by unfold_locales
    (auto simp: setBlue_def Let_def wf_Properties_def limits_ok_def ofClamp_range)

interpretation brightness_prop: bounded_setter setBrightness brightness "0" 2 wf_Properties
  by unfold_locales
    (auto simp: setBrightness_def Let_def wf_Properties_def limits_ok_def ofClamp_range)

interpretation contrast_prop: bounded_setter setContrast contrast "0" 2 wf_Properties
  by unfold_locales
    (auto simp: setContrast_def Let_def wf_Properties_def limits_ok_def ofClamp_range)

interpretation saturation_prop: bounded_setter setSaturation saturation "0" 2 wf_Properties
  by unfold_locales
    (auto simp: setSaturation_def Let_def wf_Properties_def limits_ok_def ofClamp_range)

lemmas Properties_wf_setters =
  alpha_prop.wf_set red_prop.wf_set green_prop.wf_set blue_prop.wf_set brightness_prop.wf_set contrast_prop.wf_set saturation_prop.wf_set

lemma wf_Properties_set:
  "clamp_doc F \<Longrightarrow> wf_Properties p \<Longrightarrow> wf_Properties (Properties_set F k v p)"
  by (simp add: Properties_set_def Let_def Properties_wf_setters)

lemma Properties_set_named:
  "Properties_set F ''alpha'' v p = setAlpha F v p"
  "Properties_set F ''red'' v p = setRed F v p"
  "Properties_set F ''green'' v p = setGreen F v p"
  "Properties_set F ''blue'' v p = setBlue F v p"
  "Properties_set F ''brightness'' v p = setBrightness F v p"
  "Properties_set F ''contrast'' v p = setContrast F v p"
  "Properties_set F ''saturation'' v p = setSaturation F v p"
  by (simp_all add: Properties_set_def Let_def label_hash)

lemma Properties_set_frame:
  "name (Properties_set F k v p) = name p"
  "floatPropertiesLimits (Properties_set F k v p) = floatPropertiesLimits p"
  "Properties.more (Properties_set F k v p) = Properties.more p"
  by (simp_all add: Properties_set_def Let_def Properties_setter_defs)

end
