(* ===== verification/Counters.thy ===== *)
theory Counters
  imports Prelude
begin

text \<open>
  The contract of a counter that runs from a lowest to a highest value and starts again:
  the beat counters of the metronome and of the engine properties are three of them.
\<close>

locale cyclic_counter =
  fixes step :: "'s \<Rightarrow> 's"
    and val :: "'s \<Rightarrow> nat"
    and lo :: nat
    and hi :: nat
  assumes lo_le_hi: "lo \<le> hi"
    and step_val: "lo \<le> val s \<Longrightarrow> val s \<le> hi \<Longrightarrow>
      val (step s) = (if val s < hi then Suc (val s) else lo)"
begin

lemma step_range:
  "lo \<le> val s \<Longrightarrow> val s \<le> hi \<Longrightarrow> lo \<le> val (step s) \<and> val (step s) \<le> hi"
  using lo_le_hi by (auto simp: step_val)

lemma steps_range:
  "lo \<le> val s \<Longrightarrow> val s \<le> hi \<Longrightarrow> lo \<le> val ((step ^^ n) s) \<and> val ((step ^^ n) s) \<le> hi"
  by (induction n) (auto simp: step_range)

lemma steps_val:
  assumes "lo \<le> val s" "val s \<le> hi"
  shows "val ((step ^^ n) s) = lo + (val s - lo + n) mod Suc (hi - lo)"
proof (induction n)
  case 0
  have "val s - lo < Suc (hi - lo)" using assms by simp
  with assms show ?case by simp
next
  case (Suc n)
  let ?k = "(val s - lo + n) mod Suc (hi - lo)"
  have nxt: "val ((step ^^ Suc n) s) = (if lo + ?k < hi then Suc (lo + ?k) else lo)"
    using steps_range [OF assms, of n] Suc.IH by (simp add: step_val)
  have "?k \<le> hi - lo" using mod_less_divisor [of "Suc (hi - lo)" "val s - lo + n"] by linarith
  then have "lo + ?k < hi \<longleftrightarrow> ?k \<noteq> hi - lo" using lo_le_hi by linarith
  moreover have "(val s - lo + Suc n) mod Suc (hi - lo) = Suc ?k mod Suc (hi - lo)"
    by (simp add: mod_Suc_eq)
  ultimately show ?case
    using nxt lo_le_hi by (auto simp: mod_Suc)
qed

lemma round_back: "lo \<le> k \<Longrightarrow> k \<le> hi \<Longrightarrow> lo + (k - lo + Suc (hi - lo)) mod Suc (hi - lo) = k"
  by (simp only: mod_add_self2) simp

lemma period:
  "lo \<le> val s \<Longrightarrow> val s \<le> hi \<Longrightarrow> val ((step ^^ Suc (hi - lo)) s) = val s"
  using steps_val [of s "Suc (hi - lo)"] round_back [of "val s"] by simp

text \<open>Every value of the range comes up, at the latest after one round.\<close>

lemma reaches:
  assumes "lo \<le> val s" "val s \<le> hi" "lo \<le> k" "k \<le> hi"
  shows "\<exists>n \<le> hi - lo. val ((step ^^ n) s) = k"
proof (cases "val s \<le> k")
  case True
  with assms have "val ((step ^^ (k - val s)) s) = k"
    by (subst steps_val) auto
  with assms True show ?thesis by (intro exI [of _ "k - val s"]) simp
next
  case False
  let ?n = "Suc (hi - lo) - (val s - k)"
  have eq: "val s - lo + ?n = (k - lo) + Suc (hi - lo)"
    using False assms by simp
  have "val ((step ^^ ?n) s) = lo + ((k - lo) + Suc (hi - lo)) mod Suc (hi - lo)"
    using steps_val [OF assms(1,2), of ?n] by (simp only: eq)
  then have "val ((step ^^ ?n) s) = k"
    using round_back [OF assms(3,4)] by (simp only:)
  with assms False show ?thesis by (intro exI [of _ ?n]) simp
qed

end

end
