(* ===== verification/EngineProperties.thy ===== *)
theory EngineProperties
  imports Utils Counters
begin

text \<open>
  \<open>Properties/EngineProperties\<close>: the singleton with the mixer size, the beat state, the tap
  tempo and the selected layer and column. Its accessor \<open>getInstance\<close> calls \<open>setDefaults\<close>
  on every call, which the model keeps: a component that reads or writes the singleton goes
  through \<open>getInstance\<close> first.
\<close>

datatype EngineRunMode = PLAY_MODE | LEARN_MODE

definition MAXIMUM_NUMBER_OF_LAYERS :: nat where
  "MAXIMUM_NUMBER_OF_LAYERS = 6"

record EngineProperties =
  runMode :: EngineRunMode
  mixerWidth :: uint
  mixerHeight :: uint
  mixerNLayers :: uint
  beatsToSnap :: uint
  beatsCounter :: uint
  metronomeOn :: bool
  triggeringBeat :: bool
  beatSnapInProgress :: bool
  taps :: "ulonglong list"
  currentTapIndex :: int
  appSupportDir :: string
  currentFilePath :: string
  selectedLayer :: sint32
  selectedColumn :: sint32

text \<open>
  The object has static storage, so the members without an initializer start as zero.
\<close>

definition EngineProperties_init :: EngineProperties where
  "EngineProperties_init =
     \<lparr>runMode = PLAY_MODE, mixerWidth = 0, mixerHeight = 0, mixerNLayers = 0,
      beatsToSnap = 0, beatsCounter = 0, metronomeOn = False, triggeringBeat = False,
      beatSnapInProgress = False, taps = [0, 0, 0, 0], currentTapIndex = -1,
      appSupportDir = [], currentFilePath = [], selectedLayer = 0, selectedColumn = 0\<rparr>"

definition getOSXAppSupportPath :: "of_api \<Rightarrow> string" where
  "getOSXAppSupportPath F =
     path_join F (getUserHomeDir F) ''/Library/Application Support/Arbutus/''"

definition getAppSupportPath :: "of_api \<Rightarrow> string" where
  "getAppSupportPath F = (if target_is_osx F then getOSXAppSupportPath F else [])"

definition EP_setDefaults :: "of_api \<Rightarrow> EngineProperties \<Rightarrow> EngineProperties" where
  "EP_setDefaults F ep =
     ep\<lparr>mixerWidth := 640, mixerHeight := 480, mixerNLayers := 3, beatsToSnap := 4,
        beatSnapInProgress := False, currentFilePath := [], runMode := PLAY_MODE,
        appSupportDir := getAppSupportPath F\<rparr>"

definition EP_getInstance :: "of_api \<Rightarrow> EngineProperties \<Rightarrow> EngineProperties" where
  "EP_getInstance F instance' = EP_setDefaults F instance'"

section \<open>Setters\<close>

definition setMixerWidth :: "uint \<Rightarrow> EngineProperties \<Rightarrow> EngineProperties" where
  "setMixerWidth w ep = ep\<lparr>mixerWidth := w\<rparr>"

definition setMixerHeight :: "uint \<Rightarrow> EngineProperties \<Rightarrow> EngineProperties" where
  "setMixerHeight h ep = ep\<lparr>mixerHeight := h\<rparr>"

definition setSelectedLayerNumber :: "sint32 \<Rightarrow> EngineProperties \<Rightarrow> EngineProperties" where
  "setSelectedLayerNumber v ep = ep\<lparr>selectedLayer := v\<rparr>"

definition setSelectedColumnNumber :: "sint32 \<Rightarrow> EngineProperties \<Rightarrow> EngineProperties" where
  "setSelectedColumnNumber v ep = ep\<lparr>selectedColumn := v\<rparr>"

definition setBeatsToSnap :: "uint \<Rightarrow> EngineProperties \<Rightarrow> EngineProperties" where
  "setBeatsToSnap v ep = ep\<lparr>beatsToSnap := v\<rparr>"

definition setBeatsCounter :: "uint \<Rightarrow> EngineProperties \<Rightarrow> EngineProperties" where
  "setBeatsCounter v ep = ep\<lparr>beatsCounter := v\<rparr>"

definition setMetronomeOn :: "bool \<Rightarrow> EngineProperties \<Rightarrow> EngineProperties" where
  "setMetronomeOn v ep = ep\<lparr>metronomeOn := v\<rparr>"

definition setTriggeringBeat :: "bool \<Rightarrow> EngineProperties \<Rightarrow> EngineProperties" where
  "setTriggeringBeat v ep = ep\<lparr>triggeringBeat := v\<rparr>"

definition EP_setNumberOfLayers :: "uint \<Rightarrow> EngineProperties \<Rightarrow> EngineProperties" where
  "EP_setNumberOfLayers n ep = ep\<lparr>mixerNLayers := n\<rparr>"

definition setCurrentFilePath :: "string \<Rightarrow> EngineProperties \<Rightarrow> EngineProperties" where
  "setCurrentFilePath s ep = ep\<lparr>currentFilePath := s\<rparr>"

definition setIsBeatSnapInProgress :: "bool \<Rightarrow> EngineProperties \<Rightarrow> EngineProperties" where
  "setIsBeatSnapInProgress v ep = ep\<lparr>beatSnapInProgress := v\<rparr>"

definition setAppSupportDir :: "string \<Rightarrow> EngineProperties \<Rightarrow> EngineProperties" where
  "setAppSupportDir s ep = ep\<lparr>appSupportDir := s\<rparr>"

lemmas EP_setter_defs =
  setMixerWidth_def setMixerHeight_def setSelectedLayerNumber_def setSelectedColumnNumber_def
  setBeatsToSnap_def setBeatsCounter_def setMetronomeOn_def setTriggeringBeat_def
  EP_setNumberOfLayers_def setCurrentFilePath_def setIsBeatSnapInProgress_def
  setAppSupportDir_def

lemma EP_setter_selects [simp]:
  "selectedLayer (setSelectedLayerNumber v ep) = v"
  "selectedColumn (setSelectedLayerNumber v ep) = selectedColumn ep"
  "metronomeOn (setSelectedLayerNumber v ep) = metronomeOn ep"
  "metronomeOn (setMetronomeOn b ep) = b"
  "selectedLayer (setMetronomeOn b ep) = selectedLayer ep"
  "selectedLayer (setMixerWidth n ep) = selectedLayer ep"
  "selectedLayer (setMixerHeight n ep) = selectedLayer ep"
  "selectedLayer (EP_setNumberOfLayers n ep) = selectedLayer ep"
  "selectedLayer (setCurrentFilePath s ep) = selectedLayer ep"
  by (simp_all add: EP_setter_defs)

lemma EP_getInstance_simps [simp]:
  "mixerWidth (EP_getInstance F ep) = 640"
  "mixerHeight (EP_getInstance F ep) = 480"
  "mixerNLayers (EP_getInstance F ep) = 3"
  "beatsToSnap (EP_getInstance F ep) = 4"
  "beatSnapInProgress (EP_getInstance F ep) = False"
  "currentFilePath (EP_getInstance F ep) = []"
  "selectedLayer (EP_getInstance F ep) = selectedLayer ep"
  "selectedColumn (EP_getInstance F ep) = selectedColumn ep"
  "metronomeOn (EP_getInstance F ep) = metronomeOn ep"
  "triggeringBeat (EP_getInstance F ep) = triggeringBeat ep"
  "beatsCounter (EP_getInstance F ep) = beatsCounter ep"
  "taps (EP_getInstance F ep) = taps ep"
  "currentTapIndex (EP_getInstance F ep) = currentTapIndex ep"
  "appSupportDir (EP_getInstance F ep) = getAppSupportPath F"
  by (simp_all add: EP_getInstance_def EP_setDefaults_def)

lemma EP_getInstance_idem [simp]: "EP_getInstance F (EP_getInstance F ep) = EP_getInstance F ep"
  by (simp add: EP_getInstance_def EP_setDefaults_def)

section \<open>Beats\<close>

definition EP_beat :: "EngineProperties \<Rightarrow> EngineProperties res" where
  "EP_beat ep =
     (let ep = ep\<lparr>triggeringBeat := False\<rparr>;
          ep = ep\<lparr>beatsCounter := beatsCounter ep + 1\<rparr>;
          ep = (if 32 < beatsCounter ep then ep\<lparr>beatsCounter := 0\<rparr> else ep)
      in if beatsToSnap ep = 0 then Inl (UB DivisionByZero)
         else if beatsCounter ep mod beatsToSnap ep = 0
         then Inr (setIsBeatSnapInProgress True (setTriggeringBeat True ep)\<lparr>beatSnapInProgress := True\<rparr>)
         else Inr ep)"

text \<open>The state after a beat reached through \<open>getInstance\<close>, as the engine calls it.\<close>

definition EP_instance_beat :: "of_api \<Rightarrow> EngineProperties \<Rightarrow> EngineProperties" where
  "EP_instance_beat F ep =
     (case EP_beat (EP_getInstance F ep) of Inr ep' \<Rightarrow> ep' | Inl _ \<Rightarrow> ep)"

lemma EP_beat_instance_Inr:
  "EP_beat (EP_getInstance F ep) = Inr (EP_instance_beat F ep)"
  by (simp add: EP_instance_beat_def EP_beat_def Let_def)

lemma EP_instance_beat_counter:
  "unat (beatsCounter ep) \<le> 32 \<Longrightarrow>
     unat (beatsCounter (EP_instance_beat F ep)) =
       (if unat (beatsCounter ep) < 32 then Suc (unat (beatsCounter ep)) else 0)"
proof -
  assume le: "unat (beatsCounter ep) \<le> 32"
  then have inc: "unat (beatsCounter ep + 1) = Suc (unat (beatsCounter ep))"
    by (simp add: unat_word_ariths)
  have "(32 < beatsCounter ep + 1) \<longleftrightarrow> \<not> unat (beatsCounter ep) < 32"
    unfolding word_less_nat_alt inc by auto
  with inc show ?thesis
    by (simp add: EP_instance_beat_def EP_beat_def Let_def EP_setter_defs)
qed

interpretation beats: cyclic_counter "EP_instance_beat F" "\<lambda>ep. unat (beatsCounter ep)" 0 32
  by unfold_locales (simp_all add: EP_instance_beat_counter)

lemma EP_instance_beat_triggers:
  assumes "unat (beatsCounter ep) \<le> 32"
  shows "triggeringBeat (EP_instance_beat F ep) \<longleftrightarrow>
    unat (beatsCounter (EP_instance_beat F ep)) mod 4 = 0"
proof -
  have "(x mod 4 = 0) = (unat x mod 4 = 0)" for x :: uint
    by (simp add: word_eq_iff_unsigned unat_mod flip: unat_eq_0)
  then show ?thesis
    by (simp add: EP_instance_beat_def EP_beat_def Let_def EP_setter_defs)
qed

lemma EP_instance_beat_frame [simp]:
  "selectedLayer (EP_instance_beat F ep) = selectedLayer ep"
  "metronomeOn (EP_instance_beat F ep) = metronomeOn ep"
  "currentTapIndex (EP_instance_beat F ep) = currentTapIndex ep"
  "taps (EP_instance_beat F ep) = taps ep"
  by (simp_all add: EP_instance_beat_def EP_beat_def Let_def EP_setter_defs)

section \<open>Tap tempo\<close>

definition incrementTap :: "EngineProperties \<Rightarrow> EngineProperties" where
  "incrementTap ep =
     ep\<lparr>currentTapIndex :=
          (if - 1 < currentTapIndex ep then currentTapIndex ep + 1 else currentTapIndex ep)\<rparr>"

text \<open>
  \<open>tap\<close> writes \<open>taps[currentTapIndex]\<close>; an index outside the array of four is undefined. The
  tempo is computed from the three intervals once the fourth tap is in; a zero interval
  gives an infinite float, which does not convert to an integer.
\<close>

definition EP_tap :: "ulonglong \<Rightarrow> (EngineProperties, uint) cxx" where
  "EP_tap now =
     bindX (getS (\<lambda>ep. taps ep ! 1 - taps ep ! 0)) (\<lambda>a.
     thenX (modS incrementTap) (
     bindX (getS currentTapIndex) (\<lambda>i.
     if i < 0 \<or> 4 \<le> i then throw (UB OutOfBounds) else
     thenX (modS (\<lambda>ep. ep\<lparr>taps := (taps ep)[nat i := now]\<rparr>)) (
     if i \<noteq> 3 then ret 0 else
     bindX (getS (\<lambda>ep. taps ep ! 2 - taps ep ! 1)) (\<lambda>b.
     bindX (getS (\<lambda>ep. taps ep ! 3 - taps ep ! 2)) (\<lambda>c.
     thenX (modS (\<lambda>ep. ep\<lparr>currentTapIndex := -1\<rparr>)) (
     if a + b + c = 0 then throw (UB FloatConversion)
     else liftR (float_to_uint (std_round (60000 / (real (unat (a + b + c)) / 3)))))))))))"

text \<open>
  The states of the singleton: the initial one, and what the member functions make of it.
\<close>

inductive EP_reachable :: "of_api \<Rightarrow> EngineProperties \<Rightarrow> bool" for F where
  init: "EP_reachable F EngineProperties_init"
| getInstance: "EP_reachable F ep \<Longrightarrow> EP_reachable F (EP_getInstance F ep)"
| mixerWidth: "EP_reachable F ep \<Longrightarrow> EP_reachable F (setMixerWidth n ep)"
| mixerHeight: "EP_reachable F ep \<Longrightarrow> EP_reachable F (setMixerHeight n ep)"
| selectedLayer: "EP_reachable F ep \<Longrightarrow> EP_reachable F (setSelectedLayerNumber v ep)"
| selectedColumn: "EP_reachable F ep \<Longrightarrow> EP_reachable F (setSelectedColumnNumber v ep)"
| beatsToSnap: "EP_reachable F ep \<Longrightarrow> EP_reachable F (setBeatsToSnap n ep)"
| beatsCounter: "EP_reachable F ep \<Longrightarrow> EP_reachable F (setBeatsCounter n ep)"
| metronomeOn: "EP_reachable F ep \<Longrightarrow> EP_reachable F (setMetronomeOn b ep)"
| triggeringBeat: "EP_reachable F ep \<Longrightarrow> EP_reachable F (setTriggeringBeat b ep)"
| numberOfLayers: "EP_reachable F ep \<Longrightarrow> EP_reachable F (EP_setNumberOfLayers n ep)"
| currentFilePath: "EP_reachable F ep \<Longrightarrow> EP_reachable F (setCurrentFilePath s ep)"
| beatSnap: "EP_reachable F ep \<Longrightarrow> EP_reachable F (setIsBeatSnapInProgress b ep)"
| appSupportDir: "EP_reachable F ep \<Longrightarrow> EP_reachable F (setAppSupportDir s ep)"
| beat: "EP_reachable F ep \<Longrightarrow> EP_beat ep = Inr ep' \<Longrightarrow> EP_reachable F ep'"
| incrementTap: "EP_reachable F ep \<Longrightarrow> EP_reachable F (incrementTap ep)"
| tap: "EP_reachable F ep \<Longrightarrow> EP_tap now ep = (Inr n, ep') \<Longrightarrow> EP_reachable F ep'"

lemma EP_beat_tapIndex: "EP_beat ep = Inr ep' \<Longrightarrow> currentTapIndex ep' = currentTapIndex ep"
  by (auto simp: EP_beat_def Let_def EP_setter_defs split: if_splits)

lemma EP_tap_out_of_bounds:
  "currentTapIndex ep = -1 \<Longrightarrow> EP_tap now ep = (Inl (UB OutOfBounds), incrementTap ep)"
  by (simp add: EP_tap_def incrementTap_def)

lemma EP_reachable_tapIndex: "EP_reachable F ep \<Longrightarrow> currentTapIndex ep = -1"
proof (induction rule: EP_reachable.induct)
  case (tap ep now n ep')
  then show ?case by (simp add: EP_tap_out_of_bounds)
qed (simp_all add: EngineProperties_init_def EP_setter_defs incrementTap_def EP_beat_tapIndex)

lemma beats_after:
  assumes "unat (beatsCounter ep) \<le> 32"
  shows "unat (beatsCounter ((EP_instance_beat F ^^ Suc n) ep)) = (unat (beatsCounter ep) + Suc n) mod 33 \<and>
    (triggeringBeat ((EP_instance_beat F ^^ Suc n) ep) \<longleftrightarrow>
      (unat (beatsCounter ep) + Suc n) mod 33 mod 4 = 0)"
proof -
  have val: "unat (beatsCounter ((EP_instance_beat F ^^ k) ep)) = (unat (beatsCounter ep) + k) mod 33" for k
    using beats.steps_val [where s = ep and F = F and n = k] assms by simp
  have "unat (beatsCounter ((EP_instance_beat F ^^ n) ep)) \<le> 32"
    using beats.steps_range [where s = ep and F = F and n = n] assms by simp
  from EP_instance_beat_triggers [OF this, of F] val [of "Suc n"] show ?thesis by simp
qed

section \<open>Properties\<close>

text \<open>
  C27. In every state the singleton can reach, a tap that arrives through \<open>getInstance\<close> writes
  before the start of the array of taps: the index is never set to a slot.
\<close>

theorem tap_always_out_of_bounds:
  assumes "EP_reachable F ep"
  shows "fst (EP_tap now (EP_getInstance F ep)) = Inl (UB OutOfBounds)"
  using EP_reachable_tapIndex [OF EP_reachable.getInstance [OF assms]]
  by (simp add: EP_tap_out_of_bounds)

theorem tap_always_out_of_bounds_witness:
  "fst (EP_tap 1000 (EP_getInstance ex_F (setMixerWidth 800 EngineProperties_init))) =
     Inl (UB OutOfBounds)"
  by (rule tap_always_out_of_bounds) (intro EP_reachable.mixerWidth EP_reachable.init)

text \<open>
  C26. The beat counter runs through the 33 values from 0 to 32: after \<open>n + 1\<close> beats it holds
  the remainder, and the last of them is a triggering beat exactly when the counter is a
  multiple of four (so the beats 32 and 0, which follow each other, both trigger).
\<close>

theorem beats_cycle:
  assumes "unat (beatsCounter ep) \<le> 32"
  shows "unat (beatsCounter ((EP_instance_beat F ^^ Suc n) ep)) = (unat (beatsCounter ep) + Suc n) mod 33 \<and>
    (triggeringBeat ((EP_instance_beat F ^^ Suc n) ep) \<longleftrightarrow>
      (unat (beatsCounter ep) + Suc n) mod 33 mod 4 = 0)"
  by (rule beats_after [OF assms])

theorem beats_cycle_witness:
  "unat (beatsCounter ((EP_instance_beat ex_F ^^ Suc 32) EngineProperties_init)) = 0 \<and>
   triggeringBeat ((EP_instance_beat ex_F ^^ Suc 32) EngineProperties_init) \<and>
   triggeringBeat ((EP_instance_beat ex_F ^^ Suc 31) EngineProperties_init)"
  using beats_cycle [where ep = EngineProperties_init and F = ex_F and n = 32]
    beats_cycle [where ep = EngineProperties_init and F = ex_F and n = 31]
  by (simp add: EngineProperties_init_def del: funpow.simps)

end
