(* ===== verification/SizeProperties.thy ===== *)
theory SizeProperties
  imports Properties EngineProperties
begin

text \<open>
  \<open>Properties/SizeProperties\<close>: width and height with fixed limits, the second base class of
  the layer and visual-instance properties.
\<close>

record uintLimits =
  umin :: uint
  umax :: uint

definition PROPERTY_MAX_WIDTH :: uint where "PROPERTY_MAX_WIDTH = 1920"
definition PROPERTY_MAX_HEIGHT :: uint where "PROPERTY_MAX_HEIGHT = 1080"

record SizeProperties =
  width :: uint
  height :: uint

definition widthLimits :: uintLimits where
  "widthLimits = \<lparr>umin = 0, umax = PROPERTY_MAX_WIDTH\<rparr>"

definition heightLimits :: uintLimits where
  "heightLimits = \<lparr>umin = 0, umax = PROPERTY_MAX_HEIGHT\<rparr>"

text \<open>
  The constructor reads the mixer size when there is an engine. It goes through
  \<open>EngineProperties::getInstance\<close>, whose effect on the singleton is \<open>SizeProperties_ep\<close>.
\<close>

definition SizeProperties_new :: "of_api \<Rightarrow> bool \<Rightarrow> EngineProperties \<Rightarrow> SizeProperties" where
  "SizeProperties_new F engine ep =
     (if engine then \<lparr>width = mixerWidth (EP_getInstance F ep),
                      height = mixerHeight (EP_getInstance F (EP_getInstance F ep))\<rparr>
      else \<lparr>width = PROPERTY_MAX_WIDTH, height = PROPERTY_MAX_HEIGHT\<rparr>)"

definition SizeProperties_ep :: "of_api \<Rightarrow> bool \<Rightarrow> EngineProperties \<Rightarrow> EngineProperties" where
  "SizeProperties_ep F engine ep =
     (if engine then EP_getInstance F (EP_getInstance F ep) else ep)"

text \<open>\<open>ofClamp\<close> works on floats: the argument and the limits are converted, and the result back.\<close>

definition clamp_uint :: "of_api \<Rightarrow> uint \<Rightarrow> uintLimits \<Rightarrow> uint res" where
  "clamp_uint F v l =
     float_to_uint (ofClamp F (real (unat v)) (real (unat (umin l))) (real (unat (umax l))))"

definition setWidth :: "of_api \<Rightarrow> uint \<Rightarrow> SizeProperties \<Rightarrow> SizeProperties res" where
  "setWidth F w s = bindR (clamp_uint F w widthLimits) (\<lambda>x. Inr (s\<lparr>width := x\<rparr>))"

definition setHeight :: "of_api \<Rightarrow> uint \<Rightarrow> SizeProperties \<Rightarrow> SizeProperties res" where
  "setHeight F h s = bindR (clamp_uint F h heightLimits) (\<lambda>x. Inr (s\<lparr>height := x\<rparr>))"

definition SizeProperties_getState :: "'j json_api \<Rightarrow> SizeProperties \<Rightarrow> 'j \<Rightarrow> 'j" where
  "SizeProperties_getState J s state =
     j_set J (j_set J state ''width'' (j_uint J (width s))) ''height'' (j_uint J (height s))"

definition uint_descr ::
  "'j json_api \<Rightarrow> uintLimits \<Rightarrow> string \<Rightarrow> uint \<Rightarrow> 'j" where
  "uint_descr J l title value =
     j_obj J [(''title'', j_string J title), (''type'', j_typeid J typeid_uint),
              (''value'', j_uint J value), (''min'', j_uint J (umin l)), (''max'', j_uint J (umax l))]"

definition SizeProperties_getFullState :: "'j json_api \<Rightarrow> SizeProperties \<Rightarrow> 'j \<Rightarrow> 'j" where
  "SizeProperties_getFullState J s fullState =
     j_set J (j_set J fullState ''width'' (uint_descr J widthLimits ''Width'' (width s)))
       ''height'' (uint_descr J heightLimits ''Height'' (height s))"

section \<open>The contract of a clamped unsigned property\<close>

text \<open>
  A setter of an unsigned property may have to convert a float back (which can be
  undefined), so it is partial; with the documented \<open>ofClamp\<close> it always succeeds and stores
  the smaller of the value and the limit.
\<close>

locale clamped_uint =
  fixes setter :: "of_api \<Rightarrow> uint \<Rightarrow> 'p \<Rightarrow> 'p res"
    and getter :: "'p \<Rightarrow> uint res"
    and hi :: nat
  assumes hi_fits: "hi < 2 ^ 32"
    and set_get: "clamp_doc F \<Longrightarrow>
      \<exists>q. setter F v p = Inr q \<and> getter q = Inr (of_nat (min (unat v) hi))"
begin

lemma set_defined: "clamp_doc F \<Longrightarrow> \<exists>q. setter F v p = Inr q"
  using set_get by blast

lemma get_set: "clamp_doc F \<Longrightarrow> setter F v p = Inr q \<Longrightarrow> getter q = Inr (of_nat (min (unat v) hi))"
  using set_get [of F v p] by auto

lemma set_bounded:
  assumes "clamp_doc F" "setter F v p = Inr q" "getter q = Inr n"
  shows "unat n \<le> hi"
proof -
  have "n = of_nat (min (unat v) hi)" using get_set [OF assms(1,2)] assms(3) by simp
  moreover have "min (unat v) hi < 2 ^ 32" using hi_fits by simp
  ultimately show ?thesis by (simp add: unat_of_nat)
qed

lemma set_stores:
  assumes "clamp_doc F" "setter F v p = Inr q" "unat v \<le> hi"
  shows "getter q = Inr v"
  using get_set [OF assms(1,2)] assms(3) by (simp add: min_absorb1)

end

lemma clamp_uint_min:
  assumes "clamp_doc F" "umin l = 0"
  shows "clamp_uint F v l = Inr (of_nat (min (unat v) (unat (umax l))))"
proof -
  let ?n = "min (unat v) (unat (umax l))"
  have "int ?n < 2 ^ 32"
    using unsigned_less [of v, where ?'a = nat] by (simp add: min_def)
  then have "float_to_uint (real ?n) = Inr (of_nat ?n)"
    by (simp only: float_to_uint_def Let_def trunc_real_of_nat) simp
  then show ?thesis
    using ofClamp_nat [OF assms(1), of "unat v" "unat (umax l)"] assms(2)
    by (simp add: clamp_uint_def)
qed

interpretation width_prop: clamped_uint setWidth "\<lambda>s. Inr (width s)" 1920
  by unfold_locales
    (simp_all add: setWidth_def clamp_uint_min widthLimits_def PROPERTY_MAX_WIDTH_def)

interpretation height_prop: clamped_uint setHeight "\<lambda>s. Inr (height s)" 1080
  by unfold_locales
    (simp_all add: setHeight_def clamp_uint_min heightLimits_def PROPERTY_MAX_HEIGHT_def)

definition wf_SizeProperties :: "SizeProperties \<Rightarrow> bool" where
  "wf_SizeProperties s \<longleftrightarrow> unat (width s) \<le> 1920 \<and> unat (height s) \<le> 1080"

lemma wf_SizeProperties_new: "wf_SizeProperties (SizeProperties_new F engine ep)"
  by (simp add: wf_SizeProperties_def SizeProperties_new_def
      PROPERTY_MAX_WIDTH_def PROPERTY_MAX_HEIGHT_def)

lemma setWidth_Inr:
  "clamp_doc F \<Longrightarrow> setWidth F w s = Inr (s\<lparr>width := of_nat (min (unat w) 1920)\<rparr>)"
  by (simp add: setWidth_def clamp_uint_min widthLimits_def PROPERTY_MAX_WIDTH_def)

lemma setHeight_Inr:
  "clamp_doc F \<Longrightarrow> setHeight F w s = Inr (s\<lparr>height := of_nat (min (unat w) 1080)\<rparr>)"
  by (simp add: setHeight_def clamp_uint_min heightLimits_def PROPERTY_MAX_HEIGHT_def)

lemma wf_setWidth:
  assumes "clamp_doc F" "wf_SizeProperties s" "setWidth F w s = Inr s'"
  shows "wf_SizeProperties s'"
  using width_prop.set_bounded [OF assms(1,3)] assms
  by (auto simp: wf_SizeProperties_def setWidth_Inr)

lemma wf_setHeight:
  assumes "clamp_doc F" "wf_SizeProperties s" "setHeight F w s = Inr s'"
  shows "wf_SizeProperties s'"
  using height_prop.set_bounded [OF assms(1,3)] assms
  by (auto simp: wf_SizeProperties_def setHeight_Inr)

end
