(* ===== verification/LayerProperties.thy ===== *)
theory LayerProperties
  imports SizeProperties
begin

text \<open>
  \<open>Properties/LayerProperties\<close>: the properties of a layer, derived from \<open>Properties\<close> (record
  extension) and \<open>SizeProperties\<close> (the component \<open>lp_size\<close>). A blend mode is an enumeration
  over the numbers of openFrameworks and is kept as its number.
\<close>

type_synonym BlendMode = uint

abbreviation BLEND_ALPHA :: "of_api \<Rightarrow> BlendMode" where "BLEND_ALPHA \<equiv> OF_BLENDMODE_ALPHA"
abbreviation BLEND_ADD :: "of_api \<Rightarrow> BlendMode" where "BLEND_ADD \<equiv> OF_BLENDMODE_ADD"
abbreviation BLEND_MULTIPLY :: "of_api \<Rightarrow> BlendMode" where
  "BLEND_MULTIPLY \<equiv> OF_BLENDMODE_MULTIPLY"
abbreviation BLEND_SUBTRACT :: "of_api \<Rightarrow> BlendMode" where
  "BLEND_SUBTRACT \<equiv> OF_BLENDMODE_SUBTRACT"
abbreviation BLEND_SCREEN :: "of_api \<Rightarrow> BlendMode" where "BLEND_SCREEN \<equiv> OF_BLENDMODE_SCREEN"

record LayerProperties = Properties +
  lp_size :: SizeProperties
  blendMode :: BlendMode
  blurH :: real
  blurV :: real

definition blurHLimits :: floatLimits where "blurHLimits = \<lparr>fmin = 0, fmax = 10\<rparr>"
definition blurVLimits :: floatLimits where "blurVLimits = \<lparr>fmin = 0, fmax = 10\<rparr>"

definition setBlurH :: "of_api \<Rightarrow> uint \<Rightarrow> LayerProperties \<Rightarrow> LayerProperties" where
  "setBlurH F v p =
     p\<lparr>blurH := ofClamp F (real (unat v)) (fmin blurHLimits) (fmax blurHLimits)\<rparr>"

definition setBlurV :: "of_api \<Rightarrow> uint \<Rightarrow> LayerProperties \<Rightarrow> LayerProperties" where
  "setBlurV F v p =
     p\<lparr>blurV := ofClamp F (real (unat v)) (fmin blurVLimits) (fmax blurVLimits)\<rparr>"

text \<open>The blur getters return the float as an \<open>unsigned int\<close>.\<close>

definition getBlurH :: "LayerProperties \<Rightarrow> uint res" where
  "getBlurH p = float_to_uint (blurH p)"

definition getBlurV :: "LayerProperties \<Rightarrow> uint res" where
  "getBlurV p = float_to_uint (blurV p)"

definition setBlendMode :: "of_api \<Rightarrow> BlendMode \<Rightarrow> LayerProperties \<Rightarrow> LayerProperties" where
  "setBlendMode F m p =
     (let m = (if m < OF_BLENDMODE_DISABLED F then BLEND_ALPHA F else m);
          m = (if OF_BLENDMODE_SCREEN F < m then BLEND_SCREEN F else m)
      in p\<lparr>blendMode := m\<rparr>)"

definition LayerProperties_reset :: "of_api \<Rightarrow> LayerProperties \<Rightarrow> LayerProperties" where
  "LayerProperties_reset F p =
     setBlurV F 0 (setBlurH F 0 (setAlpha F 1 (setBlurV F 0 (setBlurH F 0 (Properties_reset p)))))"

text \<open>The constructors of the two base classes, then the body; the object's memory is \<open>p\<close>.\<close>

definition LayerProperties_ctor ::
  "of_api \<Rightarrow> bool \<Rightarrow> EngineProperties \<Rightarrow> LayerProperties \<Rightarrow> LayerProperties" where
  "LayerProperties_ctor F engine ep p =
     LayerProperties_reset F
       (Properties_ctor p\<lparr>lp_size := SizeProperties_new F engine ep, blendMode := BLEND_ADD F\<rparr>)"

definition blendModeToString :: "of_api \<Rightarrow> BlendMode \<Rightarrow> string" where
  "blendModeToString F mode =
     (if mode = BLEND_ALPHA F then ''ALPHA''
      else if mode = BLEND_ADD F then ''ADD''
      else if mode = BLEND_MULTIPLY F then ''MULT''
      else if mode = BLEND_SUBTRACT F then ''SUBT''
      else if mode = BLEND_SCREEN F then ''SCRN''
      else ''?'')"

definition LayerProperties_set ::
  "of_api \<Rightarrow> string \<Rightarrow> real \<Rightarrow> LayerProperties \<Rightarrow> LayerProperties res" where
  "LayerProperties_set F property value p =
     (let p = Properties_set F property value p;
          h = str2int property
      in if h = str2int ''blurH'' then
           bindR (float_to_uint (std_round value)) (\<lambda>n. Inr (setBlurH F n p))
         else if h = str2int ''blurV'' then
           bindR (float_to_uint (std_round value)) (\<lambda>n. Inr (setBlurV F n p))
         else Inr p)"

definition LayerProperties_getState :: "'j json_api \<Rightarrow> LayerProperties \<Rightarrow> 'j res" where
  "LayerProperties_getState J p =
     bindR (getBlurH p) (\<lambda>bh. bindR (getBlurV p) (\<lambda>bv.
     Inr (let state = Properties_getState J p;
              state = SizeProperties_getState J (lp_size p) state;
              state = j_set J state ''blendMode'' (j_uint J (blendMode p));
              state = j_set J state ''blurH'' (j_uint J bh)
          in j_set J state ''blurV'' (j_uint J bv))))"

definition blur_descr :: "'j json_api \<Rightarrow> floatLimits \<Rightarrow> string \<Rightarrow> uint \<Rightarrow> 'j" where
  "blur_descr J l title value =
     j_obj J [(''title'', j_string J title), (''type'', j_typeid J typeid_float),
              (''value'', j_uint J value), (''min'', j_float J (fmin l)),
              (''max'', j_float J (fmax l)), (''defaultValue'', j_int J 0)]"

definition LayerProperties_getFullState ::
  "of_api \<Rightarrow> 'j json_api \<Rightarrow> LayerProperties \<Rightarrow> 'j res" where
  "LayerProperties_getFullState F J p =
     bindR (getBlurH p) (\<lambda>bh. bindR (getBlurV p) (\<lambda>bv.
     Inr (let fullState = Properties_getFullState J p;
              fullState = SizeProperties_getFullState J (lp_size p) fullState;
              fullState = j_set J fullState ''blurH''
                (blur_descr J blurHLimits ''Horizontal Blur'' bh);
              fullState = j_set J fullState ''blurV''
                (blur_descr J blurVLimits ''Vertical Blur'' bv)
          in j_set J fullState ''blendMode''
               (j_obj J [(''title'', j_string J ''Blend Mode''),
                         (''type'', j_int J (StateType_num StateType_Integer)),
                         (''value'', j_uint J (blendMode p)),
                         (''min'', j_uint J (BLEND_ALPHA F)),
                         (''max'', j_uint J (BLEND_SCREEN F)),
                         (''defaultValue'', j_uint J (BLEND_ALPHA F))]))))"

section \<open>Well-formedness\<close>

text \<open>
  A blur is a whole number up to ten, and the blend mode one of the modes of openFrameworks
  (the disabled mode included).
\<close>

definition wf_LayerProperties :: "of_api \<Rightarrow> LayerProperties \<Rightarrow> bool" where
  "wf_LayerProperties F p \<longleftrightarrow>
     wf_Properties p \<and> wf_SizeProperties (lp_size p) \<and>
     (\<exists>n \<le> 10. blurH p = real n) \<and> (\<exists>n \<le> 10. blurV p = real n) \<and>
     OF_BLENDMODE_DISABLED F \<le> blendMode p \<and> blendMode p \<le> OF_BLENDMODE_SCREEN F"

lemma blur_value:
  assumes "clamp_doc F"
  shows "blurH (setBlurH F v p) = real (min (unat v) 10)"
    and "blurV (setBlurV F v p) = real (min (unat v) 10)"
proof -
  have "ofClamp F (real (unat v)) 0 (real 10) = real (min (unat v) 10)"
    using assms by (rule ofClamp_nat)
  then show "blurH (setBlurH F v p) = real (min (unat v) 10)"
    and "blurV (setBlurV F v p) = real (min (unat v) 10)"
    by (simp_all add: setBlurH_def setBlurV_def blurHLimits_def blurVLimits_def)
qed

lemma float_to_uint_of_nat: "n < 2 ^ 32 \<Longrightarrow> float_to_uint (real n) = Inr (of_nat n)"
  using float_to_uint_small [of "int n"] by simp

lemma getBlur_set:
  assumes "clamp_doc F"
  shows "getBlurH (setBlurH F v p) = Inr (of_nat (min (unat v) 10))"
    and "getBlurV (setBlurV F v p) = Inr (of_nat (min (unat v) 10))"
  unfolding getBlurH_def getBlurV_def blur_value [OF assms]
  by (rule float_to_uint_of_nat, simp)+

interpretation blurH_prop: clamped_uint "\<lambda>F v p. Inr (setBlurH F v p)" getBlurH 10
  by unfold_locales (use getBlur_set in auto)

interpretation blurV_prop: clamped_uint "\<lambda>F v p. Inr (setBlurV F v p)" getBlurV 10
  by unfold_locales (use getBlur_set in auto)

lemma wf_Properties_more [simp]:
  "wf_Properties (p\<lparr>lp_size := s\<rparr>) = wf_Properties p"
  "wf_Properties (p\<lparr>blendMode := m\<rparr>) = wf_Properties p"
  "wf_Properties (p\<lparr>blurH := x\<rparr>) = wf_Properties p"
  "wf_Properties (p\<lparr>blurV := y\<rparr>) = wf_Properties p"
  by (simp_all add: wf_Properties_def limits_ok_def)

lemma wf_setBlur:
  assumes "clamp_doc F" "wf_LayerProperties F p"
  shows "wf_LayerProperties F (setBlurH F v p)" "wf_LayerProperties F (setBlurV F v p)"
proof -
  have "\<exists>n \<le> 10. blurH (setBlurH F v p) = real n" "\<exists>n \<le> 10. blurV (setBlurV F v p) = real n"
    unfolding blur_value [OF assms(1)] by (auto intro!: exI [of _ "min (unat v) 10"])
  with assms(2) show "wf_LayerProperties F (setBlurH F v p)" "wf_LayerProperties F (setBlurV F v p)"
    by (auto simp: wf_LayerProperties_def setBlurH_def setBlurV_def)
qed

lemma wf_setBlendMode:
  assumes "blend_doc F" "wf_LayerProperties F p"
  shows "wf_LayerProperties F (setBlendMode F m p)"
  using assms by (auto simp: wf_LayerProperties_def setBlendMode_def blend_doc_def Let_def)

lemma wf_LayerProperties_Properties:
  assumes "wf_LayerProperties F p" "wf_Properties p \<Longrightarrow> wf_Properties p'"
    and "Properties.more p' = Properties.more p"
  shows "wf_LayerProperties F p'"
proof -
  have "lp_size p' = lp_size p" "blurH p' = blurH p" "blurV p' = blurV p"
    "blendMode p' = blendMode p"
    using assms(3) by (cases p; cases p'; simp)+
  with assms(1,2) show ?thesis by (auto simp: wf_LayerProperties_def)
qed

lemma LayerProperties_setters_more [simp]:
  "Properties.more (setName s p) = Properties.more p"
  "Properties.more (setAlpha F v p) = Properties.more p"
  "Properties.more (setRed F v p) = Properties.more p"
  "Properties.more (setGreen F v p) = Properties.more p"
  "Properties.more (setBlue F v p) = Properties.more p"
  "Properties.more (setBrightness F v p) = Properties.more p"
  "Properties.more (setContrast F v p) = Properties.more p"
  "Properties.more (setSaturation F v p) = Properties.more p"
  by (simp_all add: Properties_setter_defs setName_def Let_def)

lemma wf_LayerProperties_setters:
  assumes "clamp_doc F" "wf_LayerProperties F p"
  shows "wf_LayerProperties F (setName s p)" "wf_LayerProperties F (setAlpha F v p)"
    and "wf_LayerProperties F (setRed F v p)" "wf_LayerProperties F (setGreen F v p)"
    and "wf_LayerProperties F (setBlue F v p)" "wf_LayerProperties F (setBrightness F v p)"
    and "wf_LayerProperties F (setContrast F v p)" "wf_LayerProperties F (setSaturation F v p)"
    and "wf_LayerProperties F (Properties_set F k v p)"
  using assms
  by (auto intro: wf_LayerProperties_Properties Properties_wf_setters wf_Properties_set
      simp: Properties_set_frame)

lemma wf_LayerProperties_set:
  assumes "clamp_doc F" "wf_LayerProperties F p" "LayerProperties_set F k v p = Inr p'"
  shows "wf_LayerProperties F p'"
  using assms
  by (cases "float_to_uint (std_round v)")
    (auto simp: LayerProperties_set_def Let_def wf_LayerProperties_setters wf_setBlur
      split: if_splits)

lemma wf_LayerProperties_ctor:
  assumes "clamp_doc F" "blend_doc F"
  shows "wf_LayerProperties F (LayerProperties_ctor F engine ep p)"
proof -
  let ?q = "Properties_reset
    (Properties_ctor p\<lparr>lp_size := SizeProperties_new F engine ep, blendMode := BLEND_ADD F\<rparr>)"
  have wf: "wf_Properties (Properties_reset q)" if "wf_Properties q" for q :: LayerProperties
    using that by (simp add: wf_Properties_def limits_ok_def Properties_reset_def)
  have "wf_LayerProperties F (setBlurV F 0 (setBlurH F 0 ?q))"
    using assms wf [of "Properties_ctor p\<lparr>lp_size := SizeProperties_new F engine ep,
        blendMode := BLEND_ADD F\<rparr>"] wf_Properties_ctor [of p]
    by (auto simp: wf_LayerProperties_def setBlurH_def setBlurV_def blurHLimits_def
        blurVLimits_def ofClamp_id Properties_reset_def wf_SizeProperties_new blend_doc_def)
  from wf_setBlur(2) [OF assms(1) wf_setBlur(1) [OF assms(1)
        wf_LayerProperties_setters(2) [OF assms(1) this]]]
  show ?thesis unfolding LayerProperties_ctor_def LayerProperties_reset_def .
qed

text \<open>On a well-formed object the state is always defined.\<close>

lemma getBlur_defined:
  assumes "wf_LayerProperties F p"
  obtains h v where "getBlurH p = Inr (of_nat h)" "getBlurV p = Inr (of_nat v)"
    "blurH p = real h" "blurV p = real v" "h \<le> 10" "v \<le> 10"
proof -
  obtain h v where hv: "h \<le> 10" "blurH p = real h" "v \<le> 10" "blurV p = real v"
    using assms by (auto simp: wf_LayerProperties_def)
  then have "getBlurH p = Inr (of_nat h)" "getBlurV p = Inr (of_nat v)"
    by (simp_all add: getBlurH_def getBlurV_def float_to_uint_of_nat)
  with hv show ?thesis using that by blast
qed

end
