(* ===== verification/VisualInstancesProperties.thy ===== *)
theory VisualInstancesProperties
  imports LayerProperties
begin

text \<open>
  \<open>Properties/VisualInstancesProperties\<close> and \<open>Properties/SetProperties\<close>: the properties of a
  visual placed on a layer and column, and the one switch of the set.

  The enumerations are kept as their numbers, since the code casts any number to them. The
  two timestamps have no initial value in the code: they start as \<open>junk_ull\<close>.
\<close>

type_synonym LoopMode = uint
type_synonym PlayheadDirection = uint
type_synonym TriggerMode = uint

definition LoopMode_Normal :: LoopMode where "LoopMode_Normal = 1"
definition LoopMode_PingPong :: LoopMode where "LoopMode_PingPong = 2"
definition LoopMode_Inverse :: LoopMode where "LoopMode_Inverse = 3"

definition Direction_Left :: PlayheadDirection where "Direction_Left = 1"
definition Direction_Right :: PlayheadDirection where "Direction_Right = 2"

definition TriggerMode_MouseDown :: TriggerMode where "TriggerMode_MouseDown = 1"
definition TriggerMode_MouseUp :: TriggerMode where "TriggerMode_MouseUp = 2"
definition TriggerMode_Piano :: TriggerMode where "TriggerMode_Piano = 3"

lemmas enum_defs =
  LoopMode_Normal_def LoopMode_PingPong_def LoopMode_Inverse_def
  Direction_Left_def Direction_Right_def
  TriggerMode_MouseDown_def TriggerMode_MouseUp_def TriggerMode_Piano_def

record VisualInstancesProperties = Properties +
  vp_size :: SizeProperties
  zoomX :: real
  zoomY :: real
  centerX :: real
  centerY :: real
  pos_x :: sint32
  pos_y :: sint32
  layerNo :: sint32
  columnNo :: sint32
  retrigger :: bool
  isPlaying :: bool
  percentagePlayed :: real
  startPercentage :: real
  endPercentage :: real
  effects_drywet :: real
  loopMode :: LoopMode
  direction :: PlayheadDirection
  triggerMode :: TriggerMode
  beatSnap :: bool
  isTriggered :: bool
  openedTimestamp :: ulonglong
  lastPlayedTimestamp :: ulonglong
  floatPropertiesLimitsVisualInstances :: limits

type_synonym VIP = VisualInstancesProperties

definition VIP_reset :: "VIP \<Rightarrow> VIP" where
  "VIP_reset p =
     p\<lparr>zoomX := 1, zoomY := 1, centerX := 0, centerY := 0, pos_x := 0, pos_y := 0,
       retrigger := True, effects_drywet := 1/2, isPlaying := False,
       startPercentage := 0, endPercentage := 1, percentagePlayed := 0,
       loopMode := LoopMode_Normal, direction := Direction_Left,
       beatSnap := False, isTriggered := False, triggerMode := TriggerMode_MouseDown,
       columnNo := 0, layerNo := 0\<rparr>"

definition VIP_setLimits :: "VIP \<Rightarrow> VIP" where
  "VIP_setLimits p =
     (let m = floatPropertiesLimitsVisualInstances p;
          m = map_insert m ''zoomX'' 0 8;
          m = map_insert m ''zoomY'' 0 8;
          m = map_insert m ''centerX'' (-2) 2;
          m = map_insert m ''centerY'' (-2) 2;
          m = map_insert m ''startPercentage'' 0 1;
          m = map_insert m ''endPercentage'' 0 1;
          m = map_insert m ''percentagePlayed'' 0 1;
          m = map_insert m ''effects_drywet'' 0 1
      in p\<lparr>floatPropertiesLimitsVisualInstances := m\<rparr>)"

definition VIP_ctor :: "of_api \<Rightarrow> bool \<Rightarrow> EngineProperties \<Rightarrow> VIP \<Rightarrow> VIP" where
  "VIP_ctor F engine ep p =
     VIP_setLimits (VIP_reset
       (Properties_ctor p\<lparr>vp_size := SizeProperties_new F engine ep,
          openedTimestamp := junk_ull F, lastPlayedTimestamp := junk_ull F,
          floatPropertiesLimitsVisualInstances := Map.empty\<rparr>))"

section \<open>Setters\<close>

definition VIP_setLoopMode :: "LoopMode \<Rightarrow> VIP \<Rightarrow> VIP" where
  "VIP_setLoopMode m p = p\<lparr>loopMode := m\<rparr>"

definition setBeatSnap :: "bool \<Rightarrow> VIP \<Rightarrow> VIP" where
  "setBeatSnap v p = p\<lparr>beatSnap := v\<rparr>"

definition setZoomX :: "real \<Rightarrow> VIP \<Rightarrow> VIP" where "setZoomX v p = p\<lparr>zoomX := v\<rparr>"
definition setZoomY :: "real \<Rightarrow> VIP \<Rightarrow> VIP" where "setZoomY v p = p\<lparr>zoomY := v\<rparr>"
definition setCenterX :: "real \<Rightarrow> VIP \<Rightarrow> VIP" where "setCenterX v p = p\<lparr>centerX := v\<rparr>"
definition setCenterY :: "real \<Rightarrow> VIP \<Rightarrow> VIP" where "setCenterY v p = p\<lparr>centerY := v\<rparr>"

definition VIP_setLayer :: "sint32 \<Rightarrow> VIP \<Rightarrow> VIP" where "VIP_setLayer v p = p\<lparr>layerNo := v\<rparr>"
definition VIP_setColumn :: "sint32 \<Rightarrow> VIP \<Rightarrow> VIP" where "VIP_setColumn v p = p\<lparr>columnNo := v\<rparr>"

definition setRetrigger :: "bool \<Rightarrow> VIP \<Rightarrow> VIP" where "setRetrigger v p = p\<lparr>retrigger := v\<rparr>"
definition setIsPlaying :: "bool \<Rightarrow> VIP \<Rightarrow> VIP" where "setIsPlaying v p = p\<lparr>isPlaying := v\<rparr>"

definition setPercentagePlayed :: "of_api \<Rightarrow> real \<Rightarrow> VIP \<Rightarrow> VIP" where
  "setPercentagePlayed F v p = p\<lparr>percentagePlayed := ofClamp F v 0 1\<rparr>"

text \<open>The start is compared before it is assigned; the end is corrected after it is assigned.\<close>

definition setStartPercentage :: "of_api \<Rightarrow> real \<Rightarrow> VIP \<Rightarrow> VIP" where
  "setStartPercentage F v p =
     p\<lparr>startPercentage :=
         (if startPercentage p \<le> endPercentage p then ofClamp F v 0 1 else endPercentage p)\<rparr>"

definition setEndPercentage :: "of_api \<Rightarrow> real \<Rightarrow> VIP \<Rightarrow> VIP" where
  "setEndPercentage F v p =
     (let p = p\<lparr>endPercentage := ofClamp F v 0 1\<rparr>
      in if endPercentage p < startPercentage p then p\<lparr>endPercentage := startPercentage p\<rparr> else p)"

definition setDirection :: "PlayheadDirection \<Rightarrow> VIP \<Rightarrow> VIP" where
  "setDirection v p = p\<lparr>direction := v\<rparr>"

definition setIsTriggered :: "bool \<Rightarrow> VIP \<Rightarrow> VIP" where
  "setIsTriggered v p = p\<lparr>isTriggered := v\<rparr>"

definition setOpenedTimestampToNow :: "ulonglong \<Rightarrow> VIP \<Rightarrow> VIP" where
  "setOpenedTimestampToNow now p = p\<lparr>openedTimestamp := now\<rparr>"

definition setLastPlayedTimestampToNow :: "ulonglong \<Rightarrow> VIP \<Rightarrow> VIP" where
  "setLastPlayedTimestampToNow now p = p\<lparr>lastPlayedTimestamp := now\<rparr>"

definition setTriggerMode :: "TriggerMode \<Rightarrow> VIP \<Rightarrow> VIP" where
  "setTriggerMode v p = p\<lparr>triggerMode := v\<rparr>"

definition setEffectMix :: "of_api \<Rightarrow> real \<Rightarrow> VIP \<Rightarrow> VIP" where
  "setEffectMix F v p =
     (let l = map_index (floatPropertiesLimitsVisualInstances p) ''effects_drywet''
      in p\<lparr>effects_drywet := ofClamp F v (fmin l) (fmax l)\<rparr>)"

lemmas VIP_setter_defs =
  VIP_setLoopMode_def setBeatSnap_def setZoomX_def setZoomY_def setCenterX_def setCenterY_def
  VIP_setLayer_def VIP_setColumn_def setRetrigger_def setIsPlaying_def setPercentagePlayed_def
  setDirection_def setIsTriggered_def setOpenedTimestampToNow_def
  setLastPlayedTimestampToNow_def setTriggerMode_def setEffectMix_def

definition VIP_set :: "of_api \<Rightarrow> string \<Rightarrow> real \<Rightarrow> VIP \<Rightarrow> VIP" where
  "VIP_set F property value p =
     (let p = Properties_set F property value p;
          h = str2int property
      in if h = str2int ''zoomX'' then setZoomX value p
         else if h = str2int ''zoomY'' then setZoomY value p
         else if h = str2int ''centerX'' then setCenterX value p
         else if h = str2int ''centerY'' then setCenterY value p
         else if h = str2int ''percentagePlayed'' then setPercentagePlayed F value p
         else if h = str2int ''startPercentage'' then setStartPercentage F value p
         else if h = str2int ''endPercentage'' then setEndPercentage F value p
         else if h = str2int ''effects_drywet'' then setEffectMix F value p
         else p)"

definition VIP_set_uint :: "string \<Rightarrow> uint \<Rightarrow> VIP \<Rightarrow> VIP" where
  "VIP_set_uint property value p =
     (let h = str2int property
      in if h = str2int ''direction'' then setDirection value p
         else if h = str2int ''loopMode'' then VIP_setLoopMode value p
         else if h = str2int ''triggerMode'' then setTriggerMode value p
         else p)"

section \<open>State as JSON\<close>

abbreviation j_Boolean :: "'j json_api \<Rightarrow> bool \<Rightarrow> 'j" where
  "j_Boolean J b \<equiv> j_uint J (if b then 1 else 0)"

definition VIP_getState :: "'j json_api \<Rightarrow> VIP \<Rightarrow> 'j" where
  "VIP_getState J p =
     fold (\<lambda>(k, v) state. j_set J state k v)
       [(''zoomX'', j_float J (zoomX p)),
        (''zoomY'', j_float J (zoomY p)),
        (''centerX'', j_float J (centerX p)),
        (''centerY'', j_float J (centerY p)),
        (''x'', j_int J (pos_x p)),
        (''y'', j_int J (pos_y p)),
        (''layer'', j_int J (layerNo p)),
        (''column'', j_int J (columnNo p)),
        (''retrigger'', j_Boolean J (retrigger p)),
        (''isPlaying'', j_Boolean J (isPlaying p)),
        (''percentagePlayed'', j_float J (percentagePlayed p)),
        (''startPercentage'', j_float J (startPercentage p)),
        (''endPercentage'', j_float J (endPercentage p)),
        (''effects_drywet'', j_float J (effects_drywet p)),
        (''loopMode'', j_uint J (loopMode p)),
        (''direction'', j_uint J (direction p)),
        (''beatSnap'', j_Boolean J (beatSnap p)),
        (''isTriggered'', j_Boolean J (isTriggered p)),
        (''openedTimestamp'', j_ull J (openedTimestamp p)),
        (''lastPlayedTimestamp'', j_ull J (lastPlayedTimestamp p)),
        (''triggerMode'', j_uint J (triggerMode p))]
       (SizeProperties_getState J (vp_size p) (Properties_getState J p))"

definition toggle_descr ::
  "'j json_api \<Rightarrow> string \<Rightarrow> uint \<Rightarrow> (string \<times> uint) list \<Rightarrow> 'j" where
  "toggle_descr J title value options =
     j_obj J [(''title'', j_string J title),
              (''type'', j_int J (StateType_num StateType_ToggleButtonGroup)),
              (''value'', j_uint J value),
              (''options'', j_arr J (map (\<lambda>(t, v).
                 j_obj J [(''title'', j_string J t), (''value'', j_uint J v)]) options))]"

definition VIP_getFullState :: "'j json_api \<Rightarrow> VIP \<Rightarrow> 'j" where
  "VIP_getFullState J p =
     (let descr = (\<lambda>key title value.
            (key, j_obj J (float_descr J (floatPropertiesLimitsVisualInstances p) key title value)))
      in fold (\<lambda>(k, v) fullState. j_set J fullState k v)
          [descr ''zoomX'' ''Zoom X'' (zoomX p),
           descr ''zoomY'' ''Zoom Y'' (zoomY p),
           descr ''centerX'' ''Center X'' (centerX p),
           descr ''centerY'' ''Center Y'' (centerY p),
           descr ''startPercentage'' ''Start'' (startPercentage p),
           descr ''endPercentage'' ''End'' (endPercentage p),
           descr ''percentagePlayed'' ''Percentage Played'' (percentagePlayed p),
           descr ''effects_drywet'' ''Dry/Wet'' (effects_drywet p),
           (''loopMode'', toggle_descr J ''Loop Mode'' (loopMode p)
              [(''Normal'', LoopMode_Normal), (''Ping Pong'', LoopMode_PingPong),
               (''Inverse'', LoopMode_Inverse)]),
           (''direction'', toggle_descr J ''Direction'' (direction p)
              [(''Left'', Direction_Left), (''Right'', Direction_Right)]),
           (''triggerMode'', toggle_descr J ''Trigger Mode'' (triggerMode p)
              [(''Mouse Down'', TriggerMode_MouseDown), (''Mouse Up'', TriggerMode_MouseUp),
               (''Piano'', TriggerMode_Piano)])]
          (SizeProperties_getFullState J (vp_size p) (Properties_getFullState J p)))"

section \<open>Well-formedness\<close>

text \<open>
  The clamped properties are within their limits. The zooms and centers have limits in the
  map but are stored as given, and the start may pass the end, so neither is part of it.
\<close>

definition wf_VIP :: "VIP \<Rightarrow> bool" where
  "wf_VIP p \<longleftrightarrow>
     wf_Properties p \<and> wf_SizeProperties (vp_size p) \<and>
     map_index (floatPropertiesLimitsVisualInstances p) ''effects_drywet'' =
       \<lparr>fmin = 0, fmax = 1\<rparr> \<and>
     0 \<le> effects_drywet p \<and> effects_drywet p \<le> 1 \<and>
     0 \<le> percentagePlayed p \<and> percentagePlayed p \<le> 1 \<and>
     0 \<le> startPercentage p \<and> startPercentage p \<le> 1 \<and>
     0 \<le> endPercentage p \<and> endPercentage p \<le> 1"

lemma wf_VIP_ctor: "wf_VIP (VIP_ctor F engine ep p)"
  using wf_Properties_ctor [of p]
  by (simp add: wf_VIP_def VIP_ctor_def VIP_setLimits_def VIP_reset_def wf_SizeProperties_new
      map_index_insert wf_Properties_def limits_ok_def)

lemma Properties_set_VIP_frame:
  fixes p :: VIP
  shows "vp_size (Properties_set F k v p) = vp_size p"
    and "effects_drywet (Properties_set F k v p) = effects_drywet p"
    and "percentagePlayed (Properties_set F k v p) = percentagePlayed p"
    and "startPercentage (Properties_set F k v p) = startPercentage p"
    and "endPercentage (Properties_set F k v p) = endPercentage p"
    and "floatPropertiesLimitsVisualInstances (Properties_set F k v p) =
      floatPropertiesLimitsVisualInstances p"
  by (simp_all add: Properties_set_def Let_def Properties_setter_defs)

lemma wf_VIP_Properties_set:
  "clamp_doc F \<Longrightarrow> wf_VIP p \<Longrightarrow> wf_VIP (Properties_set F k v p)"
  by (simp add: wf_VIP_def wf_Properties_set Properties_set_VIP_frame)

lemma wf_Properties_VIP_fields [simp]:
  fixes p :: VIP
  shows "wf_Properties (p\<lparr>zoomX := a\<rparr>) = wf_Properties p"
    and "wf_Properties (p\<lparr>zoomY := a\<rparr>) = wf_Properties p"
    and "wf_Properties (p\<lparr>centerX := a\<rparr>) = wf_Properties p"
    and "wf_Properties (p\<lparr>centerY := a\<rparr>) = wf_Properties p"
    and "wf_Properties (p\<lparr>percentagePlayed := a\<rparr>) = wf_Properties p"
    and "wf_Properties (p\<lparr>startPercentage := a\<rparr>) = wf_Properties p"
    and "wf_Properties (p\<lparr>endPercentage := a\<rparr>) = wf_Properties p"
    and "wf_Properties (p\<lparr>effects_drywet := a\<rparr>) = wf_Properties p"
    and "wf_Properties (p\<lparr>layerNo := i\<rparr>) = wf_Properties p"
    and "wf_Properties (p\<lparr>columnNo := i\<rparr>) = wf_Properties p"
    and "wf_Properties (p\<lparr>retrigger := b\<rparr>) = wf_Properties p"
    and "wf_Properties (p\<lparr>isPlaying := b\<rparr>) = wf_Properties p"
    and "wf_Properties (p\<lparr>loopMode := n\<rparr>) = wf_Properties p"
    and "wf_Properties (p\<lparr>direction := n\<rparr>) = wf_Properties p"
    and "wf_Properties (p\<lparr>triggerMode := n\<rparr>) = wf_Properties p"
    and "wf_Properties (p\<lparr>beatSnap := b\<rparr>) = wf_Properties p"
    and "wf_Properties (p\<lparr>isTriggered := b\<rparr>) = wf_Properties p"
    and "wf_Properties (p\<lparr>openedTimestamp := t\<rparr>) = wf_Properties p"
    and "wf_Properties (p\<lparr>lastPlayedTimestamp := t\<rparr>) = wf_Properties p"
  by (simp_all add: wf_Properties_def limits_ok_def)

interpretation percentagePlayed_prop:
  bounded_setter setPercentagePlayed percentagePlayed 0 1 wf_VIP
  by unfold_locales (auto simp: setPercentagePlayed_def wf_VIP_def ofClamp_range)

interpretation effects_drywet_prop:
  bounded_setter setEffectMix effects_drywet 0 1 wf_VIP
  by unfold_locales (auto simp: setEffectMix_def Let_def wf_VIP_def ofClamp_range)

lemma wf_VIP_setStartPercentage:
  "clamp_doc F \<Longrightarrow> wf_VIP p \<Longrightarrow> wf_VIP (setStartPercentage F v p)"
  by (simp add: wf_VIP_def setStartPercentage_def ofClamp_range)

lemma wf_VIP_setEndPercentage:
  "clamp_doc F \<Longrightarrow> wf_VIP p \<Longrightarrow> wf_VIP (setEndPercentage F v p)"
  by (simp add: wf_VIP_def setEndPercentage_def Let_def ofClamp_range)

lemma wf_VIP_plain_setters [simp]:
  "wf_VIP (setZoomX a p) = wf_VIP p" "wf_VIP (setZoomY a p) = wf_VIP p"
  "wf_VIP (setCenterX a p) = wf_VIP p" "wf_VIP (setCenterY a p) = wf_VIP p"
  "wf_VIP (VIP_setLayer i p) = wf_VIP p" "wf_VIP (VIP_setColumn i p) = wf_VIP p"
  "wf_VIP (setIsPlaying b p) = wf_VIP p" "wf_VIP (setIsTriggered b p) = wf_VIP p"
  "wf_VIP (setDirection n p) = wf_VIP p" "wf_VIP (VIP_setLoopMode n p) = wf_VIP p"
  "wf_VIP (setTriggerMode n p) = wf_VIP p" "wf_VIP (setBeatSnap b p) = wf_VIP p"
  "wf_VIP (setRetrigger b p) = wf_VIP p" "wf_VIP (setOpenedTimestampToNow t p) = wf_VIP p"
  "wf_VIP (setLastPlayedTimestampToNow t p) = wf_VIP p"
  by (simp_all add: wf_VIP_def VIP_setter_defs)

lemma wf_VIP_set: "clamp_doc F \<Longrightarrow> wf_VIP p \<Longrightarrow> wf_VIP (VIP_set F k v p)"
  by (simp add: VIP_set_def Let_def wf_VIP_Properties_set wf_VIP_setStartPercentage
      wf_VIP_setEndPercentage percentagePlayed_prop.wf_set effects_drywet_prop.wf_set)

lemma wf_VIP_set_uint: "wf_VIP p \<Longrightarrow> wf_VIP (VIP_set_uint k n p)"
  by (simp add: VIP_set_uint_def Let_def)

text \<open>The end setter restores the order of the two marks whatever it was before.\<close>

lemma setEndPercentage_ordered:
  "startPercentage (setEndPercentage F v p) \<le> endPercentage (setEndPercentage F v p)"
  by (simp add: setEndPercentage_def Let_def)

lemma setEndPercentage_value:
  "endPercentage (setEndPercentage F v p) = max (ofClamp F v 0 1) (startPercentage p)"
  by (simp add: setEndPercentage_def Let_def)

lemma setStartPercentage_value:
  "startPercentage (setStartPercentage F v p) =
     (if startPercentage p \<le> endPercentage p then ofClamp F v 0 1 else endPercentage p)"
  "endPercentage (setStartPercentage F v p) = endPercentage p"
  by (simp_all add: setStartPercentage_def)

section \<open>SetProperties\<close>

record SetProperties =
  stopCurrentVisualIfTriggeredInvalid :: bool

definition SetProperties_new :: SetProperties where
  "SetProperties_new = \<lparr>stopCurrentVisualIfTriggeredInvalid = True\<rparr>"

definition setStopCurrentVisualIfTriggeredInvalid ::
  "bool \<Rightarrow> SetProperties \<Rightarrow> SetProperties" where
  "setStopCurrentVisualIfTriggeredInvalid v p = p\<lparr>stopCurrentVisualIfTriggeredInvalid := v\<rparr>"

end
