(* ===== verification/Controllers.thy ===== *)
theory Controllers
  imports Utils
begin

text \<open>
  \<open>Inputs/Controller\<close> and \<open>Main/Action\<close>: the controllers of the keyboard and of MIDI devices
  and the actions they run. What an action does to the engine is in the theory of the engine;
  here are the objects, the default controllers and the names of MIDI keys. Nothing in the
  program sets the callback of a controller, so that member stays null and is left out.
\<close>

section \<open>Actions\<close>

datatype ActionType = TriggerVisual | ChangeLayer | ChangeParameter

record TriggerVisualAction =
  tv_layer :: sint32
  tv_column :: sint32

record ChangeLayerAction =
  cl_layer :: sint32

record Action =
  action_type :: ActionType
  triggerVisualAction :: "TriggerVisualAction option"
  changeLayerAction :: "ChangeLayerAction option"

definition Action_new :: "ActionType \<Rightarrow> Action" where
  "Action_new t = \<lparr>action_type = t, triggerVisualAction = None, changeLayerAction = None\<rparr>"

definition setTriggerVisualAction :: "TriggerVisualAction \<Rightarrow> Action \<Rightarrow> Action" where
  "setTriggerVisualAction x a = a\<lparr>triggerVisualAction := Some x\<rparr>"

definition setChangeLayerAction :: "ChangeLayerAction \<Rightarrow> Action \<Rightarrow> Action" where
  "setChangeLayerAction x a = a\<lparr>changeLayerAction := Some x\<rparr>"

definition newTriggerVisualAction :: "sint32 \<Rightarrow> sint32 \<Rightarrow> Action" where
  "newTriggerVisualAction layer column =
     setTriggerVisualAction \<lparr>tv_layer = layer, tv_column = column\<rparr> (Action_new TriggerVisual)"

definition newChangeLayerAction :: "sint32 \<Rightarrow> Action" where
  "newChangeLayerAction layer =
     setChangeLayerAction \<lparr>cl_layer = layer\<rparr> (Action_new ChangeLayer)"

section \<open>Controllers\<close>

datatype ControllerType = KeyController | MIDIController | SignalController

record Controller =
  c_type :: ControllerType
  c_control :: sint32
  c_value :: sint32
  c_midiStatus :: sint32
  c_action :: "Action option"

text \<open>The value and the MIDI status have no initial value.\<close>

definition Controller_new :: "of_api \<Rightarrow> ControllerType \<Rightarrow> sint32 \<Rightarrow> Controller" where
  "Controller_new F t k =
     \<lparr>c_type = t, c_control = k, c_value = junk_int F, c_midiStatus = junk_int F, c_action = None\<rparr>"

definition Controller_setValue :: "sint32 \<Rightarrow> Controller \<Rightarrow> Controller" where
  "Controller_setValue v c = c\<lparr>c_value := v\<rparr>"

definition Controller_setAction :: "Action \<Rightarrow> Controller \<Rightarrow> Controller" where
  "Controller_setAction a c = c\<lparr>c_action := Some a\<rparr>"

definition addController :: "Controller \<Rightarrow> Controller list \<Rightarrow> Controller list" where
  "addController c cs = cs @ [c]"

text \<open>
  The two maps of the default controllers, in the order of their keys, which is the order a
  \<open>std::map\<close> is traversed in.
\<close>

definition triggerKeys :: "(sint32 \<times> sint32 \<times> sint32) list" where
  "triggerKeys =
     [(0, 1, 1), (1, 1, 2), (2, 1, 3), (3, 1, 4),
      (6, 2, 2), (7, 2, 3), (8, 2, 4),
      (12, 0, 1), (13, 0, 2), (14, 0, 3), (15, 0, 4),
      (50, 2, 1)]"

definition layerKeys :: "(sint32 \<times> sint32) list" where
  "layerKeys = [(18, 1), (19, 2), (20, 3), (21, 4)]"

definition initDefaultControllers :: "of_api \<Rightarrow> Controller list \<Rightarrow> Controller list" where
  "initDefaultControllers F cs =
     fold (\<lambda>(k, l) cs. addController
             (Controller_setAction (newChangeLayerAction l) (Controller_new F KeyController k)) cs)
       layerKeys
       (fold (\<lambda>(k, l, c) cs. addController
                (Controller_setAction (newTriggerVisualAction l c) (Controller_new F KeyController k)) cs)
          triggerKeys cs)"

text \<open>\<open>getRecord\<close> reads a vector without a check.\<close>

definition getRecord :: "sint32 \<Rightarrow> Controller list \<Rightarrow> Controller res" where
  "getRecord n cs =
     (case nth_opt cs (unat n) of None \<Rightarrow> Inl (UB OutOfBounds) | Some c \<Rightarrow> Inr c)"

definition getRecordNum :: "Controller list \<Rightarrow> sint32" where
  "getRecordNum cs = size32 cs"

section \<open>Names of MIDI keys\<close>

definition MIDIKeysNames :: "string list" where
  "MIDIKeysNames =
     [
      ''C-2'', ''C#-2'', ''D-2'', ''D#-2'', ''E-2'', ''F-2'', ''F#-2'', ''G-2'', ''G#-2'', ''A-2'', ''A#-2'', ''B-2'',
      ''C-1'', ''C#-1'', ''D-1'', ''D#-1'', ''E-1'', ''F-1'', ''F#-1'', ''G-1'', ''G#-1'', ''A-1'', ''A#-1'', ''B-1'',
      ''C0'', ''C#0'', ''D0'', ''D#0'', ''E0'', ''F0'', ''F#0'', ''G0'', ''G#0'', ''A0'', ''A#0'', ''B0'',
      ''C1'', ''C#1'', ''D1'', ''D#1'', ''E1'', ''F1'', ''F#1'', ''G1'', ''G#1'', ''A1'', ''A#1'', ''B1'',
      ''C2'', ''C#2'', ''D2'', ''D#2'', ''E2'', ''F2'', ''F#2'', ''G2'', ''G#2'', ''A2'', ''A#2'', ''B2'',
      ''C3'', ''C#3'', ''D3'', ''D#3'', ''E3'', ''F3'', ''F#3'', ''G3'', ''G#3'', ''A3'', ''A#3'', ''B3'',
      ''C4'', ''C#4'', ''D4'', ''D#4'', ''E4'', ''F4'', ''F#4'', ''G4'', ''G#4'', ''A4'', ''A#4'', ''B4'',
      ''C5'', ''C#5'', ''D5'', ''D#5'', ''E5'', ''F5'', ''F#5'', ''G5'', ''G#5'', ''A5'', ''A#5'', ''B5'',
      ''C6'', ''C#6'', ''D6'', ''D#6'', ''E6'', ''F6'', ''F#6'', ''G6'', ''G#6'', ''A6'', ''A#6'', ''B6'',
      ''C7'', ''C#7'', ''D7'', ''D#7'', ''E7'', ''F7'', ''F#7'', ''G7'', ''G#7'', ''A7'', ''A#7'', ''B7'',
      ''C8'', ''C#8'', ''D8'', ''D#8'', ''E8'', ''F8'', ''F#8'', ''G8'']"

definition getMIDIKeyName :: "sint32 \<Rightarrow> string res" where
  "getMIDIKeyName position =
     (case nth_opt MIDIKeysNames (unat position) of
        None \<Rightarrow> Inl (UB OutOfBounds) | Some n \<Rightarrow> Inr n)"

section \<open>Properties\<close>

text \<open>The name of a key from its number: the note of the octave, and octaves from -2 to 8.\<close>

definition note_names :: "string list" where
  "note_names = [''C'', ''C#'', ''D'', ''D#'', ''E'', ''F'', ''F#'', ''G'', ''G#'', ''A'', ''A#'', ''B'']"

definition octave_names :: "string list" where
  "octave_names = [''-2'', ''-1'', ''0'', ''1'', ''2'', ''3'', ''4'', ''5'', ''6'', ''7'', ''8'']"

lemma MIDIKeysNames_table:
  "MIDIKeysNames = map (\<lambda>n. note_names ! (n mod 12) @ octave_names ! (n div 12)) [0..<128]"
  by (simp add: MIDIKeysNames_def note_names_def octave_names_def upt_conv_Cons)

text \<open>
  The table of key names covers exactly the 128 MIDI keys and gives each its note and
  octave; any other number reads outside the table.
\<close>

theorem midi_key_name:
  "getMIDIKeyName k =
     (if unat k < 128 then Inr (note_names ! (unat k mod 12) @ octave_names ! (unat k div 12))
      else Inl (UB OutOfBounds))"
  by (simp add: getMIDIKeyName_def nth_opt_def MIDIKeysNames_table)

text \<open>
  The default controllers are key controllers for sixteen different keys, each with an
  action: twelve that trigger a visual on layers 0 to 2 and columns 1 to 4, and four that
  select the layers 1 to 4.
\<close>

lemma default_controllers:
  "length (initDefaultControllers F []) = 16 \<and>
   distinct (map c_control (initDefaultControllers F [])) \<and>
   list_all (\<lambda>c. c_type c = KeyController \<and> c_action c \<noteq> None) (initDefaultControllers F []) \<and>
   map (\<lambda>c. the (c_action c)) (drop 12 (initDefaultControllers F [])) = map newChangeLayerAction [1, 2, 3, 4]"
  by (simp add: initDefaultControllers_def triggerKeys_def layerKeys_def addController_def
      Controller_setAction_def Controller_new_def)

end
