(* ===== verification/Store.thy ===== *)
theory Store
  imports VisualInstancesProperties Controllers
begin

text \<open>
  The objects of the engine and the store they live in: the classes of the headers under
  \<open>Visuals/\<close> and \<open>Main/\<close> as records, the singletons and the heap as one record. An object
  that is reached through pointers kept in several places (a visual, a visual instance, a
  scene) has an address in a heap; a freed address is not in the heap any more, so that a
  pointer that still holds it is dangling. A layer is only reached through the layers list
  and is an element of that list. A null pointer is \<open>None\<close>.
\<close>

section \<open>Visuals\<close>

datatype VisualType =
    VisualType_Video
  | VisualType_Camera
  | VisualType_Syphon
  | VisualType_Generator

primrec VisualType_num :: "VisualType \<Rightarrow> sint32" where
  "VisualType_num VisualType_Video = 0"
| "VisualType_num VisualType_Camera = 1"
| "VisualType_num VisualType_Syphon = 2"
| "VisualType_num VisualType_Generator = 3"

record VisualVideo =
  video_filePath :: string
  video_loaded :: bool

record VisualCamera =
  ready :: bool
  openTimestamp :: ulonglong
  deviceId :: uint
  frameRate :: uint
  cam_width :: uint
  cam_height :: uint
  isOpened :: bool

record VisualSyphon =
  active :: bool
  loadTimestamp :: ulonglong
  screenshotGenerated :: bool
  serverName :: string
  appName :: string

text \<open>
  The derived class of a visual, which is also what \<open>getType\<close> tells: each constructor sets
  the type of its class.
\<close>

datatype VisualPart =
    Video VisualVideo
  | Camera VisualCamera
  | Syphon VisualSyphon

record Visual =
  caption :: string
  thumbnailPath :: string
  part :: VisualPart

primrec part_type :: "VisualPart \<Rightarrow> VisualType" where
  "part_type (Video _) = VisualType_Video"
| "part_type (Camera _) = VisualType_Camera"
| "part_type (Syphon _) = VisualType_Syphon"

definition getType :: "Visual \<Rightarrow> VisualType" where
  "getType v = part_type (part v)"

section \<open>Visual instances, layers, scenes, the set and the engine\<close>

record 'v VisualInstance =
  vi_properties :: VIP
  videoX :: sint32
  videoY :: sint32
  videoWidth :: sint32
  videoHeight :: sint32
  visual :: "addr option"
  video :: 'v

record Layer =
  l_properties :: LayerProperties
  layerNumber :: uint
  activeInstance :: "addr option"
  schedulledInstance :: "addr option"
  l_buffer :: "(uint \<times> uint) option"

record Scene =
  sceneName :: string
  visualInstances :: "addr list"

record SetData =
  loaded :: bool
  filePath :: string
  nLayers :: uint
  currentSceneNumber :: uint
  currentScene :: "addr option"

record metronome =
  BPM :: uint
  beatDuration :: uint
  beatCount :: uint
  longBeatCount :: uint
  threadRunning :: bool

record Engine =
  controllers :: "Controller list"
  setOpened :: bool
  buffer :: "(uint \<times> uint) option"
  metronomeThreadObj :: metronome
  setProperties :: SetProperties
  layersPreview_Columns :: uint
  beatCallback :: bool

record 'v Store =
  s_engine :: "Engine option"
  s_ep :: EngineProperties
  s_layers :: "Layer list"
  s_visuals :: "addr list"
  s_vheap :: "addr \<rightharpoonup> Visual"
  s_scenes :: "addr list"
  s_sheap :: "addr \<rightharpoonup> Scene"
  s_iheap :: "addr \<rightharpoonup> 'v VisualInstance"
  s_next :: addr
  s_set :: SetData
  s_files :: "string \<rightharpoonup> string"

text \<open>\<open>Engine::getInstance() != NULL\<close>\<close>

abbreviation has_engine :: "'v Store \<Rightarrow> bool" where
  "has_engine s \<equiv> s_engine s \<noteq> None"

text \<open>The singletons when the program starts, before an engine is made.\<close>

definition Store_init :: "'v Store" where
  "Store_init =
     \<lparr>s_engine = None, s_ep = EngineProperties_init, s_layers = [], s_visuals = [],
      s_vheap = Map.empty, s_scenes = [], s_sheap = Map.empty, s_iheap = Map.empty, s_next = 0,
      s_set = \<lparr>loaded = False, filePath = [], nLayers = 0, currentSceneNumber = 0,
               currentScene = None\<rparr>,
      s_files = Map.empty\<rparr>"

section \<open>Access\<close>

text \<open>\<open>EngineProperties::getInstance()\<close> followed by a getter, and followed by a setter.\<close>

definition getEP :: "of_api \<Rightarrow> (EngineProperties \<Rightarrow> 'a) \<Rightarrow> ('v Store, 'a) cxx" where
  "getEP F g = (\<lambda>s. let ep = EP_getInstance F (s_ep s) in (Inr (g ep), s\<lparr>s_ep := ep\<rparr>))"

definition modEP :: "of_api \<Rightarrow> (EngineProperties \<Rightarrow> EngineProperties) \<Rightarrow> ('v Store, unit) cxx" where
  "modEP F f = modS (\<lambda>s. s\<lparr>s_ep := f (EP_getInstance F (s_ep s))\<rparr>)"

definition deref :: "('s \<Rightarrow> addr \<rightharpoonup> 'a) \<Rightarrow> addr \<Rightarrow> ('s, 'a) cxx" where
  "deref h a = (\<lambda>s. case h s a of None \<Rightarrow> (Inl (UB DanglingDeref), s) | Some x \<Rightarrow> (Inr x, s))"

definition deref_ptr :: "('s \<Rightarrow> addr \<rightharpoonup> 'a) \<Rightarrow> addr option \<Rightarrow> ('s, 'a) cxx" where
  "deref_ptr h p = (case p of None \<Rightarrow> throw (UB NullDeref) | Some a \<Rightarrow> deref h a)"

definition modI ::
  "addr \<Rightarrow> ('v VisualInstance \<Rightarrow> 'v VisualInstance) \<Rightarrow> ('v Store, unit) cxx" where
  "modI a f =
     bindX (deref s_iheap a) (\<lambda>i. modS (\<lambda>s. s\<lparr>s_iheap := (s_iheap s)(a \<mapsto> f i)\<rparr>))"

definition modV :: "addr \<Rightarrow> (Visual \<Rightarrow> Visual) \<Rightarrow> ('v Store, unit) cxx" where
  "modV a f =
     bindX (deref s_vheap a) (\<lambda>v. modS (\<lambda>s. s\<lparr>s_vheap := (s_vheap s)(a \<mapsto> f v)\<rparr>))"

definition modScene :: "addr \<Rightarrow> (Scene \<Rightarrow> Scene) \<Rightarrow> ('v Store, unit) cxx" where
  "modScene a f =
     bindX (deref s_sheap a) (\<lambda>x. modS (\<lambda>s. s\<lparr>s_sheap := (s_sheap s)(a \<mapsto> f x)\<rparr>))"

text \<open>A change of the properties of an instance.\<close>

abbreviation modP :: "addr \<Rightarrow> (VIP \<Rightarrow> VIP) \<Rightarrow> ('v Store, unit) cxx" where
  "modP a f \<equiv> modI a (\<lambda>i. i\<lparr>vi_properties := f (vi_properties i)\<rparr>)"

definition newI :: "'v VisualInstance \<Rightarrow> ('v Store, addr) cxx" where
  "newI i =
     (\<lambda>s. (Inr (s_next s),
           s\<lparr>s_iheap := (s_iheap s)(s_next s \<mapsto> i), s_next := Suc (s_next s)\<rparr>))"

definition newV :: "Visual \<Rightarrow> ('v Store, addr) cxx" where
  "newV v =
     (\<lambda>s. (Inr (s_next s),
           s\<lparr>s_vheap := (s_vheap s)(s_next s \<mapsto> v), s_next := Suc (s_next s)\<rparr>))"

definition newScene :: "Scene \<Rightarrow> ('v Store, addr) cxx" where
  "newScene x =
     (\<lambda>s. (Inr (s_next s),
           s\<lparr>s_sheap := (s_sheap s)(s_next s \<mapsto> x), s_next := Suc (s_next s)\<rparr>))"

lemma deref_run [simp]:
  "h s a = Some x \<Longrightarrow> deref h a s = (Inr x, s)"
  "h s a = None \<Longrightarrow> deref h a s = (Inl (UB DanglingDeref), s)"
  by (simp_all add: deref_def)

lemma deref_ptr_run [simp]:
  "deref_ptr h None s = (Inl (UB NullDeref), s)"
  "deref_ptr h (Some a) = deref h a"
  by (simp_all add: deref_ptr_def)

lemma modI_run [simp]:
  "s_iheap s a = Some i \<Longrightarrow> modI a f s = (Inr (), s\<lparr>s_iheap := (s_iheap s)(a \<mapsto> f i)\<rparr>)"
  "s_iheap s a = None \<Longrightarrow> modI a f s = (Inl (UB DanglingDeref), s)"
  by (simp_all add: modI_def)

lemma modV_run [simp]:
  "s_vheap s a = Some v \<Longrightarrow> modV a f s = (Inr (), s\<lparr>s_vheap := (s_vheap s)(a \<mapsto> f v)\<rparr>)"
  "s_vheap s a = None \<Longrightarrow> modV a f s = (Inl (UB DanglingDeref), s)"
  by (simp_all add: modV_def)

lemma modScene_run [simp]:
  "s_sheap s a = Some x \<Longrightarrow> modScene a f s = (Inr (), s\<lparr>s_sheap := (s_sheap s)(a \<mapsto> f x)\<rparr>)"
  "s_sheap s a = None \<Longrightarrow> modScene a f s = (Inl (UB DanglingDeref), s)"
  by (simp_all add: modScene_def)

lemma getEP_run [simp]:
  "getEP F g s = (Inr (g (EP_getInstance F (s_ep s))), s\<lparr>s_ep := EP_getInstance F (s_ep s)\<rparr>)"
  by (simp add: getEP_def Let_def)

lemma modEP_run [simp]:
  "modEP F f s = (Inr (), s\<lparr>s_ep := f (EP_getInstance F (s_ep s))\<rparr>)"
  by (simp add: modEP_def)

lemma new_run [simp]:
  "newI i s = (Inr (s_next s),
     s\<lparr>s_iheap := (s_iheap s)(s_next s \<mapsto> i), s_next := Suc (s_next s)\<rparr>)"
  "newV v s = (Inr (s_next s),
     s\<lparr>s_vheap := (s_vheap s)(s_next s \<mapsto> v), s_next := Suc (s_next s)\<rparr>)"
  "newScene x s = (Inr (s_next s),
     s\<lparr>s_sheap := (s_sheap s)(s_next s \<mapsto> x), s_next := Suc (s_next s)\<rparr>)"
  by (simp_all add: newI_def newV_def newScene_def)

section \<open>What a change of the store keeps\<close>

text \<open>
  An observation \<open>P\<close> of the store is untouched by a function when it only changes other
  fields. \<open>frame g m\<close>: \<open>m\<close> leaves \<open>g\<close> as it was, whether it returns or throws.
\<close>

definition frame :: "('s \<Rightarrow> 'a) \<Rightarrow> ('s, 'b) cxx \<Rightarrow> bool" where
  "frame g m \<longleftrightarrow> (\<forall>s. g (snd (m s)) = g s)"

named_theorems frame_intros

lemma frameI: "(\<And>s. g (snd (m s)) = g s) \<Longrightarrow> frame g m"
  by (simp add: frame_def)

lemma frameD: "frame g m \<Longrightarrow> m s = (r, s') \<Longrightarrow> g s' = g s"
  by (metis frame_def snd_conv)

lemma frame_basic [frame_intros]:
  "frame g (ret a)" "frame g (throw e)" "frame g (getS f)" "frame g (liftR r)" "frame g (deref h p)"
  by (auto simp: frame_def deref_def split: option.split)

lemma frame_deref_ptr [frame_intros]: "frame g (deref_ptr h p)"
  by (auto simp: frame_def deref_ptr_def deref_def split: option.split)

lemma frame_modS: "(\<And>s. g (f s) = g s) \<Longrightarrow> frame g (modS f)"
  by (simp add: frame_def)

lemma frame_bindX [frame_intros]:
  "frame g m \<Longrightarrow> (\<And>a. frame g (f a)) \<Longrightarrow> frame g (bindX m f)"
  by (auto simp: frame_def bindX_def split: prod.split sum.split) (metis snd_conv)+

lemma frame_thenX [frame_intros]: "frame g m \<Longrightarrow> frame g n \<Longrightarrow> frame g (thenX m n)"
  by (simp add: thenX_def frame_bindX)

lemma frame_whenX [frame_intros]: "frame g m \<Longrightarrow> frame g (whenX b m)"
  by (simp add: whenX_def frame_basic)

lemma frame_if [frame_intros]: "frame g m \<Longrightarrow> frame g n \<Longrightarrow> frame g (if b then m else n)"
  by simp

lemma frame_case_option [frame_intros]:
  "frame g m \<Longrightarrow> (\<And>x. frame g (f x)) \<Longrightarrow> frame g (case o' of None \<Rightarrow> m | Some x \<Rightarrow> f x)"
  by (simp split: option.split)

lemma frame_case_part [frame_intros]:
  "(\<And>x. frame g (f x)) \<Longrightarrow> (\<And>x. frame g (h x)) \<Longrightarrow> (\<And>x. frame g (k x)) \<Longrightarrow>
     frame g (case p of Video x \<Rightarrow> f x | Camera x \<Rightarrow> h x | Syphon x \<Rightarrow> k x)"
  by (simp split: VisualPart.split)

lemma frame_case_prod [frame_intros]:
  "(\<And>a b. frame g (f a b)) \<Longrightarrow> frame g (case p of (a, b) \<Rightarrow> f a b)"
  by (simp split: prod.split)

lemma frame_forX [frame_intros]: "(\<And>x. frame g (f x)) \<Longrightarrow> frame g (forX xs f)"
  by (induction xs) (simp_all add: frame_intros)

lemma frame_heap [frame_intros]:
  assumes "\<And>s f. g (s_iheap_update f s) = g s"
  shows "frame g (modI a u)"
  unfolding modI_def by (intro frame_intros frame_modS) (use assms in simp)

lemma frame_vheap [frame_intros]:
  assumes "\<And>s f. g (s_vheap_update f s) = g s"
  shows "frame g (modV a u)"
  unfolding modV_def by (intro frame_intros frame_modS) (use assms in simp)

lemma frame_ep [frame_intros]:
  assumes "\<And>s f. g (s_ep_update f s) = g s"
  shows "frame g (getEP F u)" "frame g (modEP F v)"
  by (auto intro!: frameI) (use assms in simp)+

end
