(* ===== verification/Visuals.thy ===== *)
theory Visuals
  imports Store
begin

text \<open>
  \<open>Visuals/Visual\<close>, \<open>VisualVideo\<close>, \<open>VisualCamera\<close>, \<open>VisualSyphon\<close> and the list of all visuals
  (\<open>Visuals/Visuals\<close>). Drawing, images and devices are outside the model; what is modelled is
  the state of the objects, the list, the checks and the exceptions.
\<close>

section \<open>Interface of an indexed collection\<close>

text \<open>
  The layers, visuals and scenes are lists that clients read by a number: the element at
  that position, or a null pointer.
\<close>

locale indexed =
  fixes elems :: "'s \<Rightarrow> 'a list"
    and lookup :: "'s \<Rightarrow> uint \<Rightarrow> 'a option"
  assumes lookup_nth: "length (elems s) < 2 ^ 31 \<Longrightarrow> lookup s i = nth_opt (elems s) (unat i)"
begin

lemma lookup_None: "length (elems s) < 2 ^ 31 \<Longrightarrow> lookup s i = None \<longleftrightarrow> length (elems s) \<le> unat i"
  by (simp add: lookup_nth)

lemma lookup_in_set: "length (elems s) < 2 ^ 31 \<Longrightarrow> lookup s i = Some x \<Longrightarrow> x \<in> set (elems s)"
  by (auto simp: lookup_nth nth_opt_Some)

lemma lookup_appended:
  assumes "elems s' = elems s @ [x]" "length (elems s') < 2 ^ 31"
  shows "lookup s' (size32 (elems s)) = Some x"
  using assms by (simp add: lookup_nth nth_opt_Some unat_of_nat)

lemma lookup_kept:
  assumes "elems s' = elems s @ xs" "length (elems s') < 2 ^ 31" "lookup s i = Some y"
  shows "lookup s' i = Some y"
  using assms by (auto simp: lookup_nth nth_opt_Some nth_append)

end

section \<open>Thumbnails and paths\<close>

text \<open>\<open>Engine::calculateThumbnailPath\<close>\<close>

definition calculateThumbnailPath :: "of_api \<Rightarrow> string \<Rightarrow> ('v Store, string) cxx" where
  "calculateThumbnailPath F path =
     (if path = [] then throw (StdException ''Path is empty.'') else
      let md5FileName = md5 F (getFileName F path) in
      bindX (getEP F appSupportDir) (\<lambda>dir.
      ret (dir @ ''cache/thumbnails/'' @ md5FileName @ ''.jpg'')))"

definition findAbsolutePath :: "of_api \<Rightarrow> string \<Rightarrow> string \<Rightarrow> string" where
  "findAbsolutePath F setFile path =
     (if doesFileExist_abs F path then path else
      let path = path_join F (getEnclosingDirectory F setFile) path
      in if doesFileExist_abs F path then path else [])"

definition getCaptionFromPath :: "of_api \<Rightarrow> string \<Rightarrow> string" where
  "getCaptionFromPath F path = (if path = [] then ''---'' else getBaseName F path)"

section \<open>Constructors\<close>

definition Visual_new :: "VisualPart \<Rightarrow> Visual" where
  "Visual_new d = \<lparr>caption = ''Untitled'', thumbnailPath = [], part = d\<rparr>"

text \<open>
  The constructor of a video fails when the file is not found: its path is then empty, and
  \<open>setThumbnail\<close> asks the engine for the thumbnail of an empty path.
\<close>

definition VisualVideo_new :: "of_api \<Rightarrow> string \<Rightarrow> ('v Store, Visual) cxx" where
  "VisualVideo_new F path =
     bindX (getS (\<lambda>s. findAbsolutePath F (filePath (s_set s)) path)) (\<lambda>file.
     let v = (Visual_new (Video \<lparr>video_filePath = file, video_loaded = False\<rparr>))
               \<lparr>caption := getCaptionFromPath F file\<rparr>
     in bindX (getS has_engine) (\<lambda>e.
        if \<not> e then throw (UB NullDeref) else
        bindX (calculateThumbnailPath F file) (\<lambda>thumb.
        ret (v\<lparr>thumbnailPath := thumb\<rparr>))))"

definition VisualCamera_open :: "ulonglong \<Rightarrow> VisualCamera \<Rightarrow> VisualCamera" where
  "VisualCamera_open now c =
     (if isOpened c then c else c\<lparr>isOpened := True, ready := False, openTimestamp := now\<rparr>)"

definition VisualCamera_close :: "VisualCamera \<Rightarrow> VisualCamera" where
  "VisualCamera_close c = c\<lparr>isOpened := False\<rparr>"

definition VisualCamera_createThumbnail :: "ulonglong \<Rightarrow> VisualCamera \<Rightarrow> VisualCamera" where
  "VisualCamera_createThumbnail now c =
     (if \<not> isOpened c then VisualCamera_open now c else c)"

definition VisualCamera_update :: "of_api \<Rightarrow> VisualCamera \<Rightarrow> VisualCamera" where
  "VisualCamera_update F c =
     (if \<not> isOpened c then c else if camera_frame_new F then c\<lparr>ready := True\<rparr> else c)"

definition VisualCamera_new ::
  "of_api \<Rightarrow> ulonglong \<Rightarrow> uint \<Rightarrow> uint \<Rightarrow> uint \<Rightarrow> uint \<Rightarrow> Visual res" where
  "VisualCamera_new F now device rate w h =
     (let listDevices = camera_names F in
      if length listDevices = 0 then Inl (StdException ''No video devices found'')
      else if length listDevices < unat device then Inl (StdException ''Video device not found.'')
      else if unat device = length listDevices then Inl (UB OutOfBounds)
      else
        let c = \<lparr>ready = junk_bool F, openTimestamp = junk_ull F, deviceId = device,
                 frameRate = rate, cam_width = w, cam_height = h, isOpened = False\<rparr>;
            c = VisualCamera_close (VisualCamera_createThumbnail now (VisualCamera_open now c))
        in Inr ((Visual_new (Camera c))\<lparr>caption := ''Camera: '' @ listDevices ! unat device\<rparr>))"

definition VisualSyphon_new :: "ulonglong \<Rightarrow> string \<Rightarrow> string \<Rightarrow> Visual" where
  "VisualSyphon_new now server app =
     (Visual_new (Syphon \<lparr>active = True, loadTimestamp = now, screenshotGenerated = False,
                          serverName = server, appName = app\<rparr>))
       \<lparr>caption := ''Syphon: '' @ (if app \<noteq> [] then app else server)\<rparr>"

text \<open>
  Drawing a Syphon visual makes its thumbnail once; it counts as made when the client has a
  texture.
\<close>

definition VisualSyphon_draw :: "of_api \<Rightarrow> VisualSyphon \<Rightarrow> VisualSyphon" where
  "VisualSyphon_draw F y =
     (if \<not> active y then y
      else if \<not> screenshotGenerated y \<and> syphon_texture_allocated F
      then y\<lparr>screenshotGenerated := True\<rparr> else y)"

section \<open>State of a visual\<close>

definition Visual_getState :: "of_api \<Rightarrow> 'j json_api \<Rightarrow> addr \<Rightarrow> Visual \<Rightarrow> 'j" where
  "Visual_getState F J a v =
     (let state = j_obj J [(''type'', j_int J (VisualType_num (getType v))),
                           (''caption'', j_string J (caption v)),
                           (''address'', j_string J (ofToString_ptr F a))]
      in case part v of
           Video d \<Rightarrow> j_set J state ''filePath'' (j_string J (video_filePath d))
         | Camera c \<Rightarrow>
             j_set J (j_set J (j_set J (j_set J state
               ''deviceId'' (j_uint J (deviceId c)))
               ''frameRate'' (j_uint J (frameRate c)))
               ''width'' (j_uint J (cam_width c)))
               ''height'' (j_uint J (cam_height c))
         | Syphon y \<Rightarrow>
             j_set J (j_set J state ''serverName'' (j_string J (serverName y)))
               ''appName'' (j_string J (appName y)))"

definition Visual_setState :: "'j json_api \<Rightarrow> 'j \<Rightarrow> Visual \<Rightarrow> Visual res" where
  "Visual_setState J state v =
     bindR (j_at J state ''caption'') (\<lambda>c.
     if is_string J c then bindR (j_get_string J c) (\<lambda>t. Inr (v\<lparr>caption := t\<rparr>)) else Inr v)"

section \<open>The list of visuals\<close>

definition Visuals_add :: "addr option \<Rightarrow> ('v Store, unit) cxx" where
  "Visuals_add v =
     (case v of None \<Rightarrow> ret ()
      | Some a \<Rightarrow> modS (\<lambda>s. s\<lparr>s_visuals := s_visuals s @ [a]\<rparr>))"

definition Visuals_count :: "'v Store \<Rightarrow> uint" where
  "Visuals_count s = size32 (s_visuals s)"

text \<open>The loop of \<open>get\<close> counts in an \<open>int\<close> and returns at the first match.\<close>

primrec Visuals_get_loop :: "sint32 \<Rightarrow> sint32 \<Rightarrow> addr list \<Rightarrow> addr option" where
  "Visuals_get_loop counter pos [] = None"
| "Visuals_get_loop counter pos (v # vs) =
     (if counter = pos then Some v else Visuals_get_loop (counter + 1) pos vs)"

definition Visuals_get :: "'v Store \<Rightarrow> sint32 \<Rightarrow> addr option" where
  "Visuals_get s pos = Visuals_get_loop 0 pos (s_visuals s)"

text \<open>\<open>isFileInList\<close> returns at the first video with the path.\<close>

primrec isFileInList_loop :: "(addr \<rightharpoonup> Visual) \<Rightarrow> string \<Rightarrow> addr list \<Rightarrow> bool res" where
  "isFileInList_loop h path [] = Inr False"
| "isFileInList_loop h path (a # as) =
     (case h a of
        None \<Rightarrow> Inl (UB DanglingDeref)
      | Some v \<Rightarrow>
          (case part v of
             Video d \<Rightarrow> if path = video_filePath d then Inr True else isFileInList_loop h path as
           | Camera _ \<Rightarrow> isFileInList_loop h path as
           | Syphon _ \<Rightarrow> isFileInList_loop h path as))"

definition isFileInList :: "string \<Rightarrow> ('v Store, bool) cxx" where
  "isFileInList path = (\<lambda>s. (isFileInList_loop (s_vheap s) path (s_visuals s), s))"

text \<open>
  \<open>empty\<close> erases the element its iterator points to and then increments the iterator, which
  erasing has made invalid.
\<close>

definition Visuals_empty :: "('v Store, unit) cxx" where
  "Visuals_empty =
     bindX (getS s_visuals) (\<lambda>vs.
     case vs of
       [] \<Rightarrow> ret ()
     | a # as \<Rightarrow>
         bindX (deref s_vheap a) (\<lambda>_.
         thenX (modS (\<lambda>s. s\<lparr>s_vheap := (s_vheap s)(a := None)\<rparr>)) (
         thenX (modS (\<lambda>s. s\<lparr>s_visuals := as\<rparr>)) (
         throw (UB InvalidIterator)))))"

definition Visuals_addVideo :: "of_api \<Rightarrow> string \<Rightarrow> ('v Store, addr) cxx" where
  "Visuals_addVideo F path =
     bindX (VisualVideo_new F path) (\<lambda>v.
     bindX (newV v) (\<lambda>a.
     thenX (Visuals_add (Some a)) (ret a)))"

definition Visuals_getState :: "of_api \<Rightarrow> 'j json_api \<Rightarrow> ('v Store, 'j) cxx" where
  "Visuals_getState F J =
     (\<lambda>s. if list_all (\<lambda>a. s_vheap s a \<noteq> None) (s_visuals s)
          then (Inr (j_push_all J (j_null J)
                  (map (\<lambda>a. Visual_getState F J a (the (s_vheap s a))) (s_visuals s))), s)
          else (Inl (UB DanglingDeref), s))"

text \<open>One element of the array in \<open>setState\<close>: only videos with a path are made.\<close>

definition Visuals_setState_one :: "of_api \<Rightarrow> 'j json_api \<Rightarrow> 'j \<Rightarrow> ('v Store, unit) cxx" where
  "Visuals_setState_one F J visualState =
     bindX (liftR (j_at J visualState ''type'')) (\<lambda>t.
     if \<not> is_number J t then ret () else
     bindX (liftR (j_get_int J t)) (\<lambda>n.
     if n \<noteq> VisualType_num VisualType_Video then ret () else
     bindX (liftR (j_at J visualState ''filePath'')) (\<lambda>p.
     if \<not> is_string J p then ret () else
     bindX (liftR (j_get_string J p)) (\<lambda>path.
     bindX (VisualVideo_new F path) (\<lambda>v.
     bindX (liftR (Visual_setState J visualState v)) (\<lambda>v.
     bindX (newV v) (\<lambda>a.
     Visuals_add (Some a))))))))"

definition Visuals_setState :: "of_api \<Rightarrow> 'j json_api \<Rightarrow> 'j \<Rightarrow> ('v Store, unit) cxx" where
  "Visuals_setState F J state =
     (if \<not> is_array J state then ret () else
      thenX Visuals_empty (forX (j_items J state) (Visuals_setState_one F J)))"

section \<open>Lemmas\<close>

lemma Visuals_get_loop_nth:
  "k + length vs < 2 ^ 32 \<Longrightarrow>
     Visuals_get_loop (of_nat k) pos vs =
       (if k \<le> unat pos then nth_opt vs (unat pos - k) else None)"
proof (induction vs arbitrary: k)
  case Nil
  then show ?case by simp
next
  case (Cons v vs)
  then have k: "unat (of_nat k :: sint32) = k" by (simp add: unat_of_nat)
  then have eq: "of_nat k = pos \<longleftrightarrow> unat pos = k" by (metis of_nat_unat ucast_id)
  have suc: "(of_nat k :: sint32) + 1 = of_nat (Suc k)" by simp
  show ?case
  proof (cases "unat pos = k")
    case True
    with eq show ?thesis by simp
  next
    case False
    with eq Cons.IH [of "Suc k"] Cons.prems show ?thesis
      unfolding Visuals_get_loop.simps suc by (auto simp: Suc_diff_le nth_opt_def nth_Cons')
  qed
qed

interpretation visuals_idx: indexed s_visuals Visuals_get
proof
  fix s :: "'v Store" and i :: uint
  assume "length (s_visuals s) < 2 ^ 31"
  then show "Visuals_get s i = nth_opt (s_visuals s) (unat i)"
    using Visuals_get_loop_nth [of 0 "s_visuals s" i] by (simp add: Visuals_get_def)
qed

lemma VisualVideo_new_missing:
  assumes "findAbsolutePath F (filePath (s_set s)) path = []" "has_engine s"
  shows "VisualVideo_new F path s = (Inl (StdException ''Path is empty.''), s)"
  using assms by (auto simp: VisualVideo_new_def calculateThumbnailPath_def Let_def)

lemma VisualVideo_new_found:
  assumes "findAbsolutePath F (filePath (s_set s)) path = file" "file \<noteq> []" "has_engine s"
  shows "VisualVideo_new F path s =
    (Inr \<lparr>caption = getBaseName F file,
          thumbnailPath = getAppSupportPath F @ ''cache/thumbnails/'' @
            md5 F (getFileName F file) @ ''.jpg'',
          part = Video \<lparr>video_filePath = file, video_loaded = False\<rparr>\<rparr>,
     s\<lparr>s_ep := EP_getInstance F (s_ep s)\<rparr>)"
  using assms
  by (auto simp: VisualVideo_new_def calculateThumbnailPath_def Let_def Visual_new_def
      getCaptionFromPath_def)

lemma Visuals_empty_nil: "s_visuals s = [] \<Longrightarrow> Visuals_empty s = (Inr (), s)"
  by (simp add: Visuals_empty_def)

lemma Visuals_empty_undefined:
  assumes "s_visuals s \<noteq> []" "\<forall>a \<in> set (s_visuals s). s_vheap s a \<noteq> None"
  shows "\<exists>s'. Visuals_empty s = (Inl (UB InvalidIterator), s')"
  using assms by (cases "s_visuals s") (auto simp: Visuals_empty_def)

lemma isFileInList_loop_correct:
  "\<forall>a \<in> set as. h a \<noteq> None \<Longrightarrow>
     isFileInList_loop h path as =
       Inr (\<exists>a \<in> set as. \<exists>v d. h a = Some v \<and> part v = Video d \<and> video_filePath d = path)"
  by (induction as) (auto split: VisualPart.splits option.splits)

end
