(* ===== verification/InstanceOps.thy ===== *)
theory InstanceOps
  imports Visuals
begin

text \<open>
  \<open>Visuals/VisualInstance\<close>, class \<open>VisualInstance\<close>: a visual placed on a layer and column
  with its own video player. An operation gets the address of the object; the current time
  is the argument \<open>now\<close>. The parts under \<open>_FREEFRAMEFILTER_H_\<close> are not compiled (the macro
  is only defined with \<open>_OFX_FFGL_HOST\<close>).
\<close>

section \<open>Construction and files\<close>

text \<open>The memory of a new properties object; the constructor writes every member.\<close>

definition VIP_memory :: VIP where
  "VIP_memory =
     \<lparr>name = [], alpha = 0, red = 0, green = 0, blue = 0, brightness = 0, contrast = 0,
      saturation = 0, floatPropertiesLimits = Map.empty,
      vp_size = \<lparr>width = 0, height = 0\<rparr>, zoomX = 0, zoomY = 0, centerX = 0, centerY = 0,
      pos_x = 0, pos_y = 0, layerNo = 0, columnNo = 0, retrigger = False, isPlaying = False,
      percentagePlayed = 0, startPercentage = 0, endPercentage = 0, effects_drywet = 0,
      loopMode = 0, direction = 0, triggerMode = 0, beatSnap = False, isTriggered = False,
      openedTimestamp = 0, lastPlayedTimestamp = 0,
      floatPropertiesLimitsVisualInstances = Map.empty\<rparr>"

definition VisualInstance_new ::
  "of_api \<Rightarrow> 'v player_api \<Rightarrow> addr option \<Rightarrow> uint \<Rightarrow> uint \<Rightarrow> ('v Store, 'v VisualInstance) cxx" where
  "VisualInstance_new F V v layer column =
     bindX (getS has_engine) (\<lambda>e.
     bindX (getS s_ep) (\<lambda>ep.
     thenX (modS (\<lambda>s. s\<lparr>s_ep := SizeProperties_ep F e ep\<rparr>)) (
     case v of
       None \<Rightarrow> throw (ThrowLiteral ''Invalid visual'')
     | Some a \<Rightarrow>
         let p = VIP_ctor F e ep VIP_memory;
             p = setIsPlaying False (VIP_setColumn column (VIP_setLayer layer p))
         in ret \<lparr>vi_properties = p, videoX = junk_int F, videoY = junk_int F,
                 videoWidth = junk_int F, videoHeight = junk_int F,
                 visual = Some a, video = v_new V\<rparr>)))"

text \<open>The local variable is only written when the file opens.\<close>

definition checkFileExists :: "of_api \<Rightarrow> string \<Rightarrow> bool" where
  "checkFileExists F path = (if fstream_opens F (ofToDataPath F path) then True else junk_bool F)"

abbreviation quoted :: "string \<Rightarrow> string" where
  "quoted s \<equiv> [CHR 0x27] @ s @ [CHR 0x27]"

abbreviation modVideo :: "addr \<Rightarrow> ('v \<Rightarrow> 'v) \<Rightarrow> ('v Store, unit) cxx" where
  "modVideo a f \<equiv> modI a (\<lambda>i. i\<lparr>video := f (video i)\<rparr>)"

definition VI_loadVideo ::
  "of_api \<Rightarrow> 'v player_api \<Rightarrow> ulonglong \<Rightarrow> addr \<Rightarrow> ('v Store, bool) cxx" where
  "VI_loadVideo F V now a =
     thenX (modP a (setIsPlaying False)) (
     bindX (deref s_iheap a) (\<lambda>i.
     case visual i of
       None \<Rightarrow> ret False
     | Some p \<Rightarrow>
         bindX (deref s_vheap p) (\<lambda>v.
         case part v of
           Video d \<Rightarrow>
             (let file = video_filePath d in
              if \<not> checkFileExists F file
              then throw (ThrowString (''File '' @ quoted file @ '' doesn't exist.'')) else
              let (ok, vid) = v_load V file (video i) in
              thenX (modVideo a (\<lambda>_. vid)) (
              if \<not> ok then throw (ThrowString (''Error opening file '' @ quoted file)) else
              thenX (modP a (setOpenedTimestampToNow now)) (ret True)))
         | Camera _ \<Rightarrow> ret False
         | Syphon _ \<Rightarrow> ret False)))"

definition VI_unloadVideo :: "'v player_api \<Rightarrow> addr \<Rightarrow> ('v Store, bool) cxx" where
  "VI_unloadVideo V a =
     thenX (modP a (setIsPlaying False)) (
     bindX (deref s_iheap a) (\<lambda>i.
     if \<not> v_isLoaded V (video i) then ret False
     else thenX (modVideo a (v_close V)) (ret True)))"

text \<open>A result that the caller drops.\<close>

definition dropX :: "('s, 'a) cxx \<Rightarrow> ('s, unit) cxx" where
  "dropX m = bindX m (\<lambda>_. ret ())"

lemma dropX_run [simp]:
  "m s = (Inr a, s') \<Longrightarrow> dropX m s = (Inr (), s')"
  "m s = (Inl e, s') \<Longrightarrow> dropX m s = (Inl e, s')"
  by (simp_all add: dropX_def)

lemma preserves_dropX [preserves_intros]: "preserves P m \<Longrightarrow> preserves P (dropX m)"
  by (simp add: dropX_def preserves_intros)

lemma frame_dropX [frame_intros]: "frame g m \<Longrightarrow> frame g (dropX m)"
  by (simp add: dropX_def frame_intros)

definition VI_unload :: "'v player_api \<Rightarrow> addr \<Rightarrow> ('v Store, unit) cxx" where
  "VI_unload V a =
     bindX (deref s_iheap a) (\<lambda>i.
     bindX (deref_ptr s_vheap (visual i)) (\<lambda>v.
     if getType v = VisualType_Video then dropX (VI_unloadVideo V a) else ret ()))"

section \<open>Playing\<close>

text \<open>\<open>beatSnap && isMetronomeOn()\<close>: the singleton is only consulted when the first holds.\<close>

definition snapOn :: "of_api \<Rightarrow> VIP \<Rightarrow> ('v Store, bool) cxx" where
  "snapOn F p = (if beatSnap p then getEP F metronomeOn else ret False)"

text \<open>The branch for videos tells whether \<open>play\<close> goes on to its last statement.\<close>

definition VI_play_video ::
  "of_api \<Rightarrow> 'v player_api \<Rightarrow> ulonglong \<Rightarrow> bool \<Rightarrow> addr \<Rightarrow> ('v Store, bool) cxx" where
  "VI_play_video F V now forcePlay a =
     bindX (deref s_iheap a) (\<lambda>i.
     thenX (if v_isLoaded V (video i) then ret () else dropX (VI_loadVideo F V now a)) (
     bindX (deref s_iheap a) (\<lambda>i.
     if \<not> v_isLoaded V (video i) then ret False else
     bindX (snapOn F (vi_properties i)) (\<lambda>snap.
     thenX (if snap \<and> \<not> forcePlay then modP a (setIsTriggered True) else modVideo a (v_play V)) (
     ret True)))))"

definition VI_play ::
  "of_api \<Rightarrow> 'v player_api \<Rightarrow> ulonglong \<Rightarrow> bool \<Rightarrow> addr \<Rightarrow> ('v Store, unit) cxx" where
  "VI_play F V now forcePlay a =
     bindX (deref s_iheap a) (\<lambda>i.
     case visual i of
       None \<Rightarrow> ret ()
     | Some p \<Rightarrow>
         thenX (modP a (setIsTriggered False)) (
         thenX (modP a (setLastPlayedTimestampToNow now)) (
         bindX (deref s_vheap p) (\<lambda>v.
         bindX (case part v of
                  Video _ \<Rightarrow> VI_play_video F V now forcePlay a
                | Camera c \<Rightarrow>
                    thenX (modV p (\<lambda>v. v\<lparr>part := Camera (VisualCamera_open now c)\<rparr>)) (ret True)
                | Syphon _ \<Rightarrow> ret True) (\<lambda>goOn.
         whenX goOn (modP a (setIsPlaying True)))))))"

definition VI_retrigger ::
  "of_api \<Rightarrow> 'v player_api \<Rightarrow> ulonglong \<Rightarrow> addr \<Rightarrow> ('v Store, unit) cxx" where
  "VI_retrigger F V now a =
     bindX (deref s_iheap a) (\<lambda>i.
     bindX (snapOn F (vi_properties i)) (\<lambda>snap.
     if snap then modP a (setIsTriggered True)
     else thenX (modVideo a (v_firstFrame V)) (modP a (setLastPlayedTimestampToNow now))))"

definition VI_stop :: "'v player_api \<Rightarrow> addr \<Rightarrow> ('v Store, unit) cxx" where
  "VI_stop V a =
     bindX (deref s_iheap a) (\<lambda>i.
     case visual i of
       None \<Rightarrow> ret ()
     | Some p \<Rightarrow>
         bindX (deref s_vheap p) (\<lambda>v.
         if getType v = VisualType_Video
         then if \<not> v_isLoaded V (video i) then ret ()
              else thenX (modVideo a (v_stop V)) (modP a (setIsPlaying False))
         else modP a (setIsPlaying False)))"

definition autoLoadAndAutoPlayVideo ::
  "of_api \<Rightarrow> 'v player_api \<Rightarrow> ulonglong \<Rightarrow> addr \<Rightarrow> ('v Store, unit) cxx" where
  "autoLoadAndAutoPlayVideo F V now a =
     bindX (deref s_iheap a) (\<lambda>i.
     bindX (deref_ptr s_vheap (visual i)) (\<lambda>v.
     if getType v \<noteq> VisualType_Video then ret () else
     thenX (if v_isLoaded V (video i) then ret () else dropX (VI_loadVideo F V now a)) (
     bindX (deref s_iheap a) (\<lambda>i.
     if \<not> v_isPlaying V (video i) \<or> \<not> isPlaying (vi_properties i)
     then VI_play F V now False a else ret ()))))"

section \<open>The rectangle on the screen\<close>

definition calculateDisplayRect ::
  "uint \<Rightarrow> uint \<Rightarrow> 'v VisualInstance \<Rightarrow> 'v VisualInstance res" where
  "calculateDisplayRect w h i =
     (let p = vi_properties i;
          pw = of_int (sint (width (vp_size p))) * zoomX p;
          ph = of_int (sint (height (vp_size p))) * zoomY p;
          fw = real (unat w); fh = real (unat h)
      in bindR (float_to_int pw) (\<lambda>vw.
         bindR (float_to_int ph) (\<lambda>vh.
         bindR (float_to_int (fw / 2 - pw / 2)) (\<lambda>left.
         bindR (float_to_int (of_int left + centerX p * (fw / 2))) (\<lambda>vx.
         bindR (float_to_int (fh / 2 - ph / 2)) (\<lambda>top.
         bindR (float_to_int (of_int top + centerY p * (fh / 2))) (\<lambda>vy.
         Inr (i\<lparr>videoWidth := word_of_int vw, videoHeight := word_of_int vh,
                videoX := word_of_int vx, videoY := word_of_int vy\<rparr>))))))))"

section \<open>The playhead\<close>

abbreviation setPos :: "'v player_api \<Rightarrow> real \<Rightarrow> 'v VisualInstance \<Rightarrow> 'v VisualInstance" where
  "setPos V x i \<equiv> i\<lparr>video := v_setPosition V x (video i)\<rparr>"

abbreviation setSpd :: "'v player_api \<Rightarrow> real \<Rightarrow> 'v VisualInstance \<Rightarrow> 'v VisualInstance" where
  "setSpd V x i \<equiv> i\<lparr>video := v_setSpeed V x (video i)\<rparr>"

abbreviation setDir :: "PlayheadDirection \<Rightarrow> 'v VisualInstance \<Rightarrow> 'v VisualInstance" where
  "setDir d i \<equiv> i\<lparr>vi_properties := setDirection d (vi_properties i)\<rparr>"

definition handleNormalLoopMode ::
  "'v player_api \<Rightarrow> real \<Rightarrow> 'v VisualInstance \<Rightarrow> 'v VisualInstance" where
  "handleNormalLoopMode V position i =
     (let p = vi_properties i in
      if direction p = Direction_Right then
        if endPercentage p < position then setPos V (startPercentage p) i else i
      else if direction p = Direction_Left then
        setPos V (startPercentage p) (setDir Direction_Right i)
      else i)"

definition handlePingPongLoopMode ::
  "'v player_api \<Rightarrow> real \<Rightarrow> 'v VisualInstance \<Rightarrow> 'v VisualInstance" where
  "handlePingPongLoopMode V position i =
     (let p = vi_properties i; s = v_getSpeed V (video i) in
      if direction p = Direction_Right then
        if endPercentage p < position then
          let i = setDir Direction_Left i;
              i = (if 0 < s then setSpd V (- 1 * s) i else i)
          in setPos V (endPercentage p) i
        else i
      else if direction p = Direction_Left then
        if position < startPercentage p then
          let i = setDir Direction_Right i;
              i = (if s < 0 then setSpd V (- 1 * s) i else i)
          in setPos V (startPercentage p) i
        else i
      else i)"

text \<open>The second test of the left branch sees the position the first one may have assigned.\<close>

definition handleInverseLoopMode ::
  "'v player_api \<Rightarrow> real \<Rightarrow> 'v VisualInstance \<Rightarrow> 'v VisualInstance" where
  "handleInverseLoopMode V position i =
     (let p = vi_properties i; s = v_getSpeed V (video i) in
      if direction p = Direction_Left then
        let (position, i) = (if position < startPercentage p
                             then (endPercentage p, setPos V (endPercentage p) i)
                             else (position, i))
        in if endPercentage p < position then setPos V (endPercentage p) i else i
      else if direction p = Direction_Right then
        setDir Direction_Left (if 0 < s then setSpd V (- 1 * s) i else i)
      else i)"

definition calculateCurrentPlayeadPosition ::
  "'v player_api \<Rightarrow> real \<Rightarrow> 'v VisualInstance \<Rightarrow> 'v VisualInstance" where
  "calculateCurrentPlayeadPosition V position i =
     (let m = loopMode (vi_properties i) in
      if m = LoopMode_Normal then handleNormalLoopMode V position i
      else if m = LoopMode_PingPong then handlePingPongLoopMode V position i
      else if m = LoopMode_Inverse then handleInverseLoopMode V position i
      else i)"

definition handleDirectionChange :: "'v player_api \<Rightarrow> 'v VisualInstance \<Rightarrow> 'v VisualInstance" where
  "handleDirectionChange V i =
     (let d = direction (vi_properties i); s = v_getSpeed V (video i) in
      if d = Direction_Left \<and> 0 < s then i
      else if d = Direction_Right \<and> s < 0 then i
      else setSpd V (s * - 1) i)"

text \<open>In the ping-pong branch the code compares the direction where it means to assign it.\<close>

definition VI_setLoopMode ::
  "'v player_api \<Rightarrow> LoopMode \<Rightarrow> 'v VisualInstance \<Rightarrow> 'v VisualInstance" where
  "VI_setLoopMode V m i =
     (let setLoop = (\<lambda>l i. i\<lparr>video := v_setLoopState V l (video i)\<rparr>) in
      if m = LoopMode_Normal then
        let i = setLoop OF_LOOP_NORMAL i
        in setDir Direction_Right (setSpd V \<bar>v_getSpeed V (video i)\<bar> i)
      else if m = LoopMode_PingPong then
        let i = setLoop OF_LOOP_PALINDROME i
        in if 0 < v_getSpeed V (video i) then i else setDir Direction_Left i
      else if m = LoopMode_Inverse then
        let i = setLoop OF_LOOP_NORMAL i
        in setDir Direction_Left (setSpd V (- 1 * \<bar>v_getSpeed V (video i)\<bar>) i)
      else i)"

text \<open>The previous loop mode is a local variable that starts as normal on every call.\<close>

definition handleLoopModeChange :: "'v player_api \<Rightarrow> 'v VisualInstance \<Rightarrow> 'v VisualInstance" where
  "handleLoopModeChange V i =
     (let previousLoopMode = LoopMode_Normal; currentLoopMode = loopMode (vi_properties i)
      in if previousLoopMode \<noteq> currentLoopMode then VI_setLoopMode V currentLoopMode i else i)"

definition updateVideo :: "'v player_api \<Rightarrow> addr \<Rightarrow> ('v Store, unit) cxx" where
  "updateVideo V a =
     bindX (deref s_iheap a) (\<lambda>i.
     bindX (deref_ptr s_vheap (visual i)) (\<lambda>v.
     if getType v \<noteq> VisualType_Video then ret ()
     else if \<not> v_isLoaded V (video i) then ret ()
     else if \<not> v_isPlaying V (video i) then ret ()
     else thenX (modI a (handleDirectionChange V)) (
          thenX (modI a (handleLoopModeChange V)) (
          modVideo a (v_update V)))))"

definition VI_update :: "of_api \<Rightarrow> 'v player_api \<Rightarrow> addr \<Rightarrow> ('v Store, unit) cxx" where
  "VI_update F V a =
     bindX (deref s_iheap a) (\<lambda>i.
     case visual i of
       None \<Rightarrow> ret ()
     | Some p \<Rightarrow>
         thenX (updateVideo V a) (
         bindX (deref s_vheap p) (\<lambda>v.
         case part v of
           Camera c \<Rightarrow> modV p (\<lambda>v. v\<lparr>part := Camera (VisualCamera_update F c)\<rparr>)
         | Video _ \<Rightarrow> ret ()
         | Syphon _ \<Rightarrow> ret ())))"

text \<open>What drawing does to the state; the pixels are outside the model.\<close>

definition VI_draw ::
  "of_api \<Rightarrow> 'v player_api \<Rightarrow> ulonglong \<Rightarrow> uint \<Rightarrow> uint \<Rightarrow> addr \<Rightarrow> ('v Store, unit) cxx" where
  "VI_draw F V now w h a =
     bindX (deref s_iheap a) (\<lambda>i.
     case visual i of
       None \<Rightarrow> ret ()
     | Some p \<Rightarrow>
         thenX (autoLoadAndAutoPlayVideo F V now a) (
         thenX (VI_update F V a) (
         bindX (deref s_iheap a) (\<lambda>i.
         bindX (liftR (calculateDisplayRect w h i)) (\<lambda>i'.
         thenX (modI a (\<lambda>_. i')) (
         bindX (deref s_vheap p) (\<lambda>v.
         case part v of
           Syphon y \<Rightarrow> modV p (\<lambda>v. v\<lparr>part := Syphon (VisualSyphon_draw F y)\<rparr>)
         | Video _ \<Rightarrow> ret ()
         | Camera _ \<Rightarrow> ret ())))))))"

section \<open>Information\<close>

text \<open>The quotient of two floats; a player without frames gives a value that is no number.\<close>

definition VI_getPercentagePlayed :: "'v player_api \<Rightarrow> 'v VisualInstance \<Rightarrow> real option" where
  "VI_getPercentagePlayed V i =
     (let n = v_getTotalNumFrames V (video i) in
      if n = 0 then None else Some (of_int (v_getCurrentFrame V (video i)) / of_int n))"

definition VI_setPercentagePlayed ::
  "'v player_api \<Rightarrow> real \<Rightarrow> 'v VisualInstance \<Rightarrow> 'v VisualInstance res" where
  "VI_setPercentagePlayed V percentage i =
     (if \<not> v_isLoaded V (video i) then Inr i else
      bindR (float_to_int (percentage * of_int (v_getTotalNumFrames V (video i)))) (\<lambda>n.
      Inr (i\<lparr>video := v_setFrame V n (video i)\<rparr>)))"

definition checkCloseCondition :: "'v player_api \<Rightarrow> ulonglong \<Rightarrow> 'v VisualInstance \<Rightarrow> bool" where
  "checkCloseCondition V now i =
     (if v_isPlaying V (video i) then False
      else 60000 < now - openedTimestamp (vi_properties i) \<and>
           60000 < now - lastPlayedTimestamp (vi_properties i))"

section \<open>State and actions\<close>

definition VI_getState :: "of_api \<Rightarrow> 'j json_api \<Rightarrow> addr \<Rightarrow> ('v Store, 'j) cxx" where
  "VI_getState F J a =
     bindX (deref s_iheap a) (\<lambda>i.
     bindX (case visual i of
              None \<Rightarrow> ret (j_obj J [])
            | Some p \<Rightarrow> bindX (deref s_vheap p) (\<lambda>v. ret (Visual_getState F J p v))) (\<lambda>vs.
     ret (fold (\<lambda>(k, v) state. j_set J state k v)
            [(''properties'', VIP_getState J (vi_properties i)),
             (''videoX'', j_int J (videoX i)),
             (''videoY'', j_int J (videoX i)),
             (''videoWidth'', j_int J (videoWidth i)),
             (''videoHeight'', j_int J (videoHeight i)),
             (''visual'', vs)] (j_obj J []))))"

definition VI_handleParameter :: "of_api \<Rightarrow> string \<Rightarrow> real \<Rightarrow> VIP \<Rightarrow> VIP res" where
  "VI_handleParameter F parameter value p =
     (let h = str2int parameter in
      if h = str2int ''Alpha'' then Inr (setAlpha F value p)
      else if h = str2int ''Brightness'' then Inr (setBrightness F value p)
      else if h = str2int ''Contrast'' then Inr (setContrast F value p)
      else if h = str2int ''Saturation'' then Inr (setSaturation F value p)
      else if h = str2int ''Red'' then Inr (setRed F value p)
      else if h = str2int ''Green'' then Inr (setGreen F value p)
      else if h = str2int ''Blue'' then Inr (setBlue F value p)
      else if h = str2int ''Zoom X'' then Inr (setZoomX value p)
      else if h = str2int ''Zoom Y'' then Inr (setZoomY value p)
      else if h = str2int ''Center X'' then Inr (setCenterX value p)
      else if h = str2int ''Center Y'' then Inr (setCenterY value p)
      else if h = str2int ''Start'' then Inr (setStartPercentage F value p)
      else if h = str2int ''End'' then Inr (setEndPercentage F value p)
      else if h = str2int ''Played'' then Inr (setPercentagePlayed F value p)
      else if h = str2int ''Direction'' then
        bindR (float_to_uint (std_round value)) (\<lambda>d. Inr (setDirection d p))
      else if h = str2int ''Loop Mode'' then
        bindR (float_to_uint (std_round value)) (\<lambda>m. Inr (VIP_setLoopMode m p))
      else Inr p)"

definition VI_handleAction ::
  "of_api \<Rightarrow> 'j json_api \<Rightarrow> string \<Rightarrow> 'j \<Rightarrow> addr \<Rightarrow> ('v Store, unit) cxx" where
  "VI_handleAction F J parameter data a =
     bindX (liftR (bindR (j_at J data ''value'') (j_get_float J))) (\<lambda>value.
     bindX (deref s_iheap a) (\<lambda>i.
     bindX (liftR (VI_handleParameter F parameter value (vi_properties i))) (\<lambda>p.
     modP a (\<lambda>_. p))))"

section \<open>What the operations keep\<close>

text \<open>The slot of an instance: its layer and column. No operation of an instance changes it.\<close>

definition slot :: "'v VisualInstance \<Rightarrow> uint \<times> uint" where
  "slot i = (layerNo (vi_properties i), columnNo (vi_properties i))"

definition slots :: "'v Store \<Rightarrow> addr \<rightharpoonup> uint \<times> uint" where
  "slots s = (\<lambda>a. map_option slot (s_iheap s a))"

lemma slots_Some: "slots s a = Some k \<longleftrightarrow> (\<exists>i. s_iheap s a = Some i \<and> slot i = k)"
  by (auto simp: slots_def)

lemma slots_None [simp]: "slots s a = None \<longleftrightarrow> s_iheap s a = None"
  by (simp add: slots_def)

lemma frame_slots_modI [frame_intros]:
  assumes "\<And>i. slot (u i) = slot i"
  shows "frame slots (modI a u)"
  by (rule frameI, rename_tac s, case_tac "s_iheap s a") (auto simp: slots_def assms)

lemma frame_slots_other [frame_intros]:
  "frame slots (modV p f)" "frame slots (getEP F g)" "frame slots (modEP F h)"
  by (auto intro!: frame_intros simp: slots_def)

lemma slot_simps [simp]:
  "slot (i\<lparr>video := v\<rparr>) = slot i"
  "slot (i\<lparr>videoX := x\<rparr>) = slot i" "slot (i\<lparr>videoY := x\<rparr>) = slot i"
  "slot (i\<lparr>videoWidth := x\<rparr>) = slot i" "slot (i\<lparr>videoHeight := x\<rparr>) = slot i"
  "slot (i\<lparr>vi_properties := setIsPlaying b (vi_properties i)\<rparr>) = slot i"
  "slot (i\<lparr>vi_properties := setIsTriggered b (vi_properties i)\<rparr>) = slot i"
  "slot (i\<lparr>vi_properties := setOpenedTimestampToNow t (vi_properties i)\<rparr>) = slot i"
  "slot (i\<lparr>vi_properties := setLastPlayedTimestampToNow t (vi_properties i)\<rparr>) = slot i"
  "slot (i\<lparr>vi_properties := setDirection d (vi_properties i)\<rparr>) = slot i"
  by (simp_all add: slot_def VIP_setter_defs)

lemma slot_playhead [simp]:
  "slot (handleDirectionChange V i) = slot i"
  "slot (VI_setLoopMode V m i) = slot i"
  "slot (handleLoopModeChange V i) = slot i"
  by (simp_all add: handleDirectionChange_def VI_setLoopMode_def handleLoopModeChange_def Let_def
      slot_def VIP_setter_defs)

lemma slot_calculateDisplayRect:
  "calculateDisplayRect w h i = Inr i' \<Longrightarrow> slot i' = slot i"
  by (auto simp: calculateDisplayRect_def Let_def bindR_def split: sum.splits)

lemma frame_slots_play [frame_intros]:
  "frame slots (snapOn F q)"
  "frame slots (VI_loadVideo F V now a)"
  "frame slots (VI_unloadVideo V a)"
  "frame slots (VI_stop V a)"
  "frame slots (VI_retrigger F V now a)"
  "frame slots (updateVideo V a)"
  unfolding snapOn_def VI_loadVideo_def VI_unloadVideo_def VI_stop_def VI_retrigger_def
    updateVideo_def Let_def
  by (auto intro!: frame_intros)

lemma frame_slots_play_video [frame_intros]: "frame slots (VI_play_video F V now fp a)"
  unfolding VI_play_video_def by (auto intro!: frame_intros)

lemma frame_slots_VI [frame_intros]:
  "frame slots (VI_play F V now fp a)"
  "frame slots (VI_unload V a)"
  "frame slots (VI_update F V a)"
  unfolding VI_play_def VI_unload_def VI_update_def by (auto intro!: frame_intros)

lemma frame_slots_auto [frame_intros]: "frame slots (autoLoadAndAutoPlayVideo F V now a)"
  unfolding autoLoadAndAutoPlayVideo_def by (auto intro!: frame_intros)

lemma calculateDisplayRect_frame:
  "calculateDisplayRect w h i = Inr i' \<Longrightarrow>
     visual i' = visual i \<and> video i' = video i \<and> vi_properties i' = vi_properties i"
  by (auto simp: calculateDisplayRect_def Let_def bindR_def split: sum.splits)

text \<open>Writing back a whole object that was computed from the object itself.\<close>

lemma frame_slots_rewrite:
  assumes "\<And>i i'. f i = Inr i' \<Longrightarrow> slot i' = slot i" "\<And>x. frame slots (k x)"
  shows "frame slots (bindX (deref s_iheap a) (\<lambda>i.
    bindX (liftR (f i)) (\<lambda>i'. thenX (modI a (\<lambda>_. i')) (k i'))))"
proof (rule frameI)
  fix s :: "'a Store"
  show "slots (snd (bindX (deref s_iheap a) (\<lambda>i.
    bindX (liftR (f i)) (\<lambda>i'. thenX (modI a (\<lambda>_. i')) (k i'))) s)) = slots s"
  proof (cases "s_iheap s a")
    case None
    then show ?thesis by simp
  next
    case (Some i)
    show ?thesis
    proof (cases "f i")
      case (Inl e)
      with Some show ?thesis by simp
    next
      case (Inr i')
      let ?s = "s\<lparr>s_iheap := (s_iheap s)(a \<mapsto> i')\<rparr>"
      have "slots (snd (k i' ?s)) = slots ?s" using assms(2) by (simp add: frame_def)
      also have "\<dots> = slots s" using Some assms(1) [OF Inr] by (auto simp: slots_def)
      finally show ?thesis using Some Inr by simp
    qed
  qed
qed

lemma frame_slots_draw [frame_intros]: "frame slots (VI_draw F V now w h a)"
  unfolding VI_draw_def
  by (intro frame_intros frame_slots_rewrite) (auto intro: slot_calculateDisplayRect)

text \<open>
  An observation that does not look at the instances, the visuals or the engine properties
  is the same after any operation of an instance.
\<close>

definition outside :: "('v Store \<Rightarrow> 'a) \<Rightarrow> bool" where
  "outside g \<longleftrightarrow>
     (\<forall>s f. g (s_iheap_update f s) = g s) \<and> (\<forall>s f. g (s_vheap_update f s) = g s) \<and>
     (\<forall>s f. g (s_ep_update f s) = g s)"

lemma outside_fields [simp]:
  "outside s_engine" "outside s_layers" "outside s_visuals" "outside s_scenes" "outside s_sheap"
  "outside s_next" "outside s_set" "outside s_files"
  by (simp_all add: outside_def)

lemma frame_outside [frame_intros]:
  assumes "outside g"
  shows "frame g (modI a u)" "frame g (modV a w)" "frame g (getEP F q)" "frame g (modEP F h)"
  using assms by (auto intro!: frame_intros simp: outside_def)

lemma frame_outside_play [frame_intros]:
  assumes "outside g"
  shows "frame g (snapOn F q)" "frame g (VI_loadVideo F V now a)" "frame g (VI_unloadVideo V a)"
    "frame g (VI_stop V a)" "frame g (VI_retrigger F V now a)" "frame g (updateVideo V a)"
  using assms unfolding snapOn_def VI_loadVideo_def VI_unloadVideo_def VI_stop_def
    VI_retrigger_def updateVideo_def Let_def
  by (auto intro!: frame_basic frame_deref_ptr frame_bindX frame_thenX frame_whenX
      frame_case_option frame_case_part frame_case_prod frame_outside frame_dropX)

lemmas frame_rules =
  frame_basic frame_deref_ptr frame_bindX frame_thenX frame_whenX frame_if
  frame_case_option frame_case_part frame_case_prod frame_outside frame_outside_play frame_dropX

lemma frame_outside_play_video: "outside g \<Longrightarrow> frame g (VI_play_video F V now fp a)"
  unfolding VI_play_video_def by (auto intro!: frame_rules)

lemma frame_outside_VI [frame_intros]:
  assumes "outside g"
  shows "frame g (VI_play F V now fp a)" "frame g (VI_unload V a)" "frame g (VI_update F V a)"
    "frame g (VI_handleAction F J par data a)"
  using assms unfolding VI_play_def VI_unload_def VI_update_def VI_handleAction_def
  by (auto intro!: frame_rules frame_outside_play_video)

lemma frame_outside_auto: "outside g \<Longrightarrow> frame g (autoLoadAndAutoPlayVideo F V now a)"
  unfolding autoLoadAndAutoPlayVideo_def by (auto intro!: frame_rules frame_outside_VI)

lemma frame_outside_draw [frame_intros]: "outside g \<Longrightarrow> frame g (VI_draw F V now w h a)"
  unfolding VI_draw_def by (auto intro!: frame_rules frame_outside_VI frame_outside_auto)

section \<open>Behaviour\<close>

text \<open>Loading, on every branch.\<close>

lemma VI_loadVideo_cases:
  assumes "s_iheap s a = Some i" "visual i = Some p" "s_vheap s p = Some v" "part v = Video d"
  shows "VI_loadVideo F V now a s =
    (let file = video_filePath d;
         i0 = i\<lparr>vi_properties := setIsPlaying False (vi_properties i)\<rparr>;
         (ok, vid) = v_load V file (video i);
         put = (\<lambda>x. s\<lparr>s_iheap := (s_iheap s)(a \<mapsto> x)\<rparr>)
     in if \<not> checkFileExists F file
        then (Inl (ThrowString (''File '' @ quoted file @ '' doesn't exist.'')), put i0)
        else if \<not> ok
        then (Inl (ThrowString (''Error opening file '' @ quoted file)), put (i0\<lparr>video := vid\<rparr>))
        else (Inr True, put (i0\<lparr>video := vid,
                vi_properties := setOpenedTimestampToNow now (vi_properties i0)\<rparr>)))"
  using assms
  by (cases "v_load V (video_filePath d) (video i)") (simp add: VI_loadVideo_def Let_def)

lemma VI_play_video_loaded:
  assumes "s_iheap s a = Some i" "v_isLoaded V (video i)"
    and "\<not> beatSnap (vi_properties i) \<or> \<not> metronomeOn (s_ep s) \<or> fp"
  shows "\<exists>ep. VI_play_video F V now fp a s =
    (Inr True, s\<lparr>s_ep := ep, s_iheap := (s_iheap s)(a \<mapsto> i\<lparr>video := v_play V (video i)\<rparr>)\<rparr>) \<and>
    metronomeOn ep = metronomeOn (s_ep s)"
proof (cases "beatSnap (vi_properties i)")
  case True
  with assms show ?thesis
    by (intro exI [of _ "EP_getInstance F (s_ep s)"]) (auto simp: VI_play_video_def snapOn_def)
next
  case False
  with assms show ?thesis
    by (intro exI [of _ "s_ep s"]) (simp add: VI_play_video_def snapOn_def)
qed

text \<open>
  Playing a loaded video that does not wait for a beat starts the player; whatever waits for
  a beat is only marked as triggered.
\<close>

lemma VI_play_loaded:
  assumes "player_doc V" "s_iheap s a = Some i" "visual i = Some p" "s_vheap s p = Some v"
    and "part v = Video d" "v_isLoaded V (video i)"
    and "\<not> beatSnap (vi_properties i) \<or> \<not> metronomeOn (s_ep s) \<or> fp"
  shows "\<exists>s' i'. VI_play F V now fp a s = (Inr (), s') \<and> s_iheap s' a = Some i' \<and>
    v_isPlaying V (video i') \<and> isPlaying (vi_properties i') \<and>
    \<not> isTriggered (vi_properties i') \<and> lastPlayedTimestamp (vi_properties i') = now \<and>
    visual i' = Some p \<and> v_isLoaded V (video i') \<and> s_vheap s' = s_vheap s"
proof -
  let ?q = "setLastPlayedTimestampToNow now (setIsTriggered False (vi_properties i))"
  let ?i = "i\<lparr>vi_properties := ?q\<rparr>"
  let ?s = "s\<lparr>s_iheap := (s_iheap s)(a \<mapsto> ?i)\<rparr>"
  have "\<not> beatSnap (vi_properties ?i) \<or> \<not> metronomeOn (s_ep ?s) \<or> fp"
    using assms(7) by (simp add: VIP_setter_defs)
  then obtain ep where
    "VI_play_video F V now fp a ?s =
      (Inr True, ?s\<lparr>s_ep := ep, s_iheap := (s_iheap ?s)(a \<mapsto> ?i\<lparr>video := v_play V (video ?i)\<rparr>)\<rparr>)"
    using VI_play_video_loaded [of ?s a ?i V fp F now] assms(6) by auto
  with assms show ?thesis by (simp add: VI_play_def VIP_setter_defs)
qed

lemma VI_play_waits:
  assumes "s_iheap s a = Some i" "visual i = Some p" "s_vheap s p = Some v"
    and "part v = Video d" "v_isLoaded V (video i)"
    and "beatSnap (vi_properties i)" "metronomeOn (s_ep s)" "\<not> fp"
  shows "\<exists>s' i'. VI_play F V now fp a s = (Inr (), s') \<and> s_iheap s' a = Some i' \<and>
    video i' = video i \<and> isPlaying (vi_properties i') \<and>
    isTriggered (vi_properties i') \<and> lastPlayedTimestamp (vi_properties i') = now \<and>
    visual i' = Some p \<and> s_vheap s' = s_vheap s"
  using assms by (simp add: VI_play_def VI_play_video_def snapOn_def VIP_setter_defs)

lemma VI_stop_playing:
  assumes "player_doc V" "s_iheap s a = Some i" "visual i = Some p" "s_vheap s p = Some v"
    and "part v = Video d" "v_isLoaded V (video i)"
  shows "\<exists>i'. VI_stop V a s = (Inr (), s\<lparr>s_iheap := (s_iheap s)(a \<mapsto> i')\<rparr>) \<and>
    \<not> v_isPlaying V (video i') \<and> v_isLoaded V (video i') \<and> \<not> isPlaying (vi_properties i')"
  using assms
  by (intro exI [of _ "i\<lparr>video := v_stop V (video i),
        vi_properties := setIsPlaying False (vi_properties i)\<rparr>"])
    (simp add: VI_stop_def getType_def VIP_setter_defs)

text \<open>The speed of the player after a frame, by direction and loop mode.\<close>

lemma speed_playhead [simp]:
  assumes "player_doc V"
  shows "v_getSpeed V (video (handleDirectionChange V i)) =
      (let d = direction (vi_properties i); s = v_getSpeed V (video i)
       in if d = Direction_Left then \<bar>s\<bar>
          else if d = Direction_Right then - \<bar>s\<bar> else - s)"
    and "vi_properties (handleDirectionChange V i) = vi_properties i"
  using assms
  by (auto simp: handleDirectionChange_def Let_def enum_defs)

definition playSpeed :: "LoopMode \<Rightarrow> PlayheadDirection \<Rightarrow> real \<Rightarrow> real" where
  "playSpeed m d s =
     (if m = LoopMode_Inverse then - \<bar>s\<bar>
      else if d = Direction_Left then \<bar>s\<bar>
      else if d = Direction_Right then - \<bar>s\<bar> else - s)"

lemma updateVideo_speed:
  assumes "player_doc V" "s_iheap s a = Some i" "visual i = Some p" "s_vheap s p = Some v"
    and "part v = Video d" "v_isLoaded V (video i)" "v_isPlaying V (video i)"
  shows "\<exists>s' i'. updateVideo V a s = (Inr (), s') \<and> s_iheap s' a = Some i' \<and>
    v_getSpeed V (video i') =
      playSpeed (loopMode (vi_properties i)) (direction (vi_properties i)) (v_getSpeed V (video i))"
  using assms
  by (auto simp: updateVideo_def getType_def handleLoopModeChange_def VI_setLoopMode_def Let_def
      playSpeed_def enum_defs)

text \<open>In ping-pong mode the playhead turns at both marks and stays between them.\<close>

lemma handlePingPong_turns:
  assumes "player_doc V" "direction (vi_properties i) = Direction_Right"
    "endPercentage (vi_properties i) < x" "0 < v_getSpeed V (video i)"
  shows "direction (vi_properties (handlePingPongLoopMode V x i)) = Direction_Left"
    and "v_getSpeed V (video (handlePingPongLoopMode V x i)) = - v_getSpeed V (video i)"
  using assms by (simp_all add: handlePingPongLoopMode_def Let_def setDirection_def)

lemma checkCloseCondition_iff:
  "checkCloseCondition V now i \<longleftrightarrow>
     \<not> v_isPlaying V (video i) \<and>
     60000 < (uint now - uint (openedTimestamp (vi_properties i))) mod 2 ^ 64 \<and>
     60000 < (uint now - uint (lastPlayedTimestamp (vi_properties i))) mod 2 ^ 64"
  by (simp add: checkCloseCondition_def word_less_def uint_word_ariths)

text \<open>A handled parameter keeps the properties well-formed; an unknown one changes nothing.\<close>

lemma wf_VI_base_setters:
  fixes p :: VIP
  assumes "clamp_doc F" "wf_VIP p"
  shows "wf_VIP (setAlpha F x p)" "wf_VIP (setBrightness F x p)" "wf_VIP (setContrast F x p)"
    "wf_VIP (setSaturation F x p)" "wf_VIP (setRed F x p)" "wf_VIP (setGreen F x p)"
    "wf_VIP (setBlue F x p)"
  using wf_VIP_Properties_set [OF assms, of "''alpha''" x]
    wf_VIP_Properties_set [OF assms, of "''brightness''" x]
    wf_VIP_Properties_set [OF assms, of "''contrast''" x]
    wf_VIP_Properties_set [OF assms, of "''saturation''" x]
    wf_VIP_Properties_set [OF assms, of "''red''" x]
    wf_VIP_Properties_set [OF assms, of "''green''" x]
    wf_VIP_Properties_set [OF assms, of "''blue''" x]
  by (simp_all add: Properties_set_named)

lemma VI_handleParameter_wf:
  assumes "clamp_doc F" "wf_VIP p" "VI_handleParameter F k x p = Inr q"
  shows "wf_VIP q"
  using assms
  by (auto simp: VI_handleParameter_def Let_def wf_VI_base_setters wf_VIP_setStartPercentage
      wf_VIP_setEndPercentage percentagePlayed_prop.wf_set bindR_def split: if_splits sum.splits)

section \<open>A concrete state\<close>

text \<open>One video visual, one instance of it in the first slot of one scene.\<close>

definition ex_visual :: Visual where
  "ex_visual = \<lparr>caption = ''a'', thumbnailPath = [],
     part = Video \<lparr>video_filePath = ''/sets/a.mov'', video_loaded = False\<rparr>\<rparr>"

definition ex_instance :: "ex_player VisualInstance" where
  "ex_instance = \<lparr>vi_properties = VIP_ctor ex_F False EngineProperties_init VIP_memory,
     videoX = 0, videoY = 0, videoWidth = 0, videoHeight = 0, visual = Some 0,
     video = \<lparr>ep_loaded = True, ep_playing = True, ep_speed = 1, ep_frame = 0\<rparr>\<rparr>"

definition ex_store :: "ex_player Store" where
  "ex_store = Store_init\<lparr>s_visuals := [0], s_vheap := [0 \<mapsto> ex_visual],
     s_iheap := [1 \<mapsto> ex_instance], s_scenes := [2],
     s_sheap := [2 \<mapsto> \<lparr>sceneName = ''one'', visualInstances = [1]\<rparr>], s_next := 3\<rparr>"

lemma ex_store_sel [simp]:
  "s_vheap ex_store = [0 \<mapsto> ex_visual]" "s_iheap ex_store = [1 \<mapsto> ex_instance]"
  "s_sheap ex_store = [2 \<mapsto> \<lparr>sceneName = ''one'', visualInstances = [1]\<rparr>]"
  "s_visuals ex_store = [0]" "s_scenes ex_store = [2]" "s_next ex_store = 3"
  "s_layers ex_store = []" "s_ep ex_store = EngineProperties_init" "s_engine ex_store = None"
  by (simp_all add: ex_store_def Store_init_def)

lemma ex_instance_sel [simp]:
  "visual ex_instance = Some 0" "v_isLoaded ex_V (video ex_instance)"
  "v_isPlaying ex_V (video ex_instance)" "v_getSpeed ex_V (video ex_instance) = 1"
  "slot ex_instance = (0, 0)" "\<not> beatSnap (vi_properties ex_instance)"
  "loopMode (vi_properties ex_instance) = LoopMode_Normal"
  "direction (vi_properties ex_instance) = Direction_Left"
  by (simp_all add: ex_instance_def ex_V_def slot_def VIP_ctor_def VIP_setLimits_def VIP_reset_def
      Let_def)

lemma ex_instance_wf [simp]: "wf_VIP (vi_properties ex_instance)"
  by (simp add: ex_instance_def wf_VIP_ctor)

lemma VI_handleParameter_unclamped:
  "VI_handleParameter F ''Zoom X'' x p = Inr (setZoomX x p)"
  "VI_handleParameter F ''Zoom Y'' x p = Inr (setZoomY x p)"
  "VI_handleParameter F ''Center X'' x p = Inr (setCenterX x p)"
  "VI_handleParameter F ''Center Y'' x p = Inr (setCenterY x p)"
  by (simp_all add: VI_handleParameter_def label_hash)

section \<open>Properties\<close>

text \<open>
  C21. \<open>play\<close> on a loaded video returns with the instance marked as playing and the time of play recorded.
  When the instance snaps to the beat, the metronome is on and the play is not forced, the instance is marked as
  triggered and the player is left as it was; otherwise the player is running and the instance is not
  triggered. Stopping it then leaves the player loaded, not running, and the instance not playing.
\<close>

theorem play_then_stop:
  assumes "player_doc V" "s_iheap s a = Some i" "visual i = Some p" "s_vheap s p = Some v"
    and "part v = Video d" "v_isLoaded V (video i)"
  shows "\<exists>s1 i1 s2 i2. VI_play F V now fp a s = (Inr (), s1) \<and> s_iheap s1 a = Some i1 \<and>
    isPlaying (vi_properties i1) \<and> lastPlayedTimestamp (vi_properties i1) = now \<and>
    (if beatSnap (vi_properties i) \<and> metronomeOn (s_ep s) \<and> \<not> fp
     then isTriggered (vi_properties i1) \<and> video i1 = video i
     else \<not> isTriggered (vi_properties i1) \<and> v_isPlaying V (video i1)) \<and>
    VI_stop V a s1 = (Inr (), s2) \<and> s_iheap s2 a = Some i2 \<and>
    \<not> v_isPlaying V (video i2) \<and> v_isLoaded V (video i2) \<and> \<not> isPlaying (vi_properties i2)"
proof -
  obtain s1 i1 where p: "VI_play F V now fp a s = (Inr (), s1)" "s_iheap s1 a = Some i1"
    "if beatSnap (vi_properties i) \<and> metronomeOn (s_ep s) \<and> \<not> fp
     then isTriggered (vi_properties i1) \<and> video i1 = video i
     else \<not> isTriggered (vi_properties i1) \<and> v_isPlaying V (video i1)"
    "isPlaying (vi_properties i1)" "lastPlayedTimestamp (vi_properties i1) = now" "visual i1 = Some p"
    "v_isLoaded V (video i1)" "s_vheap s1 = s_vheap s"
  proof (cases "beatSnap (vi_properties i) \<and> metronomeOn (s_ep s) \<and> \<not> fp")
    case True
    then show thesis
      using that VI_play_waits [OF assms(2-6), of fp F now] assms(6) by (simp del: ex_simps) metis
  next
    case False
    then show thesis
      using that VI_play_loaded [OF assms, of fp F now] by auto
  qed
  from VI_stop_playing [OF assms(1) p(2,6) _ assms(5) p(7)] assms(4) p(8)
  obtain i2 where "VI_stop V a s1 = (Inr (), s1\<lparr>s_iheap := (s_iheap s1)(a \<mapsto> i2)\<rparr>)"
    "\<not> v_isPlaying V (video i2)" "v_isLoaded V (video i2)" "\<not> isPlaying (vi_properties i2)" by auto
  with p(1-5) show ?thesis
    by (intro exI [of _ s1] exI [of _ i1] exI [of _ "s1\<lparr>s_iheap := (s_iheap s1)(a \<mapsto> i2)\<rparr>"] exI [of _ i2]) simp
qed

theorem play_then_stop_witness:
  "\<exists>s1 i1 s2 i2. VI_play ex_F ex_V 5 False 1 ex_store = (Inr (), s1) \<and> s_iheap s1 1 = Some i1 \<and>
    isPlaying (vi_properties i1) \<and> lastPlayedTimestamp (vi_properties i1) = 5 \<and>
    (if beatSnap (vi_properties ex_instance) \<and> metronomeOn (s_ep ex_store) \<and> \<not> False
     then isTriggered (vi_properties i1) \<and> video i1 = video ex_instance
     else \<not> isTriggered (vi_properties i1) \<and> v_isPlaying ex_V (video i1)) \<and>
    VI_stop ex_V 1 s1 = (Inr (), s2) \<and> s_iheap s2 1 = Some i2 \<and>
    \<not> v_isPlaying ex_V (video i2) \<and> v_isLoaded ex_V (video i2) \<and> \<not> isPlaying (vi_properties i2)"
  by (rule play_then_stop [of ex_V ex_store 1 ex_instance 0 ex_visual
        "\<lparr>video_filePath = ''/sets/a.mov'', video_loaded = False\<rparr>"]) (simp_all add: ex_visual_def)



text \<open>
  C24. One frame of a running video sets the speed of its player from the loop mode and the
  direction alone: inverse mode plays backwards; in the other modes the direction left gives
  a speed that is not negative and the direction right one that is not positive, so the
  instance plays against its direction.
\<close>

theorem frame_speed:
  assumes "player_doc V" "s_iheap s a = Some i" "visual i = Some p" "s_vheap s p = Some v"
    and "part v = Video d" "v_isLoaded V (video i)" "v_isPlaying V (video i)"
  shows "\<exists>s' i'. VI_update F V a s = (Inr (), s') \<and> s_iheap s' a = Some i' \<and>
    v_getSpeed V (video i') =
      (let x = \<bar>v_getSpeed V (video i)\<bar> in
       if loopMode (vi_properties i) = LoopMode_Inverse then - x
       else if direction (vi_properties i) = Direction_Left then x
       else if direction (vi_properties i) = Direction_Right then - x
       else - v_getSpeed V (video i))"
proof -
  obtain s' i' where u: "updateVideo V a s = (Inr (), s')" "s_iheap s' a = Some i'"
    "v_getSpeed V (video i') = playSpeed (loopMode (vi_properties i)) (direction (vi_properties i))
       (v_getSpeed V (video i))"
    using updateVideo_speed [OF assms] by blast
  have "s_vheap s' = s_vheap s"
    using u(1) assms by (auto simp: updateVideo_def getType_def)
  with u assms show ?thesis by (simp add: VI_update_def playSpeed_def Let_def)
qed

theorem frame_speed_witness:
  "\<exists>s' i'. VI_update ex_F ex_V 1 ex_store = (Inr (), s') \<and> s_iheap s' 1 = Some i' \<and>
     v_getSpeed ex_V (video i') = 1"
  using frame_speed [of ex_V ex_store 1 ex_instance 0 ex_visual
      "\<lparr>video_filePath = ''/sets/a.mov'', video_loaded = False\<rparr>" ex_F]
  by (simp add: ex_visual_def enum_defs Let_def)

definition all_wf :: "'v Store \<Rightarrow> bool" where
  "all_wf s \<longleftrightarrow> (\<forall>a i. s_iheap s a = Some i \<longrightarrow> wf_VIP (vi_properties i))"

text \<open>
  C25. Whatever parameter and value an action on an instance carries, the alpha, the colours, brightness,
  contrast, saturation, effect mix, size and the three percentages of every instance stay within their
  limits. The zooms and centers do not: with their parameter and a number the action stores the number
  as it is.
\<close>

theorem action_keeps_limits:
  assumes "clamp_doc F" "all_wf s"
  shows "all_wf (snd (VI_handleAction F J parameter data a s)) \<and>
    (\<forall>x i. bindR (j_at J data ''value'') (j_get_float J) = Inr x \<and> s_iheap s a = Some i \<longrightarrow>
       (\<exists>i'. s_iheap (snd (VI_handleAction F J parameter data a s)) a = Some i' \<and>
          (parameter = ''Zoom X'' \<longrightarrow> zoomX (vi_properties i') = x) \<and>
          (parameter = ''Zoom Y'' \<longrightarrow> zoomY (vi_properties i') = x) \<and>
          (parameter = ''Center X'' \<longrightarrow> centerX (vi_properties i') = x) \<and>
          (parameter = ''Center Y'' \<longrightarrow> centerY (vi_properties i') = x)))"
proof (cases "s_iheap s a")
  case None
  then show ?thesis
    using assms(2) by (auto simp: VI_handleAction_def bindX_def split: sum.split)
next
  case (Some i)
  then have "wf_VIP (vi_properties i)" using assms(2) by (simp add: all_wf_def)
  then have "wf_VIP q" if "VI_handleParameter F parameter x (vi_properties i) = Inr q" for x q
    using VI_handleParameter_wf [OF assms(1) _ that] by blast
  with Some assms(2) have "all_wf (snd (VI_handleAction F J parameter data a s))"
    by (auto simp: VI_handleAction_def all_wf_def bindX_def split: sum.split)
  with Some show ?thesis
    using VI_handleParameter_unclamped [of F _ "vi_properties i"]
    by (auto simp: VI_handleAction_def bindX_def setZoomX_def setZoomY_def setCenterX_def setCenterY_def
        split: sum.split)
qed

theorem action_keeps_limits_witness:
  "all_wf (snd (VI_handleAction ex_F ex_J ''Alpha'' (JObj [(''value'', JFloat 7)]) 1 ex_store)) \<and>
   (\<exists>i'. s_iheap (snd (VI_handleAction ex_F ex_J ''Zoom X'' (JObj [(''value'', JFloat 77)]) 1 ex_store)) 1 = Some i' \<and>
      zoomX (vi_properties i') = 77)"
proof -
  have wf: "all_wf ex_store" by (simp add: all_wf_def)
  have "bindR (j_at ex_J (JObj [(''value'', JFloat 77)]) ''value'') (j_get_float ex_J) = Inr 77"
    by (simp add: ex_J_def)
  with action_keeps_limits [OF clamp_doc_ex_F wf, of ex_J "''Zoom X''" "JObj [(''value'', JFloat 77)]" 1]
    action_keeps_limits [OF clamp_doc_ex_F wf, of ex_J "''Alpha''" "JObj [(''value'', JFloat 7)]" 1]
  show ?thesis by auto
qed

end
