(* ===== verification/InstanceTable.thy ===== *)
theory InstanceTable
  imports InstanceOps
begin

text \<open>
  \<open>Visuals/VisualInstance\<close>, class \<open>VisualInstances\<close>: the list of instances of a scene, used as
  a table with at most one instance per layer and column. The list is a member of the scene
  at the address \<open>sc\<close>.
\<close>

section \<open>Operations\<close>

definition instanceList :: "addr \<Rightarrow> ('v Store, addr list) cxx" where
  "instanceList sc = bindX (deref s_sheap sc) (\<lambda>x. ret (visualInstances x))"

abbreviation setInstanceList :: "addr \<Rightarrow> addr list \<Rightarrow> ('v Store, unit) cxx" where
  "setInstanceList sc l \<equiv> modScene sc (\<lambda>x. x\<lparr>visualInstances := l\<rparr>)"

primrec getIndex_loop :: "addr \<Rightarrow> uint \<Rightarrow> addr list \<Rightarrow> uint" where
  "getIndex_loop a counter [] = counter"
| "getIndex_loop a counter (b # bs) = (if b = a then counter else getIndex_loop a (counter + 1) bs)"

definition VisualInstances_getIndex :: "addr \<Rightarrow> addr list \<Rightarrow> uint" where
  "VisualInstances_getIndex a l = getIndex_loop a 0 l"

primrec VisualInstances_states ::
  "of_api \<Rightarrow> 'j json_api \<Rightarrow> addr list \<Rightarrow> addr list \<Rightarrow> 'j \<Rightarrow> ('v Store, 'j) cxx" where
  "VisualInstances_states F J l [] state = ret state"
| "VisualInstances_states F J l (a # as) state =
     bindX (VI_getState F J a) (\<lambda>instanceState.
     VisualInstances_states F J l as (j_push J state
       (j_set J instanceState ''index'' (j_uint J (VisualInstances_getIndex a l)))))"

definition VisualInstances_getState ::
  "of_api \<Rightarrow> 'j json_api \<Rightarrow> addr \<Rightarrow> ('v Store, 'j) cxx" where
  "VisualInstances_getState F J sc =
     bindX (instanceList sc) (\<lambda>l. VisualInstances_states F J l l (j_null J))"

primrec inColumn_loop ::
  "(addr \<rightharpoonup> 'v VisualInstance) \<Rightarrow> uint \<Rightarrow> uint \<Rightarrow> addr list \<Rightarrow> bool res" where
  "inColumn_loop h layerN column [] = Inr False"
| "inColumn_loop h layerN column (a # as) =
     (case h a of
        None \<Rightarrow> Inl (UB DanglingDeref)
      | Some i \<Rightarrow>
          if layerNo (vi_properties i) = layerN \<and> columnNo (vi_properties i) = column
          then Inr True else inColumn_loop h layerN column as)"

definition inColumn :: "addr \<Rightarrow> uint \<Rightarrow> uint \<Rightarrow> ('v Store, bool) cxx" where
  "inColumn sc layerN column =
     bindX (instanceList sc) (\<lambda>l. bindX (getS s_iheap) (\<lambda>h. liftR (inColumn_loop h layerN column l)))"

primrec remove_loop ::
  "(addr \<rightharpoonup> 'v VisualInstance) \<Rightarrow> uint \<Rightarrow> uint \<Rightarrow> addr list \<Rightarrow> addr list res" where
  "remove_loop h layer column [] = Inr []"
| "remove_loop h layer column (a # as) =
     (case h a of
        None \<Rightarrow> Inl (UB DanglingDeref)
      | Some i \<Rightarrow>
          if layerNo (vi_properties i) = layer \<and> columnNo (vi_properties i) = column
          then Inr as
          else bindR (remove_loop h layer column as) (\<lambda>bs. Inr (a # bs)))"

text \<open>The instance is taken off the list and not deleted.\<close>

definition VisualInstances_remove :: "addr \<Rightarrow> uint \<Rightarrow> uint \<Rightarrow> ('v Store, unit) cxx" where
  "VisualInstances_remove sc layer column =
     bindX (instanceList sc) (\<lambda>l.
     bindX (getS s_iheap) (\<lambda>h.
     bindX (liftR (remove_loop h layer column l)) (\<lambda>l'.
     setInstanceList sc l')))"

text \<open>The loop over all instances of a visual goes on with the iterator it has erased.\<close>

primrec removeVisual_loop ::
  "addr \<Rightarrow> (addr \<rightharpoonup> 'v VisualInstance) \<Rightarrow> addr option \<Rightarrow> addr list \<Rightarrow> addr list \<Rightarrow> ('v Store, unit) cxx" where
  "removeVisual_loop sc h v done' [] = ret ()"
| "removeVisual_loop sc h v done' (a # as) =
     (case h a of
        None \<Rightarrow> throw (UB DanglingDeref)
      | Some i \<Rightarrow>
          if visual i = v
          then thenX (setInstanceList sc (done' @ as)) (throw (UB InvalidIterator))
          else removeVisual_loop sc h v (done' @ [a]) as)"

definition VisualInstances_removeVisual :: "addr \<Rightarrow> addr option \<Rightarrow> ('v Store, unit) cxx" where
  "VisualInstances_removeVisual sc v =
     bindX (instanceList sc) (\<lambda>l. bindX (getS s_iheap) (\<lambda>h. removeVisual_loop sc h v [] l))"

definition VisualInstances_add ::
  "of_api \<Rightarrow> 'v player_api \<Rightarrow> addr \<Rightarrow> addr option \<Rightarrow> uint \<Rightarrow> uint \<Rightarrow> string \<Rightarrow> ('v Store, addr) cxx" where
  "VisualInstances_add F V sc v layer column nm =
     bindX (inColumn sc layer column) (\<lambda>b.
     thenX (if b then VisualInstances_remove sc layer column else ret ()) (
     bindX (VisualInstance_new F V v layer column) (\<lambda>i.
     bindX (newI i) (\<lambda>a.
     thenX (modP a (setName nm)) (
     bindX (instanceList sc) (\<lambda>l.
     thenX (setInstanceList sc (l @ [a])) (ret a)))))))"

text \<open>\<open>delete\<close>: the destructor, then the memory is gone.\<close>

definition VisualInstance_delete :: "'v player_api \<Rightarrow> addr \<Rightarrow> ('v Store, unit) cxx" where
  "VisualInstance_delete V a =
     thenX (dropX (VI_unloadVideo V a)) (modS (\<lambda>s. s\<lparr>s_iheap := (s_iheap s)(a := None)\<rparr>))"

text \<open>The last statement asks whether the list is empty, which changes nothing.\<close>

definition VisualInstances_empty :: "'v player_api \<Rightarrow> addr \<Rightarrow> ('v Store, unit) cxx" where
  "VisualInstances_empty V sc =
     bindX (instanceList sc) (\<lambda>l. forX l (VisualInstance_delete V))"

primrec get_loop ::
  "(addr \<rightharpoonup> 'v VisualInstance) \<Rightarrow> uint \<Rightarrow> uint \<Rightarrow> addr list \<Rightarrow> addr option res" where
  "get_loop h layerN column [] = Inr None"
| "get_loop h layerN column (a # as) =
     (case h a of
        None \<Rightarrow> Inl (UB DanglingDeref)
      | Some i \<Rightarrow>
          if layerNo (vi_properties i) = layerN \<and> columnNo (vi_properties i) = column
          then Inr (Some a) else get_loop h layerN column as)"

definition VisualInstances_get :: "addr \<Rightarrow> uint \<Rightarrow> uint \<Rightarrow> ('v Store, addr option) cxx" where
  "VisualInstances_get sc layerN column =
     bindX (instanceList sc) (\<lambda>l.
     if size32 l = 0 then ret None else
     bindX (getS s_iheap) (\<lambda>h. liftR (get_loop h layerN column l)))"

definition VisualInstances_loadAll ::
  "of_api \<Rightarrow> 'v player_api \<Rightarrow> ulonglong \<Rightarrow> addr \<Rightarrow> ('v Store, unit) cxx" where
  "VisualInstances_loadAll F V now sc =
     bindX (instanceList sc) (\<lambda>l. forX l (\<lambda>a. dropX (VI_loadVideo F V now a)))"

definition VisualInstances_count :: "addr \<Rightarrow> ('v Store, uint) cxx" where
  "VisualInstances_count sc = bindX (instanceList sc) (\<lambda>l. ret (size32 l))"

primrec countInLayer_loop ::
  "(addr \<rightharpoonup> 'v VisualInstance) \<Rightarrow> uint \<Rightarrow> uint \<Rightarrow> addr list \<Rightarrow> uint res" where
  "countInLayer_loop h layer n [] = Inr n"
| "countInLayer_loop h layer n (a # as) =
     (case h a of
        None \<Rightarrow> Inl (UB DanglingDeref)
      | Some i \<Rightarrow>
          countInLayer_loop h layer (if layerNo (vi_properties i) = layer then n + 1 else n) as)"

definition countInLayer :: "addr \<Rightarrow> uint \<Rightarrow> ('v Store, uint) cxx" where
  "countInLayer sc layer =
     bindX (instanceList sc) (\<lambda>l. bindX (getS s_iheap) (\<lambda>h. liftR (countInLayer_loop h layer 0 l)))"

text \<open>\<open>column > result\<close> compares an unsigned with an \<open>int\<close>, which is converted to unsigned.\<close>

primrec lastColumn_loop ::
  "(addr \<rightharpoonup> 'v VisualInstance) \<Rightarrow> uint \<Rightarrow> sint32 \<Rightarrow> addr list \<Rightarrow> sint32 res" where
  "lastColumn_loop h layer result [] = Inr result"
| "lastColumn_loop h layer result (a # as) =
     (case h a of
        None \<Rightarrow> Inl (UB DanglingDeref)
      | Some i \<Rightarrow>
          (let column = columnNo (vi_properties i) in
           if layerNo (vi_properties i) = layer \<and> result < column then Inr column
           else lastColumn_loop h layer result as))"

definition getLastColumnInLayer :: "addr \<Rightarrow> uint \<Rightarrow> ('v Store, sint32) cxx" where
  "getLastColumnInLayer sc layer =
     bindX (instanceList sc) (\<lambda>l.
     bindX (getS s_iheap) (\<lambda>h. liftR (lastColumn_loop h layer (- 1) l)))"

definition VisualInstances_cleanup ::
  "'v player_api \<Rightarrow> ulonglong \<Rightarrow> addr \<Rightarrow> ('v Store, unit) cxx" where
  "VisualInstances_cleanup V now sc =
     bindX (instanceList sc) (\<lambda>l.
     if size32 l = 0 then ret () else
     forX l (\<lambda>a.
       bindX (deref s_iheap a) (\<lambda>i. whenX (checkCloseCondition V now i) (VI_unload V a))))"

section \<open>The invariant of the table\<close>

text \<open>
  Every listed instance is alive and was allocated, and no two have the same layer and
  column (so no address is listed twice).
\<close>

definition list_ok :: "'v Store \<Rightarrow> addr list \<Rightarrow> bool" where
  "list_ok s l \<longleftrightarrow>
     (\<forall>a \<in> set l. slots s a \<noteq> None \<and> a < s_next s) \<and> distinct (map (slots s) l) \<and>
     length l < 2 ^ 32"

definition table_ok :: "addr \<Rightarrow> 'v Store \<Rightarrow> bool" where
  "table_ok sc s \<longleftrightarrow> (\<exists>x. s_sheap s sc = Some x \<and> list_ok s (visualInstances x))"

text \<open>The instance in a slot of a list.\<close>

definition at_slot :: "'v Store \<Rightarrow> addr list \<Rightarrow> uint \<times> uint \<Rightarrow> addr option" where
  "at_slot s l k = find (\<lambda>a. slots s a = Some k) l"

lemma inColumn_loop_correct:
  "\<forall>a \<in> set l. slots s a \<noteq> None \<Longrightarrow>
     inColumn_loop (s_iheap s) y c l = Inr (at_slot s l (y, c) \<noteq> None)"
  by (induction l) (auto simp: at_slot_def slots_def slot_def)

lemma get_loop_correct:
  "\<forall>a \<in> set l. slots s a \<noteq> None \<Longrightarrow>
     get_loop (s_iheap s) y c l = Inr (at_slot s l (y, c))"
  by (induction l) (auto simp: at_slot_def slots_def slot_def)

lemma remove_loop_correct:
  "\<forall>a \<in> set l. slots s a \<noteq> None \<Longrightarrow> distinct (map (slots s) l) \<Longrightarrow>
     remove_loop (s_iheap s) y c l = Inr (filter (\<lambda>a. slots s a \<noteq> Some (y, c)) l)"
proof (induction l)
  case (Cons a l)
  then obtain i where i: "s_iheap s a = Some i" by auto
  show ?case
  proof (cases "slots s a = Some (y, c)")
    case True
    with Cons.prems have "\<forall>b \<in> set l. slots s b \<noteq> Some (y, c)" by force
    with True i show ?thesis by (simp add: slots_def slot_def filter_id_conv)
  next
    case False
    with i have "\<not> (layerNo (vi_properties i) = y \<and> columnNo (vi_properties i) = c)"
      by (auto simp: slots_def slot_def)
    with False i Cons show ?thesis by auto
  qed
qed simp

lemma instanceList_run [simp]:
  "s_sheap s sc = Some x \<Longrightarrow> instanceList sc s = (Inr (visualInstances x), s)"
  "s_sheap s sc = None \<Longrightarrow> instanceList sc s = (Inl (UB DanglingDeref), s)"
  by (simp_all add: instanceList_def)

lemma size32_eq_0: "length l < 2 ^ 32 \<Longrightarrow> size32 l = 0 \<longleftrightarrow> l = []"
  using unat_size32 [of l] by (auto simp: unat_eq_zero [symmetric])

lemma VisualInstances_get_run:
  assumes "s_sheap s sc = Some x" "list_ok s (visualInstances x)"
  shows "VisualInstances_get sc y c s = (Inr (at_slot s (visualInstances x) (y, c)), s)"
proof (cases "visualInstances x = []")
  case True
  with assms show ?thesis by (simp add: VisualInstances_get_def at_slot_def)
next
  case False
  with assms have "size32 (visualInstances x) \<noteq> 0" by (simp add: size32_eq_0 list_ok_def)
  with assms show ?thesis
    unfolding VisualInstances_get_def by (simp add: get_loop_correct list_ok_def)
qed

lemma inColumn_run:
  assumes "s_sheap s sc = Some x" "list_ok s (visualInstances x)"
  shows "inColumn sc y c s = (Inr (at_slot s (visualInstances x) (y, c) \<noteq> None), s)"
  using assms unfolding inColumn_def by (simp add: inColumn_loop_correct list_ok_def)

lemma VisualInstances_remove_run:
  assumes "s_sheap s sc = Some x" "list_ok s (visualInstances x)"
  shows "VisualInstances_remove sc y c s =
    (Inr (), s\<lparr>s_sheap := (s_sheap s)(sc \<mapsto>
       x\<lparr>visualInstances := filter (\<lambda>a. slots s a \<noteq> Some (y, c)) (visualInstances x)\<rparr>)\<rparr>)"
  using assms unfolding VisualInstances_remove_def by (simp add: remove_loop_correct list_ok_def)

lemma at_slot_None: "at_slot s l k = None \<Longrightarrow> filter (\<lambda>a. slots s a \<noteq> Some k) l = l"
  by (auto simp: at_slot_def find_None_iff filter_id_conv)

lemma VisualInstance_new_run:
  "\<exists>ep i. VisualInstance_new F V (Some v) y c s = (Inr i, s\<lparr>s_ep := ep\<rparr>) \<and>
     slot i = (y, c) \<and> visual i = Some v \<and> video i = v_new V \<and> wf_VIP (vi_properties i) \<and>
     ep = SizeProperties_ep F (has_engine s) (s_ep s)"
proof -
  let ?p = "VIP_ctor F (has_engine s) (s_ep s) VIP_memory"
  let ?q = "setIsPlaying False (VIP_setColumn c (VIP_setLayer y ?p))"
  have "layerNo ?q = y" "columnNo ?q = c" by (simp_all add: VIP_setter_defs)
  moreover have "wf_VIP ?q" using wf_VIP_ctor [of F "has_engine s" "s_ep s" VIP_memory] by simp
  ultimately show ?thesis by (simp add: VisualInstance_new_def Let_def slot_def)
qed

lemma slot_setName [simp]:
  "slot (i\<lparr>vi_properties := setName n (vi_properties i)\<rparr>) = slot i"
  by (simp add: slot_def setName_def)

text \<open>Adding an instance: the slot's old instance leaves the list, the new one is the last.\<close>

lemma VisualInstances_add_run:
  fixes y c :: uint and s :: "'v Store" and x :: Scene
  assumes "s_sheap s sc = Some x" "list_ok s (visualInstances x)"
  defines "l \<equiv> filter (\<lambda>a. slots s a \<noteq> Some (y, c)) (visualInstances x)"
  shows "\<exists>s'. VisualInstances_add F V sc (Some v) y c n s = (Inr (s_next s), s') \<and>
    s_sheap s' = (s_sheap s)(sc \<mapsto> x\<lparr>visualInstances := l @ [s_next s]\<rparr>) \<and>
    slots s' = (slots s)(s_next s \<mapsto> (y, c)) \<and> s_next s' = Suc (s_next s) \<and>
    s_visuals s' = s_visuals s \<and> s_vheap s' = s_vheap s \<and>
    (\<exists>i. s_iheap s' = (s_iheap s)(s_next s \<mapsto> i) \<and> visual i = Some v \<and> name (vi_properties i) = n)"
proof -
  let ?b = "at_slot s (visualInstances x) (y, c) \<noteq> None"
  let ?s = "s\<lparr>s_sheap := (s_sheap s)(sc \<mapsto> x\<lparr>visualInstances := l\<rparr>)\<rparr>"
  have triv: "s\<lparr>s_sheap := (s_sheap s)(sc \<mapsto> x)\<rparr> = s" using assms(1) by (simp add: map_upd_triv)
  have pre: "(if ?b then VisualInstances_remove sc y c else ret ()) s = (Inr (), ?s)"
    using VisualInstances_remove_run [OF assms(1,2)] at_slot_None [of s "visualInstances x" "(y, c)"]
    by (auto simp: l_def triv)
  obtain ep i where i: "VisualInstance_new F V (Some v) y c ?s = (Inr i, ?s\<lparr>s_ep := ep\<rparr>)"
    "slot i = (y, c)" "visual i = Some v"
    using VisualInstance_new_run [of F V v y c ?s] by auto
  show ?thesis
    using assms(1) pre i inColumn_run [OF assms(1,2), of y c] slot_setName [of n i]
    by (auto simp: VisualInstances_add_def slots_def setName_def)
qed

lemma list_ok_filter: "list_ok s l \<Longrightarrow> list_ok s (filter P l)"
  using le_less_trans [OF length_filter_le]
  by (auto simp: list_ok_def distinct_map_filter)

lemma list_ok_cong:
  "list_ok s l \<Longrightarrow> slots s' = slots s \<Longrightarrow> s_next s \<le> s_next s' \<Longrightarrow> list_ok s' l"
  by (auto simp: list_ok_def)

lemma list_ok_snoc:
  assumes "list_ok s l" "\<forall>a \<in> set l. slots s a \<noteq> Some k" "Suc (length l) < 2 ^ 32"
    and "slots s' = (slots s)(s_next s \<mapsto> k)" "s_next s' = Suc (s_next s)"
  shows "list_ok s' (l @ [s_next s])"
proof -
  have fresh: "\<forall>a \<in> set l. a \<noteq> s_next s" using assms(1) by (auto simp: list_ok_def)
  then have eq: "map (slots s') l = map (slots s) l" using assms(4) by auto
  have "distinct (map (slots s') (l @ [s_next s]))"
    using assms(1,2,4) eq by (auto simp: list_ok_def simp del: slots_None)
  moreover have "\<forall>a \<in> set (l @ [s_next s]). slots s' a \<noteq> None \<and> a < s_next s'"
    using assms(1,4,5) fresh by (auto simp: list_ok_def less_Suc_eq simp del: slots_None)
  ultimately show ?thesis using assms(3) by (simp add: list_ok_def del: slots_None)
qed

section \<open>The contract of the table\<close>

text \<open>
  What scenes and the engine rely on: putting an instance into a slot replaces what was
  there and leaves the other slots alone, taking one out empties the slot, and both keep
  the invariant. \<open>room\<close> says that one more instance can be counted.
\<close>

locale slot_table =
  fixes inv :: "'s \<Rightarrow> bool"
    and room :: "'s \<Rightarrow> bool"
    and lookup :: "'s \<Rightarrow> 'k \<Rightarrow> 'a option"
    and put :: "'d \<Rightarrow> 'k \<Rightarrow> 's \<Rightarrow> 'a \<times> 's"
    and del :: "'k \<Rightarrow> 's \<Rightarrow> 's"
  assumes inv_put: "inv s \<Longrightarrow> room s \<Longrightarrow> inv (snd (put d k s))"
    and inv_del: "inv s \<Longrightarrow> inv (del k s)"
    and lookup_put: "inv s \<Longrightarrow> room s \<Longrightarrow>
      lookup (snd (put d k s)) k' = (if k' = k then Some (fst (put d k s)) else lookup s k')"
    and lookup_del: "inv s \<Longrightarrow> lookup (del k s) k' = (if k' = k then None else lookup s k')"
begin

lemma lookup_put_same: "inv s \<Longrightarrow> room s \<Longrightarrow> lookup (snd (put d k s)) k = Some (fst (put d k s))"
  by (simp add: lookup_put)

lemma put_replaces:
  "inv s \<Longrightarrow> room s \<Longrightarrow> room (snd (put d k s)) \<Longrightarrow>
     lookup (snd (put e k (snd (put d k s)))) k = Some (fst (put e k (snd (put d k s))))"
  by (simp add: lookup_put inv_put)

lemma del_put: "inv s \<Longrightarrow> room s \<Longrightarrow>
    lookup (del k (snd (put d k s))) k' = (if k' = k then None else lookup s k')"
  by (simp add: lookup_del lookup_put inv_put)

lemma del_del: "inv s \<Longrightarrow> lookup (del k (del k s)) = lookup (del k s)"
  by (rule ext) (simp add: lookup_del inv_del)

lemma dels_inv: "inv s \<Longrightarrow> inv (fold del ks s)"
  by (induction ks arbitrary: s) (simp_all add: inv_del)

lemma dels_lookup: "inv s \<Longrightarrow> lookup (fold del ks s) k = (if k \<in> set ks then None else lookup s k)"
  by (induction ks arbitrary: s) (auto simp: inv_del lookup_del)

end

text \<open>The operations of the class as such a table: the state an operation leaves.\<close>

definition table_lookup :: "addr \<Rightarrow> 'v Store \<Rightarrow> uint \<times> uint \<Rightarrow> addr option" where
  "table_lookup sc s k =
     (case VisualInstances_get sc (fst k) (snd k) s of (Inr r, _) \<Rightarrow> r | (Inl _, _) \<Rightarrow> None)"

definition table_put ::
  "of_api \<Rightarrow> 'v player_api \<Rightarrow> addr \<Rightarrow> addr \<times> string \<Rightarrow> uint \<times> uint \<Rightarrow> 'v Store \<Rightarrow> addr \<times> 'v Store" where
  "table_put F V sc d k s =
     (case VisualInstances_add F V sc (Some (fst d)) (fst k) (snd k) (snd d) s of
        (Inr a, s') \<Rightarrow> (a, s') | (Inl _, s') \<Rightarrow> (0, s'))"

definition table_del :: "addr \<Rightarrow> uint \<times> uint \<Rightarrow> 'v Store \<Rightarrow> 'v Store" where
  "table_del sc k s = snd (VisualInstances_remove sc (fst k) (snd k) s)"

definition table_room :: "addr \<Rightarrow> 'v Store \<Rightarrow> bool" where
  "table_room sc s \<longleftrightarrow>
     (case s_sheap s sc of None \<Rightarrow> False | Some x \<Rightarrow> Suc (length (visualInstances x)) < 2 ^ 32)"

lemma at_slot_filter:
  "at_slot s (filter (\<lambda>a. slots s a \<noteq> Some k) l) k' = (if k' = k then None else at_slot s l k')"
  by (induction l) (auto simp: at_slot_def)

lemma at_slot_snoc:
  assumes "list_ok s l" "slots s' = (slots s)(s_next s \<mapsto> k)"
    and "at_slot s l k = None"
  shows "at_slot s' (l @ [s_next s]) k' = (if k' = k then Some (s_next s) else at_slot s l k')"
proof -
  have "\<forall>a \<in> set l. a \<noteq> s_next s" using assms(1) by (auto simp: list_ok_def)
  then have eq: "at_slot s' l = at_slot s l"
    using assms(2) by (auto simp: at_slot_def intro!: ext find_cong)
  have "at_slot s' (l @ [s_next s]) k' =
    (case at_slot s' l k' of None \<Rightarrow> if k' = k then Some (s_next s) else None | Some b \<Rightarrow> Some b)"
    using assms(2) by (induction l) (auto simp: at_slot_def)
  then show ?thesis using assms(3) eq by (simp split: option.split)
qed

lemma table_lookup_eq:
  "s_sheap s sc = Some x \<Longrightarrow> list_ok s (visualInstances x) \<Longrightarrow>
     table_lookup sc s k = at_slot s (visualInstances x) k"
  by (simp add: table_lookup_def VisualInstances_get_run)

lemma table_put_facts:
  assumes "table_ok sc s" "table_room sc s"
  shows "table_ok sc (snd (table_put F V sc d k s))" (is ?ok)
    and "table_lookup sc (snd (table_put F V sc d k s)) k' =
      (if k' = k then Some (fst (table_put F V sc d k s)) else table_lookup sc s k')" (is ?look)
proof -
  obtain x where x: "s_sheap s sc = Some x" "list_ok s (visualInstances x)"
    using assms(1) by (auto simp: table_ok_def)
  let ?l = "filter (\<lambda>a. slots s a \<noteq> Some k) (visualInstances x)"
  obtain s' where s': "table_put F V sc d k s = (s_next s, s')"
    and h: "s_sheap s' = (s_sheap s)(sc \<mapsto> x\<lparr>visualInstances := ?l @ [s_next s]\<rparr>)"
    and sl: "slots s' = (slots s)(s_next s \<mapsto> k)" and nx: "s_next s' = Suc (s_next s)"
    using VisualInstances_add_run [OF x, where y = "fst k" and c = "snd k" and v = "fst d" and n = "snd d" and F = F and V = V]
    by (force simp: table_put_def)
  have "length ?l \<le> length (visualInstances x)" by (rule length_filter_le)
  moreover have "Suc (length (visualInstances x)) < 2 ^ 32"
    using assms(2) x(1) by (simp add: table_room_def)
  ultimately have len: "Suc (length ?l) < 2 ^ 32" by linarith
  have l: "list_ok s ?l" using x(2) by (rule list_ok_filter)
  have new: "list_ok s' (?l @ [s_next s])"
    using list_ok_snoc [OF l _ len sl nx] by simp
  with h s' show ?ok by (simp add: table_ok_def)
  have "table_lookup sc s' k' = at_slot s' (?l @ [s_next s]) k'"
    using h new by (simp add: table_lookup_eq)
  also have "\<dots> = (if k' = k then Some (s_next s) else at_slot s ?l k')"
    using at_slot_snoc [OF l sl] at_slot_filter [of s k] by simp
  finally show ?look
    using s' x by (simp add: table_lookup_eq at_slot_filter)
qed

lemma table_del_facts:
  assumes "table_ok sc s"
  shows "table_ok sc (table_del sc k s)"
    and "table_lookup sc (table_del sc k s) k' = (if k' = k then None else table_lookup sc s k')"
proof -
  obtain x where x: "s_sheap s sc = Some x" "list_ok s (visualInstances x)"
    using assms by (auto simp: table_ok_def)
  let ?l = "filter (\<lambda>a. slots s a \<noteq> Some k) (visualInstances x)"
  let ?s = "s\<lparr>s_sheap := (s_sheap s)(sc \<mapsto> x\<lparr>visualInstances := ?l\<rparr>)\<rparr>"
  have s': "table_del sc k s = ?s"
    using VisualInstances_remove_run [OF x, of "fst k" "snd k"] by (simp add: table_del_def)
  have sl: "slots ?s = slots s" by (simp add: slots_def)
  have ok: "list_ok ?s ?l" using list_ok_cong [OF list_ok_filter [OF x(2)] sl] by simp
  then show "table_ok sc (table_del sc k s)" by (simp add: s' table_ok_def)
  have "table_lookup sc ?s k' = at_slot ?s ?l k'" using ok by (simp add: table_lookup_eq)
  also have "\<dots> = at_slot s ?l k'" by (simp add: at_slot_def sl)
  finally show "table_lookup sc (table_del sc k s) k' =
      (if k' = k then None else table_lookup sc s k')"
    using x by (simp add: s' table_lookup_eq at_slot_filter)
qed

interpretation instances: slot_table "table_ok sc" "table_room sc" "table_lookup sc"
    "table_put F V sc" "table_del sc"
  by unfold_locales (simp_all add: table_put_facts table_del_facts)

section \<open>Other operations\<close>

text \<open>Operations of an instance keep the table.\<close>

lemma table_ok_frame:
  assumes "frame slots m" "frame s_sheap m" "frame s_next m"
  shows "preserves (table_ok sc) m"
proof (rule preservesI)
  fix s :: "'a Store"
  assume "table_ok sc s"
  moreover have "slots (snd (m s)) = slots s" "s_sheap (snd (m s)) = s_sheap s"
    "s_next (snd (m s)) = s_next s"
    using assms by (simp_all add: frame_def)
  ultimately show "table_ok sc (snd (m s))" by (auto simp: table_ok_def list_ok_def simp flip: slots_None)
qed

lemma frame_instanceList [frame_intros]: "frame g (instanceList sc)"
  unfolding instanceList_def by (intro frame_intros)

lemma frame_cleanup [frame_intros]:
  "frame slots (VisualInstances_cleanup V now sc)"
  "outside g \<Longrightarrow> frame g (VisualInstances_cleanup V now sc)"
  unfolding VisualInstances_cleanup_def
  by (auto intro!: frame_intros)

lemma frame_loadAll [frame_intros]:
  "frame slots (VisualInstances_loadAll F V now sc)"
  "outside g \<Longrightarrow> frame g (VisualInstances_loadAll F V now sc)"
  unfolding VisualInstances_loadAll_def
  by (auto intro!: frame_intros)

lemma instances_keep_table:
  "preserves (table_ok sc) (VI_play F V now fp a)"
  "preserves (table_ok sc) (VI_stop V a)"
  "preserves (table_ok sc) (VI_draw F V now w h a)"
  "preserves (table_ok sc) (VisualInstances_cleanup V now sc')"
  "preserves (table_ok sc) (VisualInstances_loadAll F V now sc')"
  by (auto intro!: table_ok_frame frame_intros)

text \<open>Adding a null visual over an occupied slot throws after the old instance is gone.\<close>

lemma VisualInstances_add_null:
  assumes "s_sheap s sc = Some x" "list_ok s (visualInstances x)"
  shows "\<exists>s'. VisualInstances_add F V sc None y c n s = (Inl (ThrowLiteral ''Invalid visual''), s') \<and>
    s_sheap s' = (s_sheap s)(sc \<mapsto>
      x\<lparr>visualInstances := filter (\<lambda>a. slots s a \<noteq> Some (y, c)) (visualInstances x)\<rparr>)"
proof -
  let ?l = "filter (\<lambda>a. slots s a \<noteq> Some (y, c)) (visualInstances x)"
  have "at_slot s (visualInstances x) (y, c) = None \<Longrightarrow>
      (s_sheap s)(sc \<mapsto> x\<lparr>visualInstances := ?l\<rparr>) = s_sheap s"
    using assms(1) by (simp add: at_slot_None map_upd_triv)
  then show ?thesis
    using inColumn_run [OF assms, of y c] VisualInstances_remove_run [OF assms, of y c]
    by (auto simp: VisualInstances_add_def VisualInstance_new_def)
qed

lemma lastColumn_loop_minus1:
  "\<forall>a \<in> set l. h a \<noteq> None \<Longrightarrow> lastColumn_loop h y (- 1) l = Inr (- 1)"
  by (induction l) (auto simp: word_order.not_eq_extremum)

lemma getLastColumnInLayer_minus1:
  assumes "table_ok sc s"
  shows "getLastColumnInLayer sc y s = (Inr (- 1), s)"
proof -
  obtain x where "s_sheap s sc = Some x" "list_ok s (visualInstances x)"
    using assms by (auto simp: table_ok_def)
  then show ?thesis
    by (simp add: getLastColumnInLayer_def lastColumn_loop_minus1 list_ok_def)
qed

section \<open>Properties\<close>

lemma ex_table [simp]: "table_ok 2 ex_store" "table_room 2 ex_store"
  by (simp_all add: table_ok_def table_room_def list_ok_def)

text \<open>
  C2. Adding an instance to a scene succeeds and gives a table in which \<open>get\<close> finds the new
  instance in its slot and finds in every other slot what was there before; every listed
  instance is alive and no slot is used twice.
\<close>

theorem add_then_get:
  assumes "table_ok sc s" "table_room sc s"
  shows "\<exists>a s'. VisualInstances_add F V sc (Some v) y c n s = (Inr a, s') \<and> table_ok sc s' \<and>
    (\<forall>y' c'. VisualInstances_get sc y' c' s' =
       (Inr (if (y', c') = (y, c) then Some a else table_lookup sc s (y', c')), s'))"
proof -
  obtain x where x: "s_sheap s sc = Some x" "list_ok s (visualInstances x)"
    using assms(1) by (auto simp: table_ok_def)
  then obtain s' where s': "VisualInstances_add F V sc (Some v) y c n s = (Inr (s_next s), s')"
    using VisualInstances_add_run [OF x, where F = F and V = V and v = v] by blast
  then have put: "table_put F V sc (v, n) (y, c) s = (s_next s, s')" by (simp add: table_put_def)
  have ok: "table_ok sc s'"
    using instances.inv_put [OF assms, where F = F and V = V and d = "(v, n)" and k = "(y, c)"] put
    by simp
  then obtain x' where "s_sheap s' sc = Some x'" "list_ok s' (visualInstances x')"
    by (auto simp: table_ok_def)
  then have "VisualInstances_get sc y' c' s' = (Inr (table_lookup sc s' (y', c')), s')" for y' c'
    by (simp add: VisualInstances_get_run table_lookup_eq)
  moreover have "table_lookup sc s' k = (if k = (y, c) then Some (s_next s) else table_lookup sc s k)" for k
    using instances.lookup_put [OF assms, where F = F and V = V and d = "(v, n)" and k = "(y, c)"] put
    by simp
  ultimately show ?thesis using s' ok by (intro exI [of _ "s_next s"] exI [of _ s']) simp
qed

theorem add_then_get_witness:
  "\<exists>a s'. VisualInstances_add ex_F ex_V 2 (Some 0) 0 1 ''b'' ex_store = (Inr a, s') \<and> table_ok 2 s' \<and>
    VisualInstances_get 2 0 1 s' = (Inr (Some a), s') \<and>
    VisualInstances_get 2 0 0 s' = (Inr (table_lookup 2 ex_store (0, 0)), s')"
  using add_then_get [of 2 ex_store ex_F ex_V 0 0 1 "''b''"] by fastforce

text \<open>
  Removing a slot empties exactly that slot of the table and frees nothing; a whole
  series of removals leaves the other slots as they were.
\<close>

theorem remove_then_get:
  assumes "table_ok sc s"
  shows "table_ok sc (fold (table_del sc) ks s) \<and>
    (\<forall>k. table_lookup sc (fold (table_del sc) ks s) k =
       (if k \<in> set ks then None else table_lookup sc s k)) \<and>
    s_iheap (fold (table_del sc) ks s) = s_iheap s"
proof -
  have "s_iheap (table_del sc k t) = s_iheap t" for k and t :: "'a Store"
    by (auto simp: table_del_def VisualInstances_remove_def instanceList_def deref_def modScene_def
        bindX_def split: option.split sum.split prod.split)
  then have "s_iheap (fold (table_del sc) ks s) = s_iheap s"
    by (induction ks arbitrary: s) simp_all
  with assms show ?thesis by (simp add: instances.dels_inv instances.dels_lookup)
qed

theorem remove_then_get_witness:
  "table_lookup 2 (fold (table_del 2) [(0, 0), (3, 4)] ex_store) (0, 0) = None \<and>
   table_ok 2 (fold (table_del 2) [(0, 0), (3, 4)] ex_store)"
  using remove_then_get [of 2 ex_store "[(0, 0), (3, 4)]"] by (simp del: fold_simps fold.simps)

text \<open>
  Asked for the last column of a layer, the table always answers -1, whatever it holds:
  the comparison of an unsigned column with the initial -1 never succeeds.
\<close>

theorem last_column_always_minus_one:
  assumes "table_ok sc s"
  shows "getLastColumnInLayer sc layer s = (Inr (- 1), s)"
  by (rule getLastColumnInLayer_minus1 [OF assms])

theorem last_column_always_minus_one_witness:
  "getLastColumnInLayer 2 0 ex_store = (Inr (- 1), ex_store) \<and>
   VisualInstances_get 2 0 0 ex_store = (Inr (Some 1), ex_store)"
  using last_column_always_minus_one [of 2 ex_store 0]
  by (simp add: VisualInstances_get_def VIP_ctor_def ex_instance_def VIP_setLimits_def VIP_reset_def Let_def)

end
