(* ===== verification/LayerOps.thy ===== *)
theory LayerOps
  imports InstanceTable
begin

text \<open>
  \<open>Main/Layer\<close>, class \<open>Layer\<close>: the properties of a layer, its render buffer, the instance
  it plays and the one scheduled for the next beat. A layer is known by its position \<open>k\<close> in
  the list of layers.
\<close>

section \<open>Access to a layer\<close>

definition getL :: "nat \<Rightarrow> ('v Store, Layer) cxx" where
  "getL k = (\<lambda>s. case nth_opt (s_layers s) k of
                   None \<Rightarrow> (Inl (UB DanglingDeref), s) | Some l \<Rightarrow> (Inr l, s))"

definition modL :: "nat \<Rightarrow> (Layer \<Rightarrow> Layer) \<Rightarrow> ('v Store, unit) cxx" where
  "modL k f = bindX (getL k) (\<lambda>l. modS (\<lambda>s. s\<lparr>s_layers := (s_layers s)[k := f l]\<rparr>))"

lemma getL_run [simp]:
  "k < length (s_layers s) \<Longrightarrow> getL k s = (Inr (s_layers s ! k), s)"
  "\<not> k < length (s_layers s) \<Longrightarrow> getL k s = (Inl (UB DanglingDeref), s)"
  by (simp_all add: getL_def nth_opt_def)

lemma modL_run [simp]:
  "k < length (s_layers s) \<Longrightarrow>
     modL k f s = (Inr (), s\<lparr>s_layers := (s_layers s)[k := f (s_layers s ! k)]\<rparr>)"
  "\<not> k < length (s_layers s) \<Longrightarrow> modL k f s = (Inl (UB DanglingDeref), s)"
  by (simp_all add: modL_def)

lemma frame_getL [frame_intros]: "frame g (getL k)"
  by (auto simp: frame_def getL_def split: option.split)

lemma frame_modL [frame_intros]:
  "(\<And>s f. g (s_layers_update f s) = g s) \<Longrightarrow> frame g (modL k u)"
  unfolding modL_def by (intro frame_intros frame_modS) simp

lemma frame_modL_length [frame_intros]: "frame (\<lambda>s. length (s_layers s)) (modL k u)"
  unfolding modL_def by (intro frame_intros frame_modS) simp

section \<open>Construction and buffer\<close>

definition LayerProperties_memory :: LayerProperties where
  "LayerProperties_memory =
     \<lparr>name = [], alpha = 0, red = 0, green = 0, blue = 0, brightness = 0, contrast = 0,
      saturation = 0, floatPropertiesLimits = Map.empty, lp_size = \<lparr>width = 0, height = 0\<rparr>,
      blendMode = 0, blurH = 0, blurV = 0\<rparr>"

definition loadShadersFromOSXBundle :: "of_api \<Rightarrow> unit res" where
  "loadShadersFromOSXBundle F =
     (if \<not> doesFileExist F (bundle_path F)
      then Inl (ThrowPointer ''Bundle path doesn't exist'')
      else if bundle_vert F = None then Inl (ThrowPointer ''Vert shader path doesn't exist'')
      else if bundle_frag F = None then Inl (ThrowPointer ''Frag shader path doesn't exist'')
      else Inr ())"

definition initBuffer :: "Layer \<Rightarrow> Layer" where
  "initBuffer l =
     (if l_buffer l = None
      then l\<lparr>l_buffer := Some (width (lp_size (l_properties l)), height (lp_size (l_properties l)))\<rparr>
      else l)"

definition destroyBuffer :: "Layer \<Rightarrow> Layer" where
  "destroyBuffer l = (if l_buffer l \<noteq> None then l\<lparr>l_buffer := None\<rparr> else l)"

definition Layer_new :: "of_api \<Rightarrow> bool \<Rightarrow> ('v Store, Layer) cxx" where
  "Layer_new F loadShaders =
     bindX (getS has_engine) (\<lambda>e.
     bindX (getS s_ep) (\<lambda>ep.
     thenX (modS (\<lambda>s. s\<lparr>s_ep := SizeProperties_ep F e ep\<rparr>)) (
     let l = \<lparr>l_properties = LayerProperties_ctor F e ep LayerProperties_memory,
              layerNumber = junk_int F, activeInstance = None, schedulledInstance = None,
              l_buffer = None\<rparr>
     in thenX (if loadShaders then liftR (loadShadersFromOSXBundle F) else ret ()) (
        ret (initBuffer l)))))"

section \<open>Instances on a layer\<close>

definition setActiveVisualInstance :: "addr option \<Rightarrow> Layer \<Rightarrow> Layer" where
  "setActiveVisualInstance a l = l\<lparr>activeInstance := a, schedulledInstance := None\<rparr>"

definition stopActiveVisualInstance :: "Layer \<Rightarrow> Layer" where
  "stopActiveVisualInstance l = l\<lparr>activeInstance := None\<rparr>"

definition Layer_stop :: "'v player_api \<Rightarrow> nat \<Rightarrow> ('v Store, unit) cxx" where
  "Layer_stop V k =
     bindX (getL k) (\<lambda>l.
     case activeInstance l of
       None \<Rightarrow> ret ()
     | Some a \<Rightarrow>
         thenX (VI_stop V a) (
         modL k (\<lambda>l. l\<lparr>activeInstance := None, schedulledInstance := None\<rparr>)))"

definition schedulleInstance :: "addr option \<Rightarrow> Layer \<Rightarrow> Layer" where
  "schedulleInstance a l = l\<lparr>schedulledInstance := a\<rparr>"

definition activateSchedulledInstance ::
  "of_api \<Rightarrow> 'v player_api \<Rightarrow> ulonglong \<Rightarrow> nat \<Rightarrow> ('v Store, unit) cxx" where
  "activateSchedulledInstance F V now k =
     bindX (getL k) (\<lambda>l.
     case schedulledInstance l of
       None \<Rightarrow> ret ()
     | Some b \<Rightarrow>
         thenX (case activeInstance l of
                  None \<Rightarrow> ret ()
                | Some a \<Rightarrow> bindX (deref s_iheap a) (\<lambda>i.
                    whenX (v_isPlaying V (video i)) (VI_stop V a))) (
         thenX (modL k (\<lambda>l. l\<lparr>activeInstance := Some b, schedulledInstance := None\<rparr>)) (
         thenX (VI_play F V now True b) (
         modVideo b (v_setFrame V 0)))))"

text \<open>Snap on, metronome on and not on a triggering beat: the three tests are evaluated in order.\<close>

definition waitsForBeat :: "of_api \<Rightarrow> VIP \<Rightarrow> ('v Store, bool) cxx" where
  "waitsForBeat F p =
     bindX (snapOn F p) (\<lambda>snap.
     if snap then bindX (getEP F triggeringBeat) (\<lambda>t. ret (\<not> t)) else ret False)"

definition playVisualInstance ::
  "of_api \<Rightarrow> 'v player_api \<Rightarrow> ulonglong \<Rightarrow> nat \<Rightarrow> addr option \<Rightarrow> ('v Store, unit) cxx" where
  "playVisualInstance F V now k new =
     bindX (deref_ptr s_iheap new) (\<lambda>i.
     bindX (waitsForBeat F (vi_properties i)) (\<lambda>wait.
     if wait then modL k (schedulleInstance new) else
     case new of None \<Rightarrow> throw (UB NullDeref) | Some n \<Rightarrow>
     bindX (getL k) (\<lambda>l.
     thenX (if new \<noteq> activeInstance l then
              thenX (case activeInstance l of None \<Rightarrow> ret () | Some a \<Rightarrow> VI_stop V a) (
              thenX (modL k (setActiveVisualInstance new)) (
              VI_play F V now False n))
            else ret ()) (
     bindX (deref s_iheap n) (\<lambda>i.
     whenX (retrigger (vi_properties i)) (VI_retrigger F V now n))))))"

section \<open>Rendering and label\<close>

definition Layer_render ::
  "of_api \<Rightarrow> 'v player_api \<Rightarrow> ulonglong \<Rightarrow> nat \<Rightarrow> ('v Store, unit) cxx" where
  "Layer_render F V now k =
     thenX (modL k initBuffer) (
     bindX (getL k) (\<lambda>l.
     case (activeInstance l, l_buffer l) of
       (Some a, Some (w, h)) \<Rightarrow>
         bindX (liftR (getBlurH (l_properties l))) (\<lambda>_.
         bindX (liftR (getBlurV (l_properties l))) (\<lambda>_.
         VI_draw F V now w h a))
     | _ \<Rightarrow> ret ()))"

definition Layer_label :: "of_api \<Rightarrow> Layer \<Rightarrow> string res" where
  "Layer_label F l =
     bindR (float_to_int (alpha (l_properties l) * 100)) (\<lambda>percent.
     Inr (''Layer '' @ ofToString_uint F (layerNumber l + 1) @ ''|'' @
          blendModeToString F (blendMode (l_properties l)) @ ''|'' @
          ofToString_int F percent @ ''%''))"

section \<open>Actions and state\<close>

definition Layer_handleParameter ::
  "of_api \<Rightarrow> string \<Rightarrow> real \<Rightarrow> LayerProperties \<Rightarrow> LayerProperties res" where
  "Layer_handleParameter F parameter value p =
     (let h = str2int parameter in
      if h = str2int ''Alpha'' then Inr (setAlpha F value p)
      else if h = str2int ''Brightness'' then Inr (setBrightness F value p)
      else if h = str2int ''Contrast'' then Inr (setContrast F value p)
      else if h = str2int ''Saturation'' then Inr (setSaturation F value p)
      else if h = str2int ''Red'' then Inr (setRed F value p)
      else if h = str2int ''Green'' then Inr (setGreen F value p)
      else if h = str2int ''Blue'' then Inr (setBlue F value p)
      else if h = str2int ''Blur'' then
        bindR (float_to_uint value) (\<lambda>n. Inr (setBlurV F n (setBlurH F n p)))
      else if h = str2int ''Horizontal Blur'' then
        bindR (float_to_uint value) (\<lambda>n. Inr (setBlurH F n p))
      else if h = str2int ''Vertical Blur'' then
        bindR (float_to_uint value) (\<lambda>n. Inr (setBlurV F n p))
      else Inr p)"

definition Layer_handleAction ::
  "of_api \<Rightarrow> 'j json_api \<Rightarrow> string \<Rightarrow> 'j \<Rightarrow> nat \<Rightarrow> ('v Store, unit) cxx" where
  "Layer_handleAction F J parameter data k =
     bindX (liftR (bindR (j_at J data ''value'') (j_get_float J))) (\<lambda>value.
     bindX (getL k) (\<lambda>l.
     bindX (liftR (Layer_handleParameter F parameter value (l_properties l))) (\<lambda>p.
     modL k (\<lambda>l. l\<lparr>l_properties := p\<rparr>))))"

definition Layer_getState :: "'j json_api \<Rightarrow> Layer \<Rightarrow> 'j res" where
  "Layer_getState J l = LayerProperties_getState J (l_properties l)"

text \<open>\<open>if (state[key].is_number()) set(state[key].get<T>())\<close>\<close>

definition whenNumber ::
  "'j json_api \<Rightarrow> 'j \<Rightarrow> string \<Rightarrow> ('j \<Rightarrow> 'x res) \<Rightarrow> ('x \<Rightarrow> ('p, unit) cxx) \<Rightarrow> ('p, unit) cxx" where
  "whenNumber J state key get upd =
     bindX (liftR (j_at J state key)) (\<lambda>v.
     if is_number J v then bindX (liftR (get v)) upd else ret ())"

definition rounded2 :: "(real \<Rightarrow> 'p \<Rightarrow> 'p) \<Rightarrow> real \<Rightarrow> ('p, unit) cxx" where
  "rounded2 upd x = bindX (liftR (roundWithPrecision x 2)) (\<lambda>y. modS (upd y))"

definition setLPWidth :: "of_api \<Rightarrow> uint \<Rightarrow> (LayerProperties, unit) cxx" where
  "setLPWidth F n =
     bindX (getS lp_size) (\<lambda>z. bindX (liftR (setWidth F n z)) (\<lambda>z'. modS (\<lambda>p. p\<lparr>lp_size := z'\<rparr>)))"

definition setLPHeight :: "of_api \<Rightarrow> uint \<Rightarrow> (LayerProperties, unit) cxx" where
  "setLPHeight F n =
     bindX (getS lp_size) (\<lambda>z. bindX (liftR (setHeight F n z)) (\<lambda>z'. modS (\<lambda>p. p\<lparr>lp_size := z'\<rparr>)))"

text \<open>What has been set before an exception stays set.\<close>

definition LayerProperties_setState ::
  "of_api \<Rightarrow> 'j json_api \<Rightarrow> 'j \<Rightarrow> (LayerProperties, unit) cxx" where
  "LayerProperties_setState F J state =
     thenX (whenNumber J state ''width'' (j_get_int J) (setLPWidth F)) (
     thenX (whenNumber J state ''height'' (j_get_int J) (setLPHeight F)) (
     thenX (whenNumber J state ''blendMode'' (j_get_int J) (\<lambda>n. modS (setBlendMode F n))) (
     thenX (whenNumber J state ''blurH'' (j_get_int J) (\<lambda>n. modS (setBlurH F n))) (
     thenX (whenNumber J state ''blurV'' (j_get_int J) (\<lambda>n. modS (setBlurV F n))) (
     thenX (whenNumber J state ''red'' (j_get_float J) (rounded2 (setRed F))) (
     thenX (whenNumber J state ''green'' (j_get_float J) (rounded2 (setGreen F))) (
     thenX (whenNumber J state ''blue'' (j_get_float J) (\<lambda>x. modS (setBlue F x))) (
     thenX (whenNumber J state ''alpha'' (j_get_float J) (\<lambda>x. modS (setAlpha F x))) (
     thenX (whenNumber J state ''brightness'' (j_get_float J) (\<lambda>x. modS (setBrightness F x))) (
     thenX (whenNumber J state ''contrast'' (j_get_float J) (\<lambda>x. modS (setContrast F x))) (
     thenX (whenNumber J state ''saturation'' (j_get_float J) (\<lambda>x. modS (setSaturation F x))) (
     bindX (liftR (j_at J state ''name'')) (\<lambda>v.
     if is_string J v then bindX (liftR (j_get_string J v)) (\<lambda>t. modS (setName t)) else ret ())))))))))))))"

definition Layer_setState ::
  "of_api \<Rightarrow> 'j json_api \<Rightarrow> 'j \<Rightarrow> nat \<Rightarrow> ('v Store, unit) cxx" where
  "Layer_setState F J state k =
     bindX (getL k) (\<lambda>l.
     case LayerProperties_setState F J state (l_properties l) of
       (r, p) \<Rightarrow> thenX (modL k (\<lambda>l. l\<lparr>l_properties := p\<rparr>)) (liftR r))"

section \<open>Saving and restoring the properties\<close>

lemma LayerProperties_getState_at:
  assumes "json_doc J" "LayerProperties_getState J p = Inr st" "getBlurH p = Inr bh" "getBlurV p = Inr bv"
  shows "j_at J st ''width'' = Inr (j_uint J (width (lp_size p)))"
    and "j_at J st ''height'' = Inr (j_uint J (height (lp_size p)))"
    and "j_at J st ''blendMode'' = Inr (j_uint J (blendMode p))"
    and "j_at J st ''blurH'' = Inr (j_uint J bh)"
    and "j_at J st ''blurV'' = Inr (j_uint J bv)"
    and "j_at J st ''red'' = Inr (j_float J (red p))"
    and "j_at J st ''green'' = Inr (j_float J (green p))"
    and "j_at J st ''blue'' = Inr (j_float J (blue p))"
    and "j_at J st ''alpha'' = Inr (j_float J (alpha p))"
    and "j_at J st ''brightness'' = Inr (j_float J (brightness p))"
    and "j_at J st ''contrast'' = Inr (j_float J (contrast p))"
    and "j_at J st ''saturation'' = Inr (j_float J (saturation p))"
    and "j_at J st ''name'' = Inr (j_string J (name p))"
  using assms(2) unfolding LayerProperties_getState_def assms(3,4)
  by (auto simp: Let_def SizeProperties_getState_def Properties_getState_def assms(1))

lemma bindX_liftR: "bindX (liftR (Inr a)) f = f a" "bindX (liftR (Inl e)) f = throw e"
  by (rule ext, simp)+

lemma whenNumber_uint:
  "json_doc J \<Longrightarrow> j_at J st k = Inr (j_uint J n) \<Longrightarrow> whenNumber J st k (j_get_int J) upd = upd n"
  by (rule ext) (simp add: whenNumber_def)

lemma whenNumber_float:
  "json_doc J \<Longrightarrow> j_at J st k = Inr (j_float J x) \<Longrightarrow> whenNumber J st k (j_get_float J) upd = upd x"
  by (rule ext) (simp add: whenNumber_def)

lemma rounded_in_range:
  assumes "- 1 \<le> x" "x \<le> 1"
  shows "- 1 \<le> std_round (x * 100) / 100" "std_round (x * 100) / 100 \<le> 1"
proof -
  obtain n where n: "std_round (x * 100) = of_int n"
    using std_round_Ints [of "x * 100"] by (auto elim: Ints_cases)
  have "- (100 + 1/2) \<le> real_of_int n" "real_of_int n \<le> 100 + 1/2"
    using std_round_error [of "x * 100"] assms n by linarith+
  then have "- 100 \<le> n" "n \<le> 100" by linarith+
  with n show "- 1 \<le> std_round (x * 100) / 100" "std_round (x * 100) / 100 \<le> 1" by simp_all
qed

lemma setLP_run:
  assumes "clamp_doc F" "wf_SizeProperties z"
  shows "setLPWidth F (width z) p = (Inr (), p\<lparr>lp_size := (lp_size p)\<lparr>width := width z\<rparr>\<rparr>)"
    and "setLPHeight F (height z) p = (Inr (), p\<lparr>lp_size := (lp_size p)\<lparr>height := height z\<rparr>\<rparr>)"
  using assms by (simp_all add: setLPWidth_def setLPHeight_def setWidth_Inr setHeight_Inr wf_SizeProperties_def
      min_absorb1)

lemma setBlur_stored:
  assumes "clamp_doc F" "h \<le> 10"
  shows "setBlurH F (of_nat h) p = p\<lparr>blurH := real h\<rparr>" "setBlurV F (of_nat h) p = p\<lparr>blurV := real h\<rparr>"
proof -
  have "unat (of_nat h :: uint) = h" using assms(2) by (simp add: unat_of_nat)
  with assms show "setBlurH F (of_nat h) p = p\<lparr>blurH := real h\<rparr>"
    "setBlurV F (of_nat h) p = p\<lparr>blurV := real h\<rparr>"
    by (simp_all add: setBlurH_def setBlurV_def blurHLimits_def blurVLimits_def ofClamp_id)
qed

lemma setBlendMode_stored:
  "OF_BLENDMODE_DISABLED F \<le> m \<Longrightarrow> m \<le> OF_BLENDMODE_SCREEN F \<Longrightarrow> setBlendMode F m p = p\<lparr>blendMode := m\<rparr>"
  by (simp add: setBlendMode_def Let_def leD)

text \<open>
  Saving a layer and loading the result into another: every property comes back, red and
  green rounded to two decimals.
\<close>

lemma setState_getState:
  assumes doc: "clamp_doc F" "json_doc J" and wf: "wf_LayerProperties F p" "wf_Properties q"
  shows "\<exists>st. LayerProperties_getState J p = Inr st \<and>
    LayerProperties_setState F J st q =
      (Inr (), p\<lparr>red := std_round (red p * 100) / 100, green := std_round (green p * 100) / 100,
             floatPropertiesLimits := floatPropertiesLimits q\<rparr>)"
proof -
  obtain h v where hv: "getBlurH p = Inr (of_nat h)" "getBlurV p = Inr (of_nat v)"
    "blurH p = real h" "blurV p = real v" "h \<le> 10" "v \<le> 10"
    using getBlur_defined [OF wf(1)] by blast
  then obtain st where st: "LayerProperties_getState J p = Inr st"
    by (auto simp: LayerProperties_getState_def)
  note at = LayerProperties_getState_at [OF doc(2) st hv(1,2)]
  have size: "wf_SizeProperties (lp_size p)" using wf(1) by (simp add: wf_LayerProperties_def)
  have mode: "setBlendMode F (blendMode p) r = r\<lparr>blendMode := blendMode p\<rparr>" for r
    using wf(1) by (simp add: wf_LayerProperties_def setBlendMode_stored)
  have wfp: "wf_Properties p" using wf(1) by (simp add: wf_LayerProperties_def)
  have rnd: "roundWithPrecision (red p) 2 = Inr (std_round (red p * 100) / 100)"
    "roundWithPrecision (green p) 2 = Inr (std_round (green p * 100) / 100)"
    using wfp by (auto intro!: roundWithPrecision_2_defined simp: wf_Properties_def abs_if)
  have "- 1 \<le> red p" "red p \<le> 1" "- 1 \<le> green p" "green p \<le> 1"
    using wfp by (simp_all add: wf_Properties_def)
  note rr = rounded_in_range [OF this(1,2)] rounded_in_range [OF this(3,4)]
  have "LayerProperties_setState F J st q =
      (Inr (), p\<lparr>red := std_round (red p * 100) / 100, green := std_round (green p * 100) / 100,
             floatPropertiesLimits := floatPropertiesLimits q\<rparr>)"
    unfolding LayerProperties_setState_def whenNumber_uint [OF doc(2) at(1)]
      whenNumber_uint [OF doc(2) at(2)] whenNumber_uint [OF doc(2) at(3)]
      whenNumber_uint [OF doc(2) at(4)] whenNumber_uint [OF doc(2) at(5)]
      whenNumber_float [OF doc(2) at(6)] whenNumber_float [OF doc(2) at(7)]
      whenNumber_float [OF doc(2) at(8)] whenNumber_float [OF doc(2) at(9)]
      whenNumber_float [OF doc(2) at(10)] whenNumber_float [OF doc(2) at(11)]
      whenNumber_float [OF doc(2) at(12)] at(13)
    using wfp wf(2) rr hv
    by (simp add: bindX_liftR setLP_run [OF doc(1) size] mode setBlur_stored [OF doc(1)] rounded2_def rnd doc(2)
        Properties_setter_defs setName_def Let_def wf_Properties_def limits_ok_def ofClamp_id [OF doc(1)])
  with st show ?thesis by blast
qed

section \<open>Properties\<close>

definition ex_layer_properties :: LayerProperties where
  "ex_layer_properties = LayerProperties_ctor ex_F False EngineProperties_init LayerProperties_memory"

lemma ex_layer_wf [simp]:
  "wf_LayerProperties ex_F ex_layer_properties" "wf_Properties ex_layer_properties"
  using wf_LayerProperties_ctor [of ex_F False EngineProperties_init LayerProperties_memory]
  by (simp_all add: ex_layer_properties_def wf_LayerProperties_def)

text \<open>
  C3. Saving the properties of a layer and loading them into any other layer restores all of
  them; only red and green come back rounded to two decimals.
\<close>

theorem layer_state_roundtrip:
  assumes "clamp_doc F" "json_doc J" "wf_LayerProperties F p" "wf_Properties q"
  shows "\<exists>st. LayerProperties_getState J p = Inr st \<and>
    LayerProperties_setState F J st q =
      (Inr (), p\<lparr>red := std_round (red p * 100) / 100, green := std_round (green p * 100) / 100,
             floatPropertiesLimits := floatPropertiesLimits q\<rparr>)"
  by (rule setState_getState [OF assms])

theorem layer_state_roundtrip_witness:
  "\<exists>st. LayerProperties_getState ex_J ex_layer_properties = Inr st \<and>
    LayerProperties_setState ex_F ex_J st ex_layer_properties =
      (Inr (), ex_layer_properties\<lparr>red := std_round (red ex_layer_properties * 100) / 100,
             green := std_round (green ex_layer_properties * 100) / 100,
             floatPropertiesLimits := floatPropertiesLimits ex_layer_properties\<rparr>)"
  by (rule layer_state_roundtrip) simp_all

end
