(* ===== verification/LayersList.thy ===== *)
theory LayersList
  imports LayerOps
begin

text \<open>
  \<open>Main/Layer\<close>, class \<open>Layers\<close>: the list of layers and the selected layer, whose number is
  kept by the engine properties. A pointer to a layer is its position in the list.
\<close>

section \<open>Operations\<close>

definition Layers_add :: "of_api \<Rightarrow> bool \<Rightarrow> ('v Store, nat option) cxx" where
  "Layers_add F loadShaders =
     bindX (getS s_layers) (\<lambda>ls.
     if length ls = MAXIMUM_NUMBER_OF_LAYERS then ret None else
     bindX (Layer_new F loadShaders) (\<lambda>l.
     thenX (modS (\<lambda>s. s\<lparr>s_layers := s_layers s @ [l\<lparr>layerNumber := size32 (s_layers s) + 1\<rparr>]\<rparr>)) (
     ret (Some (length ls)))))"

definition Layers_empty :: "of_api \<Rightarrow> ('v Store, unit) cxx" where
  "Layers_empty F =
     thenX (modS (\<lambda>s. s\<lparr>s_layers := []\<rparr>)) (modEP F (setSelectedLayerNumber 0))"

definition Layers_get :: "'v Store \<Rightarrow> uint \<Rightarrow> nat option" where
  "Layers_get s layerN =
     (if length (s_layers s) \<le> unat layerN then None else Some (unat layerN))"

definition Layers_getCurrent :: "of_api \<Rightarrow> ('v Store, nat option) cxx" where
  "Layers_getCurrent F = bindX (getEP F selectedLayer) (\<lambda>n. getS (\<lambda>s. Layers_get s n))"

definition Layers_getCurrentId :: "of_api \<Rightarrow> ('v Store, uint) cxx" where
  "Layers_getCurrentId F = getEP F selectedLayer"

definition Layers_setActive :: "of_api \<Rightarrow> uint \<Rightarrow> ('v Store, unit) cxx" where
  "Layers_setActive F activeLayer =
     (if activeLayer = 0 then ret () else
      bindX (getS (\<lambda>s. size32 (s_layers s))) (\<lambda>layerSize.
      let activeLayer = (if layerSize < activeLayer then layerSize else activeLayer)
      in modEP F (setSelectedLayerNumber (activeLayer - 1))))"

text \<open>A position equal to the size passes the guard, and \<open>erase\<close> then gets the end iterator.\<close>

definition Layers_remove :: "of_api \<Rightarrow> uint \<Rightarrow> ('v Store, unit) cxx" where
  "Layers_remove F layerN =
     bindX (getS s_layers) (\<lambda>ls.
     if length ls < unat layerN then ret ()
     else if unat layerN = length ls then throw (UB InvalidIterator)
     else thenX (modS (\<lambda>s. s\<lparr>s_layers := remove_nth (unat layerN) (s_layers s)\<rparr>)) (
          bindX (getS (\<lambda>s. size32 (s_layers s))) (\<lambda>layerSize.
          bindX (getEP F selectedLayer) (\<lambda>selected.
          if layerSize \<le> selected then Layers_setActive F layerSize else ret ()))))"

definition Layers_count :: "'v Store \<Rightarrow> sint32" where
  "Layers_count s = size32 (s_layers s)"

definition Layers_setCount :: "of_api \<Rightarrow> uint \<Rightarrow> ('v Store, unit) cxx" where
  "Layers_setCount F val =
     bindX (getS Layers_count) (\<lambda>n.
     if val = n then ret ()
     else if n < val
     then forX [0..<unat (val - n)] (\<lambda>_. dropX (Layers_add F True))
     else forX [unat (val - 1)..<unat n] (\<lambda>i. Layers_remove F (of_nat i)))"

definition Layers_activateFirst :: "of_api \<Rightarrow> ('v Store, unit) cxx" where
  "Layers_activateFirst F = Layers_setActive F 1"

definition Layers_activatePrevious :: "of_api \<Rightarrow> ('v Store, unit) cxx" where
  "Layers_activatePrevious F = bindX (Layers_getCurrentId F) (Layers_setActive F)"

definition Layers_activateNext :: "of_api \<Rightarrow> ('v Store, unit) cxx" where
  "Layers_activateNext F = bindX (Layers_getCurrentId F) (\<lambda>n. Layers_setActive F (n + 2))"

definition Layers_activateLast :: "of_api \<Rightarrow> ('v Store, unit) cxx" where
  "Layers_activateLast F = bindX (getS Layers_count) (Layers_setActive F)"

definition Layers_stopAt :: "'v player_api \<Rightarrow> uint \<Rightarrow> ('v Store, unit) cxx" where
  "Layers_stopAt V position =
     bindX (getS (\<lambda>s. Layers_get s position)) (\<lambda>p.
     case p of None \<Rightarrow> ret () | Some k \<Rightarrow> Layer_stop V k)"

definition Layers_stopAll :: "'v player_api \<Rightarrow> ('v Store, unit) cxx" where
  "Layers_stopAll V = bindX (getS s_layers) (\<lambda>ls. forX [0..<length ls] (Layer_stop V))"

primrec states_of :: "('l \<Rightarrow> 'j res) \<Rightarrow> 'j json_api \<Rightarrow> 'j \<Rightarrow> 'l list \<Rightarrow> 'j res" where
  "states_of f J state [] = Inr state"
| "states_of f J state (l # ls) = bindR (f l) (\<lambda>j. states_of f J (j_push J state j) ls)"

definition Layers_getState :: "'j json_api \<Rightarrow> ('v Store, 'j) cxx" where
  "Layers_getState J = (\<lambda>s. (states_of (Layer_getState J) J (j_null J) (s_layers s), s))"

definition Layers_getFullState :: "of_api \<Rightarrow> 'j json_api \<Rightarrow> ('v Store, 'j) cxx" where
  "Layers_getFullState F J =
     (\<lambda>s. (states_of (\<lambda>l. LayerProperties_getFullState F J (l_properties l)) J (j_null J) (s_layers s), s))"

definition Layers_setState_one :: "of_api \<Rightarrow> 'j json_api \<Rightarrow> 'j \<Rightarrow> ('v Store, unit) cxx" where
  "Layers_setState_one F J layer =
     bindX (Layers_add F True) (\<lambda>newLayer.
     case newLayer of None \<Rightarrow> throw (UB NullDeref) | Some k \<Rightarrow> Layer_setState F J layer k)"

definition Layers_setState :: "of_api \<Rightarrow> 'j json_api \<Rightarrow> 'j \<Rightarrow> ('v Store, unit) cxx" where
  "Layers_setState F J state =
     thenX (Layers_empty F) (forX (j_items J state) (Layers_setState_one F J))"

section \<open>The interface of the list\<close>

interpretation layers_idx: indexed "\<lambda>s :: 'v Store. [0..<length (s_layers s)]" Layers_get
  by unfold_locales (auto simp: Layers_get_def nth_opt_def)

lemma Layers_get_Some: "Layers_get s n = Some k \<longleftrightarrow> k = unat n \<and> unat n < length (s_layers s)"
  by (auto simp: Layers_get_def)

section \<open>Selection\<close>

text \<open>
  At most six layers; the selected number is the position of a layer, and zero when there is
  none.
\<close>

definition selection_ok :: "'v Store \<Rightarrow> bool" where
  "selection_ok s \<longleftrightarrow>
     length (s_layers s) \<le> MAXIMUM_NUMBER_OF_LAYERS \<and>
     (if s_layers s = [] then selectedLayer (s_ep s) = 0
      else unat (selectedLayer (s_ep s)) < length (s_layers s))"

lemma SizeProperties_ep_selects [simp]:
  "selectedLayer (SizeProperties_ep F e ep) = selectedLayer ep"
  "metronomeOn (SizeProperties_ep F e ep) = metronomeOn ep"
  by (simp_all add: SizeProperties_ep_def)

lemma Layer_new_run:
  assumes "loadShadersFromOSXBundle F = Inr () \<or> \<not> sh"
  shows "\<exists>ep l. Layer_new F sh s = (Inr l, s\<lparr>s_ep := ep\<rparr>) \<and>
    selectedLayer ep = selectedLayer (s_ep s) \<and>
    l_properties l = LayerProperties_ctor F (has_engine s) (s_ep s) LayerProperties_memory \<and>
    activeInstance l = None \<and> schedulledInstance l = None \<and>
    l_buffer l = Some (width (lp_size (l_properties l)), height (lp_size (l_properties l)))"
  using assms
  by (intro exI [of _ "SizeProperties_ep F (has_engine s) (s_ep s)"])
    (auto simp: Layer_new_def Let_def initBuffer_def)

lemma Layer_new_shaders_fail:
  assumes "loadShadersFromOSXBundle F = Inl e"
  shows "\<exists>ep. Layer_new F True s = (Inl e, s\<lparr>s_ep := ep\<rparr>) \<and> selectedLayer ep = selectedLayer (s_ep s)"
  using assms
  by (intro exI [of _ "SizeProperties_ep F (has_engine s) (s_ep s)"])
    (simp add: Layer_new_def Let_def)

lemma Layers_add_cases:
  obtains (full) "length (s_layers s) = MAXIMUM_NUMBER_OF_LAYERS" "Layers_add F sh s = (Inr None, s)"
  | (added) ep l where "length (s_layers s) \<noteq> MAXIMUM_NUMBER_OF_LAYERS"
      "Layers_add F sh s = (Inr (Some (length (s_layers s))),
         s\<lparr>s_ep := ep, s_layers := s_layers s @ [l]\<rparr>)"
      "selectedLayer ep = selectedLayer (s_ep s)"
      "layerNumber l = size32 (s_layers s) + 1" "activeInstance l = None"
      "schedulledInstance l = None"
      "l_properties l = LayerProperties_ctor F (has_engine s) (s_ep s) LayerProperties_memory"
      "loadShadersFromOSXBundle F = Inr () \<or> \<not> sh"
  | (failed) ep e where "length (s_layers s) \<noteq> MAXIMUM_NUMBER_OF_LAYERS" "sh"
      "loadShadersFromOSXBundle F = Inl e" "Layers_add F sh s = (Inl e, s\<lparr>s_ep := ep\<rparr>)"
      "selectedLayer ep = selectedLayer (s_ep s)"
proof (cases "length (s_layers s) = MAXIMUM_NUMBER_OF_LAYERS")
  case True
  then show thesis using full by (simp add: Layers_add_def)
next
  case False
  show thesis
  proof (cases "loadShadersFromOSXBundle F = Inr () \<or> \<not> sh")
    case True
    then obtain ep l where l: "Layer_new F sh s = (Inr l, s\<lparr>s_ep := ep\<rparr>)"
      "selectedLayer ep = selectedLayer (s_ep s)"
      "l_properties l = LayerProperties_ctor F (has_engine s) (s_ep s) LayerProperties_memory"
      "activeInstance l = None" "schedulledInstance l = None"
      using Layer_new_run [of F sh s] by blast
    with False True show thesis
      by (intro added [of "l\<lparr>layerNumber := size32 (s_layers s) + 1\<rparr>" ep])
        (simp_all add: Layers_add_def)
  next
    case fl: False
    then obtain e where e: "loadShadersFromOSXBundle F = Inl e" "sh"
      by (cases "loadShadersFromOSXBundle F") auto
    with False Layer_new_shaders_fail [of F e s] show thesis
      by (auto simp: Layers_add_def intro!: failed)
  qed
qed

lemma selection_ok_add: "preserves selection_ok (Layers_add F sh)"
proof (rule preservesI)
  fix s :: "'a Store"
  assume ok: "selection_ok s"
  show "selection_ok (snd (Layers_add F sh s))"
    by (cases rule: Layers_add_cases [of s F sh])
      (use ok in \<open>auto simp: selection_ok_def split: if_splits\<close>)
qed

lemma selection_ok_empty: "selection_ok (snd (Layers_empty F s))"
  by (simp add: Layers_empty_def selection_ok_def)

lemma Layers_setActive_run:
  "Layers_setActive F n s =
     (if n = 0 then (Inr (), s)
      else (Inr (), s\<lparr>s_ep := setSelectedLayerNumber (min n (size32 (s_layers s)) - 1)
                        (EP_getInstance F (s_ep s))\<rparr>))"
  by (auto simp: Layers_setActive_def Let_def min_def)

lemma unat_min_minus_1:
  fixes n m :: uint
  assumes "n \<noteq> 0" "m \<noteq> 0"
  shows "unat (min n m - 1) = min (unat n) (unat m) - 1"
proof -
  have "min n m \<noteq> 0" using assms by (simp add: min_def)
  then have "unat (min n m - 1) = unat (min n m) - 1" by (simp add: unat_minus_one)
  then show ?thesis by (simp add: min_def word_le_nat_alt)
qed

lemma Layers_setActive_selected:
  assumes "s_layers s \<noteq> []" "length (s_layers s) < 2 ^ 32" "n \<noteq> 0"
  shows "unat (selectedLayer (s_ep (snd (Layers_setActive F n s)))) =
    min (unat n) (length (s_layers s)) - 1"
proof -
  have "unat (size32 (s_layers s)) = length (s_layers s)" using assms(2) by (rule unat_size32)
  moreover from this assms(1) have "size32 (s_layers s) \<noteq> 0" by (auto simp: unat_eq_zero [symmetric])
  ultimately show ?thesis
    using unat_min_minus_1 [OF assms(3), of "size32 (s_layers s)"] assms(3)
    by (simp add: Layers_setActive_run)
qed

lemma selection_ok_length: "selection_ok s \<Longrightarrow> length (s_layers s) \<le> 6"
  by (simp add: selection_ok_def MAXIMUM_NUMBER_OF_LAYERS_def)

lemma selection_ok_setActive:
  assumes "selection_ok s" "s_layers s \<noteq> []"
  shows "selection_ok (snd (Layers_setActive F n s))"
proof (cases "n = 0")
  case True
  with assms(1) show ?thesis by (simp add: Layers_setActive_run)
next
  case False
  have "s_layers (snd (Layers_setActive F n s)) = s_layers s" by (simp add: Layers_setActive_run)
  moreover have "length (s_layers s) < 2 ^ 32" using selection_ok_length [OF assms(1)] by simp
  ultimately show ?thesis
    using assms Layers_setActive_selected [OF assms(2) _ False, of F]
    by (auto simp: selection_ok_def)
qed

text \<open>Removing a layer other than at the end position: the selection moves to the last layer.\<close>

lemma Layers_remove_run:
  assumes "selection_ok s" "unat n < length (s_layers s)"
  shows "\<exists>ep. Layers_remove F n s = (Inr (), s\<lparr>s_layers := remove_nth (unat n) (s_layers s), s_ep := ep\<rparr>) \<and>
    unat (selectedLayer ep) =
      min (unat (selectedLayer (s_ep s))) (length (s_layers s) - 2)"
proof -
  let ?ls = "remove_nth (unat n) (s_layers s)"
  let ?s = "s\<lparr>s_layers := ?ls, s_ep := EP_getInstance F (s_ep s)\<rparr>"
  let ?sel = "selectedLayer (s_ep s)"
  have len: "length ?ls = length (s_layers s) - 1" using assms(2) by simp
  have len6: "length (s_layers s) \<le> 6" using assms(1) by (rule selection_ok_length)
  have size: "unat (size32 ?ls) = length (s_layers s) - 1"
    using unat_size32 [of ?ls] len len6 by simp
  have sel: "unat ?sel < length (s_layers s)"
    using assms by (auto simp: selection_ok_def split: if_splits)
  show ?thesis
  proof (cases "unat ?sel < length (s_layers s) - 1")
    case True
    then have "\<not> size32 ?ls \<le> ?sel" by (simp only: word_le_nat_alt size)
    with True assms show ?thesis
      by (intro exI [of _ "EP_getInstance F (s_ep s)"]) (auto simp: Layers_remove_def min_def)
  next
    case False
    then have le: "size32 ?ls \<le> ?sel" by (simp only: word_le_nat_alt size)
    show ?thesis
    proof (cases "length (s_layers s) = 1")
      case True
      then have "length ?ls = 0" "unat ?sel = 0" using len sel by linarith+
      with True le assms show ?thesis
        by (intro exI [of _ "EP_getInstance F (s_ep s)"])
          (auto simp: Layers_remove_def Layers_setActive_run)
    next
      case large: False
      then have ne: "?ls \<noteq> []" "size32 ?ls \<noteq> 0"
        using len assms(2) size by (auto simp: unat_eq_zero [symmetric] remove_nth_Nil_iff)
      let ?t = "Layers_setActive F (size32 ?ls) ?s"
      have "unat (selectedLayer (s_ep (snd ?t))) = length (s_layers s) - 2"
        using Layers_setActive_selected [of ?s "size32 ?ls" F] ne len len6 size by simp
      moreover have "?t = (Inr (), ?s\<lparr>s_ep := s_ep (snd ?t)\<rparr>)"
        using ne by (simp add: Layers_setActive_run)
      ultimately show ?thesis
        using le assms sel False large
        by (intro exI [of _ "s_ep (snd ?t)"]) (auto simp: Layers_remove_def)
    qed
  qed
qed

lemma selection_ok_remove:
  assumes "selection_ok s" "unat n \<noteq> length (s_layers s)"
  shows "selection_ok (snd (Layers_remove F n s))"
proof (cases "unat n < length (s_layers s)")
  case True
  obtain ep where ep: "Layers_remove F n s =
      (Inr (), s\<lparr>s_layers := remove_nth (unat n) (s_layers s), s_ep := ep\<rparr>)"
    and sel: "unat (selectedLayer ep) = min (unat (selectedLayer (s_ep s))) (length (s_layers s) - 2)"
    using Layers_remove_run [OF assms(1) True] by blast
  have len: "length (remove_nth (unat n) (s_layers s)) = length (s_layers s) - 1" using True by simp
  show ?thesis
  proof (cases "length (s_layers s) = 1")
    case one: True
    with assms(1) sel len have "unat (selectedLayer ep) = 0"
      "length (remove_nth (unat n) (s_layers s)) = 0"
      by (auto simp: selection_ok_def)
    then show ?thesis by (simp add: ep selection_ok_def unat_eq_zero)
  next
    case False
    with True len assms(1) sel show ?thesis
      by (auto simp: ep selection_ok_def remove_nth_Nil_iff split: if_splits)
  qed
next
  case False
  with assms show ?thesis by (simp add: Layers_remove_def)
qed

lemma activate_run:
  "Layers_activateFirst F s = Layers_setActive F 1 s"
  "Layers_activatePrevious F s =
     Layers_setActive F (selectedLayer (s_ep s)) (s\<lparr>s_ep := EP_getInstance F (s_ep s)\<rparr>)"
  "Layers_activateNext F s =
     Layers_setActive F (selectedLayer (s_ep s) + 2) (s\<lparr>s_ep := EP_getInstance F (s_ep s)\<rparr>)"
  "Layers_activateLast F s = Layers_setActive F (size32 (s_layers s)) s"
  by (simp_all add: Layers_activateFirst_def Layers_activatePrevious_def Layers_activateNext_def
      Layers_activateLast_def Layers_getCurrentId_def Layers_count_def)

lemma selection_ok_getInstance [simp]:
  "selection_ok (s\<lparr>s_ep := EP_getInstance F (s_ep s)\<rparr>) = selection_ok s"
  by (simp add: selection_ok_def)

text \<open>
  The runs of the list of layers: any sequence of calls from the start of the program, each of
  which comes back. The flag says that no layer has been activated while the list was empty.
\<close>

inductive layers_run :: "of_api \<Rightarrow> bool \<Rightarrow> 'v Store \<Rightarrow> bool" for F where
  start: "layers_run F True Store_init"
| add: "layers_run F clean s \<Longrightarrow> layers_run F clean (snd (Layers_add F sh s))"
| empty: "layers_run F clean s \<Longrightarrow> layers_run F clean (snd (Layers_empty F s))"
| remove: "layers_run F clean s \<Longrightarrow> Layers_remove F n s = (Inr (), s') \<Longrightarrow> layers_run F clean s'"
| setActive: "layers_run F clean s \<Longrightarrow>
    layers_run F (clean \<and> s_layers s \<noteq> []) (snd (Layers_setActive F n s))"
| first: "layers_run F clean s \<Longrightarrow>
    layers_run F (clean \<and> s_layers s \<noteq> []) (snd (Layers_activateFirst F s))"
| previous: "layers_run F clean s \<Longrightarrow>
    layers_run F (clean \<and> s_layers s \<noteq> []) (snd (Layers_activatePrevious F s))"
| following: "layers_run F clean s \<Longrightarrow>
    layers_run F (clean \<and> s_layers s \<noteq> []) (snd (Layers_activateNext F s))"
| last: "layers_run F clean s \<Longrightarrow>
    layers_run F (clean \<and> s_layers s \<noteq> []) (snd (Layers_activateLast F s))"

text \<open>Activating a layer of an empty list selects the number below zero, the largest one.\<close>

definition selection_inv :: "bool \<Rightarrow> 'v Store \<Rightarrow> bool" where
  "selection_inv clean s \<longleftrightarrow>
     selection_ok s \<or>
     \<not> clean \<and> length (s_layers s) \<le> MAXIMUM_NUMBER_OF_LAYERS \<and> selectedLayer (s_ep s) = - 1"

lemma selection_inv_length: "selection_inv clean s \<Longrightarrow> length (s_layers s) \<le> 6"
  by (auto simp: selection_inv_def selection_ok_def MAXIMUM_NUMBER_OF_LAYERS_def)

lemma selection_inv_getInstance [simp]:
  "selection_inv clean (s\<lparr>s_ep := EP_getInstance F (s_ep s)\<rparr>) = selection_inv clean s"
  by (simp add: selection_inv_def)

lemma selection_inv_add:
  assumes "selection_inv clean s"
  shows "selection_inv clean (snd (Layers_add F sh s))"
  using assms preserves_snd [OF selection_ok_add, of s F sh]
  by (cases rule: Layers_add_cases [of s F sh]) (auto simp: selection_inv_def)

lemma setActive_ok:
  assumes "length (s_layers s) \<le> 6" "s_layers s \<noteq> []" "n \<noteq> 0"
  shows "selection_ok (snd (Layers_setActive F n s))"
proof -
  have "s_layers (snd (Layers_setActive F n s)) = s_layers s" by (simp add: Layers_setActive_run)
  moreover have "0 < length (s_layers s)" using assms(2) by simp
  then have "min (unat n) (length (s_layers s)) - 1 < length (s_layers s)" by linarith
  ultimately show ?thesis
    using assms Layers_setActive_selected [OF assms(2) _ assms(3), of F]
    by (simp add: selection_ok_def MAXIMUM_NUMBER_OF_LAYERS_def)
qed

lemma selection_inv_setActive:
  assumes "selection_inv clean s"
  shows "selection_inv (clean \<and> s_layers s \<noteq> []) (snd (Layers_setActive F n s))"
proof (cases "n = 0 \<or> s_layers s = []")
  case True
  then show ?thesis
    using assms by (auto simp: selection_inv_def Layers_setActive_run selection_ok_def min_def)
next
  case False
  then show ?thesis
    using setActive_ok [OF selection_inv_length [OF assms]] by (simp add: selection_inv_def)
qed

lemma selection_inv_remove:
  assumes "selection_inv clean s" "Layers_remove F n s = (Inr (), s')"
  shows "selection_inv clean s'"
proof (cases "selection_ok s")
  case True
  have "unat n \<noteq> length (s_layers s)" using assms(2) by (auto simp: Layers_remove_def)
  from selection_ok_remove [OF True this, of F] assms(2) show ?thesis
    by (simp add: selection_inv_def)
next
  case False
  let ?ls = "remove_nth (unat n) (s_layers s)"
  let ?s = "s\<lparr>s_layers := ?ls, s_ep := EP_getInstance F (s_ep s)\<rparr>"
  have lost: "\<not> clean" "selectedLayer (s_ep s) = - 1"
    using False assms(1) by (auto simp: selection_inv_def)
  have len: "length (s_layers s) \<le> 6" using assms(1) by (rule selection_inv_length)
  show ?thesis
  proof (cases "unat n < length (s_layers s)")
    case True
    then have "s' = snd (Layers_setActive F (size32 ?ls) ?s)"
      using assms(2) lost(2) by (auto simp: Layers_remove_def Layers_setActive_run)
    moreover have "length ?ls \<le> 6" using len True by simp
    then have "selection_inv clean ?s"
      using lost by (simp add: selection_inv_def MAXIMUM_NUMBER_OF_LAYERS_def)
    ultimately show ?thesis
      using selection_inv_setActive [of clean ?s F "size32 ?ls"] lost(1) by simp
  next
    case False
    with assms show ?thesis by (auto simp: Layers_remove_def split: if_splits)
  qed
qed

lemma layers_run_inv: "layers_run F clean s \<Longrightarrow> selection_inv clean s"
proof (induction rule: layers_run.induct)
  case start
  show ?case by (simp add: selection_inv_def selection_ok_def Store_init_def EngineProperties_init_def)
next
  case (empty clean s)
  show ?case by (simp add: selection_inv_def selection_ok_empty)
next
  case (previous clean s)
  then show ?case
    using selection_inv_setActive [of clean "s\<lparr>s_ep := EP_getInstance F (s_ep s)\<rparr>" F]
    by (simp add: activate_run)
next
  case (following clean s)
  then show ?case
    using selection_inv_setActive [of clean "s\<lparr>s_ep := EP_getInstance F (s_ep s)\<rparr>" F]
    by (simp add: activate_run)
qed (simp_all add: activate_run selection_inv_add selection_inv_remove selection_inv_setActive)

lemma Layers_getCurrent_run:
  assumes "selection_ok s"
  shows "\<exists>s'. Layers_getCurrent F s =
    (Inr (if s_layers s = [] then None else Some (unat (selectedLayer (s_ep s)))), s') \<and>
    s_layers s' = s_layers s"
  using assms by (auto simp: Layers_getCurrent_def Layers_get_def selection_ok_def split: if_splits)

text \<open>Moving the selection from the first to the last layer and back.\<close>

lemma activateNext_selected:
  assumes "selection_ok s" "s_layers s \<noteq> []"
  shows "unat (selectedLayer (s_ep (snd (Layers_activateNext F s)))) =
    min (Suc (unat (selectedLayer (s_ep s)))) (length (s_layers s) - 1)"
proof -
  let ?s = "s\<lparr>s_ep := EP_getInstance F (s_ep s)\<rparr>"
  have len: "length (s_layers s) \<le> 6" using assms(1) by (rule selection_ok_length)
  have "unat (selectedLayer (s_ep s)) < 6" using assms len by (auto simp: selection_ok_def)
  then have n: "unat (selectedLayer (s_ep s) + 2) = unat (selectedLayer (s_ep s)) + 2"
    by (simp add: unat_word_ariths)
  then have "selectedLayer (s_ep s) + 2 \<noteq> 0" by (auto simp: unat_eq_zero [symmetric])
  from Layers_setActive_selected [of ?s, OF _ _ this] n len assms(2)
  show ?thesis by (simp add: activate_run min_def) linarith
qed

lemma activatePrevious_selected:
  assumes "selection_ok s" "s_layers s \<noteq> []"
  shows "unat (selectedLayer (s_ep (snd (Layers_activatePrevious F s)))) =
    unat (selectedLayer (s_ep s)) - 1"
proof (cases "selectedLayer (s_ep s) = 0")
  case True
  then show ?thesis by (simp add: activate_run Layers_setActive_run)
next
  case False
  let ?s = "s\<lparr>s_ep := EP_getInstance F (s_ep s)\<rparr>"
  have "length (s_layers s) \<le> 6" using assms(1) by (rule selection_ok_length)
  with Layers_setActive_selected [of ?s, OF _ _ False] assms
  show ?thesis by (auto simp: activate_run selection_ok_def min_def)
qed

section \<open>Changing the number of layers\<close>

lemma remove_beyond:
  "\<forall>i \<in> set is. length (s_layers s) < i \<and> i < 2 ^ 32 \<Longrightarrow>
     forX is (\<lambda>i. Layers_remove F (of_nat i)) s = (Inr (), s)"
  by (induction "is") (auto simp: Layers_remove_def unat_of_nat)

lemma remove_one:
  assumes "selection_ok s" "i < length (s_layers s)"
  shows "\<exists>s'. Layers_remove F (of_nat i) s = (Inr (), s') \<and> selection_ok s' \<and>
    length (s_layers s') = length (s_layers s) - 1"
proof -
  have i: "unat (of_nat i :: uint) = i"
    using selection_ok_length [OF assms(1)] assms(2) by (simp add: unat_of_nat)
  with Layers_remove_run [of s "of_nat i" F] selection_ok_remove [of s "of_nat i" F] assms
  show ?thesis by auto
qed

lemma shrink_odd:
  assumes "selection_ok s" "length (s_layers s) = i + 2 * t" "i + 2 * t \<le> n" "i < n"
  shows "\<exists>s'. forX [i..<n] (\<lambda>i. Layers_remove F (of_nat i)) s = (Inl (UB InvalidIterator), s')"
  using assms
proof (induction t arbitrary: i s)
  case 0
  then have "unat (of_nat i :: uint) = length (s_layers s)"
    using selection_ok_length [of s] by (simp add: unat_of_nat)
  then have "Layers_remove F (of_nat i) s = (Inl (UB InvalidIterator), s)"
    by (simp add: Layers_remove_def)
  with "0.prems" show ?case by (simp add: upt_conv_Cons)
next
  case (Suc t)
  then obtain s' where s': "Layers_remove F (of_nat i) s = (Inr (), s')" "selection_ok s'"
    "length (s_layers s') = Suc i + 2 * t"
    using remove_one [of s i F] by auto
  from Suc.IH [OF s'(2,3)] Suc.prems s'(1) show ?case by (auto simp: upt_conv_Cons)
qed

lemma shrink_even:
  assumes "selection_ok s" "length (s_layers s) = i + 2 * t + 1" "i + 2 * t + 1 \<le> n" "n \<le> 6"
  shows "\<exists>s'. forX [i..<n] (\<lambda>i. Layers_remove F (of_nat i)) s = (Inr (), s') \<and>
    length (s_layers s') = i + t"
  using assms
proof (induction t arbitrary: i s)
  case 0
  then obtain s' where s': "Layers_remove F (of_nat i) s = (Inr (), s')"
    "length (s_layers s') = i"
    using remove_one [of s i F] by auto
  have "forX [Suc i..<n] (\<lambda>i. Layers_remove F (of_nat i)) s' = (Inr (), s')"
    using s'(2) "0.prems" by (intro remove_beyond) auto
  with s' "0.prems" show ?case by (auto simp: upt_conv_Cons)
next
  case (Suc t)
  then obtain s' where s': "Layers_remove F (of_nat i) s = (Inr (), s')" "selection_ok s'"
    "length (s_layers s') = Suc i + 2 * t + 1"
    using remove_one [of s i F] by auto
  from Suc.IH [OF s'(2,3)] Suc.prems s'(1) show ?case by (auto simp: upt_conv_Cons)
qed

lemma setCount_shrink_loop:
  assumes "selection_ok s" "0 < unat v" "unat v < length (s_layers s)"
  shows "Layers_setCount F v s =
    forX [unat v - 1..<length (s_layers s)] (\<lambda>i. Layers_remove F (of_nat i)) s"
proof -
  have n: "unat (Layers_count s) = length (s_layers s)"
    using selection_ok_length [OF assms(1)] by (simp add: Layers_count_def unat_of_nat)
  have "v \<noteq> 0" using assms(2) by (auto simp: unat_eq_zero [symmetric])
  then have m: "unat (v - 1) = unat v - 1" by (simp add: unat_minus_one)
  have "v \<noteq> Layers_count s" "\<not> Layers_count s < v"
    using assms(3) n by (auto simp: word_less_nat_alt)
  with n m show ?thesis by (simp add: Layers_setCount_def)
qed

lemma setCount_same:
  assumes "selection_ok s" "v = 0 \<or> unat v = length (s_layers s)"
  shows "Layers_setCount F v s = (Inr (), s)"
proof -
  have n: "unat (Layers_count s) = length (s_layers s)"
    using selection_ok_length [OF assms(1)] by (simp add: Layers_count_def unat_of_nat)
  have "unat (- 1 :: uint) = 4294967295"
    by (simp add: unsigned_minus_1_eq_mask mask_eq_exp_minus_1)
  then have "unat (Layers_count s) \<le> unat (- 1 :: uint)"
    using n selection_ok_length [OF assms(1)] by simp
  moreover have "v = Layers_count s \<or> v = 0"
    using n assms(2) by (auto simp: word_unat_eq_iff)
  ultimately show ?thesis
    by (auto simp: Layers_setCount_def bindX_def)
qed

lemma setCount_shrink:
  assumes "selection_ok s" "0 < unat v" "unat v < length (s_layers s)"
  shows "if odd (length (s_layers s) - unat v)
    then \<exists>s'. Layers_setCount F v s = (Inl (UB InvalidIterator), s')
    else \<exists>s'. Layers_setCount F v s = (Inr (), s') \<and>
      length (s_layers s') = (length (s_layers s) + unat v) div 2 - 1"
proof (cases "odd (length (s_layers s) - unat v)")
  case True
  then obtain t where t: "length (s_layers s) - unat v = 2 * t + 1" by (rule oddE)
  then have len: "length (s_layers s) = (unat v - 1) + 2 * (t + 1)" using assms(2,3) by arith
  have "\<exists>s'. Layers_setCount F v s = (Inl (UB InvalidIterator), s')"
    unfolding setCount_shrink_loop [OF assms]
    by (rule shrink_odd [OF assms(1) len]) (use len assms(2,3) in linarith)+
  with True show ?thesis by (simp only: if_True simp_thms)
next
  case False
  then have "even (length (s_layers s) - unat v)" by blast
  then obtain t where t: "length (s_layers s) - unat v = 2 * t" by (rule evenE)
  then have len: "length (s_layers s) = (unat v - 1) + 2 * t + 1" using assms(2,3) by linarith
  then have half: "(length (s_layers s) + unat v) div 2 - 1 = unat v - 1 + t"
    using assms(2) by linarith
  have "\<exists>s'. Layers_setCount F v s = (Inr (), s') \<and> length (s_layers s') = unat v - 1 + t"
    unfolding setCount_shrink_loop [OF assms]
    by (rule shrink_even [OF assms(1) len]) (use len selection_ok_length [OF assms(1)] in linarith)+
  with False half show ?thesis by (simp only: if_False simp_thms)
qed

lemma grow_loop:
  assumes "loadShadersFromOSXBundle F = Inr ()" "length (s_layers s) \<le> 6"
  shows "\<exists>s'. forX (xs :: nat list) (\<lambda>_. dropX (Layers_add F True)) s = (Inr (), s') \<and>
    length (s_layers s') = min (length (s_layers s) + length xs) 6"
  using assms(2)
proof (induction xs arbitrary: s)
  case Nil
  then show ?case by simp
next
  case (Cons x xs)
  show ?case
  proof (cases rule: Layers_add_cases [of s F True])
    case full
    with Cons show ?thesis by (fastforce simp: MAXIMUM_NUMBER_OF_LAYERS_def)
  next
    case (added ep l)
    let ?s = "s\<lparr>s_ep := ep, s_layers := s_layers s @ [l]\<rparr>"
    have "length (s_layers ?s) \<le> 6"
      using added(1) Cons.prems by (simp add: MAXIMUM_NUMBER_OF_LAYERS_def)
    from Cons.IH [OF this] added show ?thesis by auto
  next
    case (failed ep e)
    with assms(1) show ?thesis by simp
  qed
qed

lemma setCount_grow:
  assumes "loadShadersFromOSXBundle F = Inr ()" "length (s_layers s) \<le> 6"
    and "length (s_layers s) < unat v"
  shows "\<exists>s'. Layers_setCount F v s = (Inr (), s') \<and> length (s_layers s') = min (unat v) 6"
proof -
  have n: "unat (Layers_count s) = length (s_layers s)"
    using assms(2) by (simp add: Layers_count_def unat_of_nat)
  then have less: "Layers_count s < v" using assms(3) by (simp add: word_less_nat_alt)
  then have "unat (v - Layers_count s) = unat v - length (s_layers s)"
    using n by (simp add: unat_sub less_imp_le)
  with grow_loop [OF assms(1,2), of "[0..<unat (v - Layers_count s)]"] less assms(3)
  show ?thesis by (auto simp: Layers_setCount_def)
qed

section \<open>Properties\<close>

lemma selection_ok_init [simp]: "selection_ok Store_init"
  by (simp add: selection_ok_def Store_init_def EngineProperties_init_def)

text \<open>
  C1. Whatever additions, removals and activations of layers are called from the start of the program,
  in any order, as long as each call comes back: there are at most six layers, and the current layer is
  the selected one when its number lies in the list and null otherwise. The number lies in the list
  whenever the list is not empty, unless a layer was activated while the list was empty; then it can be
  the largest unsigned number, which the next activation corrects once there is a layer.
\<close>

theorem current_layer_exists:
  assumes "layers_run F clean s"
  shows "length (s_layers s) \<le> 6 \<and>
    fst (Layers_getCurrent F s) =
      Inr (if unat (selectedLayer (s_ep s)) < length (s_layers s)
           then Some (unat (selectedLayer (s_ep s))) else None) \<and>
    (s_layers s = [] \<or> unat (selectedLayer (s_ep s)) < length (s_layers s) \<or>
      \<not> clean \<and> selectedLayer (s_ep s) = 0xFFFFFFFF) \<and>
    (\<forall>n. s_layers s \<noteq> [] \<and> n \<noteq> 0 \<longrightarrow>
      unat (selectedLayer (s_ep (snd (Layers_setActive F n s)))) = min (unat n) (length (s_layers s)) - 1)"
proof -
  note inv = layers_run_inv [OF assms]
  note len = selection_inv_length [OF inv]
  have "s_layers s = [] \<or> unat (selectedLayer (s_ep s)) < length (s_layers s) \<or>
      \<not> clean \<and> selectedLayer (s_ep s) = 0xFFFFFFFF"
    using inv by (auto simp: selection_inv_def selection_ok_def)
  moreover have "fst (Layers_getCurrent F s) =
      Inr (if unat (selectedLayer (s_ep s)) < length (s_layers s)
           then Some (unat (selectedLayer (s_ep s))) else None)"
    by (simp add: Layers_getCurrent_def Layers_get_def)
  ultimately show ?thesis
    using len Layers_setActive_selected [of s _ F] by simp
qed

theorem current_layer_exists_witness:
  "fst (Layers_getCurrent ex_F (snd (Layers_add ex_F False (Store_init :: ex_player Store)))) = Inr (Some 0) \<and>
   fst (Layers_getCurrent ex_F (snd (Layers_add ex_F False
     (snd (Layers_setActive ex_F 1 (Store_init :: ex_player Store)))))) = Inr None"
proof -
  let ?i = "Store_init :: ex_player Store"
  let ?s = "snd (Layers_add ex_F False ?i)"
  let ?t = "snd (Layers_setActive ex_F 1 ?i)"
  let ?u = "snd (Layers_add ex_F False ?t)"
  have run: "layers_run ex_F True ?s" "layers_run ex_F (True \<and> s_layers ?i \<noteq> []) ?u"
    by (rule layers_run.add layers_run.setActive layers_run.start)+
  have init: "s_layers ?i = []" "selectedLayer (s_ep ?i) = 0"
    "s_layers ?t = []" "selectedLayer (s_ep ?t) = - 1"
    by (simp_all add: Store_init_def EngineProperties_init_def Layers_setActive_run)
  have "s_layers ?s \<noteq> []" "selectedLayer (s_ep ?s) = 0"
    by (cases rule: Layers_add_cases [of ?i ex_F False];
        simp add: init MAXIMUM_NUMBER_OF_LAYERS_def)+
  moreover have "length (s_layers ?u) \<le> 1" "selectedLayer (s_ep ?u) = - 1"
    by (cases rule: Layers_add_cases [of ?t ex_F False];
        simp add: init MAXIMUM_NUMBER_OF_LAYERS_def)+
  moreover have "unat (- 1 :: uint) = 4294967295" by (simp add: unsigned_minus_1_eq_mask mask_eq_exp_minus_1)
  ultimately show ?thesis
    using current_layer_exists [OF run(1)] current_layer_exists [OF run(2)] by simp
qed

text \<open>
  With layers, next moves the selection one layer on and stops at the last, previous
  moves it one back and stops at the first; first and last select the ends.
\<close>

theorem activate_moves_selection:
  assumes "selection_ok s" "s_layers s \<noteq> []"
  shows "unat (selectedLayer (s_ep (snd (Layers_activateNext F s)))) =
      min (Suc (unat (selectedLayer (s_ep s)))) (length (s_layers s) - 1) \<and>
    unat (selectedLayer (s_ep (snd (Layers_activatePrevious F s)))) =
      unat (selectedLayer (s_ep s)) - 1 \<and>
    unat (selectedLayer (s_ep (snd (Layers_activateFirst F s)))) = 0 \<and>
    unat (selectedLayer (s_ep (snd (Layers_activateLast F s)))) = length (s_layers s) - 1"
proof -
  have len: "length (s_layers s) < 2 ^ 32" using selection_ok_length [OF assms(1)] by simp
  then have size: "unat (size32 (s_layers s)) = length (s_layers s)" by (rule unat_size32)
  then have "size32 (s_layers s) \<noteq> 0" using assms(2) by (auto simp: unat_eq_zero [symmetric])
  from Layers_setActive_selected [OF assms(2) len this] size
  have "unat (selectedLayer (s_ep (snd (Layers_activateLast F s)))) = length (s_layers s) - 1"
    by (simp add: activate_run)
  moreover have "unat (selectedLayer (s_ep (snd (Layers_activateFirst F s)))) = 0"
    using Layers_setActive_selected [OF assms(2) len, of 1 F] by (simp add: activate_run)
  ultimately show ?thesis
    using activateNext_selected [OF assms] activatePrevious_selected [OF assms] by blast
qed

definition ex_layers :: "nat \<Rightarrow> ex_player Store" where
  "ex_layers n = Store_init\<lparr>s_layers := replicate n
     \<lparr>l_properties = ex_layer_properties, layerNumber = 1, activeInstance = None,
      schedulledInstance = None, l_buffer = None\<rparr>\<rparr>"

lemma ex_layers_ok [simp]:
  "n \<le> 6 \<Longrightarrow> selection_ok (ex_layers n)" "length (s_layers (ex_layers n)) = n"
  "selectedLayer (s_ep (ex_layers n)) = 0"
  by (simp_all add: ex_layers_def selection_ok_def Store_init_def MAXIMUM_NUMBER_OF_LAYERS_def
      EngineProperties_init_def)

lemma ex_layers_nonempty [simp]: "s_layers (ex_layers n) = [] \<longleftrightarrow> n = 0"
  by (simp add: ex_layers_def)

theorem activate_moves_selection_witness:
  "unat (selectedLayer (s_ep (snd (Layers_activateNext ex_F (ex_layers 3))))) = 1 \<and>
   unat (selectedLayer (s_ep (snd (Layers_activateLast ex_F (ex_layers 3))))) = 2"
  using activate_moves_selection [of "ex_layers 3" ex_F] by simp

text \<open>
  C20. Setting the number of layers, with the shaders found. A larger number is reached as far as the
  six layers allowed, the current number and zero change nothing. With a smaller number \<open>v\<close> out of
  \<open>n\<close>, an odd difference erases the end of the list, which is undefined; otherwise
  \<open>(n + v) / 2 - 1\<close> layers stay, which is \<open>v\<close> exactly when the difference is two.
\<close>

theorem setCount_outcome:
  assumes "selection_ok s" "loadShadersFromOSXBundle F = Inr ()"
  shows "if length (s_layers s) < unat v
    then \<exists>s'. Layers_setCount F v s = (Inr (), s') \<and> length (s_layers s') = min (unat v) 6
    else if v = 0 \<or> unat v = length (s_layers s) then Layers_setCount F v s = (Inr (), s)
    else if odd (length (s_layers s) - unat v)
    then \<exists>s'. Layers_setCount F v s = (Inl (UB InvalidIterator), s')
    else \<exists>s'. Layers_setCount F v s = (Inr (), s') \<and>
      length (s_layers s') = (length (s_layers s) + unat v) div 2 - 1 \<and>
      (length (s_layers s') = unat v \<longleftrightarrow> length (s_layers s) = unat v + 2)"
proof -
  note len = selection_ok_length [OF assms(1)]
  consider "length (s_layers s) < unat v" | "unat v \<le> length (s_layers s)" "v = 0 \<or> unat v = length (s_layers s)"
    | "0 < unat v" "unat v < length (s_layers s)"
    by (metis gr0I le_neq_implies_less not_le unat_0_iff unat_eq_zero)
  then show ?thesis
  proof cases
    case 1
    with setCount_grow [OF assms(2) len 1] show ?thesis by (simp only: if_True)
  next
    case 2
    with setCount_same [OF assms(1), of v F] show ?thesis by simp
  next
    case 3
    then have "\<not> length (s_layers s) < unat v" "\<not> (v = 0 \<or> unat v = length (s_layers s))" by auto
    moreover have "(length (s_layers s) + unat v) div 2 - 1 = unat v \<longleftrightarrow> length (s_layers s) = unat v + 2"
      if "even (length (s_layers s) - unat v)"
    proof -
      from that obtain k where "length (s_layers s) - unat v = 2 * k" by (rule evenE)
      then have "length (s_layers s) = unat v + 2 * k" using 3 by simp
      then show ?thesis using 3 by auto
    qed
    ultimately show ?thesis
      using setCount_shrink [OF assms(1) 3, of F] by (auto split: if_splits)
  qed
qed

theorem setCount_outcome_witness:
  "(\<exists>s'. Layers_setCount ex_F 4 (ex_layers 1) = (Inr (), s') \<and> length (s_layers s') = 4) \<and>
   Layers_setCount ex_F 0 (ex_layers 3) = (Inr (), ex_layers 3) \<and>
   (\<exists>s'. Layers_setCount ex_F 2 (ex_layers 6) = (Inr (), s') \<and> length (s_layers s') = 3) \<and>
   (\<exists>s'. Layers_setCount ex_F 1 (ex_layers 3) = (Inr (), s') \<and> length (s_layers s') = 1) \<and>
   (\<exists>s'. Layers_setCount ex_F 2 (ex_layers 3) = (Inl (UB InvalidIterator), s'))"
proof -
  have sh: "loadShadersFromOSXBundle ex_F = Inr ()"
    by (simp add: loadShadersFromOSXBundle_def ex_F_def)
  show ?thesis
    using setCount_outcome [of "ex_layers 1" ex_F 4] setCount_outcome [of "ex_layers 3" ex_F 0]
      setCount_outcome [of "ex_layers 6" ex_F 2] setCount_outcome [of "ex_layers 3" ex_F 1]
      setCount_outcome [of "ex_layers 3" ex_F 2] sh
    by simp blast
qed

text \<open>
  Removing a layer is undefined exactly for the position just past the last layer; for a
  position in the list that layer goes, the others keep their order, and the selection stays
  or moves to the new last layer; any larger position changes nothing.
\<close>

theorem remove_outcome:
  assumes "selection_ok s"
  shows "if unat n < length (s_layers s)
    then \<exists>s'. Layers_remove F n s = (Inr (), s') \<and>
      s_layers s' = take (unat n) (s_layers s) @ drop (Suc (unat n)) (s_layers s) \<and>
      unat (selectedLayer (s_ep s')) =
        min (unat (selectedLayer (s_ep s))) (length (s_layers s) - 2)
    else Layers_remove F n s =
      ((if unat n = length (s_layers s) then Inl (UB InvalidIterator) else Inr ()), s)"
proof (cases "unat n < length (s_layers s)")
  case True
  with Layers_remove_run [OF assms True, of F] show ?thesis by (auto simp: remove_nth_def)
next
  case False
  then show ?thesis by (simp add: Layers_remove_def)
qed

theorem remove_outcome_witness:
  "(\<exists>s'. Layers_remove ex_F 0 (ex_layers 3) = (Inr (), s') \<and> length (s_layers s') = 2) \<and>
   Layers_remove ex_F 3 (ex_layers 3) = (Inl (UB InvalidIterator), ex_layers 3)"
  using remove_outcome [of "ex_layers 3" 0 ex_F] remove_outcome [of "ex_layers 3" 3 ex_F]
  by auto

end
