(* ===== verification/Scenes.thy ===== *)
theory Scenes
  imports LayersList
begin

text \<open>
  \<open>Main/Scene\<close>: a scene (a name and a table of visual instances) and the list of scenes. A
  scene is reached through pointers from the list and from the set, so it has an address.
\<close>

section \<open>A scene\<close>

definition Scene_setName :: "string \<Rightarrow> addr \<Rightarrow> ('v Store, unit) cxx" where
  "Scene_setName nm sc = modScene sc (\<lambda>x. x\<lparr>sceneName := nm\<rparr>)"

definition Scene_getState :: "of_api \<Rightarrow> 'j json_api \<Rightarrow> addr \<Rightarrow> ('v Store, 'j) cxx" where
  "Scene_getState F J sc =
     bindX (deref s_sheap sc) (\<lambda>x.
     bindX (VisualInstances_getState F J sc) (\<lambda>instances.
     ret (j_obj J [(''name'', j_string J (sceneName x)), (''instances'', instances)])))"

text \<open>
  One element of \<open>instances\<close>: its number selects the visual; without such a visual the
  element is skipped.
\<close>

definition Scene_setState_one ::
  "of_api \<Rightarrow> 'j json_api \<Rightarrow> 'v player_api \<Rightarrow> addr \<Rightarrow> 'j \<Rightarrow> ('v Store, unit) cxx" where
  "Scene_setState_one F J V sc st =
     bindX (liftR (bindR (j_at J st ''index'') (j_get_int J))) (\<lambda>n.
     bindX (getS (\<lambda>s. Visuals_get s n)) (\<lambda>visual.
     if visual = None then ret () else
     bindX (liftR (j_at J st ''properties'')) (\<lambda>ps.
     bindX (liftR (bindR (j_at J ps ''layer'') (j_get_uint J))) (\<lambda>layer.
     bindX (liftR (bindR (j_at J ps ''column'') (j_get_uint J))) (\<lambda>column.
     bindX (liftR (bindR (j_at J ps ''name'') (j_get_string J))) (\<lambda>nm.
     dropX (VisualInstances_add F V sc visual layer column nm)))))))"

definition Scene_setState ::
  "of_api \<Rightarrow> 'j json_api \<Rightarrow> 'v player_api \<Rightarrow> 'j \<Rightarrow> addr \<Rightarrow> ('v Store, unit) cxx" where
  "Scene_setState F J V state sc =
     (if \<not> is_object J state then throw (ThrowLiteral ''State isn't an object'') else
      bindX (liftR (j_at J state ''name'')) (\<lambda>nm.
      thenX (if is_string J nm
             then bindX (liftR (j_get_string J nm)) (\<lambda>t. Scene_setName t sc) else ret ()) (
      bindX (liftR (j_at J state ''instances'')) (\<lambda>instances.
      if \<not> is_array J instances then ret () else
      thenX (VisualInstances_empty V sc) (
      forX (j_items J instances) (Scene_setState_one F J V sc))))))"

definition Scene_cleanup :: "'v player_api \<Rightarrow> ulonglong \<Rightarrow> addr \<Rightarrow> ('v Store, unit) cxx" where
  "Scene_cleanup V now sc = VisualInstances_cleanup V now sc"

text \<open>\<open>delete\<close>: the destructor empties the table, then the memory is gone.\<close>

definition Scene_delete :: "'v player_api \<Rightarrow> addr \<Rightarrow> ('v Store, unit) cxx" where
  "Scene_delete V sc =
     thenX (VisualInstances_empty V sc) (modS (\<lambda>s. s\<lparr>s_sheap := (s_sheap s)(sc := None)\<rparr>))"

section \<open>The list of scenes\<close>

definition Scenes_add :: "addr \<Rightarrow> ('v Store, unit) cxx" where
  "Scenes_add sc = modS (\<lambda>s. s\<lparr>s_scenes := s_scenes s @ [sc]\<rparr>)"

definition Scenes_newScene :: "string \<Rightarrow> ('v Store, addr) cxx" where
  "Scenes_newScene title =
     bindX (newScene \<lparr>sceneName = title, visualInstances = []\<rparr>) (\<lambda>sc.
     thenX (Scenes_add sc) (ret sc))"

definition Scenes_empty :: "'v player_api \<Rightarrow> ('v Store, unit) cxx" where
  "Scenes_empty V =
     bindX (getS s_scenes) (\<lambda>scs.
     thenX (forX scs (Scene_delete V)) (modS (\<lambda>s. s\<lparr>s_scenes := []\<rparr>)))"

primrec Scenes_get_loop :: "uint \<Rightarrow> uint \<Rightarrow> addr list \<Rightarrow> addr option" where
  "Scenes_get_loop count index [] = None"
| "Scenes_get_loop count index (sc # scs) =
     (if count = index then Some sc else Scenes_get_loop (count + 1) index scs)"

definition Scenes_get :: "'v Store \<Rightarrow> uint \<Rightarrow> addr option" where
  "Scenes_get s index =
     (if length (s_scenes s) = 0 then None else Scenes_get_loop 0 index (s_scenes s))"

definition Scenes_setState_one ::
  "of_api \<Rightarrow> 'j json_api \<Rightarrow> 'v player_api \<Rightarrow> 'j \<Rightarrow> ('v Store, unit) cxx" where
  "Scenes_setState_one F J V st =
     bindX (liftR (bindR (j_at J st ''name'') (j_get_string J))) (\<lambda>nm.
     bindX (Scenes_newScene nm) (\<lambda>sc.
     Scene_setState F J V st sc))"

definition Scenes_setState ::
  "of_api \<Rightarrow> 'j json_api \<Rightarrow> 'v player_api \<Rightarrow> 'j \<Rightarrow> ('v Store, unit) cxx" where
  "Scenes_setState F J V state =
     thenX (Scenes_empty V) (forX (j_items J state) (Scenes_setState_one F J V))"

definition Scenes_getState :: "'j json_api \<Rightarrow> 'j" where
  "Scenes_getState J = j_null J"

section \<open>Lemmas\<close>

lemma Scenes_get_loop_nth:
  "k + length scs < 2 ^ 32 \<Longrightarrow>
     Scenes_get_loop (of_nat k) i scs =
       (if k \<le> unat i then nth_opt scs (unat i - k) else None)"
proof (induction scs arbitrary: k)
  case Nil
  then show ?case by simp
next
  case (Cons x scs)
  then have k: "unat (of_nat k :: uint) = k" by (simp add: unat_of_nat)
  then have eq: "of_nat k = i \<longleftrightarrow> unat i = k" by (metis of_nat_unat ucast_id)
  have suc: "(of_nat k :: uint) + 1 = of_nat (Suc k)" by simp
  show ?case
  proof (cases "unat i = k")
    case True
    with eq show ?thesis by simp
  next
    case False
    with eq Cons.IH [of "Suc k"] Cons.prems show ?thesis
      unfolding Scenes_get_loop.simps suc by (auto simp: Suc_diff_le nth_opt_def nth_Cons')
  qed
qed

interpretation scenes_idx: indexed s_scenes Scenes_get
proof
  fix s :: "'v Store" and i :: uint
  assume "length (s_scenes s) < 2 ^ 31"
  then show "Scenes_get s i = nth_opt (s_scenes s) (unat i)"
    using Scenes_get_loop_nth [of 0 "s_scenes s" i] by (simp add: Scenes_get_def)
qed

text \<open>Deleting instances: the destructor of each runs, the addresses are free afterwards.\<close>

lemma VI_unloadVideo_run:
  assumes "s_iheap s a = Some i"
  shows "\<exists>i' b. VI_unloadVideo V a s = (Inr b, s\<lparr>s_iheap := (s_iheap s)(a \<mapsto> i')\<rparr>)"
  using assms
  by (cases "v_isLoaded V (video i)") (auto simp: VI_unloadVideo_def)

lemma VisualInstance_delete_run:
  assumes "s_iheap s a \<noteq> None"
  shows "VisualInstance_delete V a s = (Inr (), s\<lparr>s_iheap := (s_iheap s)(a := None)\<rparr>)"
proof -
  obtain i where "s_iheap s a = Some i" using assms by blast
  from VI_unloadVideo_run [OF this, of V] show ?thesis by (auto simp: VisualInstance_delete_def)
qed

lemma delete_all_run:
  assumes "distinct l" "\<forall>a \<in> set l. s_iheap s a \<noteq> None"
  shows "forX l (VisualInstance_delete V) s =
    (Inr (), s\<lparr>s_iheap := s_iheap s |` (- set l)\<rparr>)"
  using assms
proof (induction l arbitrary: s)
  case Nil
  then show ?case by simp
next
  case (Cons a l)
  let ?s = "s\<lparr>s_iheap := (s_iheap s)(a := None)\<rparr>"
  have "forX l (VisualInstance_delete V) ?s = (Inr (), ?s\<lparr>s_iheap := s_iheap ?s |` (- set l)\<rparr>)"
    using Cons.prems by (intro Cons.IH) auto
  moreover have "(s_iheap s)(a := None) |` (- set l) = s_iheap s |` (- set (a # l))"
    by (auto simp: restrict_map_def)
  ultimately show ?case using Cons.prems VisualInstance_delete_run [of s a V] by simp
qed

lemma list_ok_distinct: "list_ok s l \<Longrightarrow> distinct l"
  by (simp add: list_ok_def distinct_map)

text \<open>
  Emptying the table frees every instance and leaves the list as it was, so that all its
  pointers dangle and a second pass over the table is undefined.
\<close>

lemma VisualInstances_empty_run:
  assumes "s_sheap s sc = Some x" "list_ok s (visualInstances x)"
  shows "VisualInstances_empty V sc s =
    (Inr (), s\<lparr>s_iheap := s_iheap s |` (- set (visualInstances x))\<rparr>)"
  using assms delete_all_run [of "visualInstances x" s V]
  by (simp add: VisualInstances_empty_def list_ok_distinct) (simp add: list_ok_def)

lemma inColumn_after_empty:
  assumes "s_sheap s sc = Some x" "list_ok s (visualInstances x)" "visualInstances x \<noteq> []"
  shows "fst (inColumn sc y c (snd (VisualInstances_empty V sc s))) = Inl (UB DanglingDeref)"
  using assms
  by (cases "visualInstances x") (simp_all add: VisualInstances_empty_run inColumn_def)

lemma Scenes_newScene_run:
  "Scenes_newScene t s = (Inr (s_next s),
     s\<lparr>s_sheap := (s_sheap s)(s_next s \<mapsto> \<lparr>sceneName = t, visualInstances = []\<rparr>),
       s_next := Suc (s_next s), s_scenes := s_scenes s @ [s_next s]\<rparr>)"
  by (simp add: Scenes_newScene_def Scenes_add_def)

lemma table_ok_new: "s_sheap s sc = Some x \<Longrightarrow> visualInstances x = [] \<Longrightarrow> table_ok sc s"
  by (simp add: table_ok_def list_ok_def)

section \<open>Restoring the instances of a scene\<close>

text \<open>
  A saved instance as the scene reads it, and what the table must hold afterwards: for each
  slot the visual of the last entry whose number is the number of a visual.
\<close>

record entry =
  e_index :: uint
  e_layer :: uint
  e_column :: uint
  e_name :: string

definition entry_json :: "'j json_api \<Rightarrow> entry \<Rightarrow> 'j" where
  "entry_json J e =
     j_obj J [(''index'', j_uint J (e_index e)),
              (''properties'', j_obj J [(''layer'', j_uint J (e_layer e)),
                 (''column'', j_uint J (e_column e)), (''name'', j_string J (e_name e))])]"

definition restored :: "addr list \<Rightarrow> entry list \<Rightarrow> (uint \<times> uint \<Rightarrow> addr option) \<Rightarrow> uint \<times> uint \<Rightarrow> addr option" where
  "restored vs es =
     fold (\<lambda>e t. case nth_opt vs (unat (e_index e)) of
                   None \<Rightarrow> t | Some v \<Rightarrow> t((e_layer e, e_column e) := Some v)) es"

text \<open>The visual shown in a slot.\<close>

definition slot_visual :: "addr \<Rightarrow> 'v Store \<Rightarrow> uint \<times> uint \<Rightarrow> addr option" where
  "slot_visual sc s k =
     (case table_lookup sc s k of
        None \<Rightarrow> None
      | Some a \<Rightarrow> (case s_iheap s a of None \<Rightarrow> None | Some i \<Rightarrow> visual i))"

lemma Scene_setState_one_entry:
  assumes "json_doc J" "length (s_visuals s) < 2 ^ 31"
  shows "Scene_setState_one F J V sc (entry_json J e) s =
    (case nth_opt (s_visuals s) (unat (e_index e)) of
       None \<Rightarrow> (Inr (), s)
     | Some v \<Rightarrow> dropX (VisualInstances_add F V sc (Some v) (e_layer e) (e_column e) (e_name e)) s)"
  using assms visuals_idx.lookup_nth [OF assms(2), of "e_index e"]
  by (auto simp: Scene_setState_one_def entry_json_def simp del: nth_opt_None split: option.split)

lemma slot_visual_put:
  assumes ok: "table_ok sc s" "table_room sc s"
  shows "\<exists>s'. VisualInstances_add F V sc (Some v) y c n s = (Inr (s_next s), s') \<and> table_ok sc s' \<and>
    slot_visual sc s' = (slot_visual sc s)((y, c) := Some v) \<and> s_visuals s' = s_visuals s \<and>
    (\<exists>x x'. s_sheap s sc = Some x \<and> s_sheap s' sc = Some x' \<and>
      length (visualInstances x') \<le> Suc (length (visualInstances x)) \<and> sceneName x' = sceneName x)"
proof -
  obtain x where x: "s_sheap s sc = Some x" "list_ok s (visualInstances x)"
    using ok(1) by (auto simp: table_ok_def)
  let ?l = "filter (\<lambda>a. slots s a \<noteq> Some (y, c)) (visualInstances x)"
  obtain s' i where s': "VisualInstances_add F V sc (Some v) y c n s = (Inr (s_next s), s')"
    and h: "s_sheap s' = (s_sheap s)(sc \<mapsto> x\<lparr>visualInstances := ?l @ [s_next s]\<rparr>)"
    and vs: "s_visuals s' = s_visuals s"
    and ih: "s_iheap s' = (s_iheap s)(s_next s \<mapsto> i)" and v: "visual i = Some v"
    using VisualInstances_add_run [OF x, where y = y and c = c and v = v and n = n and F = F and V = V]
    by blast
  have put: "table_put F V sc (v, n) (y, c) s = (s_next s, s')" using s' by (simp add: table_put_def)
  have ok': "table_ok sc s'" using table_put_facts(1) [OF ok, of F V "(v, n)" "(y, c)"] put by simp
  have look: "table_lookup sc s' k = (if k = (y, c) then Some (s_next s) else table_lookup sc s k)" for k
    using table_put_facts(2) [OF ok, of F V "(v, n)" "(y, c)" k] put by simp
  have old: "a \<noteq> s_next s" if "table_lookup sc s k = Some a" for k a
    using that x
    by (auto simp: table_lookup_eq at_slot_def list_ok_def find_Some_iff)
      (metis less_irrefl nth_mem)
  have "slot_visual sc s' k = ((slot_visual sc s)((y, c) := Some v)) k" for k
    using look [of k] old [of k] by (auto simp: slot_visual_def ih v split: option.split)
  with s' ok' vs x(1) h show ?thesis
    by (intro exI [of _ s']) (auto simp: le_SucI)
qed

lemma Scene_restores:
  assumes "json_doc J" "table_ok sc s" "length (s_visuals s) < 2 ^ 31"
    and "s_sheap s sc = Some x" "length (visualInstances x) + length es < 2 ^ 32"
  shows "\<exists>s'. forX (map (entry_json J) es) (Scene_setState_one F J V sc) s = (Inr (), s') \<and>
    table_ok sc s' \<and> slot_visual sc s' = restored (s_visuals s) es (slot_visual sc s) \<and>
    (\<exists>x'. s_sheap s' sc = Some x' \<and> sceneName x' = sceneName x)"
  using assms(2-5)
proof (induction es arbitrary: s x)
  case Nil
  then show ?case by (simp add: restored_def)
next
  case (Cons e es)
  show ?case
  proof (cases "nth_opt (s_visuals s) (unat (e_index e))")
    case None
    then have "Scene_setState_one F J V sc (entry_json J e) s = (Inr (), s)"
      using Scene_setState_one_entry [OF assms(1) Cons.prems(2)] by (simp del: nth_opt_None)
    with Cons.IH [OF Cons.prems(1-3)] Cons.prems(4) None show ?thesis
      by (simp add: restored_def del: nth_opt_None)
  next
    case (Some v)
    have "table_room sc s" using Cons.prems(3,4) by (simp add: table_room_def)
    from slot_visual_put [OF Cons.prems(1) this, of F V v "e_layer e" "e_column e" "e_name e"]
      Cons.prems(3) obtain s' x' where s':
      "VisualInstances_add F V sc (Some v) (e_layer e) (e_column e) (e_name e) s = (Inr (s_next s), s')"
      "table_ok sc s'" "slot_visual sc s' = (slot_visual sc s)((e_layer e, e_column e) := Some v)"
      "s_visuals s' = s_visuals s" "s_sheap s' sc = Some x'"
      "length (visualInstances x') \<le> Suc (length (visualInstances x))" "sceneName x' = sceneName x"
      by auto
    have one: "Scene_setState_one F J V sc (entry_json J e) s = (Inr (), s')"
      using Scene_setState_one_entry [OF assms(1) Cons.prems(2)] Some s'(1) by simp
    have res: "restored (s_visuals s) (e # es) (slot_visual sc s) =
        restored (s_visuals s') es (slot_visual sc s')"
      unfolding s'(3,4) by (simp add: restored_def Some)
    from Cons.IH [OF s'(2) _ s'(5)] s'(4,6,7) Cons.prems(2,4) one show ?thesis
      unfolding res by auto
  qed
qed

section \<open>Properties\<close>

text \<open>
  C4. Loading a saved scene into a new scene sets its name and fills its table: each slot
  shows the visual of the last entry for that slot whose number is that of a visual, entries
  with other numbers are skipped, and the table is well-formed.
\<close>

definition scene_json :: "'j json_api \<Rightarrow> string \<Rightarrow> entry list \<Rightarrow> 'j" where
  "scene_json J nm es =
     j_obj J [(''name'', j_string J nm), (''instances'', j_arr J (map (entry_json J) es))]"

theorem scene_restored:
  assumes "json_doc J" "s_sheap s sc = Some x" "visualInstances x = []"
    and "length (s_visuals s) < 2 ^ 31" "length es < 2 ^ 32"
  shows "\<exists>s' x'. Scene_setState F J V (scene_json J nm es) sc s = (Inr (), s') \<and> table_ok sc s' \<and>
    s_sheap s' sc = Some x' \<and> sceneName x' = nm \<and>
    slot_visual sc s' = restored (s_visuals s) es (\<lambda>_. None)"
proof -
  let ?x = "x\<lparr>sceneName := nm\<rparr>"
  let ?s = "s\<lparr>s_sheap := (s_sheap s)(sc \<mapsto> ?x)\<rparr>"
  have ok: "table_ok sc ?s" using assms(3) by (simp add: table_ok_new [of _ _ ?x])
  have lk: "list_ok ?s (visualInstances ?x)" using assms(3) by (simp add: list_ok_def)
  have none: "slot_visual sc ?s = (\<lambda>_. None)"
    using assms(3) lk by (intro ext) (simp add: slot_visual_def table_lookup_eq [of _ _ ?x] at_slot_def)
  have emp: "VisualInstances_empty V sc ?s = (Inr (), ?s)"
    using assms(3) by (simp add: VisualInstances_empty_def)
  obtain s' x' where s': "forX (map (entry_json J) es) (Scene_setState_one F J V sc) ?s = (Inr (), s')"
    "table_ok sc s'" "slot_visual sc s' = restored (s_visuals ?s) es (slot_visual sc ?s)"
    "s_sheap s' sc = Some x'" "sceneName x' = nm"
    using Scene_restores [OF assms(1) ok, of ?x es F V] assms(3-5) by auto
  have "is_array J (j_arr J (map (entry_json J) es))"
    "j_items J (j_arr J (map (entry_json J) es)) = map (entry_json J) es"
    using assms(1) by simp_all
  then have "Scene_setState F J V (scene_json J nm es) sc s = (Inr (), s')"
    using assms(1,2) emp s'(1)
    by (simp add: Scene_setState_def scene_json_def Scene_setName_def)
  with s' none show ?thesis by auto
qed

theorem scene_restored_witness:
  "\<exists>s' x'. Scene_setState ex_F ex_J ex_V
      (scene_json ex_J ''two'' [\<lparr>e_index = 0, e_layer = 1, e_column = 2, e_name = ''n''\<rparr>]) 9
      (ex_store\<lparr>s_sheap := [9 \<mapsto> \<lparr>sceneName = [], visualInstances = []\<rparr>]\<rparr>) = (Inr (), s') \<and>
    table_ok 9 s' \<and> s_sheap s' 9 = Some x' \<and> sceneName x' = ''two'' \<and>
    slot_visual 9 s' = restored [0] [\<lparr>e_index = 0, e_layer = 1, e_column = 2, e_name = ''n''\<rparr>] (\<lambda>_. None)"
  using scene_restored [of ex_J "ex_store\<lparr>s_sheap := [9 \<mapsto> \<lparr>sceneName = [], visualInstances = []\<rparr>]\<rparr>" 9
      "\<lparr>sceneName = [], visualInstances = []\<rparr>"
      "[\<lparr>e_index = 0, e_layer = 1, e_column = 2, e_name = ''n''\<rparr>]" ex_F ex_V "''two''"]
  by simp

end
