(* ===== verification/SetOps.thy ===== *)
theory SetOps
  imports Scenes
begin

text \<open>
  \<open>Main/Set\<close>: the set that is open, its scenes and the current scene. \<open>openSet\<close> and the
  saving of a set need the engine and are in the theory of the engine.
\<close>

abbreviation modSet :: "(SetData \<Rightarrow> SetData) \<Rightarrow> ('v Store, unit) cxx" where
  "modSet f \<equiv> modS (\<lambda>s. s\<lparr>s_set := f (s_set s)\<rparr>)"

abbreviation getSet :: "(SetData \<Rightarrow> 'a) \<Rightarrow> ('v Store, 'a) cxx" where
  "getSet f \<equiv> getS (\<lambda>s. f (s_set s))"

section \<open>Scenes of the set\<close>

text \<open>
  The guard computes the size minus one in an unsigned type: with no scenes at all every
  number passes it and the iterator is read past the end.
\<close>

definition Set_setCurrentScene ::
  "of_api \<Rightarrow> 'v player_api \<Rightarrow> ulonglong \<Rightarrow> uint \<Rightarrow> ('v Store, unit) cxx" where
  "Set_setCurrentScene F V now n =
     bindX (getS s_scenes) (\<lambda>scs.
     if scs \<noteq> [] \<and> length scs - 1 < unat n then ret () else
     thenX (modSet (\<lambda>d. d\<lparr>currentSceneNumber := n\<rparr>)) (
     case nth_opt scs (unat n) of
       None \<Rightarrow> throw (UB InvalidIterator)
     | Some sc \<Rightarrow>
         thenX (modSet (\<lambda>d. d\<lparr>currentScene := Some sc\<rparr>)) (
         VisualInstances_loadAll F V now sc)))"

definition Set_newSet ::
  "of_api \<Rightarrow> 'v player_api \<Rightarrow> ulonglong \<Rightarrow> uint \<Rightarrow> uint \<Rightarrow> uint \<Rightarrow> ('v Store, unit) cxx" where
  "Set_newSet F V now w h n =
     thenX (modEP F (setMixerWidth w)) (
     thenX (modEP F (setMixerHeight h)) (
     thenX (modSet (\<lambda>d. d\<lparr>nLayers := n\<rparr>)) (
     thenX (forX [0..<unat n] (\<lambda>_. dropX (Layers_add F True))) (
     thenX (dropX (Scenes_newScene ''First Scene'')) (
     thenX (modSet (\<lambda>d. d\<lparr>currentSceneNumber := 1\<rparr>)) (
     thenX (Set_setCurrentScene F V now 0) (
     modSet (\<lambda>d. d\<lparr>loaded := True\<rparr>))))))))"

primrec getScenesState_loop ::
  "of_api \<Rightarrow> 'j json_api \<Rightarrow> 'j \<Rightarrow> addr list \<Rightarrow> ('v Store, 'j) cxx" where
  "getScenesState_loop F J state [] = ret state"
| "getScenesState_loop F J state (sc # scs) =
     bindX (Scene_getState F J sc) (\<lambda>j. getScenesState_loop F J (j_push J state j) scs)"

definition getScenesState :: "of_api \<Rightarrow> 'j json_api \<Rightarrow> ('v Store, 'j) cxx" where
  "getScenesState F J = bindX (getS s_scenes) (getScenesState_loop F J (j_null J))"

definition Set_closeSet :: "'v player_api \<Rightarrow> ('v Store, unit) cxx" where
  "Set_closeSet V =
     thenX Visuals_empty (
     thenX (Scenes_empty V) (
     modSet (\<lambda>d. d\<lparr>loaded := False\<rparr>)))"

definition Set_addScene :: "string \<Rightarrow> ('v Store, addr) cxx" where
  "Set_addScene nm =
     bindX (newScene \<lparr>sceneName = nm, visualInstances = []\<rparr>) (\<lambda>sc.
     thenX (Scenes_add sc) (ret sc))"

definition Set_newScene :: "('v Store, addr) cxx" where
  "Set_newScene = Set_addScene ''new Scene''"

definition setNameToCurrentScene :: "string \<Rightarrow> ('v Store, unit) cxx" where
  "setNameToCurrentScene nm =
     bindX (getSet currentScene) (\<lambda>p.
     case p of None \<Rightarrow> ret () | Some sc \<Rightarrow> Scene_setName nm sc)"

text \<open>The scene is removed from a copy of the list of scenes, so it stays in the list.\<close>

definition removeCurrentScene ::
  "of_api \<Rightarrow> 'v player_api \<Rightarrow> ulonglong \<Rightarrow> ('v Store, unit) cxx" where
  "removeCurrentScene F V now =
     bindX (getS s_scenes) (\<lambda>scenesList.
     bindX (getSet currentSceneNumber) (\<lambda>n.
     let nextScene = (if 0 < n then n - 1 else n) in
     bindX (getSet currentScene) (\<lambda>p.
     case p of
       None \<Rightarrow> throw (UB NullDeref)
     | Some sc \<Rightarrow>
         thenX (VisualInstances_empty V sc) (
         if scenesList = [] then throw (UB InvalidIterator)
         else Set_setCurrentScene F V now nextScene))))"

definition gotoPreviousScene ::
  "of_api \<Rightarrow> 'v player_api \<Rightarrow> ulonglong \<Rightarrow> ('v Store, unit) cxx" where
  "gotoPreviousScene F V now =
     bindX (getSet currentSceneNumber) (\<lambda>n.
     if 0 < n then Set_setCurrentScene F V now (n - 1) else ret ())"

text \<open>Here too the size minus one wraps when there are no scenes.\<close>

definition gotoNextScene ::
  "of_api \<Rightarrow> 'v player_api \<Rightarrow> ulonglong \<Rightarrow> ('v Store, unit) cxx" where
  "gotoNextScene F V now =
     bindX (getSet currentSceneNumber) (\<lambda>n.
     bindX (getS s_scenes) (\<lambda>scs.
     if scs = [] \<or> unat n < length scs - 1 then Set_setCurrentScene F V now (n + 1) else ret ()))"

definition getVisualInstanceInCorrentSet :: "uint \<Rightarrow> uint \<Rightarrow> ('v Store, addr option) cxx" where
  "getVisualInstanceInCorrentSet layer column =
     bindX (getSet currentScene) (\<lambda>p.
     case p of None \<Rightarrow> ret None | Some sc \<Rightarrow> VisualInstances_get sc layer column)"

text \<open>The two numbers are passed on in the other order.\<close>

definition isVisualInstantInColumn :: "uint \<Rightarrow> uint \<Rightarrow> ('v Store, bool) cxx" where
  "isVisualInstantInColumn layerN column =
     bindX (getSet currentScene) (\<lambda>p.
     case p of None \<Rightarrow> ret False | Some sc \<Rightarrow> inColumn sc column layerN)"

definition emptyVisualInstanceOnAllScenes :: "'v player_api \<Rightarrow> ('v Store, unit) cxx" where
  "emptyVisualInstanceOnAllScenes V =
     bindX (getS s_scenes) (\<lambda>scs. forX scs (VisualInstances_empty V))"

definition getTotalScenes :: "'v Store \<Rightarrow> uint" where
  "getTotalScenes s = size32 (s_scenes s)"

definition Set_cleanup :: "'v player_api \<Rightarrow> ulonglong \<Rightarrow> ('v Store, unit) cxx" where
  "Set_cleanup V now =
     bindX (getSet currentScene) (\<lambda>p.
     case p of None \<Rightarrow> ret () | Some sc \<Rightarrow> Scene_cleanup V now sc)"

section \<open>Visuals of the set\<close>

definition addVisualVideoToListFromFile :: "of_api \<Rightarrow> string \<Rightarrow> ('v Store, unit) cxx" where
  "addVisualVideoToListFromFile F path =
     bindX (isFileInList path) (\<lambda>found.
     if found then ret () else
     bindX (VisualVideo_new F path) (\<lambda>v.
     bindX (newV v) (\<lambda>a. Visuals_add (Some a))))"

definition addVisualCameraToList ::
  "of_api \<Rightarrow> ulonglong \<Rightarrow> uint \<Rightarrow> uint \<Rightarrow> uint \<Rightarrow> uint \<Rightarrow> ('v Store, unit) cxx" where
  "addVisualCameraToList F now device rate w h =
     bindX (liftR (VisualCamera_new F now device rate w h)) (\<lambda>v.
     bindX (newV v) (\<lambda>a. Visuals_add (Some a)))"

definition addVisualSyphonToList :: "ulonglong \<Rightarrow> string \<Rightarrow> string \<Rightarrow> ('v Store, unit) cxx" where
  "addVisualSyphonToList now server app =
     bindX (newV (VisualSyphon_new now server app)) (\<lambda>a. Visuals_add (Some a))"

section \<open>Lemmas\<close>

text \<open>The current scene, when there is one, is the scene at the current number.\<close>

definition current_ok :: "'v Store \<Rightarrow> bool" where
  "current_ok s \<longleftrightarrow>
     (case currentScene (s_set s) of
        None \<Rightarrow> True
      | Some sc \<Rightarrow>
          nth_opt (s_scenes s) (unat (currentSceneNumber (s_set s))) = Some sc \<and>
          s_sheap s sc \<noteq> None)"

text \<open>Every scene of the list is alive.\<close>

definition scenes_alive :: "'v Store \<Rightarrow> bool" where
  "scenes_alive s \<longleftrightarrow> (\<forall>sc \<in> set (s_scenes s). s_sheap s sc \<noteq> None)"

lemma loadAll_frame:
  assumes "VisualInstances_loadAll F V now sc s = (r, s')"
  shows "s_scenes s' = s_scenes s" "s_set s' = s_set s" "s_sheap s' = s_sheap s"
  by (rule frameD [OF frame_loadAll(2) assms], simp)+

lemma Set_setCurrentScene_invalid:
  "s_scenes s \<noteq> [] \<Longrightarrow> length (s_scenes s) \<le> unat n \<Longrightarrow> Set_setCurrentScene F V now n s = (Inr (), s)"
  by (cases "s_scenes s") (auto simp: Set_setCurrentScene_def)

lemma Set_setCurrentScene_valid:
  assumes "unat n < length (s_scenes s)"
  shows "s_scenes (snd (Set_setCurrentScene F V now n s)) = s_scenes s"
    and "s_sheap (snd (Set_setCurrentScene F V now n s)) = s_sheap s"
    and "currentSceneNumber (s_set (snd (Set_setCurrentScene F V now n s))) = n"
    and "currentScene (s_set (snd (Set_setCurrentScene F V now n s))) = Some (s_scenes s ! unat n)"
proof -
  let ?sc = "s_scenes s ! unat n"
  let ?s = "s\<lparr>s_set := (s_set s)\<lparr>currentSceneNumber := n, currentScene := Some ?sc\<rparr>\<rparr>"
  obtain r s' where l: "VisualInstances_loadAll F V now ?sc ?s = (r, s')" by fastforce
  have "Set_setCurrentScene F V now n s = (r, s')"
    using assms l by (auto simp: Set_setCurrentScene_def nth_opt_def)
  with loadAll_frame [OF l]
  show "s_scenes (snd (Set_setCurrentScene F V now n s)) = s_scenes s"
    and "s_sheap (snd (Set_setCurrentScene F V now n s)) = s_sheap s"
    and "currentSceneNumber (s_set (snd (Set_setCurrentScene F V now n s))) = n"
    and "currentScene (s_set (snd (Set_setCurrentScene F V now n s))) = Some (s_scenes s ! unat n)"
    by simp_all
qed

lemma current_ok_setCurrentScene:
  assumes "current_ok s" "scenes_alive s" "s_scenes s \<noteq> []"
  shows "current_ok (snd (Set_setCurrentScene F V now n s))"
    and "scenes_alive (snd (Set_setCurrentScene F V now n s))"
    and "s_scenes (snd (Set_setCurrentScene F V now n s)) = s_scenes s"
proof -
  note valid = Set_setCurrentScene_valid [of n s F V now]
  show "s_scenes (snd (Set_setCurrentScene F V now n s)) = s_scenes s"
    using valid(1) Set_setCurrentScene_invalid [OF assms(3), of n F V now] by fastforce
  show "scenes_alive (snd (Set_setCurrentScene F V now n s))"
    using assms(2) valid(1,2) Set_setCurrentScene_invalid [OF assms(3), of n F V now]
    by (cases "unat n < length (s_scenes s)") (auto simp: scenes_alive_def)
  show "current_ok (snd (Set_setCurrentScene F V now n s))"
    using assms valid Set_setCurrentScene_invalid [OF assms(3), of n F V now]
    by (cases "unat n < length (s_scenes s)") (auto simp: current_ok_def scenes_alive_def nth_opt_def)
qed

text \<open>The steps between scenes.\<close>

inductive scene_step :: "of_api \<Rightarrow> 'v player_api \<Rightarrow> 'v Store \<Rightarrow> 'v Store \<Rightarrow> bool" for F V where
  goto: "scene_step F V s (snd (Set_setCurrentScene F V now n s))"
| previous: "scene_step F V s (snd (gotoPreviousScene F V now s))"
| following: "scene_step F V s (snd (gotoNextScene F V now s))"
| add: "scene_step F V s (snd (Set_addScene nm s))"
| rename: "scene_step F V s (snd (setNameToCurrentScene nm s))"

lemma goto_run:
  "gotoPreviousScene F V now s =
     (if 0 < currentSceneNumber (s_set s)
      then Set_setCurrentScene F V now (currentSceneNumber (s_set s) - 1) s else (Inr (), s))"
  "s_scenes s \<noteq> [] \<Longrightarrow> gotoNextScene F V now s =
     (if unat (currentSceneNumber (s_set s)) < length (s_scenes s) - 1
      then Set_setCurrentScene F V now (currentSceneNumber (s_set s) + 1) s else (Inr (), s))"
  by (simp_all add: gotoPreviousScene_def gotoNextScene_def)

definition scenes_ok :: "'v Store \<Rightarrow> bool" where
  "scenes_ok s \<longleftrightarrow> current_ok s \<and> scenes_alive s \<and> s_scenes s \<noteq> []"

lemma scenes_ok_setCurrentScene:
  "scenes_ok s \<Longrightarrow> scenes_ok (snd (Set_setCurrentScene F V now n s))"
  using current_ok_setCurrentScene [of s F V now n] by (simp add: scenes_ok_def)

lemma scenes_ok_add: "scenes_ok s \<Longrightarrow> scenes_ok (snd (Set_addScene nm s))"
  by (auto simp: scenes_ok_def Set_addScene_def Scenes_add_def current_ok_def scenes_alive_def
      nth_opt_append nth_opt_Some split: option.splits)

lemma scenes_ok_rename: "scenes_ok s \<Longrightarrow> scenes_ok (snd (setNameToCurrentScene nm s))"
  by (cases "currentScene (s_set s)")
    (auto simp: scenes_ok_def setNameToCurrentScene_def Scene_setName_def current_ok_def scenes_alive_def)

lemma scene_step_ok: "scene_step F V s s' \<Longrightarrow> scenes_ok s \<Longrightarrow> scenes_ok s'"
proof (induction rule: scene_step.induct)
  case (following s now)
  then have "s_scenes s \<noteq> []" by (simp add: scenes_ok_def)
  with following show ?case by (simp add: goto_run scenes_ok_setCurrentScene)
qed (simp_all add: scenes_ok_setCurrentScene goto_run scenes_ok_add scenes_ok_rename)

lemma scene_steps_ok: "(scene_step F V)\<^sup>*\<^sup>* s s' \<Longrightarrow> scenes_ok s \<Longrightarrow> scenes_ok s'"
  by (induction rule: rtranclp_induct) (auto intro: scene_step_ok)

section \<open>Properties\<close>

text \<open>
  C9. Once the set has a scene, any sequence of going to a scene by number, to the previous
  or next one, adding scenes and renaming keeps the current scene a live scene of the list, at
  the current scene number.
\<close>

theorem current_scene_alive:
  assumes "(scene_step F V)\<^sup>*\<^sup>* s s'" "scenes_ok s"
  shows "case currentScene (s_set s') of
      None \<Rightarrow> True
    | Some sc \<Rightarrow> nth_opt (s_scenes s') (unat (currentSceneNumber (s_set s'))) = Some sc \<and>
        s_sheap s' sc \<noteq> None"
  using scene_steps_ok [OF assms] by (auto simp: scenes_ok_def current_ok_def split: option.splits)

definition ex_set :: "ex_player Store" where
  "ex_set = ex_store\<lparr>s_set := (s_set ex_store)\<lparr>currentScene := Some 2\<rparr>\<rparr>"

lemma ex_set_ok [simp]: "scenes_ok ex_set"
  by (simp add: ex_set_def scenes_ok_def current_ok_def scenes_alive_def nth_opt_def ex_store_def
      Store_init_def)

theorem current_scene_alive_witness:
  "let s = snd (gotoNextScene ex_F ex_V 0 ex_set) in
   case currentScene (s_set s) of
      None \<Rightarrow> True
    | Some sc \<Rightarrow> nth_opt (s_scenes s) (unat (currentSceneNumber (s_set s))) = Some sc \<and>
        s_sheap s sc \<noteq> None"
proof -
  have "scene_step ex_F ex_V ex_set (snd (gotoNextScene ex_F ex_V 0 ex_set))"
    by (rule scene_step.following)
  then have "(scene_step ex_F ex_V)\<^sup>*\<^sup>* ex_set (snd (gotoNextScene ex_F ex_V 0 ex_set))" by simp
  from current_scene_alive [OF this] show ?thesis unfolding Let_def by simp
qed

end
