(* ===== verification/Metronome.thy ===== *)
theory Metronome
  imports Store
begin

text \<open>
  \<open>Misc/Metronome\<close>: the tempo and the beat counters, and the thread that drives them. The
  thread itself belongs to openFrameworks; of it the model keeps whether it runs. One round of
  its loop is \<open>metronome_tick\<close>, followed by \<open>Engine::beat\<close>.
\<close>

text \<open>The tempo is stored before the division, which is undefined for zero.\<close>

definition metronome_setBPM :: "uint \<Rightarrow> (metronome, unit) cxx" where
  "metronome_setBPM bpm =
     thenX (modS (\<lambda>m. m\<lparr>BPM := bpm\<rparr>)) (
     if bpm = 0 then throw (UB DivisionByZero)
     else modS (\<lambda>m. m\<lparr>beatDuration := 60000 div bpm\<rparr>))"

definition metronome_new :: metronome where
  "metronome_new =
     snd (metronome_setBPM 120 \<lparr>BPM = 0, beatDuration = 0, beatCount = 0, longBeatCount = 0,
       threadRunning = False\<rparr>) \<lparr>beatCount := 1, longBeatCount := 1\<rparr>"

definition metronome_start :: "metronome \<Rightarrow> metronome" where
  "metronome_start m = m\<lparr>threadRunning := True\<rparr>"

definition metronome_stop :: "metronome \<Rightarrow> metronome" where
  "metronome_stop m = m\<lparr>threadRunning := False\<rparr>"

definition resetMetronome :: "metronome \<Rightarrow> metronome" where
  "resetMetronome m = metronome_start (metronome_stop m)"

definition metronome_tick :: "metronome \<Rightarrow> metronome" where
  "metronome_tick m =
     (let m = (if beatCount m < 4 then m\<lparr>beatCount := beatCount m + 1\<rparr> else m\<lparr>beatCount := 1\<rparr>)
      in if longBeatCount m < 64 then m\<lparr>longBeatCount := longBeatCount m + 1\<rparr>
         else m\<lparr>longBeatCount := 1\<rparr>)"

section \<open>The counters\<close>

lemma unat_plus_1_small: "unat (x :: uint) < 100 \<Longrightarrow> unat (x + 1) = Suc (unat x)"
  by (simp add: unat_word_ariths)

lemma tick_counts:
  "unat (beatCount m) \<le> 4 \<Longrightarrow>
     unat (beatCount (metronome_tick m)) = (if unat (beatCount m) < 4 then Suc (unat (beatCount m)) else 1)"
  "unat (longBeatCount m) \<le> 64 \<Longrightarrow>
     unat (longBeatCount (metronome_tick m)) =
       (if unat (longBeatCount m) < 64 then Suc (unat (longBeatCount m)) else 1)"
  by (simp_all add: metronome_tick_def Let_def word_less_nat_alt unat_plus_1_small)

interpretation beat_of_bar: cyclic_counter metronome_tick "\<lambda>m. unat (beatCount m)" 1 4
  by unfold_locales (simp_all add: tick_counts)

interpretation long_beat: cyclic_counter metronome_tick "\<lambda>m. unat (longBeatCount m)" 1 64
  by unfold_locales (simp_all add: tick_counts)

lemma tick_frame [simp]:
  "BPM (metronome_tick m) = BPM m" "beatDuration (metronome_tick m) = beatDuration m"
  "threadRunning (metronome_tick m) = threadRunning m"
  by (simp_all add: metronome_tick_def Let_def)

lemma metronome_new_sel [simp]:
  "BPM metronome_new = 120" "beatDuration metronome_new = 500" "beatCount metronome_new = 1"
  "longBeatCount metronome_new = 1" "\<not> threadRunning metronome_new"
  by (simp_all add: metronome_new_def metronome_setBPM_def)

section \<open>Properties\<close>

text \<open>
  After \<open>n\<close> rounds of the metronome thread from its start the beat of the bar is
  \<open>1 + n mod 4\<close> and the long beat \<open>1 + n mod 64\<close>; a bar always starts with a long beat that
  is one more than a multiple of four.
\<close>

theorem metronome_counts:
  "unat (beatCount ((metronome_tick ^^ n) metronome_new)) = 1 + n mod 4 \<and>
   unat (longBeatCount ((metronome_tick ^^ n) metronome_new)) = 1 + n mod 64 \<and>
   (unat (beatCount ((metronome_tick ^^ n) metronome_new)) = 1 \<longleftrightarrow>
    unat (longBeatCount ((metronome_tick ^^ n) metronome_new)) mod 4 = 1)"
proof -
  have "unat (beatCount ((metronome_tick ^^ n) metronome_new)) = 1 + n mod 4"
    using beat_of_bar.steps_val [where s = metronome_new and n = n] by simp
  moreover have "unat (longBeatCount ((metronome_tick ^^ n) metronome_new)) = 1 + n mod 64"
    using long_beat.steps_val [where s = metronome_new and n = n] by simp
  moreover have "(1 + n mod 64) mod 4 = (1 + n mod 4) mod 4"
  proof -
    have "n mod 64 mod 4 = n mod 4" by (rule mod_mod_cancel) simp
    then show ?thesis using mod_add_right_eq [of 1 "n mod 64" 4] by (simp only:)
  qed
  moreover have "n mod 4 = 0 \<longleftrightarrow> (1 + n mod 4) mod 4 = 1"
    by presburger
  ultimately show ?thesis by simp
qed

text \<open>
  Setting a tempo other than zero makes a beat last the whole milliseconds of a minute
  divided by the tempo: \<open>BPM\<close> beats last at most one minute, and one millisecond more per beat
  would exceed it. A tempo of zero divides by zero after it has been stored.
\<close>

theorem tempo_duration:
  "if bpm = 0 then metronome_setBPM bpm m = (Inl (UB DivisionByZero), m\<lparr>BPM := bpm\<rparr>)
   else \<exists>m'. metronome_setBPM bpm m = (Inr (), m') \<and> BPM m' = bpm \<and>
     unat (beatDuration m') * unat bpm \<le> 60000 \<and>
     60000 < (unat (beatDuration m') + 1) * unat bpm"
proof (cases "bpm = 0")
  case True
  then show ?thesis by (simp add: metronome_setBPM_def)
next
  case False
  have "unat (60000 div bpm) = 60000 div unat bpm" by (simp add: unat_div)
  moreover have "60000 div unat bpm * unat bpm \<le> 60000" by (rule div_times_less_eq_dividend)
  moreover have "60000 < (60000 div unat bpm + 1) * unat bpm"
    using False dividend_less_div_times [of "unat bpm" 60000]
    by (simp add: unat_gt_0 algebra_simps)
  ultimately show ?thesis using False by (simp add: metronome_setBPM_def)
qed

end
