(* ===== verification/FileHandling.thy ===== *)
theory FileHandling
  imports Store
begin

text \<open>
  \<open>FileHandling/JsonSave\<close>, \<open>JsonLoad\<close> and \<open>SetFile\<close>: a state is written to a file as JSON text
  and read back. The files are the component \<open>s_files\<close> of the store, from paths to texts.
\<close>

definition JsonSave_validateState :: "'j json_api \<Rightarrow> 'j \<Rightarrow> unit res" where
  "JsonSave_validateState J state =
     (if j_empty J state then Inl (ThrowLiteral ''State is empty'')
      else if \<not> is_object J state then Inl (ThrowLiteral ''State is not an object'')
      else Inr ())"

definition JsonSave_save :: "of_api \<Rightarrow> 'j json_api \<Rightarrow> string \<Rightarrow> 'j \<Rightarrow> ('v Store, unit) cxx" where
  "JsonSave_save F J path state =
     thenX (liftR (JsonSave_validateState J state)) (
     if \<not> doesDirectoryExist F (getEnclosingDirectory F path)
     then throw (ThrowLiteral ''Path to file doesn't exist'')
     else
       bindX (getS s_files) (\<lambda>files.
       case ofBufferToFile F path (j_dump J 4 state) files of
         (ok, files') \<Rightarrow>
           thenX (modS (\<lambda>s. s\<lparr>s_files := files'\<rparr>)) (
           if \<not> ok then throw (ThrowLiteral ''Error saving to file'')
           else if files' path = None then throw (ThrowLiteral ''File not saved at the specified path'')
           else ret ())))"

definition JsonLoad_load :: "'j json_api \<Rightarrow> string \<Rightarrow> ('v Store, 'j) cxx" where
  "JsonLoad_load J path =
     bindX (getS s_files) (\<lambda>files.
     case files path of
       None \<Rightarrow> throw (ThrowLiteral ''File does not exist'')
     | Some text \<Rightarrow> liftR (j_parse J text))"

definition SetFile_save :: "of_api \<Rightarrow> 'j json_api \<Rightarrow> string \<Rightarrow> 'j \<Rightarrow> ('v Store, unit) cxx" where
  "SetFile_save F J path state = JsonSave_save F J path state"

definition SetFile_load :: "'j json_api \<Rightarrow> string \<Rightarrow> ('v Store, 'j) cxx" where
  "SetFile_load J path = JsonLoad_load J path"

text \<open>
  The text of a JSON value, however it is indented, parses to that value. Writing a text that
  succeeds leaves it at the path and the other files alone; a write that fails may leave anything.
\<close>

definition text_doc :: "'j json_api \<Rightarrow> 'j \<Rightarrow> bool" where
  "text_doc J j \<longleftrightarrow> (\<forall>n. j_parse J (j_dump J n j) = Inr j)"

definition write_doc :: "of_api \<Rightarrow> bool" where
  "write_doc F \<longleftrightarrow> (\<forall>p t fs fs'. ofBufferToFile F p t fs = (True, fs') \<longrightarrow> fs' = fs(p \<mapsto> t))"

section \<open>Saving\<close>

text \<open>
  A state that is no object or empty, or a path in a missing folder, is refused before anything is
  written; when saving succeeds, loading gives the state back.
\<close>

lemma JsonSave_refuses:
  assumes "j_empty J state \<or> \<not> is_object J state \<or> \<not> doesDirectoryExist F (getEnclosingDirectory F path)"
  shows "\<exists>msg. SetFile_save F J path state s = (Inl (ThrowLiteral msg), s)"
  using assms by (auto simp: SetFile_save_def JsonSave_save_def JsonSave_validateState_def)

lemma saved_is_loaded:
  assumes "text_doc J state" "write_doc F" "SetFile_save F J path state s = (Inr (), s')"
  shows "SetFile_load J path s' = (Inr state, s') \<and> s' = s\<lparr>s_files := (s_files s)(path \<mapsto> j_dump J 4 state)\<rparr>"
proof -
  obtain ok files' where w: "ofBufferToFile F path (j_dump J 4 state) (s_files s) = (ok, files')" by fastforce
  with assms(3) have "ok" "s' = s\<lparr>s_files := files'\<rparr>"
    by (auto simp: SetFile_save_def JsonSave_save_def thenX_eq_Inr bindX_eq_Inr split: if_splits)
  moreover from this w assms(2) have "files' = (s_files s)(path \<mapsto> j_dump J 4 state)"
    by (simp add: write_doc_def)
  ultimately show ?thesis
    using assms(1) by (simp add: SetFile_load_def JsonLoad_load_def text_doc_def)
qed

lemma write_doc_ex_F [simp]: "write_doc ex_F"
  by (simp add: write_doc_def ex_F_def)

end
