(* ===== verification/EngineOps.thy ===== *)
theory EngineOps
  imports SetOps Metronome FileHandling
begin

text \<open>
  \<open>Engine\<close>: the object the applications talk to. It owns the render buffer, the metronome and
  the controllers and works on the layers, scenes, visuals and the set. A method that uses a
  member of the engine is undefined without an engine (\<open>enginePtr == NULL\<close>). Drawing calls
  are left out; what they do to the state of layers and instances is kept. The loops over
  layers count with an \<open>int\<close>; the model has them count without overflow.
\<close>

section \<open>Access\<close>

definition getE :: "(Engine \<Rightarrow> 'a) \<Rightarrow> ('v Store, 'a) cxx" where
  "getE f = (\<lambda>s. case s_engine s of None \<Rightarrow> (Inl (UB NullDeref), s) | Some e \<Rightarrow> (Inr (f e), s))"

definition modE :: "(Engine \<Rightarrow> Engine) \<Rightarrow> ('v Store, unit) cxx" where
  "modE f = (\<lambda>s. case s_engine s of
       None \<Rightarrow> (Inl (UB NullDeref), s) | Some e \<Rightarrow> (Inr (), s\<lparr>s_engine := Some (f e)\<rparr>))"

lemma getE_run [simp]:
  "s_engine s = Some e \<Longrightarrow> getE f s = (Inr (f e), s)"
  "s_engine s = None \<Longrightarrow> getE f s = (Inl (UB NullDeref), s)"
  by (simp_all add: getE_def)

lemma modE_run [simp]:
  "s_engine s = Some e \<Longrightarrow> modE f s = (Inr (), s\<lparr>s_engine := Some (f e)\<rparr>)"
  "s_engine s = None \<Longrightarrow> modE f s = (Inl (UB NullDeref), s)"
  by (simp_all add: modE_def)

definition getSelectedLayerNumber :: "of_api \<Rightarrow> ('v Store, uint) cxx" where
  "getSelectedLayerNumber F = getEP F selectedLayer"

definition getSelectedColumnNumber :: "of_api \<Rightarrow> ('v Store, uint) cxx" where
  "getSelectedColumnNumber F = getEP F selectedColumn"

section \<open>Construction and buffer\<close>

definition Engine_initBuffer :: "of_api \<Rightarrow> ('v Store, unit) cxx" where
  "Engine_initBuffer F =
     bindX (getE buffer) (\<lambda>b.
     if b \<noteq> None then ret () else
     bindX (getEP F mixerWidth) (\<lambda>w.
     bindX (getEP F mixerHeight) (\<lambda>h.
     modE (\<lambda>e. e\<lparr>buffer := Some (w, h)\<rparr>))))"

definition Engine_destroyBuffer :: "('v Store, unit) cxx" where
  "Engine_destroyBuffer = modE (\<lambda>e. e\<lparr>buffer := None\<rparr>)"

definition Engine_delete :: "of_api \<Rightarrow> 'v player_api \<Rightarrow> ('v Store, unit) cxx" where
  "Engine_delete F V =
     thenX Engine_destroyBuffer (
     thenX (Scenes_empty V) (
     thenX Visuals_empty (
     thenX (Layers_empty F) (
     modS (\<lambda>s. s\<lparr>s_engine := None\<rparr>)))))"

definition Engine_setDefaults :: "Engine \<Rightarrow> Engine" where
  "Engine_setDefaults e = e\<lparr>layersPreview_Columns := 3, buffer := None, setOpened := False\<rparr>"

definition Engine_new :: "of_api \<Rightarrow> 'v player_api \<Rightarrow> ('v Store, unit) cxx" where
  "Engine_new F V =
     thenX (bindX (getS has_engine) (\<lambda>e. if e then Engine_delete F V else ret ())) (
     modS (\<lambda>s. s\<lparr>s_engine := Some
       ((Engine_setDefaults \<lparr>controllers = [], setOpened = False, buffer = None,
           metronomeThreadObj = metronome_new, setProperties = SetProperties_new,
           layersPreview_Columns = 0, beatCallback = False\<rparr>)
         \<lparr>controllers := initDefaultControllers F []\<rparr>)\<rparr>))"

section \<open>State\<close>

definition Engine_getState :: "of_api \<Rightarrow> 'j json_api \<Rightarrow> ('v Store, 'j) cxx" where
  "Engine_getState F J =
     bindX (Visuals_getState F J) (\<lambda>vs.
     bindX (Layers_getState J) (\<lambda>ls.
     bindX (getScenesState F J) (\<lambda>scs.
     ret (j_set J (j_set J (j_set J (j_null J) ''visuals'' vs) ''layers'' ls) ''scenes'' scs))))"

definition whenArray ::
  "'j json_api \<Rightarrow> 'j \<Rightarrow> string \<Rightarrow> ('j \<Rightarrow> ('v Store, unit) cxx) \<Rightarrow> ('v Store, unit) cxx" where
  "whenArray J state key f =
     bindX (liftR (j_at J state key)) (\<lambda>v. if is_array J v then f v else ret ())"

definition Engine_setState ::
  "of_api \<Rightarrow> 'j json_api \<Rightarrow> 'v player_api \<Rightarrow> 'j \<Rightarrow> ('v Store, unit) cxx" where
  "Engine_setState F J V state =
     thenX (whenArray J state ''visuals'' (Visuals_setState F J)) (
     thenX (whenArray J state ''layers'' (Layers_setState F J)) (
     whenArray J state ''scenes'' (Scenes_setState F J V)))"

text \<open>The layer and the column are passed on in the other order.\<close>

definition getVisualAtLayerAndInstanceN :: "uint \<Rightarrow> uint \<Rightarrow> ('v Store, addr option) cxx" where
  "getVisualAtLayerAndInstanceN layerN visualInstanceN =
     bindX (getSet currentScene) (\<lambda>p.
     case p of None \<Rightarrow> ret None | Some sc \<Rightarrow> VisualInstances_get sc visualInstanceN layerN)"

definition getCurrentActiveVisualInstance :: "of_api \<Rightarrow> ('v Store, addr option) cxx" where
  "getCurrentActiveVisualInstance F =
     bindX (getSelectedLayerNumber F) (\<lambda>l.
     bindX (getSelectedColumnNumber F) (\<lambda>c.
     getVisualAtLayerAndInstanceN l c))"

definition Engine_getFullState :: "of_api \<Rightarrow> 'j json_api \<Rightarrow> ('v Store, 'j) cxx" where
  "Engine_getFullState F J =
     bindX (Layers_getFullState F J) (\<lambda>ls.
     bindX (getCurrentActiveVisualInstance F) (\<lambda>p.
     bindX (deref_ptr s_iheap p) (\<lambda>i.
     ret (j_set J (j_set J (j_null J) ''layers'' ls) ''activeVisualInstance''
            (VIP_getFullState J (vi_properties i))))))"

section \<open>Sets\<close>

definition Engine_closeSet :: "of_api \<Rightarrow> 'v player_api \<Rightarrow> ('v Store, unit) cxx" where
  "Engine_closeSet F V =
     bindX (getSet loaded) (\<lambda>l.
     if \<not> l then ret () else
     thenX (Layers_empty F) (
     thenX (Set_closeSet V) (
     thenX (modE (\<lambda>e. e\<lparr>setOpened := False\<rparr>)) (
     modEP F (setCurrentFilePath [])))))"

definition Engine_newSet ::
  "of_api \<Rightarrow> 'v player_api \<Rightarrow> ulonglong \<Rightarrow> uint \<Rightarrow> uint \<Rightarrow> uint \<Rightarrow> ('v Store, bool) cxx" where
  "Engine_newSet F V now w h n =
     thenX (Engine_closeSet F V) (
     thenX (whenX (0 < w) (modEP F (setMixerWidth w))) (
     thenX (whenX (0 < h) (modEP F (setMixerHeight h))) (
     thenX (whenX (0 < n) (modEP F (EP_setNumberOfLayers n))) (
     thenX (Set_newSet F V now w h n) (
     thenX (Engine_initBuffer F) (
     thenX (Layers_setActive F 1) (
     thenX (modEP F (setCurrentFilePath [])) (
     thenX (modE (\<lambda>e. e\<lparr>setOpened := True\<rparr>)) (ret True)))))))))"

definition Set_openSet ::
  "of_api \<Rightarrow> 'j json_api \<Rightarrow> 'v player_api \<Rightarrow> string \<Rightarrow> ('v Store, bool) cxx" where
  "Set_openSet F J V path =
     bindX (SetFile_load J path) (\<lambda>state.
     thenX (Engine_setState F J V state) (ret True))"

definition Set_saveSetAs :: "of_api \<Rightarrow> 'j json_api \<Rightarrow> string \<Rightarrow> ('v Store, unit) cxx" where
  "Set_saveSetAs F J path =
     thenX (modSet (\<lambda>d. d\<lparr>filePath := path\<rparr>)) (
     bindX (Engine_getState F J) (SetFile_save F J path))"

definition Set_saveSet :: "of_api \<Rightarrow> 'j json_api \<Rightarrow> ('v Store, unit) cxx" where
  "Set_saveSet F J = bindX (getSet filePath) (Set_saveSetAs F J)"

definition Engine_openSet ::
  "of_api \<Rightarrow> 'j json_api \<Rightarrow> 'v player_api \<Rightarrow> string \<Rightarrow> ('v Store, bool) cxx" where
  "Engine_openSet F J V path =
     thenX Engine_destroyBuffer (
     thenX (Engine_closeSet F V) (
     thenX (Layers_empty F) (
     bindX (Set_openSet F J V path) (\<lambda>result.
     if \<not> result then ret result else
     thenX (Engine_initBuffer F) (
     thenX (Layers_setActive F 1) (
     thenX (modEP F (setCurrentFilePath path)) (
     thenX (modE (\<lambda>e. e\<lparr>setOpened := True\<rparr>)) (ret result))))))))"

definition Engine_saveSet :: "of_api \<Rightarrow> 'j json_api \<Rightarrow> ('v Store, bool) cxx" where
  "Engine_saveSet F J = thenX (Set_saveSet F J) (ret True)"

definition Engine_saveSetAs :: "of_api \<Rightarrow> 'j json_api \<Rightarrow> string \<Rightarrow> ('v Store, bool) cxx" where
  "Engine_saveSetAs F J path =
     thenX (Set_saveSetAs F J path) (
     thenX (modEP F (setCurrentFilePath path)) (ret True))"

section \<open>Actions\<close>

definition getLayerForActionHandler ::
  "of_api \<Rightarrow> 'j json_api \<Rightarrow> 'j \<Rightarrow> ('v Store, nat option) cxx" where
  "getLayerForActionHandler F J data =
     bindX (liftR (j_at J data ''layer'')) (\<lambda>v.
     if \<not> is_number J v then Layers_getCurrent F
     else bindX (liftR (j_get_int J v)) (\<lambda>n. getS (\<lambda>s. Layers_get s n)))"

definition handleLayerAction ::
  "of_api \<Rightarrow> 'j json_api \<Rightarrow> string \<Rightarrow> 'j \<Rightarrow> ('v Store, unit) cxx" where
  "handleLayerAction F J parameter data =
     bindX (getLayerForActionHandler F J data) (\<lambda>layer.
     case layer of None \<Rightarrow> ret () | Some k \<Rightarrow> Layer_handleAction F J parameter data k)"

definition handleVisualAction ::
  "of_api \<Rightarrow> 'j json_api \<Rightarrow> string \<Rightarrow> 'j \<Rightarrow> ('v Store, unit) cxx" where
  "handleVisualAction F J parameter data =
     bindX (getLayerForActionHandler F J data) (\<lambda>layer.
     case layer of
       None \<Rightarrow> ret ()
     | Some k \<Rightarrow>
         bindX (getL k) (\<lambda>l.
         case activeInstance l of
           None \<Rightarrow> ret () | Some a \<Rightarrow> VI_handleAction F J parameter data a))"

definition layer_labels :: "string list" where
  "layer_labels =
     [''Layer Alpha'', ''Layer Brightness'', ''Layer Contrast'', ''Layer Saturation'',
      ''Layer Red'', ''Layer Green'', ''Layer Blue'', ''Layer Blur'', ''Layer Horizontal Blur'',
      ''Layer Vertical Blur'']"

definition visual_labels :: "string list" where
  "visual_labels =
     [''Visual Alpha'', ''Visual Brightness'', ''Visual Contrast'', ''Visual Saturation'',
      ''Visual Red'', ''Visual Green'', ''Visual Blue'', ''Visual Zoom X'', ''Visual Zoom Y'',
      ''Visual Center X'', ''Visual Center Y'', ''Visual Start'', ''Visual End'',
      ''Visual Played'', ''Visual Loop Mode'', ''Visual Direction'']"

definition Engine_handleAction ::
  "of_api \<Rightarrow> 'j json_api \<Rightarrow> string \<Rightarrow> 'j \<Rightarrow> ('v Store, unit) cxx" where
  "Engine_handleAction F J parameter data =
     (let h = str2int parameter in
      if list_ex (\<lambda>l. h = str2int l) layer_labels then
        handleLayerAction F J (ofStringReplace F parameter ''Layer '' []) data
      else if list_ex (\<lambda>l. h = str2int l) visual_labels then
        handleVisualAction F J (ofStringReplace F parameter ''Visual '' []) data
      else ret ())"

section \<open>Resolution\<close>

definition setLayerResolution :: "of_api \<Rightarrow> uint \<Rightarrow> uint \<Rightarrow> nat \<Rightarrow> ('v Store, unit) cxx" where
  "setLayerResolution F w h k =
     bindX (getL k) (\<lambda>l.
     case thenX (setLPWidth F w) (setLPHeight F h) (l_properties l) of (r, p) \<Rightarrow>
     thenX (modL k (\<lambda>l. l\<lparr>l_properties := p\<rparr>)) (
     thenX (liftR r) (
     thenX (modL k destroyBuffer) (
     modL k initBuffer))))"

definition setMixerResolution :: "of_api \<Rightarrow> uint \<Rightarrow> uint \<Rightarrow> ('v Store, unit) cxx" where
  "setMixerResolution F w h =
     thenX Engine_destroyBuffer (
     thenX (modEP F (setMixerWidth w)) (
     thenX (modEP F (setMixerHeight h)) (
     thenX (Engine_initBuffer F) (
     bindX (getS s_layers) (\<lambda>ls. forX [0..<length ls] (setLayerResolution F w h))))))"

section \<open>Construction and resolution\<close>

text \<open>The engine object as its constructor leaves it.\<close>

definition Engine_init :: "of_api \<Rightarrow> Engine" where
  "Engine_init F =
     \<lparr>controllers = initDefaultControllers F [], setOpened = False, buffer = None,
      metronomeThreadObj = metronome_new, setProperties = SetProperties_new,
      layersPreview_Columns = 3, beatCallback = False\<rparr>"

lemma Engine_new_run:
  "s_engine s = None \<Longrightarrow> Engine_new F V s = (Inr (), s\<lparr>s_engine := Some (Engine_init F)\<rparr>)"
  unfolding Engine_new_def Engine_init_def Engine_setDefaults_def by (subst thenX_Inr) (simp_all add: bindX_def)

text \<open>A loop over the layers that changes one layer at a time changes them all.\<close>

lemma forX_layers_from:
  assumes "\<And>s k. k < length (s_layers s) \<Longrightarrow>
      m k s = (Inr (), s\<lparr>s_layers := (s_layers s)[k := f (s_layers s ! k)]\<rparr>)"
    and "i \<le> length (s_layers s)"
  shows "forX [i..<length (s_layers s)] m s =
    (Inr (), s\<lparr>s_layers := take i (s_layers s) @ map f (drop i (s_layers s))\<rparr>)"
  using assms(2)
proof (induction "length (s_layers s) - i" arbitrary: i s)
  case 0
  then show ?case by simp
next
  case (Suc n)
  then have i: "i < length (s_layers s)" by simp
  let ?s = "s\<lparr>s_layers := (s_layers s)[i := f (s_layers s ! i)]\<rparr>"
  have "forX [Suc i..<length (s_layers ?s)] m ?s =
      (Inr (), ?s\<lparr>s_layers := take (Suc i) (s_layers ?s) @ map f (drop (Suc i) (s_layers ?s))\<rparr>)"
    using Suc.hyps(2) i by (intro Suc.hyps(1)) simp_all
  moreover have "take (Suc i) (s_layers ?s) @ map f (drop (Suc i) (s_layers ?s)) =
      take i (s_layers s) @ map f (drop i (s_layers s))"
    using i by (simp add: take_Suc_conv_app_nth drop_update_cancel Cons_nth_drop_Suc [symmetric])
  ultimately show ?case using i assms(1) [OF i] by (simp add: upt_conv_Cons)
qed

lemma forX_layers:
  assumes "\<And>s k. k < length (s_layers s) \<Longrightarrow>
      m k s = (Inr (), s\<lparr>s_layers := (s_layers s)[k := f (s_layers s ! k)]\<rparr>)"
  shows "forX [0..<length (s_layers s)] m s = (Inr (), s\<lparr>s_layers := map f (s_layers s)\<rparr>)"
  using forX_layers_from [OF assms, of 0 s] by simp

text \<open>The size a layer gets, limited to 1920 by 1080.\<close>

definition resized :: "uint \<Rightarrow> uint \<Rightarrow> Layer \<Rightarrow> Layer" where
  "resized w h l =
     (let size = (lp_size (l_properties l))\<lparr>width := of_nat (min (unat w) 1920), height := of_nat (min (unat h) 1080)\<rparr>
      in l\<lparr>l_properties := (l_properties l)\<lparr>lp_size := size\<rparr>, l_buffer := Some (width size, height size)\<rparr>)"

lemma setLayerResolution_run:
  assumes "clamp_doc F" "k < length (s_layers s)"
  shows "setLayerResolution F w h k s =
    (Inr (), s\<lparr>s_layers := (s_layers s)[k := resized w h (s_layers s ! k)]\<rparr>)"
  using assms
  by (cases "l_buffer (s_layers s ! k)") (simp_all add: setLayerResolution_def setLPWidth_def setLPHeight_def setWidth_Inr setHeight_Inr
      resized_def destroyBuffer_def initBuffer_def Let_def)

text \<open>
  C28. \<open>setMixerResolution\<close> gives every layer the new size, limited to 1920 by 1080, with a buffer
  of that size and nothing else changed; the engine's own buffer always becomes 640 by 480,
  whatever size was asked for.
\<close>

theorem mixer_resolution:
  assumes "clamp_doc F" "s_engine s = Some e"
  shows "\<exists>s'. setMixerResolution F w h s = (Inr (), s') \<and>
    s_engine s' = Some (e\<lparr>buffer := Some (640, 480)\<rparr>) \<and>
    s_layers s' = map (resized w h) (s_layers s)"
proof -
  let ?s = "s\<lparr>s_ep := EP_getInstance F (setMixerHeight h (EP_getInstance F (setMixerWidth w
      (EP_getInstance F (s_ep s))))), s_engine := Some (e\<lparr>buffer := Some (640, 480)\<rparr>)\<rparr>"
  have "setMixerResolution F w h s = forX [0..<length (s_layers ?s)] (setLayerResolution F w h) ?s"
    using assms(2)
    by (simp add: setMixerResolution_def Engine_destroyBuffer_def Engine_initBuffer_def)
  also have "\<dots> = (Inr (), ?s\<lparr>s_layers := map (resized w h) (s_layers ?s)\<rparr>)"
    by (rule forX_layers) (rule setLayerResolution_run [OF assms(1)])
  finally show ?thesis by simp
qed

theorem mixer_resolution_witness:
  "\<exists>s'. setMixerResolution ex_F 1280 720 ((ex_layers 2)\<lparr>s_engine := Some (Engine_init ex_F)\<rparr>) = (Inr (), s') \<and>
     s_engine s' = Some ((Engine_init ex_F)\<lparr>buffer := Some (640, 480)\<rparr>) \<and>
     map (\<lambda>l. width (lp_size (l_properties l))) (s_layers s') = map (\<lambda>_. 1280) (s_layers (ex_layers 2))"
  using mixer_resolution [of ex_F "(ex_layers 2)\<lparr>s_engine := Some (Engine_init ex_F)\<rparr>" "Engine_init ex_F" 1280 720]
  by (auto simp: resized_def)


end
