(* ===== verification/EnginePlay.thy ===== *)
theory EnginePlay
  imports EngineOps
begin

text \<open>
  \<open>Engine\<close>, continued: triggering visuals, scenes, rendering, the metronome and the keyboard.
\<close>

section \<open>Triggering visuals\<close>

definition Engine_setActiveVisualInstance ::
  "of_api \<Rightarrow> 'v player_api \<Rightarrow> ulonglong \<Rightarrow> uint \<Rightarrow> uint \<Rightarrow> ('v Store, addr option) cxx" where
  "Engine_setActiveVisualInstance F V now layerN column =
     bindX (getS (\<lambda>s. Layers_get s layerN)) (\<lambda>layer.
     case layer of
       None \<Rightarrow> ret None
     | Some k \<Rightarrow>
         bindX (getVisualInstanceInCorrentSet layerN column) (\<lambda>vi.
         thenX (if vi \<noteq> None then playVisualInstance F V now k vi
                else bindX (getE (\<lambda>e. stopCurrentVisualIfTriggeredInvalid (setProperties e))) (\<lambda>b.
                     whenX b (Layers_stopAt V layerN))) (
         ret vi)))"

definition Engine_play ::
  "of_api \<Rightarrow> 'j json_api \<Rightarrow> 'v player_api \<Rightarrow> ulonglong \<Rightarrow> 'j \<Rightarrow> ('v Store, unit) cxx" where
  "Engine_play F J V now data =
     (if \<not> is_object J data then throw (ThrowLiteral ''data must be an object'') else
      bindX (liftR (j_at J data ''layer'')) (\<lambda>l.
      if \<not> is_number J l then throw (ThrowLiteral ''Layer not set'') else
      bindX (liftR (j_get_uint J l)) (\<lambda>layer.
      bindX (liftR (j_at J data ''column'')) (\<lambda>c.
      if \<not> is_number J c then throw (ThrowLiteral ''column not set'') else
      bindX (liftR (j_get_uint J c)) (\<lambda>column.
      bindX (Engine_setActiveVisualInstance F V now layer column) (\<lambda>vi.
      case vi of
        None \<Rightarrow> throw (ThrowLiteral ''Invalid visual instance'')
      | Some a \<Rightarrow> VI_play F V now False a))))))"

definition Engine_stop :: "'j json_api \<Rightarrow> 'v player_api \<Rightarrow> 'j \<Rightarrow> ('v Store, unit) cxx" where
  "Engine_stop J V data =
     (if \<not> is_object J data then Layers_stopAll V else
      bindX (liftR (j_at J data ''layer'')) (\<lambda>l.
      if is_number J l then bindX (liftR (j_get_uint J l)) (Layers_stopAt V)
      else Layers_stopAll V))"

definition setActiveVisualIntances ::
  "of_api \<Rightarrow> 'v player_api \<Rightarrow> ulonglong \<Rightarrow> uint \<Rightarrow> ('v Store, unit) cxx" where
  "setActiveVisualIntances F V now column =
     bindX (getS s_layers) (\<lambda>ls.
     forX [0..<length ls] (\<lambda>k. dropX (Engine_setActiveVisualInstance F V now (of_nat k) column)))"

definition setActiveVisualIntanceOnActiveLayer ::
  "of_api \<Rightarrow> 'v player_api \<Rightarrow> ulonglong \<Rightarrow> uint \<Rightarrow> ('v Store, unit) cxx" where
  "setActiveVisualIntanceOnActiveLayer F V now n =
     bindX (getSelectedLayerNumber F) (\<lambda>l.
     dropX (Engine_setActiveVisualInstance F V now l n))"

definition playFirstVisualInstanceOnActiveLayer ::
  "of_api \<Rightarrow> 'v player_api \<Rightarrow> ulonglong \<Rightarrow> ('v Store, unit) cxx" where
  "playFirstVisualInstanceOnActiveLayer F V now = setActiveVisualIntanceOnActiveLayer F V now 0"

text \<open>\<open>getCurrentScene()->visualInstances.countInLayer(...)\<close>\<close>

definition countInCurrentScene :: "of_api \<Rightarrow> ('v Store, uint) cxx" where
  "countInCurrentScene F =
     bindX (getSelectedLayerNumber F) (\<lambda>l.
     bindX (getSet currentScene) (\<lambda>p.
     case p of None \<Rightarrow> throw (UB NullDeref) | Some sc \<Rightarrow> countInLayer sc l))"

definition playLastVisualInstanceOnActiveLayer ::
  "of_api \<Rightarrow> 'v player_api \<Rightarrow> ulonglong \<Rightarrow> ('v Store, unit) cxx" where
  "playLastVisualInstanceOnActiveLayer F V now =
     bindX (countInCurrentScene F) (\<lambda>n. setActiveVisualIntanceOnActiveLayer F V now (n - 1))"

definition playPreviousVisualInstanceOnActiveLayer ::
  "of_api \<Rightarrow> 'v player_api \<Rightarrow> ulonglong \<Rightarrow> ('v Store, unit) cxx" where
  "playPreviousVisualInstanceOnActiveLayer F V now =
     bindX (getSelectedColumnNumber F) (\<lambda>column.
     if column = 0 then ret () else setActiveVisualIntanceOnActiveLayer F V now (column - 1))"

definition playNextVisualInstanceOnActiveLayer ::
  "of_api \<Rightarrow> 'v player_api \<Rightarrow> ulonglong \<Rightarrow> ('v Store, unit) cxx" where
  "playNextVisualInstanceOnActiveLayer F V now =
     bindX (getSelectedColumnNumber F) (\<lambda>column.
     bindX (countInCurrentScene F) (\<lambda>n.
     if n - 1 \<le> column then ret ()
     else setActiveVisualIntanceOnActiveLayer F V now (column + 1)))"

section \<open>Visuals in scenes\<close>

definition addVisualToSceneListInCurrentLayer ::
  "of_api \<Rightarrow> 'v player_api \<Rightarrow> uint \<Rightarrow> uint \<Rightarrow> uint \<Rightarrow> ('v Store, unit) cxx" where
  "addVisualToSceneListInCurrentLayer F V v layer column =
     bindX (getS (\<lambda>s. Visuals_get s v)) (\<lambda>visualToAdd.
     if visualToAdd = None then ret () else
     bindX (if layer = 0 then getSelectedLayerNumber F else ret layer) (\<lambda>layer.
     bindX (getS Layers_count) (\<lambda>n.
     let layer = (if n < layer then n else layer) in
     bindX (getSet currentScene) (\<lambda>p.
     case p of
       None \<Rightarrow> throw (UB NullDeref)
     | Some sc \<Rightarrow> dropX (VisualInstances_add F V sc visualToAdd layer column [])))))"

definition addVisualToScene ::
  "of_api \<Rightarrow> 'v player_api \<Rightarrow> uint \<Rightarrow> uint \<Rightarrow> uint \<Rightarrow> ('v Store, unit) cxx" where
  "addVisualToScene F V v layer column =
     bindX (getS (\<lambda>s. Visuals_get s v)) (\<lambda>visualToAdd.
     if visualToAdd = None then ret () else
     bindX (getSet nLayers) (\<lambda>n.
     bindX (getS s_layers) (\<lambda>ls.
     thenX (whenX (n < layer)
              (forX [length ls..<Suc (unat layer)] (\<lambda>_. dropX (Layers_add F True)))) (
     bindX (getSet currentScene) (\<lambda>p.
     case p of
       None \<Rightarrow> throw (UB NullDeref)
     | Some sc \<Rightarrow> dropX (VisualInstances_add F V sc visualToAdd layer column []))))))"

definition removeVisualFromScene ::
  "of_api \<Rightarrow> 'v player_api \<Rightarrow> uint \<Rightarrow> uint \<Rightarrow> ('v Store, unit) cxx" where
  "removeVisualFromScene F V layer column =
     bindX (getSet currentScene) (\<lambda>p.
     bindX (getSelectedLayerNumber F) (\<lambda>l.
     bindX (if layer = l then getSelectedColumnNumber F else ret (column + 1)) (\<lambda>c.
     thenX (whenX (layer = l \<and> column = c) (Layers_stopAt V layer)) (
     case p of
       None \<Rightarrow> throw (UB NullDeref)
     | Some sc \<Rightarrow> VisualInstances_remove sc layer column))))"

primrec getSyphonInput_loop ::
  "(addr \<rightharpoonup> Visual) \<Rightarrow> string \<Rightarrow> string \<Rightarrow> addr list \<Rightarrow> addr option res" where
  "getSyphonInput_loop h server app [] = Inr None"
| "getSyphonInput_loop h server app (a # as) =
     (case h a of
        None \<Rightarrow> Inl (UB DanglingDeref)
      | Some v \<Rightarrow>
          (case part v of
             Syphon y \<Rightarrow>
               if server = serverName y \<and> app = appName y then Inr (Some a)
               else getSyphonInput_loop h server app as
           | Video _ \<Rightarrow> getSyphonInput_loop h server app as
           | Camera _ \<Rightarrow> getSyphonInput_loop h server app as))"

definition getSyphonInput :: "string \<Rightarrow> string \<Rightarrow> ('v Store, addr option) cxx" where
  "getSyphonInput server app =
     (\<lambda>s. (getSyphonInput_loop (s_vheap s) server app (s_visuals s), s))"

definition isSyphonInputLoaded :: "string \<Rightarrow> string \<Rightarrow> ('v Store, bool) cxx" where
  "isSyphonInputLoaded server app =
     bindX (getSyphonInput server app) (\<lambda>p. ret (p \<noteq> None))"

section \<open>Rendering and beats\<close>

definition triggerLayer :: "of_api \<Rightarrow> 'v player_api \<Rightarrow> ulonglong \<Rightarrow> nat \<Rightarrow> ('v Store, unit) cxx" where
  "triggerLayer F V now k =
     bindX (getL k) (\<lambda>l.
     case schedulledInstance l of
       Some _ \<Rightarrow> activateSchedulledInstance F V now k
     | None \<Rightarrow>
         (case activeInstance l of
            None \<Rightarrow> ret ()
          | Some a \<Rightarrow>
              bindX (deref s_iheap a) (\<lambda>i.
              if beatSnap (vi_properties i) \<and> isTriggered (vi_properties i) then
                thenX (whenX (v_isPlaying V (video i)) (modVideo a (v_firstFrame V))) (
                VI_play F V now True a)
              else ret ())))"

definition triggerSchedulledVisualsOnAllLayers ::
  "of_api \<Rightarrow> 'v player_api \<Rightarrow> ulonglong \<Rightarrow> ('v Store, unit) cxx" where
  "triggerSchedulledVisualsOnAllLayers F V now =
     bindX (getS s_layers) (\<lambda>ls. forX [0..<length ls] (triggerLayer F V now))"

text \<open>
  A frame as far as layers, instances and properties are concerned. \<open>getMixerWidth\<close> and
  \<open>getMixerHeight\<close> are asked for every layer that is drawn. Two things a frame does with other
  objects are definitions of their own: it takes the waiting OSC messages before it looks for a beat
  (\<open>render_osc\<close> in \<open>Inputs\<close>), and publishes the pictures of the layers and its own
  (\<open>render_publish\<close> in \<open>Outputs\<close>); an OSC message changes nothing of the engine. A frame is one
  step here: the thread of the metronome, which can set the flag between two statements of it,
  is not interleaved with it.
\<close>

definition Engine_render :: "of_api \<Rightarrow> 'v player_api \<Rightarrow> ulonglong \<Rightarrow> ('v Store, unit) cxx" where
  "Engine_render F V now =
     bindX (getS s_layers) (\<lambda>ls.
     if ls = [] then ret () else
     bindX (getE buffer) (\<lambda>b.
     if b = None then ret () else
     bindX (getEP F beatSnapInProgress) (\<lambda>snap.
     thenX (whenX snap (
              thenX (triggerSchedulledVisualsOnAllLayers F V now) (
              modEP F (setIsBeatSnapInProgress False)))) (
     thenX (forX [0..<length ls] (Layer_render F V now)) (
     forX [0..<length ls] (\<lambda>k.
       bindX (getEP F mixerWidth) (\<lambda>_. bindX (getEP F mixerHeight) (\<lambda>_. ret ()))))))))"

text \<open>A member function of the properties singleton, reached through \<open>getInstance\<close>.\<close>

definition onEP :: "of_api \<Rightarrow> (EngineProperties, 'a) cxx \<Rightarrow> ('v Store, 'a) cxx" where
  "onEP F m =
     (\<lambda>s. case m (EP_getInstance F (s_ep s)) of (r, ep) \<Rightarrow> (r, s\<lparr>s_ep := ep\<rparr>))"

text \<open>
  The callback of the application is a parameter; calling it before one is registered reads
  an uninitialised function pointer.
\<close>

definition Engine_beat :: "of_api \<Rightarrow> ('v Store, unit) cxx \<Rightarrow> ('v Store, unit) cxx" where
  "Engine_beat F callback =
     thenX (onEP F (\<lambda>ep. case EP_beat ep of Inl e \<Rightarrow> (Inl e, ep) | Inr ep' \<Rightarrow> (Inr (), ep'))) (
     bindX (getE beatCallback) (\<lambda>registered.
     if registered then callback else throw (UB UninitialisedRead)))"

definition registerAppBeatCallback :: "('v Store, unit) cxx" where
  "registerAppBeatCallback = modE (\<lambda>e. e\<lparr>beatCallback := True\<rparr>)"

text \<open>One round of the metronome thread.\<close>

definition metronome_round :: "of_api \<Rightarrow> ('v Store, unit) cxx \<Rightarrow> ('v Store, unit) cxx" where
  "metronome_round F callback =
     bindX (getE (\<lambda>e. threadRunning (metronomeThreadObj e))) (\<lambda>run.
     if \<not> run then ret () else
     thenX (modE (\<lambda>e. e\<lparr>metronomeThreadObj := metronome_tick (metronomeThreadObj e)\<rparr>)) (
     Engine_beat F callback))"

definition startMetronome :: "of_api \<Rightarrow> ('v Store, unit) cxx" where
  "startMetronome F =
     thenX (modE (\<lambda>e. e\<lparr>metronomeThreadObj := metronome_start (metronomeThreadObj e)\<rparr>)) (
     modEP F (setMetronomeOn True))"

definition stopMetronome :: "of_api \<Rightarrow> ('v Store, unit) cxx" where
  "stopMetronome F =
     thenX (modE (\<lambda>e. e\<lparr>metronomeThreadObj := metronome_stop (metronomeThreadObj e)\<rparr>)) (
     modEP F (setMetronomeOn False))"

definition Engine_resetMetronome :: "('v Store, unit) cxx" where
  "Engine_resetMetronome =
     modE (\<lambda>e. e\<lparr>metronomeThreadObj := resetMetronome (metronomeThreadObj e)\<rparr>)"

text \<open>
  \<open>Boolean metroOn = getBPM()\<close>: a \<open>Boolean\<close> is an unsigned char, so that the tempo is taken
  modulo 256.
\<close>

definition Engine_setBPM :: "uint \<Rightarrow> ('v Store, unit) cxx" where
  "Engine_setBPM newBPM =
     bindX (getE (\<lambda>e. unat (BPM (metronomeThreadObj e)) mod 256 \<noteq> 0)) (\<lambda>metroOn.
     thenX (whenX metroOn
              (modE (\<lambda>e. e\<lparr>metronomeThreadObj := metronome_stop (metronomeThreadObj e)\<rparr>))) (
     bindX (getE metronomeThreadObj) (\<lambda>m.
     case metronome_setBPM newBPM m of
       (r, m') \<Rightarrow>
         thenX (modE (\<lambda>e. e\<lparr>metronomeThreadObj := m'\<rparr>)) (
         thenX (liftR r) (
         whenX metroOn
           (modE (\<lambda>e. e\<lparr>metronomeThreadObj := metronome_start (metronomeThreadObj e)\<rparr>)))))))"

definition Engine_tap :: "of_api \<Rightarrow> ulonglong \<Rightarrow> ('v Store, unit) cxx" where
  "Engine_tap F now =
     bindX (onEP F (EP_tap now)) (\<lambda>newBPM.
     thenX (whenX (newBPM \<noteq> 0) (Engine_setBPM newBPM)) (
     Engine_setBPM newBPM))"

definition Engine_cleanup :: "'v player_api \<Rightarrow> ulonglong \<Rightarrow> ('v Store, unit) cxx" where
  "Engine_cleanup V now = Set_cleanup V now"

section \<open>Keyboard\<close>

definition TriggerVisualAction_run :: "('v Store, bool) cxx" where
  "TriggerVisualAction_run = getS has_engine"

definition ChangeLayerAction_run :: "of_api \<Rightarrow> ChangeLayerAction \<Rightarrow> ('v Store, bool) cxx" where
  "ChangeLayerAction_run F a =
     bindX (getS has_engine) (\<lambda>e.
     if \<not> e then ret False else thenX (Layers_setActive F (cl_layer a)) (ret True))"

definition Action_run :: "of_api \<Rightarrow> Action \<Rightarrow> ('v Store, bool) cxx" where
  "Action_run F a =
     (case action_type a of
        TriggerVisual \<Rightarrow>
          (case triggerVisualAction a of
             None \<Rightarrow> throw (UB NullDeref) | Some _ \<Rightarrow> TriggerVisualAction_run)
      | ChangeLayer \<Rightarrow>
          (case changeLayerAction a of
             None \<Rightarrow> throw (UB NullDeref) | Some x \<Rightarrow> ChangeLayerAction_run F x)
      | ChangeParameter \<Rightarrow> ret False)"

definition Controller_runAction :: "of_api \<Rightarrow> Controller \<Rightarrow> ('v Store, bool) cxx" where
  "Controller_runAction F c =
     (case c_action c of None \<Rightarrow> ret False | Some a \<Rightarrow> Action_run F a)"

primrec handleKeyboardControllers ::
  "of_api \<Rightarrow> sint32 \<Rightarrow> Controller list \<Rightarrow> ('v Store, unit) cxx" where
  "handleKeyboardControllers F key [] = ret ()"
| "handleKeyboardControllers F key (c # cs) =
     (if c_type c = KeyController \<and> key = c_control c then
        bindX (Controller_runAction F c) (\<lambda>b.
        if b then ret () else handleKeyboardControllers F key cs)
      else handleKeyboardControllers F key cs)"

definition keyPressed :: "of_api \<Rightarrow> sint32 \<Rightarrow> ('v Store, unit) cxx" where
  "keyPressed F key = bindX (getE controllers) (handleKeyboardControllers F key)"

section \<open>What rendering keeps\<close>

text \<open>The active and the scheduled instance of every layer.\<close>

definition layer_instances :: "'v Store \<Rightarrow> (addr option \<times> addr option) list" where
  "layer_instances s = map (\<lambda>l. (activeInstance l, schedulledInstance l)) (s_layers s)"

lemma layer_instances_modL:
  assumes "\<And>l. activeInstance (f l) = activeInstance l" "\<And>l. schedulledInstance (f l) = schedulledInstance l"
  shows "frame layer_instances (modL k f)"
  by (rule frameI, rename_tac s, case_tac "k < length (s_layers s)")
    (auto simp: layer_instances_def assms list_eq_iff_nth_eq nth_list_update)

lemma layer_instances_outside [simp]: "outside layer_instances"
  by (simp add: outside_def layer_instances_def)

lemma layer_instances_render: "frame layer_instances (Layer_render F V now k)"
  unfolding Layer_render_def
  by (auto intro!: frame_rules frame_getL layer_instances_modL frame_outside_draw
      simp: initBuffer_def split: option.split prod.split)

lemma frame_getE: "frame g (getE f)"
  by (auto simp: frame_def getE_def split: option.split)

lemma Engine_render_run:
  "Engine_render F V now s =
     (if s_layers s = [] then (Inr (), s) else
      case s_engine s of
        None \<Rightarrow> (Inl (UB NullDeref), s)
      | Some e \<Rightarrow>
          if buffer e = None then (Inr (), s) else
          thenX (forX [0..<length (s_layers s)] (Layer_render F V now))
            (forX [0..<length (s_layers s)] (\<lambda>k.
               bindX (getEP F mixerWidth) (\<lambda>_. bindX (getEP F mixerHeight) (\<lambda>_. ret ()))))
            (s\<lparr>s_ep := EP_getInstance F (s_ep s)\<rparr>))"
  by (simp add: Engine_render_def split: option.split)

text \<open>
  C29. Rendering never changes which instance is active or scheduled on a layer, whatever the
  state: the test for a beat that is due reads a flag that \<open>getInstance\<close> has just cleared, so a
  visual that waits for the beat is never started by a frame, as long as the metronome's thread does
  not set the flag between these two.
\<close>

theorem render_never_triggers:
  "map (\<lambda>l. (activeInstance l, schedulledInstance l)) (s_layers (snd (Engine_render F V now s))) =
   map (\<lambda>l. (activeInstance l, schedulledInstance l)) (s_layers s)"
proof -
  have "frame layer_instances
      (thenX (forX ks (Layer_render F V now))
        (forX ks (\<lambda>k. bindX (getEP F mixerWidth) (\<lambda>_. bindX (getEP F mixerHeight) (\<lambda>_. ret ())))))"
    for ks by (intro frame_rules frame_forX layer_instances_render) simp_all
  note this [unfolded frame_def, rule_format]
  then have "layer_instances (snd (Engine_render F V now s)) = layer_instances s"
    by (auto simp: Engine_render_run split: option.split) (simp add: layer_instances_def)
  then show ?thesis by (simp add: layer_instances_def)
qed

section \<open>Keys\<close>

lemma handle_trigger_keys:
  assumes "list_all (\<lambda>c. c_type c = KeyController \<and>
      (\<exists>l k. c_action c = Some (newTriggerVisualAction l k))) cs" "has_engine s"
  shows "handleKeyboardControllers F key (cs @ ds) s =
    (if key \<in> set (map c_control cs) then (Inr (), s) else handleKeyboardControllers F key ds s)"
  using assms
  by (induction cs) (auto simp: Controller_runAction_def Action_run_def newTriggerVisualAction_def
      setTriggerVisualAction_def Action_new_def TriggerVisualAction_run_def)

lemma handle_layer_keys:
  assumes "list_all (\<lambda>c. c_type c = KeyController) cs" "has_engine s"
    "map (\<lambda>c. (c_control c, c_action c)) cs = map (\<lambda>(k, l). (k, Some (newChangeLayerAction l))) kls"
  shows "handleKeyboardControllers F key cs s =
    (case map_of kls key of None \<Rightarrow> (Inr (), s) | Some l \<Rightarrow> Layers_setActive F l s)"
  using assms
proof (induction cs arbitrary: kls)
  case Nil
  then show ?case by simp
next
  case (Cons c cs)
  then obtain k l kls' where kls: "kls = (k, l) # kls'" by (cases kls) auto
  show ?case
  proof (cases "key = k")
    case True
    with Cons.prems kls show ?thesis
      by (cases "Layers_setActive F l s"; cases "fst (Layers_setActive F l s)")
        (auto simp: Controller_runAction_def Action_run_def newChangeLayerAction_def
          setChangeLayerAction_def Action_new_def ChangeLayerAction_run_def)
  next
    case False
    with Cons kls show ?thesis by simp
  qed
qed

lemma initDefaultControllers_split:
  "initDefaultControllers F [] =
     map (\<lambda>(k, l, c). Controller_setAction (newTriggerVisualAction l c) (Controller_new F KeyController k)) triggerKeys @
     map (\<lambda>(k, l). Controller_setAction (newChangeLayerAction l) (Controller_new F KeyController k)) layerKeys"
  by (simp add: initDefaultControllers_def triggerKeys_def layerKeys_def addController_def)

text \<open>
  With the default controllers the keys 18 to 21 select the layers 1 to 4; every other key,
  the twelve that are assigned to visuals included, changes nothing.
\<close>

theorem default_keys:
  assumes "s_engine s = Some e" "controllers e = initDefaultControllers F []"
  shows "keyPressed F key s =
    (if key = 18 then Layers_setActive F 1 s else if key = 19 then Layers_setActive F 2 s
     else if key = 20 then Layers_setActive F 3 s else if key = 21 then Layers_setActive F 4 s
     else (Inr (), s))"
proof -
  let ?T = "map (\<lambda>(k, l, c). Controller_setAction (newTriggerVisualAction l c)
      (Controller_new F KeyController k)) triggerKeys"
  let ?L = "map (\<lambda>(k, l). Controller_setAction (newChangeLayerAction l)
      (Controller_new F KeyController k)) layerKeys"
  have e: "has_engine s" using assms(1) by simp
  have T: "handleKeyboardControllers F key (?T @ ?L) s =
      (if key \<in> set (map c_control ?T) then (Inr (), s) else handleKeyboardControllers F key ?L s)"
    by (rule handle_trigger_keys [OF _ e])
      (force simp: list_all_iff Controller_setAction_def Controller_new_def)
  have L: "handleKeyboardControllers F key ?L s =
      (case map_of layerKeys key of None \<Rightarrow> (Inr (), s) | Some l \<Rightarrow> Layers_setActive F l s)"
    by (rule handle_layer_keys [OF _ e])
      (auto simp: list_all_iff Controller_setAction_def Controller_new_def)
  have K: "set (map c_control ?T) = set (map fst triggerKeys)"
    by (simp add: triggerKeys_def Controller_setAction_def Controller_new_def)
  have "keyPressed F key s = handleKeyboardControllers F key (?T @ ?L) s"
    using assms by (simp add: keyPressed_def initDefaultControllers_split)
  then show ?thesis unfolding T L K by (simp add: triggerKeys_def layerKeys_def)
qed

theorem default_keys_witness:
  "keyPressed ex_F 19 (snd (Engine_new ex_F ex_V Store_init)) =
     Layers_setActive ex_F 2 (snd (Engine_new ex_F ex_V Store_init))"
proof -
  have "s_engine (Store_init :: ex_player Store) = None" by (simp add: Store_init_def)
  from Engine_new_run [OF this, of ex_F ex_V]
  show ?thesis using default_keys [of "snd (Engine_new ex_F ex_V Store_init)" "Engine_init ex_F" ex_F 19]
    by (simp add: Engine_init_def)
qed

section \<open>Rounds of the metronome\<close>

lemma metronome_round_run:
  assumes "s_engine s = Some e"
  shows "metronome_round F callback s =
    (if \<not> threadRunning (metronomeThreadObj e) then (Inr (), s) else
     let s1 = s\<lparr>s_engine := Some (e\<lparr>metronomeThreadObj := metronome_tick (metronomeThreadObj e)\<rparr>),
                s_ep := EP_instance_beat F (s_ep s)\<rparr>
     in if beatCallback e then callback s1 else (Inl (UB UninitialisedRead), s1))"
  using assms
  by (simp add: metronome_round_def Engine_beat_def onEP_def bindX_def thenX_def EP_beat_instance_Inr Let_def)

text \<open>A callback that returns and leaves the engine and its properties alone.\<close>

definition harmless :: "('v Store, unit) cxx \<Rightarrow> bool" where
  "harmless callback \<longleftrightarrow>
     (\<forall>s. \<exists>s'. callback s = (Inr (), s') \<and> s_engine s' = s_engine s \<and> s_ep s' = s_ep s)"

lemma metronome_rounds_run:
  assumes "harmless callback" "s_engine s = Some e" "threadRunning (metronomeThreadObj e)" "beatCallback e"
  shows "\<exists>s'. forX (replicate n ()) (\<lambda>_. metronome_round F callback) s = (Inr (), s') \<and>
    s_engine s' = Some (e\<lparr>metronomeThreadObj := (metronome_tick ^^ n) (metronomeThreadObj e)\<rparr>) \<and>
    s_ep s' = (EP_instance_beat F ^^ n) (s_ep s)"
  using assms(2-4)
proof (induction n arbitrary: s e)
  case 0
  then show ?case by simp
next
  case (Suc n)
  let ?e = "e\<lparr>metronomeThreadObj := metronome_tick (metronomeThreadObj e)\<rparr>"
  let ?s = "s\<lparr>s_engine := Some ?e, s_ep := EP_instance_beat F (s_ep s)\<rparr>"
  obtain s1 where s1: "callback ?s = (Inr (), s1)" "s_engine s1 = Some ?e"
    "s_ep s1 = EP_instance_beat F (s_ep s)"
    using assms(1) by (auto simp: harmless_def dest!: spec [of _ ?s])
  have "metronome_round F callback s = (Inr (), s1)"
    using Suc.prems s1(1) by (simp add: metronome_round_run Let_def)
  then show ?case using Suc.IH [OF s1(2)] Suc.prems s1(3)
    by (simp add: funpow_swap1)
qed

text \<open>
  C19. With a registered callback that leaves the engine alone, \<open>n + 1\<close> rounds of the running
  metronome thread all complete: the beat of the bar counts modulo 4, the beats of the engine
  modulo 33, and the last beat is a triggering one when the latter is a multiple of four.
\<close>

theorem metronome_rounds:
  assumes "harmless callback" "s_engine s = Some e" "threadRunning (metronomeThreadObj e)" "beatCallback e"
    and "beatCount (metronomeThreadObj e) = 1" "beatsCounter (s_ep s) = 0"
  shows "\<exists>s' e'. forX (replicate (Suc n) ()) (\<lambda>_. metronome_round F callback) s = (Inr (), s') \<and>
    s_engine s' = Some e' \<and> unat (beatCount (metronomeThreadObj e')) = 1 + Suc n mod 4 \<and>
    unat (beatsCounter (s_ep s')) = Suc n mod 33 \<and>
    (triggeringBeat (s_ep s') \<longleftrightarrow> Suc n mod 33 mod 4 = 0)"
proof -
  obtain s' where s': "forX (replicate (Suc n) ()) (\<lambda>_. metronome_round F callback) s = (Inr (), s')"
    "s_engine s' = Some (e\<lparr>metronomeThreadObj := (metronome_tick ^^ Suc n) (metronomeThreadObj e)\<rparr>)"
    "s_ep s' = (EP_instance_beat F ^^ Suc n) (s_ep s)"
    using metronome_rounds_run [OF assms(1-4), of "Suc n" F] by blast
  have "unat (beatCount ((metronome_tick ^^ Suc n) (metronomeThreadObj e))) = 1 + Suc n mod 4"
    using beat_of_bar.steps_val [where s = "metronomeThreadObj e" and n = "Suc n"] assms(5) by simp
  moreover have "unat (beatsCounter ((EP_instance_beat F ^^ Suc n) (s_ep s))) = Suc n mod 33"
    "triggeringBeat ((EP_instance_beat F ^^ Suc n) (s_ep s)) \<longleftrightarrow> Suc n mod 33 mod 4 = 0"
    using beats_after [where ep = "s_ep s" and F = F and n = n] assms(6) by (simp_all del: funpow.simps)
  ultimately show ?thesis using s' by (auto simp del: funpow.simps forX.simps replicate_Suc)
qed


theorem metronome_rounds_witness:
  "\<exists>s' e'. forX (replicate (Suc 31) ()) (\<lambda>_. metronome_round ex_F (ret ()))
      ((Store_init :: ex_player Store)\<lparr>s_engine := Some ((Engine_init ex_F)
         \<lparr>metronomeThreadObj := metronome_start metronome_new, beatCallback := True\<rparr>)\<rparr>) = (Inr (), s') \<and>
    s_engine s' = Some e' \<and> unat (beatCount (metronomeThreadObj e')) = 1 \<and>
    unat (beatsCounter (s_ep s')) = 32 \<and> triggeringBeat (s_ep s')"
  using metronome_rounds [where n = 31 and F = ex_F and callback = "ret ()" and
      e = "(Engine_init ex_F)\<lparr>metronomeThreadObj := metronome_start metronome_new, beatCallback := True\<rparr>"
      and s = "(Store_init :: ex_player Store)\<lparr>s_engine := Some ((Engine_init ex_F)
         \<lparr>metronomeThreadObj := metronome_start metronome_new, beatCallback := True\<rparr>)\<rparr>"]
  by (simp add: harmless_def metronome_start_def Store_init_def EngineProperties_init_def
      del: forX.simps replicate_Suc)

text \<open>
  C30. On a new engine the first round of the metronome calls a function pointer that was never
  set; once a callback is registered the round completes.
\<close>

theorem metronome_needs_callback:
  assumes "s_engine s = None"
  shows "fst (thenX (Engine_new F V) (thenX (startMetronome F) (metronome_round F callback)) s) =
      Inl (UB UninitialisedRead) \<and>
    fst (thenX (Engine_new F V) (thenX registerAppBeatCallback (thenX (startMetronome F)
      (metronome_round F (ret ())))) s) = Inr ()"
  using Engine_new_run [OF assms, of F V]
  by (simp add: startMetronome_def registerAppBeatCallback_def metronome_round_run Let_def
      metronome_start_def Engine_init_def)

theorem metronome_needs_callback_witness:
  "fst (thenX (Engine_new ex_F ex_V) (thenX (startMetronome ex_F) (metronome_round ex_F (ret ())))
      Store_init) = Inl (UB UninitialisedRead)"
  using metronome_needs_callback [of "Store_init :: ex_player Store" ex_F ex_V "ret ()"]
  by (simp add: Store_init_def)

lemma setBPM_run:
  assumes "s_engine s = Some e"
  shows "Engine_setBPM n s =
    (let on = unat (BPM (metronomeThreadObj e)) mod 256 \<noteq> 0;
         m = metronomeThreadObj e;
         m = (if on then metronome_stop m else m) in
     if n = 0 then (Inl (UB DivisionByZero), s\<lparr>s_engine := Some (e\<lparr>metronomeThreadObj := m\<lparr>BPM := 0\<rparr>\<rparr>)\<rparr>)
     else (Inr (), s\<lparr>s_engine := Some (e\<lparr>metronomeThreadObj :=
        (let m = m\<lparr>BPM := n, beatDuration := 60000 div n\<rparr> in if on then metronome_start m else m)\<rparr>)\<rparr>))"
  using assms
  by (auto simp: Engine_setBPM_def bindX_def thenX_def metronome_setBPM_def Let_def whenX_def)

text \<open>
  \<open>Engine::setBPM\<close> stores the tempo and the length of a beat; zero is a division by zero. It
  also starts the metronome thread when it was stopped, unless the old tempo was a multiple of
  256: the old tempo is what it takes for the switch.
\<close>

theorem setBPM_outcome:
  assumes "s_engine s = Some e"
  shows "if n = 0 then fst (Engine_setBPM n s) = Inl (UB DivisionByZero)
    else \<exists>e'. Engine_setBPM n s = (Inr (), s\<lparr>s_engine := Some e'\<rparr>) \<and>
      BPM (metronomeThreadObj e') = n \<and> beatDuration (metronomeThreadObj e') = 60000 div n \<and>
      (threadRunning (metronomeThreadObj e') \<longleftrightarrow>
        threadRunning (metronomeThreadObj e) \<or> unat (BPM (metronomeThreadObj e)) mod 256 \<noteq> 0)"
proof (cases "n = 0")
  case False
  let ?run = "\<lambda>m. if unat (BPM m) mod 256 \<noteq> 0 then True else threadRunning m"
  let ?m = "metronomeThreadObj e"
  have "Engine_setBPM n s = (Inr (), s\<lparr>s_engine := Some (e\<lparr>metronomeThreadObj :=
      ?m\<lparr>BPM := n, beatDuration := 60000 div n, threadRunning := ?run ?m\<rparr>\<rparr>)\<rparr>)"
    using False unfolding setBPM_run [OF assms]
    by (simp add: Let_def metronome_start_def metronome_stop_def)
  with False show ?thesis by (auto intro!: exI)
qed (simp add: setBPM_run [OF assms] Let_def)

theorem setBPM_outcome_witness:
  "\<exists>e'. Engine_setBPM 90 ((Store_init :: ex_player Store)\<lparr>s_engine := Some (Engine_init ex_F)\<rparr>) =
     (Inr (), Store_init\<lparr>s_engine := Some e'\<rparr>) \<and> threadRunning (metronomeThreadObj e') \<and>
     \<not> threadRunning (metronomeThreadObj (Engine_init ex_F))"
  using setBPM_outcome [of "(Store_init :: ex_player Store)\<lparr>s_engine := Some (Engine_init ex_F)\<rparr>"
      "Engine_init ex_F" 90]
  by (auto simp: Engine_init_def)


end
