(* ===== verification/Messages.thy ===== *)
theory Messages
  imports EnginePlay
begin

text \<open>
  \<open>Apps/Server/Messages\<close>: a JSON request of a client becomes an operation of the engine and its
  result a JSON response.
\<close>

section \<open>Requests\<close>

definition setLayerControl ::
  "of_api \<Rightarrow> 'j json_api \<Rightarrow> 'j \<Rightarrow> ('v Store, 'j) cxx" where
  "setLayerControl F J data =
     bindX (liftR (bindR (j_at J data ''name'') (j_get_string J))) (\<lambda>controlName.
     bindX (liftR (bindR (j_at J data ''value'') (j_get_string J))) (\<lambda>text.
     let value = ofToFloat F text in
     bindX (liftR (bindR (j_at J data ''layer'') (j_get_int J))) (\<lambda>n.
     bindX (getS (\<lambda>s. Layers_get s n)) (\<lambda>layer.
     case layer of
       None \<Rightarrow> throw (UB NullDeref)
     | Some k \<Rightarrow>
         thenX (Layer_setState F J (j_obj J [(controlName, j_float J value)]) k) (
         bindX (getL k) (\<lambda>l.
         bindX (liftR (Layer_getState J l)) (\<lambda>newState.
         bindX (liftR (bindR (j_at J newState ''alpha'') (j_get_float J))) (\<lambda>alpha.
         ret (j_obj J [(''result'', j_bool J (value = alpha))])))))))))"

primrec updateLayers_loop ::
  "of_api \<Rightarrow> 'j json_api \<Rightarrow> uint \<Rightarrow> 'j \<Rightarrow> 'j list \<Rightarrow> ('v Store, 'j) cxx" where
  "updateLayers_loop F J currentLayerIndex result [] = ret result"
| "updateLayers_loop F J currentLayerIndex result (layer # layers) =
     bindX (getS (\<lambda>s. Layers_get s currentLayerIndex)) (\<lambda>currentLayer.
     case currentLayer of
       None \<Rightarrow> throw (UB NullDeref)
     | Some k \<Rightarrow>
         thenX (Layer_setState F J layer k) (
         updateLayers_loop F J (currentLayerIndex + 1) (j_push J result (j_null J)) layers))"

definition updateLayers :: "of_api \<Rightarrow> 'j json_api \<Rightarrow> 'j \<Rightarrow> ('v Store, 'j) cxx" where
  "updateLayers F J layerData = updateLayers_loop F J 0 (j_null J) (j_items J layerData)"

text \<open>The answer of \<open>updateLayers\<close> is stored and then overwritten.\<close>

definition updateState :: "of_api \<Rightarrow> 'j json_api \<Rightarrow> 'j \<Rightarrow> ('v Store, 'j) cxx" where
  "updateState F J data =
     bindX (liftR (j_at J data ''layers'')) (\<lambda>layers.
     bindX (updateLayers F J layers) (\<lambda>_.
     ret (j_obj J [(''result'', j_bool J True)])))"

definition handleSetState ::
  "of_api \<Rightarrow> 'j json_api \<Rightarrow> 'v player_api \<Rightarrow> 'j \<Rightarrow> ('v Store, 'j) cxx" where
  "handleSetState F J V request =
     bindX (liftR (j_at J request ''data'')) (\<lambda>data.
     if \<not> is_object J data then throw (StdException ''No data sent for state change.'') else
     thenX (bindX (getE (\<lambda>_. ())) (\<lambda>_. Engine_setState F J V data)) (
     ret (j_null J)))"

definition initial_response :: "'j json_api \<Rightarrow> 'j" where
  "initial_response J =
     j_obj J [(''success'', j_bool J True), (''message'', j_string J []), (''data'', j_braces J)]"

text \<open>\<open>response["data"] = m\<close>\<close>

definition respond :: "'j json_api \<Rightarrow> ('v Store, 'j) cxx \<Rightarrow> ('v Store, 'j) cxx" where
  "respond J m = bindX m (\<lambda>d. ret (j_set J (initial_response J) ''data'' d))"

definition handleJSONRequestForClient ::
  "of_api \<Rightarrow> 'j json_api \<Rightarrow> 'v player_api \<Rightarrow> 'j \<Rightarrow> ('v Store, 'j) cxx" where
  "handleJSONRequestForClient F J V request =
     bindX (liftR (j_at J request ''action'')) (\<lambda>action.
     if \<not> is_string J action then throw (StdException ''No action defined'') else
     bindX (liftR (j_get_string J action)) (\<lambda>name.
     let h = str2int name in
     if h = str2int ''ping'' then
       ret (j_set J (initial_response J) ''message'' (j_string J ''pong''))
     else if h = str2int ''getState'' then
       respond J (bindX (getE (\<lambda>_. ())) (\<lambda>_. Engine_getState F J))
     else if h = str2int ''setState'' then respond J (handleSetState F J V request)
     else if h = str2int ''getFullState'' then
       respond J (bindX (getE (\<lambda>_. ())) (\<lambda>_. Engine_getFullState F J))
     else if h = str2int ''setLayerControl'' then
       bindX (liftR (j_at J request ''data'')) (setLayerControl F J)
     else if h = str2int ''updateState'' then
       respond J (bindX (liftR (j_at J request ''data'')) (updateState F J))
     else throw (ThrowPointer ''Action not supported'')))"

section \<open>Layers updated one after the other\<close>

text \<open>
  A layer after one state has been applied to it, as far as the state could be applied, and
  whether applying it came to its end.
\<close>

definition restored :: "of_api \<Rightarrow> 'j json_api \<Rightarrow> Layer \<Rightarrow> 'j \<Rightarrow> Layer" where
  "restored F J l state =
     l\<lparr>l_properties := snd (LayerProperties_setState F J state (l_properties l))\<rparr>"

definition accepts :: "of_api \<Rightarrow> 'j json_api \<Rightarrow> Layer \<Rightarrow> 'j \<Rightarrow> bool" where
  "accepts F J l state \<longleftrightarrow> \<not> isl (fst (LayerProperties_setState F J state (l_properties l)))"

definition rejection :: "of_api \<Rightarrow> 'j json_api \<Rightarrow> Layer \<Rightarrow> 'j \<Rightarrow> exn" where
  "rejection F J l state = projl (fst (LayerProperties_setState F J state (l_properties l)))"

text \<open>How many states of the request are applied to the end, one per layer.\<close>

definition accepted :: "of_api \<Rightarrow> 'j json_api \<Rightarrow> Layer list \<Rightarrow> 'j list \<Rightarrow> nat" where
  "accepted F J ls xs = length (takeWhile (\<lambda>(l, x). accepts F J l x) (zip ls xs))"

lemma accepted_simps [simp]:
  "accepted F J ls [] = 0" "accepted F J [] xs = 0"
  "accepted F J (l # ls) (x # xs) = (if accepts F J l x then Suc (accepted F J ls xs) else 0)"
  by (simp_all add: accepted_def)

lemma Layer_setState_run:
  assumes "k < length (s_layers s)"
  shows "Layer_setState F J state k s =
    (if accepts F J (s_layers s ! k) state then Inr () else Inl (rejection F J (s_layers s ! k) state),
     s\<lparr>s_layers := (s_layers s)[k := restored F J (s_layers s ! k) state]\<rparr>)"
proof -
  obtain r p where "LayerProperties_setState F J state (l_properties (s_layers s ! k)) = (r, p)"
    by fastforce
  with assms show ?thesis
    by (cases r) (simp_all add: Layer_setState_def accepts_def restored_def rejection_def)
qed

text \<open>What the loop over the states leaves of the layers, and what it returns.\<close>

definition updated :: "of_api \<Rightarrow> 'j json_api \<Rightarrow> Layer list \<Rightarrow> 'j list \<Rightarrow> Layer list" where
  "updated F J ls xs =
     (let tried = take (Suc (accepted F J ls xs)) xs
      in map2 (restored F J) ls tried @ drop (length tried) ls)"

definition update_result :: "of_api \<Rightarrow> 'j json_api \<Rightarrow> Layer list \<Rightarrow> 'j list \<Rightarrow> 'a \<Rightarrow> 'a res" where
  "update_result F J ls xs r =
     (let i = accepted F J ls xs in
      if i = length xs then Inr r
      else if i = length ls then Inl (UB NullDeref)
      else Inl (rejection F J (ls ! i) (xs ! i)))"

lemma updated_simps [simp]:
  "updated F J ls [] = ls" "updated F J [] xs = []"
  "updated F J (l # ls) (x # xs) =
     restored F J l x # (if accepts F J l x then updated F J ls xs else ls)"
  by (simp_all add: updated_def)

lemma update_result_simps [simp]:
  "update_result F J ls [] r = Inr r" "update_result F J [] (x # xs) r = Inl (UB NullDeref)"
  "update_result F J (l # ls) (x # xs) r =
     (if accepts F J l x then update_result F J ls xs r else Inl (rejection F J l x))"
  by (simp_all add: update_result_def Let_def)

lemma updateLayers_loop_run:
  assumes "s_layers s = pre @ ls" "length (pre @ ls) < 2 ^ 32"
  shows "\<exists>r. updateLayers_loop F J (of_nat (length pre)) result xs s =
    (update_result F J ls xs r, s\<lparr>s_layers := pre @ updated F J ls xs\<rparr>)"
  using assms
proof (induction xs arbitrary: pre ls result s)
  case Nil
  then show ?case by simp
next
  case (Cons x xs)
  have n: "unat (of_nat (length pre) :: uint) = length pre"
    using Cons.prems(2) by (simp add: unat_of_nat)
  show ?case
  proof (cases ls)
    case Nil
    with Cons.prems(1) n have "Layers_get s (of_nat (length pre)) = None" by (simp add: Layers_get_def)
    with Nil Cons.prems(1) show ?thesis by simp
  next
    case (Cons l ls')
    let ?s = "s\<lparr>s_layers := (pre @ [restored F J l x]) @ ls'\<rparr>"
    have k: "length pre < length (s_layers s)" "s_layers s ! length pre = l"
      using Cons Cons.prems(1) by simp_all
    have g: "Layers_get s (of_nat (length pre)) = Some (length pre)"
      using k n by (simp add: Layers_get_def)
    have st: "Layer_setState F J x (length pre) s =
        (if accepts F J l x then Inr () else Inl (rejection F J l x), ?s)"
      using Layer_setState_run [OF k(1), of F J x] k(2) Cons Cons.prems(1) by simp
    have e: "(of_nat (length pre) :: uint) + 1 = of_nat (length (pre @ [restored F J l x]))" by simp
    have "\<exists>r. updateLayers_loop F J (of_nat (length pre) + 1) (j_push J result (j_null J)) xs ?s =
      (update_result F J ls' xs r, ?s\<lparr>s_layers := (pre @ [restored F J l x]) @ updated F J ls' xs\<rparr>)"
      unfolding e by (rule Cons.IH) (use Cons Cons.prems(2) in simp_all)
    then show ?thesis using g st Cons by (auto simp: bindX_def thenX_def)
  qed
qed

text \<open>
  C17. \<open>updateState\<close> applies the states of the request to the layers in order and answers true when
  each of them could be applied and there were layers for all of them. When there are more states
  than layers it dereferences a null pointer, after having changed every layer. When a state cannot
  be applied it throws what \<open>LayerProperties::setState\<close> threw; then the layers before it have their
  states, its own layer the part set before the exception, and the later layers are unchanged.
\<close>

theorem updateState_outcome:
  fixes s :: "'v Store"
  assumes "j_at J data ''layers'' = Inr layers" "xs = j_items J layers" "length (s_layers s) < 2 ^ 32"
    and "i = accepted F J (s_layers s) xs" "tried = take (Suc i) xs"
  shows "updateState F J data s =
    (if i = length xs then Inr (j_obj J [(''result'', j_bool J True)])
     else if i = length (s_layers s) then Inl (UB NullDeref)
     else Inl (rejection F J (s_layers s ! i) (xs ! i)),
     s\<lparr>s_layers := map2 (restored F J) (s_layers s) tried @ drop (length tried) (s_layers s)\<rparr>)"
proof -
  obtain r where "updateLayers F J layers s =
      (update_result F J (s_layers s) xs r, s\<lparr>s_layers := updated F J (s_layers s) xs\<rparr>)"
    using updateLayers_loop_run [of s "[]" "s_layers s" F J "j_null J" xs] assms(2,3)
    by (auto simp: updateLayers_def)
  with assms(1,4,5) show ?thesis
    by (simp add: updateState_def bindX_def update_result_def updated_def Let_def)
qed

text \<open>Three states, of which the second sets the horizontal blur and then fails on a red out of range.\<close>

definition ex_states :: "jval list" where
  "ex_states = [JObj [(''alpha'', JFloat (1/2))], JObj [(''blurH'', JInt 3), (''red'', JFloat 3000000000)],
     JObj [(''alpha'', JFloat (1/4))]]"

lemma round_out_of_range: "roundWithPrecision 3000000000 2 = Inl (UB FloatConversion)"
proof -
  have "std_round 300000000000 = of_int 300000000000" by (simp add: std_round_def)
  then have "float_to_int (std_round 300000000000) = Inl (UB FloatConversion)"
    unfolding float_to_int_def trunc_real_of_int by (simp only: trunc_real_of_int Let_def) simp
  then show ?thesis by (simp add: roundWithPrecision_2)
qed

lemma ex_states_run:
  "LayerProperties_setState ex_F ex_J (JObj [(''alpha'', JFloat a)]) p = (Inr (), setAlpha ex_F a p)"
  "LayerProperties_setState ex_F ex_J (JObj [(''blurH'', JInt 3), (''red'', JFloat 3000000000)]) p =
     (Inl (UB FloatConversion), setBlurH ex_F 3 p)"
  by (simp_all add: LayerProperties_setState_def whenNumber_def rounded2_def round_out_of_range)

lemma ex_accepted:
  "accepts ex_F ex_J l (JObj [(''alpha'', JFloat a)])"
  "\<not> accepts ex_F ex_J l (JObj [(''blurH'', JInt 3), (''red'', JFloat 3000000000)])"
  by (simp_all add: accepts_def ex_states_run)

theorem updateState_outcome_witness:
  "updateState ex_F ex_J (JObj [(''layers'', JArr ex_states)]) (ex_layers 3) =
     (Inl (UB FloatConversion), (ex_layers 3)\<lparr>s_layers :=
        (s_layers (ex_layers 3))[0 := (s_layers (ex_layers 3) ! 0)\<lparr>l_properties := setAlpha ex_F (1/2) ex_layer_properties\<rparr>,
          1 := (s_layers (ex_layers 3) ! 1)\<lparr>l_properties := setBlurH ex_F 3 ex_layer_properties\<rparr>]\<rparr>) \<and>
   updateState ex_F ex_J (JObj [(''layers'', JArr [ex_states ! 0, ex_states ! 2])]) (ex_layers 1) =
     (Inl (UB NullDeref), (ex_layers 1)\<lparr>s_layers :=
        [(s_layers (ex_layers 1) ! 0)\<lparr>l_properties := setAlpha ex_F (1/2) ex_layer_properties\<rparr>]\<rparr>) \<and>
   updateState ex_F ex_J (JObj [(''layers'', JArr [ex_states ! 0])]) (ex_layers 1) =
     (Inr (JObj [(''result'', JBool True)]), (ex_layers 1)\<lparr>s_layers :=
        [(s_layers (ex_layers 1) ! 0)\<lparr>l_properties := setAlpha ex_F (1/2) ex_layer_properties\<rparr>]\<rparr>)"
proof (intro conjI)
  show "updateState ex_F ex_J (JObj [(''layers'', JArr ex_states)]) (ex_layers 3) =
     (Inl (UB FloatConversion), (ex_layers 3)\<lparr>s_layers :=
        (s_layers (ex_layers 3))[0 := (s_layers (ex_layers 3) ! 0)\<lparr>l_properties := setAlpha ex_F (1/2) ex_layer_properties\<rparr>,
          1 := (s_layers (ex_layers 3) ! 1)\<lparr>l_properties := setBlurH ex_F 3 ex_layer_properties\<rparr>]\<rparr>)"
    by (subst updateState_outcome [of ex_J "JObj [(''layers'', JArr ex_states)]" "JArr ex_states" ex_states
      "ex_layers 3" 1 ex_F "take 2 ex_states"])
      (simp_all add: ex_layers_def ex_states_def ex_accepted restored_def rejection_def ex_states_run
      numeral_3_eq_3)
  show "updateState ex_F ex_J (JObj [(''layers'', JArr [ex_states ! 0, ex_states ! 2])]) (ex_layers 1) =
     (Inl (UB NullDeref), (ex_layers 1)\<lparr>s_layers :=
        [(s_layers (ex_layers 1) ! 0)\<lparr>l_properties := setAlpha ex_F (1/2) ex_layer_properties\<rparr>]\<rparr>)"
    by (subst updateState_outcome [of ex_J "JObj [(''layers'', JArr [ex_states ! 0, ex_states ! 2])]"
      "JArr [ex_states ! 0, ex_states ! 2]" "[ex_states ! 0, ex_states ! 2]" "ex_layers 1" 1 ex_F
      "[ex_states ! 0, ex_states ! 2]"])
      (simp_all add: ex_layers_def ex_states_def ex_accepted restored_def ex_states_run)
  show "updateState ex_F ex_J (JObj [(''layers'', JArr [ex_states ! 0])]) (ex_layers 1) =
     (Inr (JObj [(''result'', JBool True)]), (ex_layers 1)\<lparr>s_layers :=
        [(s_layers (ex_layers 1) ! 0)\<lparr>l_properties := setAlpha ex_F (1/2) ex_layer_properties\<rparr>]\<rparr>)"
    by (subst updateState_outcome [of ex_J "JObj [(''layers'', JArr [ex_states ! 0])]"
      "JArr [ex_states ! 0]" "[ex_states ! 0]" "ex_layers 1" 1 ex_F "[ex_states ! 0]"])
      (simp_all add: ex_layers_def ex_states_def ex_accepted restored_def ex_states_run)
qed

end
