(* ===== verification/TcpManager.thy ===== *)
theory TcpManager
  imports Prelude
begin

text \<open>
  \<open>ofxNetwork/ofxTCPManager\<close>: one socket, in the variant that is compiled outside Windows. The
  kernel is a parameter: a record of the system calls the class makes, each a function on the
  state of the kernel. What a call is documented to do is stated in \<open>kernel_doc\<close>, below.
  \<open>ofxNetworkCheckError\<close> logs and returns \<open>errno\<close>.
\<close>

section \<open>The kernel\<close>

datatype errno =
    EBADF | ECONNRESET | ECONNABORTED | ECONNREFUSED | EPIPE | ENOTCONN | ENOTSOCK
  | EWOULDBLOCK | EINPROGRESS | EOther int

text \<open>
  A call returns its value and the new state; the calls that read data also return the bytes,
  \<open>sys_so_error\<close> the pending error and \<open>sys_getpeername\<close> the port and the address of the peer.
  The two numbers of a \<open>select\<close> are its timeout; \<open>sys_select_none\<close> is a \<open>select\<close> that watches
  no descriptor at all (its first argument is zero).
\<close>

record 'o os_api =
  sys_socket :: "'o \<Rightarrow> int \<times> 'o"
  sys_shutdown :: "int \<Rightarrow> 'o \<Rightarrow> int \<times> 'o"
  sys_close :: "int \<Rightarrow> 'o \<Rightarrow> int \<times> 'o"
  sys_reuseaddr :: "int \<Rightarrow> 'o \<Rightarrow> int \<times> 'o"
  sys_bind :: "int \<Rightarrow> 16 word \<Rightarrow> 'o \<Rightarrow> int \<times> 'o"
  sys_listen :: "int \<Rightarrow> int \<Rightarrow> 'o \<Rightarrow> int \<times> 'o"
  sys_accept :: "int \<Rightarrow> 'o \<Rightarrow> int \<times> 'o"
  sys_gethostbyname :: "string \<Rightarrow> 'o \<Rightarrow> string option \<times> 'o"
  sys_connect :: "int \<Rightarrow> string \<Rightarrow> 16 word \<Rightarrow> 'o \<Rightarrow> int \<times> 'o"
  sys_so_error :: "int \<Rightarrow> 'o \<Rightarrow> (int \<times> int) \<times> 'o"
  sys_select_none :: "int \<Rightarrow> int \<Rightarrow> 'o \<Rightarrow> int \<times> 'o"
  sys_select_read :: "int \<Rightarrow> int \<Rightarrow> int \<Rightarrow> 'o \<Rightarrow> int \<times> 'o"
  sys_select_write :: "int \<Rightarrow> int \<Rightarrow> int \<Rightarrow> 'o \<Rightarrow> int \<times> 'o"
  sys_send :: "int \<Rightarrow> string \<Rightarrow> 'o \<Rightarrow> int \<times> 'o"
  sys_recv :: "int \<Rightarrow> nat \<Rightarrow> 'o \<Rightarrow> (int \<times> string) \<times> 'o"
  sys_peek :: "int \<Rightarrow> nat \<Rightarrow> 'o \<Rightarrow> (int \<times> string) \<times> 'o"
  sys_set_nonblock :: "int \<Rightarrow> bool \<Rightarrow> 'o \<Rightarrow> int \<times> 'o"
  sys_rcvtimeo :: "int \<Rightarrow> int \<Rightarrow> 'o \<Rightarrow> int \<times> 'o"
  sys_getpeername :: "int \<Rightarrow> 'o \<Rightarrow> (sint32 \<times> string) option \<times> 'o"
  sys_micros :: "'o \<Rightarrow> ulonglong \<times> 'o"
  sys_errno :: "'o \<Rightarrow> errno"

section \<open>The object\<close>

definition INVALID_SOCKET :: int where
  "INVALID_SOCKET = -1"

definition SOCKET_ERROR :: int where
  "SOCKET_ERROR = -1"

definition SOCKET_TIMEOUT :: int where
  "SOCKET_TIMEOUT = SOCKET_ERROR - 1"

definition NO_TIMEOUT :: ulonglong where
  "NO_TIMEOUT = 0xFFFF"

record ofxTCPManager =
  m_iListenPort :: int
  m_iMaxConnections :: int
  m_hSocket :: int
  m_dwTimeoutConnect :: ulonglong
  m_dwTimeoutSend :: ulonglong
  m_dwTimeoutReceive :: ulonglong
  m_dwTimeoutAccept :: ulonglong
  nonBlocking :: bool
  m_closing :: bool

definition ofxTCPManager_new :: ofxTCPManager where
  "ofxTCPManager_new =
     \<lparr>m_iListenPort = -1, m_iMaxConnections = 100, m_hSocket = INVALID_SOCKET,
      m_dwTimeoutConnect = 5, m_dwTimeoutSend = NO_TIMEOUT, m_dwTimeoutReceive = NO_TIMEOUT,
      m_dwTimeoutAccept = NO_TIMEOUT, nonBlocking = False, m_closing = False\<rparr>"

text \<open>The state of a member function: the object and the kernel.\<close>

type_synonym 'o sock = "ofxTCPManager \<times> 'o"

definition getM :: "('m \<Rightarrow> 'a) \<Rightarrow> ('m \<times> 'o, 'a) cxx" where
  "getM f = (\<lambda>s. (Inr (f (fst s)), s))"

definition modM :: "('m \<Rightarrow> 'm) \<Rightarrow> ('m \<times> 'o, unit) cxx" where
  "modM f = (\<lambda>s. (Inr (), (f (fst s), snd s)))"

definition sys :: "('o \<Rightarrow> 'a \<times> 'o) \<Rightarrow> ('m \<times> 'o, 'a) cxx" where
  "sys f = (\<lambda>s. case f (snd s) of (a, k) \<Rightarrow> (Inr a, (fst s, k)))"

definition checkError :: "'o os_api \<Rightarrow> ('m \<times> 'o, errno) cxx" where
  "checkError K = (\<lambda>s. (Inr (sys_errno K (snd s)), s))"

lemma net_run [simp]:
  "getM f (m, k) = (Inr (f m), (m, k))" "modM g (m, k) = (Inr (), (g m, k))"
  "sys h (m, k) = (Inr (fst (h k)), (m, snd (h k)))"
  "checkError K (m, k) = (Inr (sys_errno K k), (m, k))"
  by (simp_all add: getM_def modM_def sys_def checkError_def split: prod.split)

lemma net_bind [simp]:
  "bindX (getM f) g (m, k) = g (f m) (m, k)" "thenX (modM u) n (m, k) = n (u m, k)"
  "bindX (sys h) g (m, k) = g (fst (h k)) (m, snd (h k))"
  "bindX (checkError K) e (m, k) = e (sys_errno K k) (m, k)"
  by (simp_all add: bindX_def)

section \<open>Opening and closing\<close>

definition Mgr_Close :: "'o os_api \<Rightarrow> ('o sock, bool) cxx" where
  "Mgr_Close K =
     bindX (getM m_hSocket) (\<lambda>h.
     if h = INVALID_SOCKET then ret True else
     thenX (modM (\<lambda>m. m\<lparr>m_closing := True\<rparr>)) (
     bindX (sys (sys_shutdown K h)) (\<lambda>_.
     bindX (sys (sys_close K h)) (\<lambda>r.
     bindX (if r = SOCKET_ERROR then bindX (checkError K) (\<lambda>e. ret (e = ENOTSOCK)) else ret True)
       (\<lambda>go.
     if \<not> go then ret False
     else thenX (modM (\<lambda>m. m\<lparr>m_hSocket := INVALID_SOCKET\<rparr>)) (ret True))))))"

definition ofxTCPManager_delete :: "'o os_api \<Rightarrow> ('o sock, unit) cxx" where
  "ofxTCPManager_delete K =
     bindX (getM m_hSocket) (\<lambda>h.
     if h \<noteq> 0 \<and> h \<noteq> INVALID_SOCKET then bindX (Mgr_Close K) (\<lambda>_. ret ()) else ret ())"

definition Mgr_Create :: "'o os_api \<Rightarrow> ('o sock, bool) cxx" where
  "Mgr_Create K =
     bindX (getM m_hSocket) (\<lambda>h.
     if h \<noteq> INVALID_SOCKET then ret False else
     thenX (modM (\<lambda>m. m\<lparr>m_closing := False\<rparr>)) (
     bindX (sys (sys_socket K)) (\<lambda>h.
     thenX (modM (\<lambda>m. m\<lparr>m_hSocket := h\<rparr>)) (ret (h \<noteq> INVALID_SOCKET)))))"

definition Mgr_Listen :: "'o os_api \<Rightarrow> int \<Rightarrow> ('o sock, bool) cxx" where
  "Mgr_Listen K iMaxConnections =
     bindX (getM m_hSocket) (\<lambda>h.
     if h = INVALID_SOCKET then ret False else
     thenX (modM (\<lambda>m. m\<lparr>m_iMaxConnections := iMaxConnections\<rparr>)) (
     bindX (sys (sys_listen K h iMaxConnections)) (\<lambda>r. ret (r \<noteq> SOCKET_ERROR))))"

definition Mgr_Bind :: "'o os_api \<Rightarrow> 16 word \<Rightarrow> bool \<Rightarrow> ('o sock, bool) cxx" where
  "Mgr_Bind K usPort bReuse =
     bindX (getM m_hSocket) (\<lambda>h.
     bindX (if bReuse then bindX (sys (sys_reuseaddr K h)) (\<lambda>r. ret (\<not> r < 0)) else ret True) (\<lambda>ok.
     if \<not> ok then ret False
     else bindX (sys (sys_bind K h usPort)) (\<lambda>r. ret (r = 0))))"

text \<open>The object of the new connection only receives the handle, which is returned here.\<close>

definition Mgr_Accept :: "'o os_api \<Rightarrow> ('o sock, int option) cxx" where
  "Mgr_Accept K =
     bindX (getM m_hSocket) (\<lambda>h.
     if h = INVALID_SOCKET then ret None else
     bindX (getM m_dwTimeoutAccept) (\<lambda>t.
     bindX (if t \<noteq> NO_TIMEOUT
            then bindX (sys (sys_select_none K (uint t) 0)) (\<lambda>r. ret (r \<noteq> 0)) else ret True) (\<lambda>go.
     if \<not> go then ret None
     else bindX (sys (sys_accept K h)) (\<lambda>c. ret (if c = INVALID_SOCKET then None else Some c)))))"

definition WaitReceive :: "'o os_api \<Rightarrow> int \<Rightarrow> int \<Rightarrow> ('o sock, int) cxx" where
  "WaitReceive K secs micros =
     bindX (getM m_hSocket) (\<lambda>h.
     if h = INVALID_SOCKET then ret SOCKET_ERROR else
     bindX (sys (sys_select_read K h secs micros)) (\<lambda>r.
     ret (if r = 0 then SOCKET_TIMEOUT else if r < 0 then SOCKET_ERROR else 0)))"

definition WaitSend :: "'o os_api \<Rightarrow> int \<Rightarrow> int \<Rightarrow> ('o sock, int) cxx" where
  "WaitSend K secs micros =
     bindX (getM m_hSocket) (\<lambda>h.
     if h = INVALID_SOCKET then ret SOCKET_ERROR else
     bindX (sys (sys_select_write K h secs micros)) (\<lambda>r.
     ret (if r = 0 then SOCKET_TIMEOUT else if r < 0 then SOCKET_ERROR else 0)))"

definition SetNonBlocking :: "'o os_api \<Rightarrow> bool \<Rightarrow> ('o sock, bool) cxx" where
  "SetNonBlocking K b =
     bindX (getM nonBlocking) (\<lambda>prev.
     bindX (getM m_hSocket) (\<lambda>h.
     thenX (modM (\<lambda>m. m\<lparr>nonBlocking := b\<rparr>)) (
     bindX (sys (sys_set_nonblock K h b)) (\<lambda>r.
     if r \<ge> 0 then ret True
     else thenX (modM (\<lambda>m. m\<lparr>nonBlocking := prev\<rparr>)) (ret False)))))"

text \<open>The peek that decides whether the peer has closed, in a blocking socket with a timeout.\<close>

definition CheckIsConnected :: "'o os_api \<Rightarrow> ('o sock, bool) cxx" where
  "CheckIsConnected K =
     bindX (getM nonBlocking) (\<lambda>wasBlocking.
     bindX (SetNonBlocking K False) (\<lambda>_.
     bindX (getM m_hSocket) (\<lambda>h.
     bindX (sys (sys_rcvtimeo K h 1)) (\<lambda>r.
     if r < 0 then ret True else
     bindX (sys (sys_peek K h 1)) (\<lambda>p.
     bindX (SetNonBlocking K wasBlocking) (\<lambda>_.
     bindX (sys (sys_rcvtimeo K h 0)) (\<lambda>_.
     ret (fst p \<noteq> 0))))))))"

definition Mgr_Connect :: "'o os_api \<Rightarrow> string \<Rightarrow> 16 word \<Rightarrow> ('o sock, bool) cxx" where
  "Mgr_Connect K pAddrStr usPort =
     bindX (getM m_hSocket) (\<lambda>h.
     if h = INVALID_SOCKET then ret False else
     bindX (sys (sys_gethostbyname K pAddrStr)) (\<lambda>he.
     case he of
       None \<Rightarrow> ret False
     | Some addr \<Rightarrow>
         bindX (getM nonBlocking) (\<lambda>wasBlocking.
         bindX (getM m_dwTimeoutConnect) (\<lambda>t.
         thenX (if t \<noteq> NO_TIMEOUT then bindX (SetNonBlocking K True) (\<lambda>_. ret ()) else ret ()) (
         bindX (sys (sys_connect K h addr usPort)) (\<lambda>r.
         bindX (checkError K) (\<lambda>err.
         bindX (if r < 0 \<and> (err = EINPROGRESS \<or> err = EWOULDBLOCK) \<and> t \<noteq> NO_TIMEOUT then
                  bindX (WaitSend K (uint t) 0) (\<lambda>w.
                  if w \<noteq> 0 then ret w
                  else bindX (sys (sys_so_error K h)) (\<lambda>e.
                       ret (if fst e < 0 \<or> snd e \<noteq> 0 then SOCKET_ERROR else w)))
                else ret r) (\<lambda>r.
         thenX (if t \<noteq> NO_TIMEOUT then bindX (SetNonBlocking K wasBlocking) (\<lambda>_. ret ()) else ret ()) (
         ret (r \<ge> 0))))))))))"

section \<open>Sending and receiving\<close>

definition Mgr_Send :: "'o os_api \<Rightarrow> string \<Rightarrow> ('o sock, int) cxx" where
  "Mgr_Send K pBuff =
     bindX (getM m_hSocket) (\<lambda>h.
     if h = INVALID_SOCKET then ret SOCKET_ERROR else
     bindX (getM m_dwTimeoutSend) (\<lambda>t.
     bindX (if t \<noteq> NO_TIMEOUT then WaitSend K (uint t) 0 else ret 0) (\<lambda>w.
     if w \<noteq> 0 then ret w else sys (sys_send K h pBuff))))"

definition Mgr_Receive :: "'o os_api \<Rightarrow> nat \<Rightarrow> ('o sock, int \<times> string) cxx" where
  "Mgr_Receive K iSize =
     bindX (getM m_hSocket) (\<lambda>h.
     if h = INVALID_SOCKET then ret (SOCKET_ERROR, []) else
     bindX (getM m_dwTimeoutReceive) (\<lambda>t.
     bindX (if t \<noteq> NO_TIMEOUT then WaitReceive K (uint t) 0 else ret 0) (\<lambda>w.
     if w \<noteq> 0 then ret (w, []) else sys (sys_recv K h iSize))))"

definition PeekReceive :: "'o os_api \<Rightarrow> nat \<Rightarrow> ('o sock, int \<times> string) cxx" where
  "PeekReceive K iSize =
     bindX (getM m_hSocket) (\<lambda>h.
     if h = INVALID_SOCKET then ret (SOCKET_ERROR, []) else
     bindX (getM m_dwTimeoutReceive) (\<lambda>t.
     bindX (if t \<noteq> NO_TIMEOUT then WaitReceive K (uint t) 0 else ret 0) (\<lambda>w.
     if w \<noteq> 0 then ret (w, []) else sys (sys_peek K h iSize))))"

text \<open>
  The loop of \<open>SendAll\<close>: what is left to send, the number of bytes sent so far, the time it
  began and the seconds and microseconds left. A kernel that keeps accepting nothing would
  keep it running, so the loop is a partial function.
\<close>

partial_function (option) SendAll_loop ::
  "'o os_api \<Rightarrow> ulonglong \<Rightarrow> ulonglong \<Rightarrow> string \<Rightarrow> int \<Rightarrow> int \<Rightarrow> int \<Rightarrow> 'o sock \<Rightarrow> (int \<times> 'o sock) option"
where
  "SendAll_loop K timestamp timeout left sent secs micros s =
     (if left = [] then Some (sent, s) else
      let w = (if timeout \<noteq> NO_TIMEOUT then WaitSend K secs micros s else (Inr 0, s)) in
      case w of
        (Inl e, s1) \<Rightarrow> Some (SOCKET_ERROR, s1)
      | (Inr r, s1) \<Rightarrow>
          if r \<noteq> 0 then Some (r, s1) else
          case sys_send K (m_hSocket (fst s1)) left (snd s1) of
            (n, k) \<Rightarrow>
              if n = SOCKET_ERROR then Some (SOCKET_ERROR, (fst s1, k)) else
              if timeout = NO_TIMEOUT then
                SendAll_loop K timestamp timeout (drop (nat n) left) (sent + n) secs micros (fst s1, k)
              else
                case sys_micros K k of
                  (now, k) \<Rightarrow>
                    let diff = now - timestamp;
                        timeFloat = real_of_int (uint timeout) - real_of_int (uint diff) / 1000000
                    in if timeout * 1000000 < diff then Some (SOCKET_TIMEOUT, (fst s1, k)) else
                       SendAll_loop K timestamp timeout (drop (nat n) left) (sent + n)
                         \<lfloor>timeFloat\<rfloor> \<lfloor>(timeFloat - real_of_int \<lfloor>timeFloat\<rfloor>) * 1000000\<rfloor> (fst s1, k))"

definition SendAll :: "'o os_api \<Rightarrow> string \<Rightarrow> ('o sock, int) cxx" where
  "SendAll K pBuff =
     bindX (getM m_hSocket) (\<lambda>h.
     if h = INVALID_SOCKET then ret SOCKET_ERROR else
     bindX (sys (sys_micros K)) (\<lambda>timestamp.
     bindX (getM m_dwTimeoutSend) (\<lambda>t.
     \<lambda>s. case SendAll_loop K timestamp t pBuff 0 (uint t) 0 s of
           None \<Rightarrow> (Inl NoReturn, s) | Some (n, s') \<Rightarrow> (Inr n, s'))))"

partial_function (option) Write_loop ::
  "'o os_api \<Rightarrow> string \<Rightarrow> int \<Rightarrow> 'o sock \<Rightarrow> (int \<times> 'o sock) option"
where
  "Write_loop K left iBytesSent s =
     (case Mgr_Send K left s of
        (Inl e, s1) \<Rightarrow> Some (SOCKET_ERROR, s1)
      | (Inr n, s1) \<Rightarrow>
          if n = SOCKET_ERROR then Some (SOCKET_ERROR, s1)
          else if n = SOCKET_TIMEOUT then Some (SOCKET_TIMEOUT, s1)
          else if drop (nat n) left = [] then Some (iBytesSent + n, s1)
          else Write_loop K (drop (nat n) left) (iBytesSent + n) s1)"

definition Mgr_Write :: "'o os_api \<Rightarrow> string \<Rightarrow> ('o sock, int) cxx" where
  "Mgr_Write K pBuff =
     (\<lambda>s. case Write_loop K pBuff 0 s of None \<Rightarrow> (Inl NoReturn, s) | Some (n, s') \<Rightarrow> (Inr n, s'))"

text \<open>
  The loop of \<open>ReceiveAll\<close>: the number of bytes still wanted and the bytes received. The time
  that has passed, in microseconds, is compared with the timeout in seconds, and the time left
  is computed from the timeout for sending.
\<close>

partial_function (option) ReceiveAll_loop ::
  "'o os_api \<Rightarrow> ulonglong \<Rightarrow> nat \<Rightarrow> string \<Rightarrow> int \<Rightarrow> int \<Rightarrow> 'o sock \<Rightarrow>
   ((int \<times> string) \<times> 'o sock) option"
where
  "ReceiveAll_loop K timestamp wanted got secs micros s =
     (let timeout = m_dwTimeoutReceive (fst s);
          w = (if timeout \<noteq> NO_TIMEOUT then WaitReceive K secs micros s else (Inr 0, s)) in
      case w of
        (Inl e, s1) \<Rightarrow> Some ((SOCKET_ERROR, got), s1)
      | (Inr r, s1) \<Rightarrow>
          if r \<noteq> 0 then Some ((r, got), s1) else
          case sys_recv K (m_hSocket (fst s1)) wanted (snd s1) of
            ((n, bytes), k) \<Rightarrow>
              if n = 0 \<and> wanted \<noteq> 0 then Some ((SOCKET_ERROR, got), (fst s1, k)) else
              if n < 0 then Some ((SOCKET_ERROR, got), (fst s1, k)) else
              let wanted' = wanted - nat n; got' = got @ bytes in
              if timeout = NO_TIMEOUT then
                if wanted' = 0 then Some ((int (length got'), got'), (fst s1, k))
                else ReceiveAll_loop K timestamp wanted' got' secs micros (fst s1, k)
              else
                case sys_micros K k of
                  (now, k) \<Rightarrow>
                    let diff = now - timestamp;
                        timeFloat = real_of_int (uint (m_dwTimeoutSend (fst s1))) -
                          real_of_int (uint diff) / 1000000
                    in if timeout < diff then Some ((SOCKET_TIMEOUT, got'), (fst s1, k)) else
                       if wanted' = 0 then Some ((int (length got'), got'), (fst s1, k)) else
                       ReceiveAll_loop K timestamp wanted' got'
                         \<lfloor>timeFloat\<rfloor> \<lfloor>(timeFloat - real_of_int \<lfloor>timeFloat\<rfloor>) * 1000000\<rfloor> (fst s1, k))"

definition ReceiveAll :: "'o os_api \<Rightarrow> nat \<Rightarrow> ('o sock, int \<times> string) cxx" where
  "ReceiveAll K iSize =
     bindX (getM m_hSocket) (\<lambda>h.
     if h = INVALID_SOCKET then ret (SOCKET_ERROR, []) else
     bindX (sys (sys_micros K)) (\<lambda>timestamp.
     bindX (getM m_dwTimeoutReceive) (\<lambda>t.
     \<lambda>s. case ReceiveAll_loop K timestamp iSize [] (uint t) 0 s of
           None \<Rightarrow> (Inl NoReturn, s) | Some (r, s') \<Rightarrow> (Inr r, s'))))"

definition GetRemoteAddr :: "'o os_api \<Rightarrow> ('o sock, (sint32 \<times> string) option) cxx" where
  "GetRemoteAddr K =
     bindX (getM m_hSocket) (\<lambda>h.
     if h = INVALID_SOCKET then ret None else sys (sys_getpeername K h))"

definition SetTimeoutSend :: "sint32 \<Rightarrow> ('o sock, unit) cxx" where
  "SetTimeoutSend t = modM (\<lambda>m. m\<lparr>m_dwTimeoutSend := scast t\<rparr>)"

definition SetTimeoutReceive :: "sint32 \<Rightarrow> ('o sock, unit) cxx" where
  "SetTimeoutReceive t = modM (\<lambda>m. m\<lparr>m_dwTimeoutReceive := scast t\<rparr>)"

definition SetTimeoutConnect :: "sint32 \<Rightarrow> ('o sock, unit) cxx" where
  "SetTimeoutConnect t = modM (\<lambda>m. m\<lparr>m_dwTimeoutConnect := scast t\<rparr>)"

definition SetTimeoutAccept :: "sint32 \<Rightarrow> ('o sock, unit) cxx" where
  "SetTimeoutAccept t = modM (\<lambda>m. m\<lparr>m_dwTimeoutAccept := scast t\<rparr>)"

section \<open>What the kernel is documented to do\<close>

text \<open>
  \<open>accepted h\<close> is the sequence of bytes the kernel has accepted for sending on the socket and
  \<open>pending h\<close> the sequence its peer has sent or will send and that has not been read, whether it has
  arrived or not. \<open>send\<close> fails and accepts nothing or accepts a non-empty beginning of what it is given;
  \<open>recv\<close> returns nothing (for now, because of an error or because the peer has closed) or takes a non-empty
  beginning. A peek takes nothing, and the \<open>recv\<close> that follows one with bytes returns bytes. The other
  calls the library makes on an open socket touch neither sequence.
\<close>

definition keeps :: "('o \<Rightarrow> 'b) \<Rightarrow> ('o \<Rightarrow> 'a \<times> 'o) \<Rightarrow> bool" where
  "keeps f call \<longleftrightarrow> (\<forall>k. f (snd (call k)) = f k)"

definition send_doc :: "'o os_api \<Rightarrow> (int \<Rightarrow> 'o \<Rightarrow> string) \<Rightarrow> bool" where
  "send_doc K accepted \<longleftrightarrow>
     (\<forall>h b k n k'. b \<noteq> [] \<and> sys_send K h b k = (n, k') \<longrightarrow>
        n = -1 \<and> accepted h k' = accepted h k \<or>
        1 \<le> n \<and> n \<le> int (length b) \<and> accepted h k' = accepted h k @ take (nat n) b)"

definition recv_doc :: "'o os_api \<Rightarrow> (int \<Rightarrow> 'o \<Rightarrow> string) \<Rightarrow> bool" where
  "recv_doc K pending \<longleftrightarrow>
     (\<forall>h m k n b k'. sys_recv K h m k = ((n, b), k') \<and> 0 < m \<longrightarrow>
        n \<le> 0 \<and> b = [] \<and> pending h k' = pending h k \<or>
        n = int (length b) \<and> b \<noteq> [] \<and> length b \<le> m \<and> pending h k = b @ pending h k') \<and>
     (\<forall>h m k n b k'. sys_peek K h m k = ((n, b), k') \<and> 0 < m \<longrightarrow>
        pending h k' = pending h k \<and>
        (0 < n \<longrightarrow> (\<forall>l. 0 < l \<longrightarrow> 0 < fst (fst (sys_recv K h l k')))))"

definition quiet :: "'o os_api \<Rightarrow> ('o \<Rightarrow> string) \<Rightarrow> bool" where
  "quiet K f \<longleftrightarrow>
     keeps f (sys_micros K) \<and>
     (\<forall>g a b. keeps f (sys_select_write K g a b)) \<and> (\<forall>g a b. keeps f (sys_select_read K g a b)) \<and>
     (\<forall>g a. keeps f (sys_set_nonblock K g a)) \<and> (\<forall>g a. keeps f (sys_rcvtimeo K g a)) \<and>
     (\<forall>g. keeps f (sys_shutdown K g)) \<and> (\<forall>g. keeps f (sys_close K g))"

definition quiet_doc :: "'o os_api \<Rightarrow> (int \<Rightarrow> 'o \<Rightarrow> string) \<Rightarrow> (int \<Rightarrow> 'o \<Rightarrow> string) \<Rightarrow> bool" where
  "quiet_doc K accepted pending \<longleftrightarrow>
     (\<forall>h. quiet K (accepted h)) \<and> (\<forall>h. quiet K (pending h)) \<and>
     (\<forall>h g b. keeps (pending h) (sys_send K g b)) \<and>
     (\<forall>h g m. keeps (accepted h) (sys_recv K g m)) \<and>
     (\<forall>h g m. keeps (accepted h) (sys_peek K g m))"

definition kernel_doc :: "'o os_api \<Rightarrow> (int \<Rightarrow> 'o \<Rightarrow> string) \<Rightarrow> (int \<Rightarrow> 'o \<Rightarrow> string) \<Rightarrow> bool" where
  "kernel_doc K accepted pending \<longleftrightarrow>
     send_doc K accepted \<and> recv_doc K pending \<and> quiet_doc K accepted pending"

lemma keepsD: "keeps f call \<Longrightarrow> call k = (a, k') \<Longrightarrow> f k' = f k"
  by (metis keeps_def snd_conv)

lemma quiet_calls:
  assumes "kernel_doc K accepted pending"
  shows "accepted h (snd (sys_micros K k)) = accepted h k"
    and "accepted h (snd (sys_select_write K g a b k)) = accepted h k"
    and "accepted h (snd (sys_select_read K g a b k)) = accepted h k"
    and "pending h (snd (sys_micros K k)) = pending h k"
    and "pending h (snd (sys_select_write K g a b k)) = pending h k"
    and "pending h (snd (sys_select_read K g a b k)) = pending h k"
    and "pending h (snd (sys_send K g s k)) = pending h k"
    and "accepted h (snd (sys_recv K g m k)) = accepted h k"
    and "accepted h (snd (sys_peek K g m k)) = accepted h k"
    and "accepted h (snd (sys_shutdown K g k)) = accepted h k"
    and "accepted h (snd (sys_close K g k)) = accepted h k"
    and "pending h (snd (sys_shutdown K g k)) = pending h k"
    and "pending h (snd (sys_close K g k)) = pending h k"
  using assms by (simp_all add: kernel_doc_def quiet_doc_def quiet_def keeps_def)

section \<open>Sending everything\<close>

lemma WaitSend_frame:
  assumes "kernel_doc K accepted pending"
  shows "\<exists>r k'. WaitSend K secs micros (m, k) = (Inr r, (m, k')) \<and> r \<in> {0, SOCKET_ERROR, SOCKET_TIMEOUT} \<and>
    accepted h k' = accepted h k"
  using quiet_calls(2) [OF assms, where h = h and g = "m_hSocket m" and a = secs and b = micros and k = k]
  by (simp add: WaitSend_def)

text \<open>
  The loop comes back: it reports the number of all bytes after the kernel has accepted all of
  them, or an error or a timeout after it has accepted a beginning.
\<close>

lemma SendAll_loop_result:
  assumes doc: "kernel_doc K accepted pending" and h: "h = m_hSocket m"
  shows "\<exists>n k' i. SendAll_loop K ts t left sent secs micros (m, k) = Some (n, (m, k')) \<and>
    i \<le> length left \<and> accepted h k' = accepted h k @ take i left \<and>
    (n = sent + int (length left) \<and> i = length left \<or> n = SOCKET_ERROR \<or> n = SOCKET_TIMEOUT)"
proof (induction "length left" arbitrary: left sent secs micros k rule: less_induct)
  case less
  show ?case
  proof (cases "left = []")
    case True
    then show ?thesis by (subst SendAll_loop.simps) simp
  next
    case False
    obtain r k1 where w: "(if t \<noteq> NO_TIMEOUT then WaitSend K secs micros (m, k) else (Inr 0, (m, k))) =
        (Inr r, (m, k1))" "r \<in> {0, SOCKET_ERROR, SOCKET_TIMEOUT}" "accepted h k1 = accepted h k"
      using WaitSend_frame [OF doc, of secs micros m k h] by (cases "t = NO_TIMEOUT") auto
    obtain n k2 where s: "sys_send K h left k1 = (n, k2)" by fastforce
    have sent: "n = -1 \<and> accepted h k2 = accepted h k1 \<or>
        1 \<le> n \<and> n \<le> int (length left) \<and> accepted h k2 = accepted h k1 @ take (nat n) left"
      using doc s False unfolding kernel_doc_def send_doc_def by blast
    define k3 where "k3 = (if t = NO_TIMEOUT then k2 else snd (sys_micros K k2))"
    have k3: "accepted h k3 = accepted h k2"
      using quiet_calls(1) [OF doc] by (simp add: k3_def)
    show ?thesis
    proof (cases "r \<noteq> 0 \<or> n = -1")
      case True
      then have "\<exists>n k'. SendAll_loop K ts t left sent secs micros (m, k) = Some (n, (m, k')) \<and>
          accepted h k' = accepted h k \<and> n \<in> {SOCKET_ERROR, SOCKET_TIMEOUT}"
        using False w s sent h
        by (subst SendAll_loop.simps) (auto simp: Let_def SOCKET_ERROR_def)
      then obtain n' k' where "SendAll_loop K ts t left sent secs micros (m, k) = Some (n', (m, k'))"
        "accepted h k' = accepted h k" "n' \<in> {SOCKET_ERROR, SOCKET_TIMEOUT}" by blast
      then show ?thesis by (intro exI [of _ n'] exI [of _ k'] exI [of _ 0]) auto
    next
      case False
      then have n: "1 \<le> n" "n \<le> int (length left)" "accepted h k3 = accepted h k @ take (nat n) left"
        using sent w(3) k3 by auto
      have lt: "length (drop (nat n) left) < length left" using n(1,2) by auto
      have "\<exists>a b c. SendAll_loop K ts t left sent secs micros (m, k) =
          (if c then Some (SOCKET_TIMEOUT, (m, k3))
           else SendAll_loop K ts t (drop (nat n) left) (sent + n) a b (m, k3))"
      proof (cases "t = NO_TIMEOUT")
        case True
        with False w s h \<open>left \<noteq> []\<close> show ?thesis
          by (intro exI [of _ secs] exI [of _ micros] exI [of _ False], subst SendAll_loop.simps)
            (simp add: k3_def SOCKET_ERROR_def)
      next
        case t: False
        obtain now k4 where "sys_micros K k2 = (now, k4)" by fastforce
        with False w s h t \<open>left \<noteq> []\<close> show ?thesis
          by (subst SendAll_loop.simps) (auto simp: k3_def SOCKET_ERROR_def Let_def)
      qed
      then have step: "SendAll_loop K ts t left sent secs micros (m, k) = Some (SOCKET_TIMEOUT, (m, k3)) \<or>
          (\<exists>a b. SendAll_loop K ts t left sent secs micros (m, k) =
            SendAll_loop K ts t (drop (nat n) left) (sent + n) a b (m, k3))"
        by (metis (full_types))
      show ?thesis
      proof (cases "\<exists>a b. SendAll_loop K ts t left sent secs micros (m, k) =
            SendAll_loop K ts t (drop (nat n) left) (sent + n) a b (m, k3)")
        case True
        then obtain a b where eq: "SendAll_loop K ts t left sent secs micros (m, k) =
            SendAll_loop K ts t (drop (nat n) left) (sent + n) a b (m, k3)" by blast
        obtain x k' i where x: "SendAll_loop K ts t (drop (nat n) left) (sent + n) a b (m, k3) = Some (x, (m, k'))"
          "i \<le> length (drop (nat n) left)" "accepted h k' = accepted h k3 @ take i (drop (nat n) left)"
          "x = sent + n + int (length (drop (nat n) left)) \<and> i = length (drop (nat n) left) \<or>
           x = SOCKET_ERROR \<or> x = SOCKET_TIMEOUT"
          using less [OF lt, of "sent + n" a b k3] by blast
        have "accepted h k' = accepted h k @ take (nat n + i) left"
          using x(3) n(3) by (simp add: take_add)
        with x eq n(1,2) show ?thesis
          by (intro exI [of _ x] exI [of _ k'] exI [of _ "nat n + i"]) auto
      next
        case False
        with step n show ?thesis
          by (auto intro!: exI [of _ "nat n"])
      qed
    qed
  qed
qed

lemma SendAll_result:
  assumes "kernel_doc K accepted pending" "m_hSocket m \<noteq> INVALID_SOCKET"
  shows "\<exists>n k' i. SendAll K b (m, k) = (Inr n, (m, k')) \<and> i \<le> length b \<and>
    accepted (m_hSocket m) k' = accepted (m_hSocket m) k @ take i b \<and>
    (n = int (length b) \<and> i = length b \<or> n = SOCKET_ERROR \<or> n = SOCKET_TIMEOUT)"
proof -
  let ?k = "snd (sys_micros K k)" and ?t = "m_dwTimeoutSend m"
  obtain n k' i where r: "SendAll_loop K (fst (sys_micros K k)) ?t b 0 (uint ?t) 0 (m, ?k) = Some (n, (m, k'))"
    "i \<le> length b" "accepted (m_hSocket m) k' = accepted (m_hSocket m) ?k @ take i b"
    "n = 0 + int (length b) \<and> i = length b \<or> n = SOCKET_ERROR \<or> n = SOCKET_TIMEOUT"
    using SendAll_loop_result [OF assms(1) refl] by blast
  then have "SendAll K b (m, k) = (Inr n, (m, k'))" using assms(2) by (simp add: SendAll_def)
  with r show ?thesis
    by (intro exI [of _ n] exI [of _ k'] exI [of _ i]) (simp add: quiet_calls(1) [OF assms(1)])
qed

section \<open>A kernel\<close>

text \<open>
  A kernel with one connection that accepts at most three bytes at a time, used to show that
  the hypotheses can hold.
\<close>

record ex_kernel =
  ex_out :: string
  ex_in :: string

definition ex_K :: "ex_kernel os_api" where
  "ex_K =
     \<lparr>sys_socket = (\<lambda>k. (3, k)), sys_shutdown = (\<lambda>h k. (0, k)), sys_close = (\<lambda>h k. (0, k)),
      sys_reuseaddr = (\<lambda>h k. (0, k)), sys_bind = (\<lambda>h p k. (0, k)), sys_listen = (\<lambda>h n k. (0, k)),
      sys_accept = (\<lambda>h k. (4, k)), sys_gethostbyname = (\<lambda>a k. (Some a, k)),
      sys_connect = (\<lambda>h a p k. (0, k)), sys_so_error = (\<lambda>h k. ((0, 0), k)),
      sys_select_none = (\<lambda>a b k. (0, k)), sys_select_read = (\<lambda>h a b k. (1, k)),
      sys_select_write = (\<lambda>h a b k. (1, k)),
      sys_send = (\<lambda>h b k. (int (min 3 (length b)), k\<lparr>ex_out := ex_out k @ take 3 b\<rparr>)),
      sys_recv = (\<lambda>h n k. ((int (min n (length (ex_in k))), take n (ex_in k)), k\<lparr>ex_in := drop n (ex_in k)\<rparr>)),
      sys_peek = (\<lambda>h n k. ((int (min n (length (ex_in k))), take n (ex_in k)), k)),
      sys_set_nonblock = (\<lambda>h b k. (0, k)), sys_rcvtimeo = (\<lambda>h t k. (0, k)),
      sys_getpeername = (\<lambda>h k. (Some (18082, ''127.0.0.1''), k)), sys_micros = (\<lambda>k. (0, k)),
      sys_errno = (\<lambda>k. EWOULDBLOCK)\<rparr>"

lemma kernel_doc_ex_K [simp]: "kernel_doc ex_K (\<lambda>h. ex_out) (\<lambda>h. ex_in)"
  unfolding kernel_doc_def send_doc_def recv_doc_def quiet_doc_def quiet_def keeps_def
  by (auto simp: ex_K_def min_def Suc_le_eq)

section \<open>Properties\<close>

text \<open>
  C15. \<open>SendAll\<close> on an open socket comes back for every text, with or without a timeout: either it
  reports the length of the text and the kernel has accepted all of it, or it reports an error or a timeout
  and the kernel has accepted some beginning of it, which can be all of it when the time ran out with the last
  bytes. It never reports a part of the length.
\<close>

theorem sendAll_all_or_error:
  assumes "kernel_doc K accepted pending" "m_hSocket m \<noteq> INVALID_SOCKET"
  shows "\<exists>n k' i. SendAll K b (m, k) = (Inr n, (m, k')) \<and> i \<le> length b \<and>
    accepted (m_hSocket m) k' = accepted (m_hSocket m) k @ take i b \<and>
    (n = int (length b) \<and> i = length b \<or> n = -1 \<or> n = -2)"
  using SendAll_result [OF assms, of b k] by (simp add: SOCKET_ERROR_def SOCKET_TIMEOUT_def)

theorem sendAll_all_or_error_witness:
  "let m = ofxTCPManager_new\<lparr>m_hSocket := 3\<rparr>; k = \<lparr>ex_out = ''a'', ex_in = []\<rparr> in
   \<exists>n k' i. SendAll ex_K ''hello'' (m, k) = (Inr n, (m, k')) \<and>
     ex_out k' = ''a'' @ take i ''hello'' \<and> (n = 5 \<and> i = length ''hello'' \<or> n = -1 \<or> n = -2)"
  using sendAll_all_or_error [OF kernel_doc_ex_K, of "ofxTCPManager_new\<lparr>m_hSocket := 3\<rparr>"
      "''hello''" "\<lparr>ex_out = ''a'', ex_in = []\<rparr>"]
  by (auto simp: INVALID_SOCKET_def Let_def)

end
