(* ===== verification/TcpClient.thy ===== *)
theory TcpClient
  imports TcpManager
begin

text \<open>
  \<open>ofxNetwork/ofxTCPClient\<close>: one connection with messages that end with a delimiter. The server
  keeps one of these objects for each of its clients, and the client application one for the
  server.
\<close>

section \<open>The object\<close>

definition TCP_MAX_MSG_SIZE :: nat where
  "TCP_MAX_MSG_SIZE = 512"

abbreviation NUL :: char where
  "NUL \<equiv> CHR 0x00"

record ofxTCPClient =
  TCPClient :: ofxTCPManager
  tmpBuff :: string
  tmpBuffReceive :: string
  tmpBuffSend :: string
  cl_str :: string
  tmpStr :: string
  ipAddr :: string
  cl_index :: int
  messageSize :: int
  cl_port :: sint32
  connected :: bool
  partialPrevMsg :: string
  messageDelimiter :: string

definition ofxTCPClient_new :: ofxTCPClient where
  "ofxTCPClient_new =
     \<lparr>TCPClient = ofxTCPManager_new, tmpBuff = replicate (TCP_MAX_MSG_SIZE + 1) NUL,
      tmpBuffReceive = [], tmpBuffSend = [], cl_str = [], tmpStr = [],
      ipAddr = ''000.000.000.000'', cl_index = -1, messageSize = 0, cl_port = 0,
      connected = False, partialPrevMsg = [], messageDelimiter = ''[/TCP]''\<rparr>"

type_synonym 'o conn = "ofxTCPClient \<times> 'o"

text \<open>A member function of the socket, called on the socket of the client.\<close>

definition onSocket :: "('o sock, 'a) cxx \<Rightarrow> ('o conn, 'a) cxx" where
  "onSocket f =
     (\<lambda>s. case f (TCPClient (fst s), snd s) of
           (r, (m, k)) \<Rightarrow> (r, ((fst s)\<lparr>TCPClient := m\<rparr>, k)))"

lemma onSocket_run [simp]:
  "f (TCPClient c, k) = (r, (m, k')) \<Longrightarrow> onSocket f (c, k) = (r, (c\<lparr>TCPClient := m\<rparr>, k'))"
  by (simp add: onSocket_def)

section \<open>Opening and closing\<close>

record ofxTCPSettings =
  st_address :: string
  st_port :: sint32
  st_blocking :: bool
  st_reuse :: bool
  st_messageDelimiter :: string

definition ofxTCPSettings_new :: "string \<Rightarrow> sint32 \<Rightarrow> ofxTCPSettings" where
  "ofxTCPSettings_new a p =
     \<lparr>st_address = a, st_port = p, st_blocking = False, st_reuse = False,
      st_messageDelimiter = ''[/TCP]''\<rparr>"

definition Client_close :: "'o os_api \<Rightarrow> ('o conn, bool) cxx" where
  "Client_close K =
     bindX (getM connected) (\<lambda>c.
     if \<not> c then ret True else
     bindX (onSocket (Mgr_Close K)) (\<lambda>ok.
     if \<not> ok then ret False
     else thenX (modM (\<lambda>c. c\<lparr>connected := False\<rparr>)) (ret True)))"

definition ofxTCPClient_delete :: "'o os_api \<Rightarrow> ('o conn, unit) cxx" where
  "ofxTCPClient_delete K =
     bindX (Client_close K) (\<lambda>_. onSocket (ofxTCPManager_delete K))"

definition Client_setMessageDelimiter :: "string \<Rightarrow> ofxTCPClient \<Rightarrow> ofxTCPClient" where
  "Client_setMessageDelimiter delim c = (if delim \<noteq> [] then c\<lparr>messageDelimiter := delim\<rparr> else c)"

definition Client_setup :: "'o os_api \<Rightarrow> ofxTCPSettings \<Rightarrow> ('o conn, bool) cxx" where
  "Client_setup K settings =
     bindX (onSocket (Mgr_Create K)) (\<lambda>created.
     if \<not> created then ret False else
     bindX (onSocket (Mgr_Connect K (st_address settings) (ucast (st_port settings)))) (\<lambda>ok.
     if \<not> ok then bindX (onSocket (Mgr_Close K)) (\<lambda>_. ret False) else
     bindX (onSocket (SetNonBlocking K (\<not> st_blocking settings))) (\<lambda>_.
     thenX (modM (Client_setMessageDelimiter (st_messageDelimiter settings))) (
     thenX (modM (\<lambda>c. c\<lparr>cl_port := st_port settings, ipAddr := st_address settings, connected := True\<rparr>)) (
     ret True)))))"

definition setupConnectionIdx :: "'o os_api \<Rightarrow> int \<Rightarrow> bool \<Rightarrow> ('o conn, bool) cxx" where
  "setupConnectionIdx K i blocking =
     thenX (modM (\<lambda>c. c\<lparr>cl_index := i\<rparr>)) (
     bindX (onSocket (GetRemoteAddr K)) (\<lambda>a.
     thenX (case a of
              None \<Rightarrow> ret ()
            | Some (p, ip) \<Rightarrow> modM (\<lambda>c. c\<lparr>cl_port := p, ipAddr := ip\<rparr>)) (
     bindX (onSocket (SetNonBlocking K (\<not> blocking))) (\<lambda>_.
     thenX (modM (\<lambda>c. c\<lparr>connected := True\<rparr>)) (ret True)))))"

text \<open>
  A reset, aborted, refused, broken or missing connection; or nothing read from a blocking
  socket that has a timeout.
\<close>

definition isClosingCondition :: "int \<Rightarrow> errno option \<Rightarrow> ofxTCPClient \<Rightarrow> bool" where
  "isClosingCondition n err c \<longleftrightarrow>
     n = SOCKET_ERROR \<and>
       err \<in> {Some ECONNRESET, Some ECONNABORTED, Some ECONNREFUSED, Some EPIPE, Some ENOTCONN} \<or>
     n = 0 \<and> \<not> nonBlocking (TCPClient c) \<and> m_dwTimeoutReceive (TCPClient c) \<noteq> NO_TIMEOUT"

text \<open>\<open>errorCode\<close> is zero unless the call failed.\<close>

definition errorCode :: "'o os_api \<Rightarrow> int \<Rightarrow> ('o conn, errno option) cxx" where
  "errorCode K n = (if n < 0 then bindX (checkError K) (\<lambda>e. ret (Some e)) else ret None)"

definition Client_isConnected :: "'o os_api \<Rightarrow> ('o conn, bool) cxx" where
  "Client_isConnected K =
     bindX (getM connected) (\<lambda>c.
     thenX (if c then
              bindX (onSocket (CheckIsConnected K)) (\<lambda>ok.
              if \<not> ok then bindX (Client_close K) (\<lambda>_. ret ()) else ret ())
            else ret ()) (
     getM connected))"

section \<open>Sending\<close>

definition Client_send :: "'o os_api \<Rightarrow> string \<Rightarrow> ('o conn, bool) cxx" where
  "Client_send K msg =
     bindX (getM id) (\<lambda>c.
     if \<not> connected c then ret False else
     let message = partialPrevMsg c @ msg @ messageDelimiter c @ [NUL] in
     bindX (onSocket (SendAll K message)) (\<lambda>n.
     bindX (errorCode K n) (\<lambda>err.
     bindX (getM id) (\<lambda>c.
     if isClosingCondition n err c then bindX (Client_close K) (\<lambda>_. ret False)
     else if n < 0 then ret False
     else if n < int (length message) then
       thenX (modM (\<lambda>c. c\<lparr>partialPrevMsg := drop (nat n) message\<rparr>)) (ret True)
     else thenX (modM (\<lambda>c. c\<lparr>partialPrevMsg := []\<rparr>)) (ret True)))))"

definition sendRawMsg :: "'o os_api \<Rightarrow> string \<Rightarrow> ('o conn, bool) cxx" where
  "sendRawMsg K msg =
     bindX (getM id) (\<lambda>c.
     if \<not> connected c then ret False else
     thenX (modM (\<lambda>c. c\<lparr>tmpBuffSend := tmpBuffSend c @ msg @ messageDelimiter c\<rparr>)) (
     bindX (getM tmpBuffSend) (\<lambda>b.
     bindX (onSocket (SendAll K b)) (\<lambda>n.
     bindX (errorCode K n) (\<lambda>err.
     bindX (getM id) (\<lambda>c.
     if isClosingCondition n err c then bindX (Client_close K) (\<lambda>_. ret False)
     else if n < 0 then ret False
     else if n < int (length msg) then
       thenX (modM (\<lambda>c. c\<lparr>tmpBuffSend := drop (nat n) (tmpBuffSend c)\<rparr>)) (ret True)
     else thenX (modM (\<lambda>c. c\<lparr>tmpBuffSend := []\<rparr>)) (ret True)))))))"

definition sendRawBytes :: "'o os_api \<Rightarrow> string \<Rightarrow> ('o conn, bool) cxx" where
  "sendRawBytes K bytes =
     (if bytes = [] then ret False else
      bindX (onSocket (SendAll K bytes)) (\<lambda>n.
      bindX (errorCode K n) (\<lambda>err.
      bindX (getM id) (\<lambda>c.
      if isClosingCondition n err c then bindX (Client_close K) (\<lambda>_. ret False)
      else ret (n > 0)))))"

section \<open>Receiving\<close>

text \<open>\<open>std::string::find\<close>\<close>

fun find_sub :: "string \<Rightarrow> string \<Rightarrow> nat option" where
  "find_sub pat [] = (if pat = [] then Some 0 else None)"
| "find_sub pat (c # cs) =
     (if take (length pat) (c # cs) = pat then Some 0 else map_option Suc (find_sub pat cs))"

text \<open>
  The loop over the buffer: a zero at position \<open>i\<close> is overwritten by moving the rest one
  place down and putting a zero at the end; the position advances in any case.
\<close>

function removeZeros_from :: "nat \<Rightarrow> string \<Rightarrow> string" where
  "removeZeros_from i b =
     (if i < length b - 1 then
        removeZeros_from (Suc i) (if b ! i = NUL then take i b @ drop (Suc i) b @ [NUL] else b)
      else b)"
  by pat_completeness auto
termination by (relation "measure (\<lambda>(i, b). length b - i)") auto

declare removeZeros_from.simps [simp del]

definition removeZeros :: "string \<Rightarrow> string" where
  "removeZeros b = removeZeros_from 0 b"

text \<open>What a C string function reads from a buffer.\<close>

definition c_string :: "string \<Rightarrow> string" where
  "c_string b = takeWhile (\<lambda>c. c \<noteq> NUL) b"

definition receiveRawBytes :: "'o os_api \<Rightarrow> nat \<Rightarrow> ('o conn, int \<times> string) cxx" where
  "receiveRawBytes K numBytes =
     bindX (onSocket (Mgr_Receive K numBytes)) (\<lambda>r.
     thenX (modM (\<lambda>c. c\<lparr>messageSize := fst r\<rparr>)) (
     bindX (errorCode K (fst r)) (\<lambda>err.
     bindX (getM id) (\<lambda>c.
     thenX (if isClosingCondition (fst r) err c then bindX (Client_close K) (\<lambda>_. ret ()) else ret ()) (
     ret r)))))"

definition peekReceiveRawBytes :: "'o os_api \<Rightarrow> nat \<Rightarrow> ('o conn, int \<times> string) cxx" where
  "peekReceiveRawBytes K numBytes =
     bindX (onSocket (PeekReceive K numBytes)) (\<lambda>r.
     thenX (modM (\<lambda>c. c\<lparr>messageSize := fst r\<rparr>)) (
     bindX (errorCode K (fst r)) (\<lambda>err.
     bindX (getM id) (\<lambda>c.
     thenX (if isClosingCondition (fst r) err c then bindX (Client_close K) (\<lambda>_. ret ()) else ret ()) (
     ret r)))))"

text \<open>
  One round of the loop of \<open>receive\<close>, its condition included: a value when the function
  returns, none when the loop goes on.
\<close>

definition receive_round :: "'o os_api \<Rightarrow> ('o conn, string option) cxx" where
  "receive_round K =
     bindX (peekReceiveRawBytes K 1) (\<lambda>p.
     if fst p \<le> 0 then ret (Some []) else
     bindX (getM id) (\<lambda>c.
     bindX (if find_sub (messageDelimiter c) (tmpStr c) = None then
              bindX (onSocket (Mgr_Receive K TCP_MAX_MSG_SIZE)) (\<lambda>r.
              thenX (modM (\<lambda>c. c\<lparr>tmpBuff := removeZeros (snd r) @
                       replicate (TCP_MAX_MSG_SIZE + 1 - length (snd r)) NUL\<rparr>)) (
              thenX (if 0 < fst r then modM (\<lambda>c. c\<lparr>tmpStr := tmpStr c @ c_string (tmpBuff c)\<rparr>)
                     else ret ()) (
              ret (fst r))))
            else ret 0) (\<lambda>len.
     bindX (errorCode K len) (\<lambda>err.
     bindX (getM id) (\<lambda>c.
     bindX (if isClosingCondition len err c then bindX (Client_close K) (\<lambda>_. ret (tmpStr c = []))
            else ret False) (\<lambda>done.
     if done then ret (Some []) else
     case find_sub (messageDelimiter c) (tmpStr c) of
       None \<Rightarrow> ret None
     | Some i \<Rightarrow>
         let msg = take i (tmpStr c) in
         thenX (modM (\<lambda>c. c\<lparr>cl_str := msg, tmpStr := drop (i + length (messageDelimiter c)) (tmpStr c)\<rparr>)) (
         ret (Some msg))))))))"

partial_function (option) receive_loop :: "'o os_api \<Rightarrow> 'o conn \<Rightarrow> (string res \<times> 'o conn) option" where
  "receive_loop K s =
     (case receive_round K s of
        (Inl e, s') \<Rightarrow> Some (Inl e, s')
      | (Inr (Some msg), s') \<Rightarrow> Some (Inr msg, s')
      | (Inr None, s') \<Rightarrow> receive_loop K s')"

definition Client_receive :: "'o os_api \<Rightarrow> ('o conn, string) cxx" where
  "Client_receive K =
     thenX (modM (\<lambda>c. c\<lparr>cl_str := []\<rparr>)) (
     \<lambda>s. case receive_loop K s of None \<Rightarrow> (Inl NoReturn, s) | Some r \<Rightarrow> r)"

text \<open>
  The scan for the delimiter in binary data: a mismatch starts again at the next byte without
  comparing the current one with the start of the delimiter.
\<close>

fun findDelimiter_loop :: "string \<Rightarrow> nat \<Rightarrow> int \<Rightarrow> string \<Rightarrow> int" where
  "findDelimiter_loop delim pos i [] = -1"
| "findDelimiter_loop delim pos i (c # cs) =
     (if c = (if pos < length delim then delim ! pos else NUL) then
        if Suc pos = length delim then i - int (length delim) + 1
        else findDelimiter_loop delim (Suc pos) (i + 1) cs
      else findDelimiter_loop delim 0 (i + 1) cs)"

definition findDelimiter :: "string \<Rightarrow> string \<Rightarrow> int" where
  "findDelimiter data delim = findDelimiter_loop delim 0 0 data"

text \<open>The message is copied without looking at the size of the caller's buffer.\<close>

definition receiveRawMsg :: "'o os_api \<Rightarrow> nat \<Rightarrow> ('o conn, int \<times> string) cxx" where
  "receiveRawMsg K numBytes =
     bindX (getM id) (\<lambda>c.
     thenX (if findDelimiter (tmpBuffReceive c) (messageDelimiter c) = -1 then
              bindX (receiveRawBytes K TCP_MAX_MSG_SIZE) (\<lambda>r.
              thenX (modM (\<lambda>c. c\<lparr>tmpBuff := snd r @
                       replicate (TCP_MAX_MSG_SIZE - length (snd r)) NUL @ drop TCP_MAX_MSG_SIZE (tmpBuff c)\<rparr>)) (
              if 0 < fst r then modM (\<lambda>c. c\<lparr>tmpBuffReceive := tmpBuffReceive c @ snd r\<rparr>) else ret ()))
            else ret ()) (
     bindX (getM id) (\<lambda>c.
     let pos = findDelimiter (tmpBuffReceive c) (messageDelimiter c);
         rest = drop (nat pos + length (messageDelimiter c)) (tmpBuffReceive c) in
     if pos \<le> 0 then ret (0, [])
     else if int numBytes < pos \<or> TCP_MAX_MSG_SIZE + 1 < length rest then throw (UB OutOfBounds)
     else thenX (modM (\<lambda>c. c\<lparr>tmpBuffReceive := rest, tmpBuff := rest @ drop (length rest) (tmpBuff c)\<rparr>)) (
          ret (pos, take (nat pos) (tmpBuffReceive c))))))"

definition receiveRaw :: "'o os_api \<Rightarrow> ('o conn, string) cxx" where
  "receiveRaw K =
     bindX (onSocket (Mgr_Receive K TCP_MAX_MSG_SIZE)) (\<lambda>r.
     thenX (modM (\<lambda>c. c\<lparr>messageSize := fst r,
              tmpBuff := snd r @ drop (length (snd r)) (tmpBuff c)\<rparr>)) (
     bindX (errorCode K (fst r)) (\<lambda>err.
     bindX (getM id) (\<lambda>c.
     thenX (if isClosingCondition (fst r) err c then bindX (Client_close K) (\<lambda>_. ret ())
            else if 0 \<le> fst r \<and> fst r < int TCP_MAX_MSG_SIZE
            then modM (\<lambda>c. c\<lparr>tmpBuff := (tmpBuff c)[nat (fst r) := NUL]\<rparr>) else ret ()) (
     getM (\<lambda>c. c_string (tmpBuff c)))))))"

section \<open>Closing keeps the bytes\<close>

lemma Client_close_run:
  assumes "kernel_doc K accepted pending"
  shows "\<exists>ok m' b k'. Client_close K (c, k) = (Inr ok, (c\<lparr>TCPClient := m', connected := b\<rparr>, k')) \<and>
    accepted h k' = accepted h k \<and> pending h k' = pending h k"
proof -
  let ?m = "TCPClient c"
  let ?k1 = "snd (sys_shutdown K (m_hSocket ?m) k)"
  let ?k2 = "snd (sys_close K (m_hSocket ?m) ?k1)"
  note q = quiet_calls(10-13) [OF assms, where h = h]
  have "\<exists>ok m' k'. Mgr_Close K (?m, k) = (Inr ok, (m', k')) \<and>
      accepted h k' = accepted h k \<and> pending h k' = pending h k"
    using q [where k = k] q [where k = ?k1] by (auto simp: Mgr_Close_def)
  then obtain ok m' k' where "Mgr_Close K (?m, k) = (Inr ok, (m', k'))"
    "accepted h k' = accepted h k" "pending h k' = pending h k" by blast
  then show ?thesis
  proof (cases "connected c")
    case True
    let ?b = "if ok then False else connected c"
    have "Client_close K (c, k) = (Inr ok, (c\<lparr>TCPClient := m', connected := ?b\<rparr>, k'))"
      using True \<open>Mgr_Close K (?m, k) = _\<close> by (simp add: Client_close_def bindX_def onSocket_def)
    with \<open>accepted h k' = _\<close> \<open>pending h k' = _\<close> show ?thesis by blast
  next
    case False
    then have "Client_close K (c, k) = (Inr True, (c\<lparr>TCPClient := ?m, connected := False\<rparr>, k))"
      by (simp add: Client_close_def)
    then show ?thesis by blast
  qed
qed

section \<open>Frames\<close>

definition frame_of :: "ofxTCPClient \<Rightarrow> string \<Rightarrow> string" where
  "frame_of c msg = msg @ messageDelimiter c @ [NUL]"

lemma Client_send_run:
  assumes doc: "kernel_doc K accepted pending" and c: "connected c" "partialPrevMsg c = []"
    and h: "h = m_hSocket (TCPClient c)" "h \<noteq> INVALID_SOCKET"
  shows "\<exists>ok c' k' i. Client_send K msg (c, k) = (Inr ok, (c', k')) \<and> partialPrevMsg c' = [] \<and>
    messageDelimiter c' = messageDelimiter c \<and>
    accepted h k' = accepted h k @ take i (frame_of c msg) \<and> i \<le> length (frame_of c msg) \<and>
    (ok \<longleftrightarrow> c' = c \<and> i = length (frame_of c msg) \<and> ok)"
proof -
  let ?f = "frame_of c msg"
  obtain n k1 i where s: "SendAll K ?f (TCPClient c, k) = (Inr n, (TCPClient c, k1))" "i \<le> length ?f"
    "accepted h k1 = accepted h k @ take i ?f"
    "n = int (length ?f) \<and> i = length ?f \<or> n = SOCKET_ERROR \<or> n = SOCKET_TIMEOUT"
    using SendAll_result [OF doc, of "TCPClient c" ?f k] h by blast
  define err where "err = (if n < 0 then Some (sys_errno K k1) else None)"
  have err: "errorCode K n (c, k1) = (Inr err, (c, k1))" by (simp add: errorCode_def err_def)
  have run: "Client_send K msg (c, k) =
      (if isClosingCondition n err c then bindX (Client_close K) (\<lambda>_. ret False) (c, k1)
       else if n < 0 then (Inr False, (c, k1)) else (Inr True, (c, k1)))"
    using c s(1,4) err
    by (auto simp: Client_send_def frame_of_def Let_def bindX_def SOCKET_ERROR_def SOCKET_TIMEOUT_def)
  obtain b m' d k2 where cl: "Client_close K (c, k1) = (Inr b, (c\<lparr>TCPClient := m', connected := d\<rparr>, k2))"
    "accepted h k2 = accepted h k1"
    using Client_close_run [OF doc, of c k1 h] by blast
  show ?thesis
  proof (cases "isClosingCondition n err c")
    case True
    with run cl have "Client_send K msg (c, k) = (Inr False, (c\<lparr>TCPClient := m', connected := d\<rparr>, k2))"
      by simp
    with c cl(2) s show ?thesis by (intro exI [of _ False] exI [of _ "c\<lparr>TCPClient := m', connected := d\<rparr>"]
      exI [of _ k2] exI [of _ i]) simp
  next
    case False
    then have "Client_send K msg (c, k) = (Inr (\<not> n < 0), (c, k1))" using run by simp
    with c s False show ?thesis
      by (intro exI [of _ "\<not> n < 0"] exI [of _ c] exI [of _ k1] exI [of _ i])
        (auto simp: SOCKET_ERROR_def SOCKET_TIMEOUT_def)
  qed
qed

section \<open>Zeros\<close>

definition no_double_zero :: "string \<Rightarrow> bool" where
  "no_double_zero b \<longleftrightarrow> (\<forall>i. Suc i < length b \<longrightarrow> b ! i \<noteq> NUL \<or> b ! Suc i \<noteq> NUL)"

lemma no_double_zero_simps [simp]:
  "no_double_zero []" "no_double_zero [c]"
  "no_double_zero (c # d # b) \<longleftrightarrow> (c \<noteq> NUL \<or> d \<noteq> NUL) \<and> no_double_zero (d # b)"
  by (auto simp: no_double_zero_def less_Suc_eq_0_disj nth_Cons split: nat.splits)

lemma no_double_zero_tl: "no_double_zero (c # b) \<Longrightarrow> no_double_zero b"
  by (cases b) auto

lemma removeZeros_skip:
  "removeZeros_from (Suc i) (c # b) = c # removeZeros_from i b"
proof (induction i b rule: removeZeros_from.induct)
  case (1 i b)
  show ?case
  proof (cases "i < length b - 1")
    case True
    have "removeZeros_from (Suc i) (c # b) =
        removeZeros_from (Suc (Suc i)) (c # (if b ! i = NUL then take i b @ drop (Suc i) b @ [NUL] else b))"
      using True by (subst removeZeros_from.simps) (simp add: less_diff_conv)
    also have "\<dots> = c # removeZeros_from (Suc i) (if b ! i = NUL then take i b @ drop (Suc i) b @ [NUL] else b)"
      by (rule 1 [OF True])
    also have "\<dots> = c # removeZeros_from i b"
      using True by (subst (2) removeZeros_from.simps) simp
    finally show ?thesis .
  next
    case False
    then show ?thesis by (subst (1 2) removeZeros_from.simps) (simp add: less_diff_conv)
  qed
qed

lemma removeZeros_simps:
  "removeZeros [] = []" "removeZeros [c] = [c]"
  "removeZeros (c # d # b) = (if c = NUL then d # removeZeros (b @ [NUL]) else c # removeZeros (d # b))"
proof -
  have "removeZeros_from 0 (c # d # b) =
      removeZeros_from (Suc 0) (if c = NUL then d # b @ [NUL] else c # d # b)"
    by (subst removeZeros_from.simps) simp
  then show "removeZeros (c # d # b) = (if c = NUL then d # removeZeros (b @ [NUL]) else c # removeZeros (d # b))"
    by (simp add: removeZeros_def removeZeros_skip)
qed (simp_all add: removeZeros_def removeZeros_from.simps)

lemma removeZeros_zeros: "removeZeros (replicate n NUL) = replicate n NUL"
proof (induction n rule: less_induct)
  case (less n)
  show ?case
  proof (cases n)
    case (Suc m)
    show ?thesis
    proof (cases m)
      case (Suc j)
      then have "replicate j NUL @ [NUL] = replicate m NUL" by (simp add: replicate_append_same)
      with Suc \<open>n = Suc m\<close> less [of m] show ?thesis by (simp add: removeZeros_simps)
    qed (use \<open>n = Suc m\<close> in \<open>simp add: removeZeros_simps\<close>)
  qed (simp add: removeZeros_simps)
qed

lemma c_string_simps [simp]:
  "c_string [] = []" "c_string (NUL # b) = []" "c \<noteq> NUL \<Longrightarrow> c_string (c # b) = c # c_string b"
  by (simp_all add: c_string_def)

lemma c_string_zeros [simp]: "c_string (b @ replicate n NUL) = c_string b"
  by (induction b) (auto simp: c_string_def takeWhile_eq_Nil_iff)

lemma removeZeros_c_string:
  "no_double_zero b \<Longrightarrow> c_string (removeZeros (b @ replicate n NUL)) = filter (\<lambda>c. c \<noteq> NUL) b"
proof (induction "length b" arbitrary: b n rule: less_induct)
  case less
  show ?case
  proof (cases b)
    case Nil
    then show ?thesis using c_string_zeros [of "[]" n] by (simp add: removeZeros_zeros)
  next
    case (Cons c b')
    show ?thesis
    proof (cases "c = NUL")
      case True
      show ?thesis
      proof (cases b')
        case Nil
        with Cons True show ?thesis
          using c_string_zeros [of "[]" "Suc n"] removeZeros_zeros [of "Suc n"] by simp
      next
        case (Cons d b'')
        with \<open>b = c # b'\<close> True less.prems have d: "d \<noteq> NUL" "no_double_zero b''"
          by (auto dest: no_double_zero_tl)
        have "b'' @ replicate n NUL @ [NUL] = b'' @ replicate (Suc n) NUL"
          by (simp add: replicate_append_same)
        then show ?thesis
          using less.hyps [of b'' "Suc n"] d Cons \<open>b = c # b'\<close> True by (simp add: removeZeros_simps)
      qed
    next
      case False
      have "removeZeros (c # b' @ replicate n NUL) = c # removeZeros (b' @ replicate n NUL)"
        using False by (cases "b' @ replicate n NUL") (simp_all add: removeZeros_simps)
      with False Cons less.hyps [of b' n] less.prems show ?thesis
        by (auto dest: no_double_zero_tl)
    qed
  qed
qed

section \<open>Searching\<close>

lemma find_sub_Some:
  "find_sub pat s = Some i \<Longrightarrow> take (length pat) (drop i s) = pat \<and> i \<le> length s"
  by (induction pat s arbitrary: i rule: find_sub.induct) (auto split: if_splits)

lemma find_sub_None: "find_sub pat s = None \<longleftrightarrow> (\<nexists>a b. s = a @ pat @ b)"
proof (induction pat s rule: find_sub.induct)
  case (1 pat)
  then show ?case by auto
next
  case (2 pat c cs)
  show ?case
  proof (cases "take (length pat) (c # cs) = pat")
    case True
    then have "c # cs = [] @ pat @ drop (length pat) (c # cs)" by (metis append_Nil append_take_drop_id)
    then have "\<exists>a b. c # cs = a @ pat @ b" by blast
    with True show ?thesis by simp
  next
    case False
    have "(\<exists>a b. c # cs = a @ pat @ b) \<longleftrightarrow> (\<exists>a b. cs = a @ pat @ b)"
    proof
      assume "\<exists>a b. c # cs = a @ pat @ b"
      then obtain a b where ab: "c # cs = a @ pat @ b" by blast
      with False have "a \<noteq> []" by (metis append_Nil append_eq_conv_conj)
      with ab show "\<exists>a b. cs = a @ pat @ b" by (cases a) auto
    next
      assume "\<exists>a b. cs = a @ pat @ b"
      then show "\<exists>a b. c # cs = a @ pat @ b" by (metis append_Cons)
    qed
    with False 2 show ?thesis by auto
  qed
qed

text \<open>What follows the text does not change where the delimiter is first found in it.\<close>

lemma find_sub_append: "find_sub pat s = Some i \<Longrightarrow> find_sub pat (s @ t) = Some i"
proof (induction pat s arbitrary: i rule: find_sub.induct)
  case (1 pat)
  then show ?case by (cases t) (auto split: if_splits)
next
  case (2 pat c cs)
  show ?case
  proof (cases "take (length pat) (c # cs) = pat")
    case True
    then have "length pat \<le> length (c # cs)" by (metis length_take min.cobounded1)
    then have "take (length pat) (c # cs @ t) = pat" using True
      by (metis append_Cons take_all_iff take_append append.right_neutral diff_is_0_eq take_0)
    with True 2 show ?thesis by simp
  next
    case False
    with 2(2) obtain j where j: "find_sub pat cs = Some j" "i = Suc j" by auto
    from find_sub_Some [OF j(1)] have "length pat \<le> length cs"
      by (metis diff_le_self le_trans length_drop length_take min.cobounded1)
    then have "take (length pat) (c # cs @ t) = take (length pat) (c # cs)"
      by (simp add: take_Cons split: nat.split)
    with False 2(1) [OF False j(1)] j show ?thesis by simp
  qed
qed

section \<open>Receiving\<close>

text \<open>A non-blocking client with an open socket and no timeout for receiving.\<close>

definition receiving :: "ofxTCPClient \<Rightarrow> bool" where
  "receiving c \<longleftrightarrow>
     nonBlocking (TCPClient c) \<and> m_dwTimeoutReceive (TCPClient c) = NO_TIMEOUT \<and>
     m_hSocket (TCPClient c) \<noteq> INVALID_SOCKET"

lemma receiving_open: "receiving c \<Longrightarrow> n \<noteq> SOCKET_ERROR \<Longrightarrow> \<not> isClosingCondition n e c"
  by (simp add: receiving_def isClosingCondition_def)

definition readable :: "'o os_api \<Rightarrow> int \<Rightarrow> 'o \<Rightarrow> bool" where
  "readable K h k \<longleftrightarrow> 0 < fst (fst (sys_peek K h 1 k))"

lemma peek_nothing:
  assumes doc: "kernel_doc K accepted pending" and c: "receiving c" "h = m_hSocket (TCPClient c)"
    and empty: "\<not> readable K h k"
  shows "\<exists>c' k'. receive_round K (c, k) = (Inr (Some []), (c', k')) \<and> tmpStr c' = tmpStr c \<and>
    pending h k' = pending h k"
proof -
  obtain n b k1 where p: "sys_peek K h 1 k = ((n, b), k1)" by (metis surj_pair)
  then have n: "n \<le> 0" "pending h k1 = pending h k"
    using doc empty unfolding kernel_doc_def recv_doc_def readable_def
    by (simp, metis less_one)
  let ?c = "c\<lparr>TCPClient := TCPClient c, messageSize := n\<rparr>"
  let ?e = "if n < 0 then Some (sys_errno K k1) else None"
  obtain ok m' d k2 where cl: "Client_close K (?c, k1) = (Inr ok, (?c\<lparr>TCPClient := m', connected := d\<rparr>, k2))"
    "pending h k2 = pending h k1"
    using Client_close_run [OF doc, of ?c k1 h] by blast
  have "PeekReceive K 1 (TCPClient c, k) = (Inr (n, b), (TCPClient c, k1))"
    using c p by (simp add: PeekReceive_def receiving_def)
  then have "peekReceiveRawBytes K 1 (c, k) =
      (if isClosingCondition n ?e ?c then (Inr (n, b), (?c\<lparr>TCPClient := m', connected := d\<rparr>, k2))
       else (Inr (n, b), (?c, k1)))"
    using cl(1) by (simp add: peekReceiveRawBytes_def bindX_def errorCode_def)
  then have "receive_round K (c, k) =
      (if isClosingCondition n ?e ?c then (Inr (Some []), (?c\<lparr>TCPClient := m', connected := d\<rparr>, k2))
       else (Inr (Some []), (?c, k1)))"
    using n(1) by (simp add: receive_round_def bindX_def)
  then show ?thesis using n(2) cl(2) by (cases "isClosingCondition n ?e ?c") auto
qed

abbreviation visible :: "string \<Rightarrow> string" where
  "visible b \<equiv> filter (\<lambda>c. c \<noteq> NUL) b"

lemma no_double_zero_append: "no_double_zero (a @ b) \<Longrightarrow> no_double_zero a \<and> no_double_zero b"
proof (induction a)
  case (Cons c a)
  then show ?case by (cases a) (auto dest: no_double_zero_tl)
qed simp

lemma received_text:
  "no_double_zero b \<Longrightarrow> c_string (removeZeros b @ replicate n NUL) = visible b"
  using removeZeros_c_string [of b 0] by simp

lemma peek_something:
  assumes doc: "kernel_doc K accepted pending" and c: "receiving c" "h = m_hSocket (TCPClient c)"
    and some: "readable K h k"
  shows "\<exists>n b k'. peekReceiveRawBytes K 1 (c, k) = (Inr (n, b), (c\<lparr>messageSize := n\<rparr>, k')) \<and> 0 < n \<and>
    pending h k' = pending h k \<and> (\<forall>l. 0 < l \<longrightarrow> 0 < fst (fst (sys_recv K h l k')))"
proof -
  obtain n b k1 where p: "sys_peek K h 1 k = ((n, b), k1)" by (metis surj_pair)
  then have "0 < n" using some by (simp add: readable_def)
  moreover from this p have "pending h k1 = pending h k" "\<forall>l. 0 < l \<longrightarrow> 0 < fst (fst (sys_recv K h l k1))"
    using doc unfolding kernel_doc_def recv_doc_def by (metis less_one)+
  ultimately have n: "0 < n" "pending h k1 = pending h k" "\<forall>l. 0 < l \<longrightarrow> 0 < fst (fst (sys_recv K h l k1))"
    by blast+
  have "PeekReceive K 1 (TCPClient c, k) = (Inr (n, b), (TCPClient c, k1))"
    using c p by (simp add: PeekReceive_def receiving_def)
  moreover have "\<not> isClosingCondition n None (c\<lparr>messageSize := n\<rparr>)"
    using c(1) n(1) by (simp add: receiving_def isClosingCondition_def SOCKET_ERROR_def)
  ultimately have "peekReceiveRawBytes K 1 (c, k) = (Inr (n, b), (c\<lparr>messageSize := n\<rparr>, k1))"
    using n(1) by (simp add: peekReceiveRawBytes_def bindX_def errorCode_def)
  with n show ?thesis by blast
qed

text \<open>A round that finds a whole message in what was received before.\<close>

lemma round_buffered:
  assumes doc: "kernel_doc K accepted pending" and c: "receiving c" "h = m_hSocket (TCPClient c)"
    and some: "readable K h k" and found: "find_sub (messageDelimiter c) (tmpStr c) = Some i"
  shows "\<exists>c' k'. receive_round K (c, k) = (Inr (Some (take i (tmpStr c))), (c', k')) \<and>
    tmpStr c' = drop (i + length (messageDelimiter c)) (tmpStr c) \<and> pending h k' = pending h k"
proof -
  obtain n b k1 where p: "peekReceiveRawBytes K 1 (c, k) = (Inr (n, b), (c\<lparr>messageSize := n\<rparr>, k1))"
    "0 < n" "pending h k1 = pending h k"
    using peek_something [OF doc c some] by blast
  have "\<not> isClosingCondition 0 None (c\<lparr>messageSize := n\<rparr>)"
    using c(1) by (simp add: receiving_def isClosingCondition_def SOCKET_ERROR_def)
  with p found have "receive_round K (c, k) = (Inr (Some (take i (tmpStr c))),
      (c\<lparr>messageSize := n, cl_str := take i (tmpStr c),
         tmpStr := drop (i + length (messageDelimiter c)) (tmpStr c)\<rparr>, k1))"
    by (simp add: receive_round_def errorCode_def Let_def)
  with p(3) show ?thesis by auto
qed

text \<open>A round that reads: it takes some bytes and either finds a message or goes on.\<close>

lemma round_reads:
  assumes doc: "kernel_doc K accepted pending" and c: "receiving c" "h = m_hSocket (TCPClient c)"
    and some: "readable K h k" "no_double_zero (pending h k)"
    and none: "find_sub (messageDelimiter c) (tmpStr c) = None"
  shows "\<exists>c' k' b. b \<noteq> [] \<and> pending h k = b @ pending h k' \<and> receiving c' \<and>
    messageDelimiter c' = messageDelimiter c \<and> m_hSocket (TCPClient c') = h \<and>
    (case find_sub (messageDelimiter c) (tmpStr c @ visible b) of
       None \<Rightarrow> receive_round K (c, k) = (Inr None, (c', k')) \<and> tmpStr c' = tmpStr c @ visible b
     | Some i \<Rightarrow> receive_round K (c, k) = (Inr (Some (take i (tmpStr c @ visible b))), (c', k')) \<and>
         tmpStr c' = drop (i + length (messageDelimiter c)) (tmpStr c @ visible b))"
proof -
  obtain n x k1 where p: "peekReceiveRawBytes K 1 (c, k) = (Inr (n, x), (c\<lparr>messageSize := n\<rparr>, k1))"
    "0 < n" "pending h k1 = pending h k" "\<forall>l. 0 < l \<longrightarrow> 0 < fst (fst (sys_recv K h l k1))"
    using peek_something [OF doc c some(1)] by blast
  obtain l b k2 where r: "sys_recv K h TCP_MAX_MSG_SIZE k1 = ((l, b), k2)" by (metis surj_pair)
  have "0 < TCP_MAX_MSG_SIZE" by (simp add: TCP_MAX_MSG_SIZE_def)
  moreover from this have "0 < l" using p(4) r by (metis fst_conv)
  ultimately have l: "l = int (length b)" "b \<noteq> []" "pending h k1 = b @ pending h k2"
    using doc r unfolding kernel_doc_def recv_doc_def by (metis not_le)+
  have nz: "no_double_zero b" using some(2) p(3) l(3) no_double_zero_append by metis
  let ?z = "replicate (TCP_MAX_MSG_SIZE + 1 - length b) NUL"
  let ?c = "c\<lparr>messageSize := n, tmpBuff := removeZeros b @ ?z, tmpStr := tmpStr c @ visible b\<rparr>"
  have "Mgr_Receive K TCP_MAX_MSG_SIZE (TCPClient c, k1) = (Inr (l, b), (TCPClient c, k2))"
    using c r by (simp add: Mgr_Receive_def receiving_def)
  moreover have "\<not> isClosingCondition l None ?c"
    using c(1) l by (simp add: receiving_def isClosingCondition_def SOCKET_ERROR_def)
  ultimately have run: "receive_round K (c, k) =
      (case find_sub (messageDelimiter c) (tmpStr c @ visible b) of
         None \<Rightarrow> (Inr None, (?c, k2))
       | Some i \<Rightarrow> (Inr (Some (take i (tmpStr c @ visible b))),
           (?c\<lparr>cl_str := take i (tmpStr c @ visible b),
               tmpStr := drop (i + length (messageDelimiter c)) (tmpStr c @ visible b)\<rparr>, k2)))"
    using p none l received_text [OF nz]
    by (simp add: receive_round_def errorCode_def Let_def bindX_def split: option.split)
  show ?thesis
  proof (cases "find_sub (messageDelimiter c) (tmpStr c @ visible b)")
    case None
    with run l p c show ?thesis
      by (intro exI [of _ ?c] exI [of _ k2] exI [of _ b]) (simp add: receiving_def)
  next
    case (Some i)
    with run l p c show ?thesis
      by (intro exI [of _ "?c\<lparr>cl_str := take i (tmpStr c @ visible b),
            tmpStr := drop (i + length (messageDelimiter c)) (tmpStr c @ visible b)\<rparr>"]
          exI [of _ k2] exI [of _ b]) (simp add: receiving_def)
  qed
qed

text \<open>The first message of a text that ends with the delimiter, and what follows it.\<close>

definition split_message :: "string \<Rightarrow> string \<Rightarrow> string \<times> string" where
  "split_message d s =
     (case find_sub d s of None \<Rightarrow> ([], s) | Some i \<Rightarrow> (take i s, drop (i + length d) s))"

lemma split_message_append:
  assumes "find_sub d s = Some i"
  shows "split_message d (s @ t) = (take i s, drop (i + length d) s @ t)"
proof -
  have "length (take (length d) (drop i s)) = length d" "i \<le> length s"
    using find_sub_Some [OF assms] by simp_all
  then have "i + length d \<le> length s" by simp
  with find_sub_append [OF assms, of t] show ?thesis by (simp add: split_message_def)
qed

text \<open>
  What \<open>receive\<close> has done when it returns \<open>msg\<close>: it has taken the first message off the stream (what was kept before,
  followed by the bytes without the zeros), or it has found nothing to read, at once or after it has seen
  that what it keeps now has no delimiter.
\<close>

definition received ::
  "'o os_api \<Rightarrow> (int \<Rightarrow> 'o \<Rightarrow> string) \<Rightarrow> int \<Rightarrow> ofxTCPClient \<times> 'o \<Rightarrow> string \<Rightarrow> ofxTCPClient \<times> 'o \<Rightarrow> bool" where
  "received K pending h s msg s' \<longleftrightarrow>
     (let d = messageDelimiter (fst s);
          stream = (\<lambda>(c, k). tmpStr c @ visible (pending h k)) in
      find_sub d (stream s) \<noteq> None \<and> (msg, stream s') = split_message d (stream s) \<or>
      msg = [] \<and> stream s' = stream s \<and>
        (\<exists>k. \<not> readable K h k \<and> pending h k = pending h (snd s') \<and>
           (k = snd s \<and> tmpStr (fst s') = tmpStr (fst s) \<or> find_sub d (tmpStr (fst s')) = None)))"

lemma receive_loop_result:
  assumes doc: "kernel_doc K accepted pending"
  shows "receiving c \<Longrightarrow> m_hSocket (TCPClient c) = h \<Longrightarrow> no_double_zero (pending h k) \<Longrightarrow>
    \<exists>msg s'. receive_loop K (c, k) = Some (Inr msg, s') \<and> received K pending h (c, k) msg s'"
proof (induction "length (pending h k)" arbitrary: c k rule: less_induct)
  case less
  note c = less.prems(1) less.prems(2) [symmetric] and nz = less.prems(3)
  let ?d = "messageDelimiter c"
  show ?case
  proof (cases "readable K h k")
    case False
    obtain c' k' where "receive_round K (c, k) = (Inr (Some []), (c', k'))" "tmpStr c' = tmpStr c"
      "pending h k' = pending h k"
      using peek_nothing [OF doc c False] by blast
    with False show ?thesis
      by (intro exI [of _ "[]"] exI [of _ "(c', k')"], subst receive_loop.simps) (auto simp: received_def Let_def)
  next
    case read: True
    show ?thesis
    proof (cases "find_sub ?d (tmpStr c)")
      case (Some i)
      obtain c' k' where "receive_round K (c, k) = (Inr (Some (take i (tmpStr c))), (c', k'))"
        "tmpStr c' = drop (i + length ?d) (tmpStr c)" "pending h k' = pending h k"
        using round_buffered [OF doc c read Some] by blast
      then show ?thesis
        using split_message_append [OF Some, of "visible (pending h k)"]
          find_sub_append [OF Some, of "visible (pending h k)"]
        by (subst receive_loop.simps) (simp add: received_def)
    next
      case None
      obtain c' k' b where r: "b \<noteq> []" "pending h k = b @ pending h k'" "receiving c'"
        "messageDelimiter c' = ?d" "m_hSocket (TCPClient c') = h"
        "case find_sub ?d (tmpStr c @ visible b) of
           None \<Rightarrow> receive_round K (c, k) = (Inr None, (c', k')) \<and> tmpStr c' = tmpStr c @ visible b
         | Some i \<Rightarrow> receive_round K (c, k) = (Inr (Some (take i (tmpStr c @ visible b))), (c', k')) \<and>
             tmpStr c' = drop (i + length ?d) (tmpStr c @ visible b)"
        using round_reads [OF doc c read nz None] by blast
      have all: "tmpStr c @ visible (pending h k) = (tmpStr c @ visible b) @ visible (pending h k')"
        using r(2) by simp
      show ?thesis
      proof (cases "find_sub ?d (tmpStr c @ visible b)")
        case (Some i)
        with r(6) have "receive_round K (c, k) = (Inr (Some (take i (tmpStr c @ visible b))), (c', k'))"
          "tmpStr c' = drop (i + length ?d) (tmpStr c @ visible b)" by simp_all
        then have "received K pending h (c, k) (take i (tmpStr c @ visible b)) (c', k')"
          using split_message_append [OF Some, of "visible (pending h k')"]
            find_sub_append [OF Some, of "visible (pending h k')"]
          unfolding received_def Let_def prod.case fst_conv all by simp
        with \<open>receive_round K (c, k) = _\<close> show ?thesis by (subst receive_loop.simps) auto
      next
        case go: None
        then have step: "receive_loop K (c, k) = receive_loop K (c', k')" "tmpStr c' = tmpStr c @ visible b"
          using r(6) by (subst receive_loop.simps, simp_all)
        have "no_double_zero (pending h k')" using nz r(2) no_double_zero_append by metis
        moreover have "length (pending h k') < length (pending h k)" using r(1,2) by simp
        ultimately obtain msg s' where s': "receive_loop K (c', k') = Some (Inr msg, s')"
          "received K pending h (c', k') msg s'"
          using less.hyps [OF _ r(3,5)] by blast
        have "received K pending h (c, k) msg s'"
          using s'(2) go step(2)
          unfolding received_def Let_def prod.case fst_conv snd_conv r(4) all step(2) [symmetric] by auto
        with s'(1) step(1) show ?thesis by auto
      qed
    qed
  qed
qed

lemma Client_receive_result:
  assumes "kernel_doc K accepted pending" "receiving c" "h = m_hSocket (TCPClient c)"
    "no_double_zero (pending h k)"
  shows "\<exists>msg s'. Client_receive K (c, k) = (Inr msg, s') \<and> received K pending h (c, k) msg s'"
proof -
  let ?c = "c\<lparr>cl_str := []\<rparr>"
  have "receiving ?c" "m_hSocket (TCPClient ?c) = h" using assms by (simp_all add: receiving_def)
  from receive_loop_result [OF assms(1) this assms(4)] obtain msg s' where
    "receive_loop K (?c, k) = Some (Inr msg, s')" "received K pending h (?c, k) msg s'" by blast
  then show ?thesis by (simp add: Client_receive_def received_def)
qed

section \<open>Delimiters in binary data\<close>

lemma findDelimiter_loop_sound:
  assumes "findDelimiter_loop d pos (int (length pre)) cs = r" "r \<noteq> -1" "pos < length d"
    "pos \<le> length pre" "drop (length pre - pos) pre = take pos d"
  shows "0 \<le> r \<and> take (length d) (drop (nat r) (pre @ cs)) = d"
  using assms
proof (induction cs arbitrary: pre pos)
  case Nil
  then show ?case by simp
next
  case (Cons c cs)
  show ?case
  proof (cases "c = d ! pos")
    case False
    with Cons.prems have "findDelimiter_loop d 0 (int (length (pre @ [c]))) cs = r"
      by (simp add: ac_simps split: if_splits)
    moreover have "d \<noteq> []" using Cons.prems by auto
    ultimately show ?thesis using Cons.IH [of 0 "pre @ [c]"] Cons.prems(2) by simp
  next
    case c: True
    have ext: "drop (length (pre @ [c]) - Suc pos) (pre @ [c]) = take (Suc pos) d"
      using Cons.prems c by (simp add: take_Suc_conv_app_nth)
    show ?thesis
    proof (cases "Suc pos = length d")
      case True
      with Cons.prems c have r: "r = int (length pre - pos)" by (simp split: if_splits)
      have "drop (length pre - pos) (pre @ c # cs) = d @ cs"
        using ext Cons.prems(4) unfolding True by (simp flip: True)
      then have "take (length d) (drop (nat r) (pre @ c # cs)) = take (length d) (d @ cs)"
        unfolding r nat_int by (simp only:)
      with r show ?thesis by simp
    next
      case False
      with Cons.prems c have "findDelimiter_loop d (Suc pos) (int (length (pre @ [c]))) cs = r"
        by (simp add: ac_simps)
      with Cons.IH [of "Suc pos" "pre @ [c]"] Cons.prems ext False show ?thesis by simp
    qed
  qed
qed

lemma findDelimiter_loop_single:
  "findDelimiter_loop [x] 0 i cs = (case find_sub [x] cs of None \<Rightarrow> -1 | Some n \<Rightarrow> i + int n)"
  by (induction cs arbitrary: i) (auto split: option.split)

section \<open>Properties\<close>

text \<open>
  Sending a message on a connected client always comes back and either the kernel has
  accepted the whole frame (message, delimiter and a zero) and the client is as before, or the
  call answers false after some beginning of the frame. In both cases nothing is kept for
  later: the remainder of a frame that was cut off is never sent.
\<close>

theorem send_frames:
  assumes "kernel_doc K accepted pending" "connected c" "partialPrevMsg c = []"
    and "h = m_hSocket (TCPClient c)" "h \<noteq> INVALID_SOCKET"
  shows "\<exists>ok c' k' i. Client_send K msg (c, k) = (Inr ok, (c', k')) \<and> partialPrevMsg c' = [] \<and>
    accepted h k' = accepted h k @ take i (msg @ messageDelimiter c @ [NUL]) \<and>
    (ok \<longrightarrow> c' = c \<and> i = length (msg @ messageDelimiter c @ [NUL]))"
  using Client_send_run [OF assms, of msg k] unfolding frame_of_def by blast

definition ex_client :: ofxTCPClient where
  "ex_client = ofxTCPClient_new\<lparr>TCPClient := ofxTCPManager_new\<lparr>m_hSocket := 4, nonBlocking := True\<rparr>,
     connected := True, messageDelimiter := [CHR 0x0A]\<rparr>"

lemma ex_client_sel [simp]:
  "connected ex_client" "partialPrevMsg ex_client = []" "tmpStr ex_client = []"
  "messageDelimiter ex_client = [CHR 0x0A]" "m_hSocket (TCPClient ex_client) = 4" "receiving ex_client"
  by (simp_all add: ex_client_def ofxTCPClient_new_def receiving_def ofxTCPManager_new_def
      INVALID_SOCKET_def)

theorem send_frames_witness:
  "\<exists>ok c' k' i. Client_send ex_K ''ping'' (ex_client, \<lparr>ex_out = [], ex_in = []\<rparr>) = (Inr ok, (c', k')) \<and>
    partialPrevMsg c' = [] \<and> ex_out k' = take i (''ping'' @ [CHR 0x0A] @ [NUL]) \<and>
    (ok \<longrightarrow> c' = ex_client \<and> i = length (''ping'' @ [CHR 0x0A] @ [NUL]))"
  using send_frames [OF kernel_doc_ex_K, of ex_client 4 "''ping''" "\<lparr>ex_out = [], ex_in = []\<rparr>"]
  unfolding ex_client_sel by (simp add: INVALID_SOCKET_def)



text \<open>
  Removing the zeros of a received block works when no two of them follow each other: as
  a C string the buffer then holds the other bytes in order. Two zeros in a row cut the text.
\<close>

theorem removeZeros_correct:
  "(no_double_zero b \<longrightarrow> c_string (removeZeros b @ [NUL]) = filter (\<lambda>c. c \<noteq> NUL) b) \<and>
   c_string (removeZeros (''a'' @ [NUL, NUL] @ ''b'') @ [NUL]) = ''a''"
  using received_text [of b 1] by (simp add: removeZeros_simps)

theorem removeZeros_correct_witness:
  "c_string (removeZeros (''a'' @ [NUL] @ ''b'') @ [NUL]) = ''ab''"
  using removeZeros_correct [of "''a'' @ [NUL] @ ''b''"] by simp

text \<open>
  C31. The scan for a delimiter in binary data: a position it reports is one where the delimiter
  stands, and for a delimiter of one character it reports the position \<open>std::string::find\<close>
  does. For longer ones it can miss: in \<open>aaab\<close> it does not find \<open>aab\<close>.
\<close>

theorem findDelimiter_correct:
  "(d \<noteq> [] \<and> findDelimiter data d \<noteq> -1 \<longrightarrow>
      take (length d) (drop (nat (findDelimiter data d)) data) = d) \<and>
   findDelimiter data [x] = (case find_sub [x] data of None \<Rightarrow> -1 | Some n \<Rightarrow> int n) \<and>
   findDelimiter ''aaab'' ''aab'' = -1"
  using findDelimiter_loop_sound [of d 0 "[]" data "findDelimiter data d"]
  by (auto simp: findDelimiter_def findDelimiter_loop_single split: option.split)

theorem findDelimiter_correct_witness:
  "take 6 (drop (nat (findDelimiter ''hi[/TCP]'' ''[/TCP]'')) ''hi[/TCP]'') = ''[/TCP]''"
  using findDelimiter_correct [of "''[/TCP]''" "''hi[/TCP]''"] by (simp add: findDelimiter_def)

end
