(* ===== verification/TcpServer.thy ===== *)
theory TcpServer
  imports TcpClient
begin

text \<open>
  \<open>ofxNetwork/ofxTCPServer\<close>: the table of connections, the thread that accepts them and the
  operations on one client. The mutex makes each operation of a program one step; the thread takes
  several, between which it does not hold the mutex. The table is a \<open>std::map\<close>, here an association list in the order of its keys.
\<close>

section \<open>The object\<close>

definition TCP_MAX_CLIENTS :: int where
  "TCP_MAX_CLIENTS = 32"

record ofxTCPServer =
  TCPServer :: ofxTCPManager
  TCPConnections :: "(int \<times> ofxTCPClient) list"
  srv_connected :: bool
  idCount :: int
  srv_port :: sint32
  bClientBlocking :: bool
  srv_messageDelimiter :: string
  srv_threadRunning :: bool

type_synonym 'o srv = "ofxTCPServer \<times> 'o"

definition ofxTCPServer_new :: ofxTCPServer where
  "ofxTCPServer_new =
     \<lparr>TCPServer = ofxTCPManager_new, TCPConnections = [], srv_connected = False, idCount = 0,
      srv_port = 0, bClientBlocking = False, srv_messageDelimiter = ''[/TCP]'',
      srv_threadRunning = False\<rparr>"

text \<open>The operations of the map: assignment keeps the order of the keys.\<close>

fun conn_put :: "int \<Rightarrow> 'c \<Rightarrow> (int \<times> 'c) list \<Rightarrow> (int \<times> 'c) list" where
  "conn_put i c [] = [(i, c)]"
| "conn_put i c ((j, d) # cs) =
     (if i < j then (i, c) # (j, d) # cs
      else if i = j then (i, c) # cs else (j, d) # conn_put i c cs)"

definition conn_erase :: "int \<Rightarrow> (int \<times> 'c) list \<Rightarrow> (int \<times> 'c) list" where
  "conn_erase i cs = filter (\<lambda>p. fst p \<noteq> i) cs"

definition onListener :: "('o sock, 'a) cxx \<Rightarrow> ('o srv, 'a) cxx" where
  "onListener f =
     (\<lambda>s. case f (TCPServer (fst s), snd s) of
           (r, (m, k)) \<Rightarrow> (r, ((fst s)\<lparr>TCPServer := m\<rparr>, k)))"

definition isClientSetup :: "int \<Rightarrow> ofxTCPServer \<Rightarrow> bool" where
  "isClientSetup i v \<longleftrightarrow> map_of (TCPConnections v) i \<noteq> None"

text \<open>A member function of a client, reached through \<open>getClient\<close>, which reads the iterator.\<close>

definition onClient :: "int \<Rightarrow> ('o conn, 'a) cxx \<Rightarrow> ('o srv, 'a) cxx" where
  "onClient i f =
     (\<lambda>s. case map_of (TCPConnections (fst s)) i of
           None \<Rightarrow> (Inl (UB InvalidIterator), s)
         | Some c \<Rightarrow>
             (case f (c, snd s) of
                (r, (c', k)) \<Rightarrow>
                  (r, ((fst s)\<lparr>TCPConnections := conn_put i c' (TCPConnections (fst s))\<rparr>, k))))"

text \<open>Erasing an entry destroys the client.\<close>

definition eraseClient :: "'o os_api \<Rightarrow> int \<Rightarrow> ('o srv, unit) cxx" where
  "eraseClient K i =
     bindX (getM (isClientSetup i)) (\<lambda>b.
     if b then
       thenX (onClient i (ofxTCPClient_delete K)) (
       modM (\<lambda>v. v\<lparr>TCPConnections := conn_erase i (TCPConnections v)\<rparr>))
     else ret ())"

section \<open>Set up and close\<close>

definition setMessageDelimiter :: "string \<Rightarrow> ofxTCPServer \<Rightarrow> ofxTCPServer" where
  "setMessageDelimiter delim v = (if delim \<noteq> [] then v\<lparr>srv_messageDelimiter := delim\<rparr> else v)"

definition Server_setup :: "'o os_api \<Rightarrow> ofxTCPSettings \<Rightarrow> ('o srv, bool) cxx" where
  "Server_setup K settings =
     bindX (onListener (Mgr_Create K)) (\<lambda>ok.
     if \<not> ok then ret False else
     bindX (onListener (Mgr_Bind K (ucast (st_port settings)) (st_reuse settings))) (\<lambda>ok.
     if \<not> ok then ret False else
     thenX (modM (\<lambda>v. v\<lparr>srv_connected := True, srv_port := st_port settings,
              bClientBlocking := st_blocking settings\<rparr>)) (
     thenX (modM (setMessageDelimiter (st_messageDelimiter settings))) (
     thenX (modM (\<lambda>v. v\<lparr>srv_threadRunning := True\<rparr>)) (ret True)))))"

definition Server_close :: "'o os_api \<Rightarrow> ('o srv, bool) cxx" where
  "Server_close K =
     thenX (modM (\<lambda>v. v\<lparr>srv_threadRunning := False\<rparr>)) (onListener (Mgr_Close K))"

definition disconnectClient :: "'o os_api \<Rightarrow> int \<Rightarrow> ('o srv, bool) cxx" where
  "disconnectClient K i =
     bindX (getM (isClientSetup i)) (\<lambda>b.
     if \<not> b then ret False else
     bindX (onClient i (Client_close K)) (\<lambda>ok.
     if ok then thenX (eraseClient K i) (ret True) else ret False))"

text \<open>\<open>clear\<close> destroys every client and empties the map.\<close>

definition clearConnections :: "'o os_api \<Rightarrow> ('o srv, unit) cxx" where
  "clearConnections K =
     bindX (getM (\<lambda>v. map fst (TCPConnections v))) (\<lambda>ids.
     thenX (forX ids (\<lambda>i. onClient i (ofxTCPClient_delete K))) (
     modM (\<lambda>v. v\<lparr>TCPConnections := []\<rparr>)))"

definition disconnectAllClients :: "'o os_api \<Rightarrow> ('o srv, bool) cxx" where
  "disconnectAllClients K = thenX (clearConnections K) (ret True)"

section \<open>Messages of a client\<close>

definition isClientConnected :: "'o os_api \<Rightarrow> int \<Rightarrow> ('o srv, bool) cxx" where
  "isClientConnected K i =
     bindX (getM (isClientSetup i)) (\<lambda>b.
     if b then onClient i (Client_isConnected K) else ret False)"

definition Server_send :: "'o os_api \<Rightarrow> int \<Rightarrow> string \<Rightarrow> ('o srv, bool) cxx" where
  "Server_send K i msg =
     bindX (getM (isClientSetup i)) (\<lambda>b.
     if \<not> b then ret False else
     bindX (onClient i (Client_send K msg)) (\<lambda>r.
     bindX (onClient i (Client_isConnected K)) (\<lambda>up.
     thenX (if \<not> up then eraseClient K i else ret ()) (ret r))))"

text \<open>The clients that turn out to be gone are collected and erased after the loop.\<close>

primrec sendToAll_loop :: "'o os_api \<Rightarrow> string \<Rightarrow> int list \<Rightarrow> ('o srv, int list) cxx" where
  "sendToAll_loop K msg [] = ret []"
| "sendToAll_loop K msg (i # is) =
     bindX (onClient i (Client_isConnected K)) (\<lambda>up.
     if up then bindX (onClient i (Client_send K msg)) (\<lambda>_. sendToAll_loop K msg is)
     else bindX (sendToAll_loop K msg is) (\<lambda>gone. ret (i # gone)))"

definition sendToAll :: "'o os_api \<Rightarrow> string \<Rightarrow> ('o srv, bool) cxx" where
  "sendToAll K msg =
     bindX (getM (\<lambda>v. map fst (TCPConnections v))) (\<lambda>ids.
     if ids = [] then ret False else
     bindX (sendToAll_loop K msg ids) (\<lambda>gone.
     thenX (forX gone (eraseClient K)) (ret True)))"

definition Server_receive :: "'o os_api \<Rightarrow> (int \<Rightarrow> string) \<Rightarrow> int \<Rightarrow> ('o srv, string) cxx" where
  "Server_receive K toString i =
     bindX (getM (isClientSetup i)) (\<lambda>b.
     if \<not> b then ret (''client '' @ toString i @ ''doesn't exist'') else
     bindX (onClient i (Client_isConnected K)) (\<lambda>up.
     if \<not> up then thenX (eraseClient K i) (ret [])
     else onClient i (Client_receive K)))"

definition Server_sendRawBytes :: "'o os_api \<Rightarrow> int \<Rightarrow> string \<Rightarrow> ('o srv, bool) cxx" where
  "Server_sendRawBytes K i bytes =
     bindX (getM (isClientSetup i)) (\<lambda>b.
     if \<not> b then ret False else onClient i (sendRawBytes K bytes))"

definition Server_sendRawMsg :: "'o os_api \<Rightarrow> int \<Rightarrow> string \<Rightarrow> ('o srv, bool) cxx" where
  "Server_sendRawMsg K i bytes =
     bindX (getM (isClientSetup i)) (\<lambda>b.
     if \<not> b then ret False else onClient i (sendRawMsg K bytes))"

text \<open>To every client that is still connected.\<close>

definition toConnected ::
  "'o os_api \<Rightarrow> string \<Rightarrow> (string \<Rightarrow> ('o conn, bool) cxx) \<Rightarrow> ('o srv, bool) cxx" where
  "toConnected K bytes f =
     bindX (getM (\<lambda>v. map fst (TCPConnections v))) (\<lambda>ids.
     if ids = [] \<or> bytes = [] then ret False else
     thenX (forX ids (\<lambda>i.
              bindX (onClient i (Client_isConnected K)) (\<lambda>up.
              if up then bindX (onClient i (f bytes)) (\<lambda>_. ret ()) else ret ()))) (
     ret True))"

definition sendRawBytesToAll :: "'o os_api \<Rightarrow> string \<Rightarrow> ('o srv, bool) cxx" where
  "sendRawBytesToAll K bytes = toConnected K bytes (sendRawBytes K)"

definition sendRawMsgToAll :: "'o os_api \<Rightarrow> string \<Rightarrow> ('o srv, bool) cxx" where
  "sendRawMsgToAll K bytes = toConnected K bytes (sendRawMsg K)"

definition Server_receiveRawBytes :: "'o os_api \<Rightarrow> int \<Rightarrow> nat \<Rightarrow> ('o srv, int \<times> string) cxx" where
  "Server_receiveRawBytes K i n =
     bindX (getM (isClientSetup i)) (\<lambda>b.
     if \<not> b then ret (0, []) else onClient i (receiveRawBytes K n))"

definition Server_peekReceiveRawBytes :: "'o os_api \<Rightarrow> int \<Rightarrow> nat \<Rightarrow> ('o srv, int \<times> string) cxx" where
  "Server_peekReceiveRawBytes K i n =
     bindX (getM (isClientSetup i)) (\<lambda>b.
     if \<not> b then ret (0, []) else onClient i (peekReceiveRawBytes K n))"

definition Server_receiveRawMsg :: "'o os_api \<Rightarrow> int \<Rightarrow> nat \<Rightarrow> ('o srv, int \<times> string) cxx" where
  "Server_receiveRawMsg K i n =
     bindX (getM (isClientSetup i)) (\<lambda>b.
     if \<not> b then ret (0, []) else onClient i (receiveRawMsg K n))"

definition getNumReceivedBytes :: "int \<Rightarrow> ofxTCPServer \<Rightarrow> int" where
  "getNumReceivedBytes i v =
     (case map_of (TCPConnections v) i of None \<Rightarrow> 0 | Some c \<Rightarrow> messageSize c)"

definition getClientPort :: "int \<Rightarrow> ofxTCPServer \<Rightarrow> sint32" where
  "getClientPort i v = (case map_of (TCPConnections v) i of None \<Rightarrow> 0 | Some c \<Rightarrow> cl_port c)"

definition getClientIP :: "int \<Rightarrow> ofxTCPServer \<Rightarrow> string" where
  "getClientIP i v =
     (case map_of (TCPConnections v) i of None \<Rightarrow> ''000.000.000.000'' | Some c \<Rightarrow> ipAddr c)"

definition getNumClients :: "ofxTCPServer \<Rightarrow> nat" where
  "getNumClients v = length (TCPConnections v)"

definition getLastID :: "ofxTCPServer \<Rightarrow> int" where
  "getLastID v = idCount v"

section \<open>Accepting\<close>

text \<open>A new connection takes the number, in the place of a client that is gone.\<close>

definition addConnection :: "'o os_api \<Rightarrow> int \<Rightarrow> int \<Rightarrow> ('o srv, unit) cxx" where
  "addConnection K i handle =
     thenX (eraseClient K i) (
     thenX (modM (\<lambda>v. v\<lparr>TCPConnections := conn_put i
              (ofxTCPClient_new\<lparr>TCPClient := ofxTCPManager_new\<lparr>m_hSocket := handle\<rparr>\<rparr>) (TCPConnections v)\<rparr>)) (
     bindX (getM bClientBlocking) (\<lambda>blocking.
     bindX (onClient i (setupConnectionIdx K i blocking)) (\<lambda>_.
     bindX (getM srv_messageDelimiter) (\<lambda>d.
     thenX (onClient i (modM (Client_setMessageDelimiter d))) (
     modM (\<lambda>v. if i = idCount v then v\<lparr>idCount := idCount v + 1\<rparr> else v)))))))"

text \<open>
  Where the thread stands between two of its steps. The lock on the table is only held while one
  number is checked, while a connection is added and while the table is cleared; the calls of a program come
  in between. Only the thread writes \<open>idCount\<close>.
\<close>

datatype thread_at =
    Not_running
  | Next_round
  | Search int
  | Listening int
  | Accepting int
  | Adding int int
  | Leaving
  | Clearing

definition chosen :: "int \<Rightarrow> thread_at" where
  "chosen acceptId = (if acceptId = TCP_MAX_CLIENTS then Leaving else Listening acceptId)"

text \<open>
  One step of \<open>threadedFunction\<close>: the condition of the loop, one pass of the search for the first
  number from zero whose client is not connected, \<open>Listen\<close>, \<open>Accept\<close>, the new entry, and the two statements
  behind the loop. A thread that has ended is not running.
\<close>

fun thread_step :: "'o os_api \<Rightarrow> thread_at \<Rightarrow> ('o srv, thread_at) cxx" where
  "thread_step K Not_running = ret Not_running"
| "thread_step K Next_round =
     bindX (getM srv_threadRunning) (\<lambda>b. ret (if b then Search 0 else Leaving))"
| "thread_step K (Search i) =
     bindX (getM idCount) (\<lambda>n.
     if n < i then ret (chosen i) else
     bindX (isClientConnected K i) (\<lambda>up. ret (if up then Search (i + 1) else chosen i)))"
| "thread_step K (Listening i) =
     bindX (onListener (Mgr_Listen K TCP_MAX_CLIENTS)) (\<lambda>_. ret (Accepting i))"
| "thread_step K (Accepting i) =
     bindX (onListener (Mgr_Accept K)) (\<lambda>c.
     ret (case c of None \<Rightarrow> Next_round | Some handle \<Rightarrow> Adding i handle))"
| "thread_step K (Adding i handle) = thenX (addConnection K i handle) (ret Next_round)"
| "thread_step K Leaving = thenX (modM (\<lambda>v. v\<lparr>idCount := 0\<rparr>)) (ret Clearing)"
| "thread_step K Clearing =
     thenX (clearConnections K) (
     thenX (modM (\<lambda>v. v\<lparr>srv_connected := False, srv_threadRunning := False\<rparr>)) (ret Not_running))"

section \<open>The numbers of the clients\<close>

definition ids :: "ofxTCPServer \<Rightarrow> int list" where
  "ids v = map fst (TCPConnections v)"

text \<open>The numbers are in order, below the counter, and the counter within the maximum.\<close>

definition ids_ok :: "ofxTCPServer \<Rightarrow> bool" where
  "ids_ok v \<longleftrightarrow>
     sorted_wrt (<) (ids v) \<and> (\<forall>i \<in> set (ids v). 0 \<le> i \<and> i < idCount v) \<and>
     0 \<le> idCount v \<and> idCount v \<le> TCP_MAX_CLIENTS"

lemma keys_conn_put_same:
  "sorted_wrt (<) (map fst cs) \<Longrightarrow> i \<in> set (map fst cs) \<Longrightarrow> map fst (conn_put i c cs) = map fst cs"
  by (induction i c cs rule: conn_put.induct) (auto dest: less_asym)

lemma set_keys_conn_put: "set (map fst (conn_put i c cs)) = insert i (set (map fst cs))"
  by (induction i c cs rule: conn_put.induct) auto

lemma sorted_conn_put: "sorted_wrt (<) (map fst cs) \<Longrightarrow> sorted_wrt (<) (map fst (conn_put i c cs))"
proof (induction i c cs rule: conn_put.induct)
  case (2 i c j d cs)
  then show ?case using set_keys_conn_put [of i c cs] by auto
qed simp

text \<open>
  \<open>shrinking m\<close>: a function of the server that may lose connections and change the clients,
  but adds no connection and leaves the counter alone.
\<close>

definition shrinking :: "('o srv, 'a) cxx \<Rightarrow> bool" where
  "shrinking m \<longleftrightarrow>
     (\<forall>v k r v' k'. m (v, k) = (r, (v', k')) \<longrightarrow> sorted_wrt (<) (ids v) \<longrightarrow>
        idCount v' = idCount v \<and> (\<exists>P. ids v' = filter P (ids v)))"

named_theorems shrink_intros

lemma shrinkingI:
  assumes "\<And>v k r v' k'. m (v, k) = (r, (v', k')) \<Longrightarrow> sorted_wrt (<) (ids v) \<Longrightarrow>
    idCount v' = idCount v \<and> ids v' = ids v"
  shows "shrinking m"
  unfolding shrinking_def
proof (intro allI impI)
  fix v k r v' k'
  assume "m (v, k) = (r, (v', k'))" "sorted_wrt (<) (ids v)"
  from assms [OF this] show "idCount v' = idCount v \<and> (\<exists>P. ids v' = filter P (ids v))"
    by (auto intro: exI [of _ "\<lambda>_. True"])
qed

lemma shrinking_basic [shrink_intros]:
  "shrinking (ret a)" "shrinking (getM f)" "shrinking (throw e)"
  by (auto intro!: shrinkingI simp: getM_def)

lemma shrinking_modM:
  "(\<And>v. idCount (f v) = idCount v \<and> ids (f v) = ids v) \<Longrightarrow> shrinking (modM f)"
  by (auto intro!: shrinkingI)

lemma sorted_wrt_filter_keys: "sorted_wrt (<) xs \<Longrightarrow> sorted_wrt (<) (filter P (xs :: int list))"
  by (rule sorted_wrt_filter)

lemma shrinking_bindX [shrink_intros]:
  assumes "shrinking m" "\<And>a. shrinking (f a)"
  shows "shrinking (bindX m f)"
  unfolding shrinking_def
proof (intro allI impI)
  fix v k r v' k'
  assume run: "bindX m f (v, k) = (r, (v', k'))" and s: "sorted_wrt (<) (ids v)"
  obtain r1 v1 k1 where m: "m (v, k) = (r1, (v1, k1))" by (metis surj_pair)
  with assms(1) s obtain P where P: "idCount v1 = idCount v" "ids v1 = filter P (ids v)"
    unfolding shrinking_def by blast
  show "idCount v' = idCount v \<and> (\<exists>P. ids v' = filter P (ids v))"
  proof (cases r1)
    case (Inl e)
    with run m P show ?thesis by auto
  next
    case (Inr a)
    with run m have "f a (v1, k1) = (r, (v', k'))" by simp
    moreover have "sorted_wrt (<) (ids v1)" using P(2) s by (simp add: sorted_wrt_filter)
    ultimately obtain Q where "idCount v' = idCount v1" "ids v' = filter Q (ids v1)"
      using assms(2) unfolding shrinking_def by blast
    with P show ?thesis by (auto simp: filter_filter)
  qed
qed

lemma shrinking_thenX [shrink_intros]: "shrinking m \<Longrightarrow> shrinking n \<Longrightarrow> shrinking (thenX m n)"
  by (simp add: thenX_def shrinking_bindX)

lemma shrinking_if [shrink_intros]: "shrinking m \<Longrightarrow> shrinking n \<Longrightarrow> shrinking (if b then m else n)"
  by simp

lemma shrinking_forX [shrink_intros]: "(\<And>x. shrinking (f x)) \<Longrightarrow> shrinking (forX xs f)"
  by (induction xs) (simp_all add: shrink_intros)

lemma shrinking_onListener [shrink_intros]: "shrinking (onListener f)"
  by (auto intro!: shrinkingI simp: onListener_def ids_def split: prod.splits)

lemma shrinking_onClient [shrink_intros]: "shrinking (onClient i f)"
proof (rule shrinkingI)
  fix v k r v' k'
  assume run: "onClient i f (v, k) = (r, (v', k'))" and s: "sorted_wrt (<) (ids v)"
  show "idCount v' = idCount v \<and> ids v' = ids v"
  proof (cases "map_of (TCPConnections v) i")
    case None
    with run show ?thesis by (simp add: onClient_def)
  next
    case (Some c)
    then have "i \<in> set (map fst (TCPConnections v))" by (metis map_of_eq_None_iff not_None_eq set_map)
    then have "ids (v\<lparr>TCPConnections := conn_put i x (TCPConnections v)\<rparr>) = ids v" for x
      using s keys_conn_put_same unfolding ids_def by simp
    with Some run show ?thesis by (auto simp: onClient_def split: prod.splits)
  qed
qed

lemma shrinking_erase [shrink_intros]:
  "shrinking (modM (\<lambda>v. v\<lparr>TCPConnections := conn_erase i (TCPConnections v)\<rparr>))"
  unfolding shrinking_def
  by (auto simp: ids_def conn_erase_def filter_map comp_def intro!: exI [of _ "\<lambda>j. j \<noteq> i"])

lemma shrinking_eraseClient [shrink_intros]: "shrinking (eraseClient K i)"
  unfolding eraseClient_def by (intro shrink_intros)

lemma shrinking_clear [shrink_intros]: "shrinking (clearConnections K)"
proof -
  have "shrinking (modM (\<lambda>v. v\<lparr>TCPConnections := []\<rparr>))"
    unfolding shrinking_def by (auto simp: ids_def intro!: exI [of _ "\<lambda>_. False"])
  then show ?thesis unfolding clearConnections_def by (intro shrink_intros)
qed

lemma shrinking_ops [shrink_intros]:
  "shrinking (isClientConnected K i)" "shrinking (disconnectClient K i)"
  "shrinking (disconnectAllClients K)" "shrinking (Server_send K i msg)"
  "shrinking (Server_receive K str i)" "shrinking (Server_sendRawBytes K i msg)"
  "shrinking (Server_sendRawMsg K i msg)" "shrinking (sendRawBytesToAll K msg)"
  "shrinking (sendRawMsgToAll K msg)" "shrinking (Server_receiveRawBytes K i n)"
  "shrinking (Server_peekReceiveRawBytes K i n)" "shrinking (Server_receiveRawMsg K i n)"
  unfolding isClientConnected_def disconnectClient_def disconnectAllClients_def Server_send_def
    Server_receive_def Server_sendRawBytes_def Server_sendRawMsg_def sendRawBytesToAll_def
    sendRawMsgToAll_def toConnected_def Server_receiveRawBytes_def Server_peekReceiveRawBytes_def
    Server_receiveRawMsg_def
  by (intro shrink_intros)+

lemma shrinking_sendToAll [shrink_intros]: "shrinking (sendToAll K msg)"
proof -
  have "shrinking (sendToAll_loop K msg is)" for "is"
    by (induction "is") (simp_all only: sendToAll_loop.simps, intro shrink_intros, auto intro!: shrink_intros)
  then show ?thesis unfolding sendToAll_def by (intro shrink_intros)
qed

lemma shrinking_ids_ok:
  assumes "shrinking m" "ids_ok (fst s)"
  shows "ids_ok (fst (snd (m s)))"
proof -
  obtain v k where s: "s = (v, k)" by fastforce
  obtain r v' k' where m: "m (v, k) = (r, (v', k'))" by (metis surj_pair)
  moreover have "sorted_wrt (<) (ids v)" using assms(2) s by (simp add: ids_ok_def)
  ultimately obtain P where "idCount v' = idCount v" "ids v' = filter P (ids v)"
    using assms(1) unfolding shrinking_def by blast
  with assms(2) s m show ?thesis by (auto simp: ids_ok_def sorted_wrt_filter)
qed

section \<open>Accepting keeps the numbers\<close>

lemma setupConnectionIdx_returns:
  "\<exists>c' k'. setupConnectionIdx K i b (c, k) = (Inr True, (c', k'))"
proof -
  have nb: "\<exists>r m' k'. SetNonBlocking K x (m, k) = (Inr r, (m', k'))" for x m k
    by (auto simp: SetNonBlocking_def)
  obtain a k1 where a: "GetRemoteAddr K (TCPClient c, k) = (Inr a, (TCPClient c, k1))"
    by (cases "m_hSocket (TCPClient c) = INVALID_SOCKET") (simp_all add: GetRemoteAddr_def)
  then have "onSocket (GetRemoteAddr K) (c\<lparr>cl_index := i\<rparr>, k) = (Inr a, (c\<lparr>cl_index := i\<rparr>, k1))"
    by (simp add: onSocket_def)
  moreover have "\<exists>r c' k'. onSocket (SetNonBlocking K x) (d, k) = (Inr r, (c', k'))" for x d k
    using nb [of x "TCPClient d" k] by (auto simp: onSocket_def)
  moreover define d where "d = (case a of None \<Rightarrow> c\<lparr>cl_index := i\<rparr>
    | Some (p, ip) \<Rightarrow> c\<lparr>cl_index := i, cl_port := p, ipAddr := ip\<rparr>)"
  ultimately obtain r c' k' where "onSocket (SetNonBlocking K (\<not> b)) (d, k1) = (Inr r, (c', k'))"
    by blast
  with \<open>onSocket (GetRemoteAddr K) _ = _\<close> show ?thesis
    by (cases a) (auto simp: setupConnectionIdx_def d_def)
qed

lemma ids_ok_listener [simp]: "ids_ok (v\<lparr>TCPServer := m\<rparr>) = ids_ok v"
  by (simp add: ids_ok_def ids_def)

lemma onClient_put:
  assumes "f (c, k) = (r, (c', k'))"
  shows "onClient i f (v\<lparr>TCPConnections := conn_put i c cs\<rparr>, k) =
    (r, (v\<lparr>TCPConnections := conn_put i c' (conn_put i c cs)\<rparr>, k'))"
proof -
  have "map_of (conn_put i c cs) i = Some c" by (induction i c cs rule: conn_put.induct) auto
  with assms show ?thesis by (simp add: onClient_def)
qed

lemma addConnection_ids_ok:
  assumes ok: "ids_ok v" and i: "0 \<le> i" "i \<le> idCount v" "i < TCP_MAX_CLIENTS"
  shows "ids_ok (fst (snd (addConnection K i h (v, k))))"
proof -
  obtain r1 v1 k1 where e: "eraseClient K i (v, k) = (r1, (v1, k1))" by (metis surj_pair)
  have v1: "ids_ok v1"
    using shrinking_ids_ok [OF shrinking_eraseClient [of K i], of "(v, k)"] ok e by simp
  have cnt: "idCount v1 = idCount v"
    using shrinking_eraseClient [of K i] e ok unfolding shrinking_def ids_ok_def by blast
  show ?thesis
  proof (cases r1)
    case (Inl x)
    with e v1 show ?thesis by (simp add: addConnection_def)
  next
    case (Inr u)
    let ?c = "ofxTCPClient_new\<lparr>TCPClient := ofxTCPManager_new\<lparr>m_hSocket := h\<rparr>\<rparr>"
    let ?cs = "TCPConnections v1"
    obtain c' k' where "setupConnectionIdx K i (bClientBlocking v1) (?c, k1) = (Inr True, (c', k'))"
      using setupConnectionIdx_returns [of K i "bClientBlocking v1" ?c k1] by blast
    then have s: "onClient i (setupConnectionIdx K i (bClientBlocking v1))
        (v1\<lparr>TCPConnections := conn_put i ?c ?cs\<rparr>, k1) =
        (Inr True, (v1\<lparr>TCPConnections := conn_put i c' (conn_put i ?c ?cs)\<rparr>, k'))"
      by (rule onClient_put)
    have d: "onClient i (modM (Client_setMessageDelimiter d))
        (v1\<lparr>TCPConnections := conn_put i c' (conn_put i ?c ?cs)\<rparr>, k') =
        (Inr (), (v1\<lparr>TCPConnections := conn_put i (Client_setMessageDelimiter d c')
          (conn_put i c' (conn_put i ?c ?cs))\<rparr>, k'))" for d
      by (rule onClient_put) simp
    let ?v = "v1\<lparr>TCPConnections := conn_put i (Client_setMessageDelimiter (srv_messageDelimiter v1) c')
          (conn_put i c' (conn_put i ?c ?cs))\<rparr>"
    have "addConnection K i h (v, k) =
        (Inr (), (if i = idCount v1 then ?v\<lparr>idCount := idCount v1 + 1\<rparr> else ?v, k'))"
      using e Inr s d by (simp add: addConnection_def)
    moreover have v: "sorted_wrt (<) (ids ?v)" "set (ids ?v) = insert i (set (ids v1))"
      using v1 by (simp_all add: ids_def ids_ok_def sorted_conn_put set_keys_conn_put del: set_map)
    have "ids_ok (if i = idCount v1 then ?v\<lparr>idCount := idCount v1 + 1\<rparr> else ?v)"
    proof -
      define w where "w = ?v"
      have w: "sorted_wrt (<) (ids w)" "set (ids w) = insert i (set (ids v1))" "idCount w = idCount v1"
        "ids (w\<lparr>idCount := n\<rparr>) = ids w" for n
        using v by (simp_all add: w_def ids_def)
      have "ids_ok (if i = idCount v1 then w\<lparr>idCount := idCount v1 + 1\<rparr> else w)"
        using v1 cnt i w by (auto simp: ids_ok_def)
      then show ?thesis unfolding w_def .
    qed
    ultimately show ?thesis by simp
  qed
qed

lemma shrinking_setup [shrink_intros]: "shrinking (Server_setup K st)" "shrinking (Server_close K)"
  unfolding Server_setup_def Server_close_def
  by (intro shrink_intros shrinking_modM; simp add: ids_def setMessageDelimiter_def)+

lemma ofxTCPClient_delete_returns: "\<exists>c' k'. ofxTCPClient_delete K (c, k) = (Inr (), (c', k'))"
proof -
  have m: "\<exists>r m' k'. Mgr_Close K (m, k) = (Inr r, (m', k'))" for m k
    by (auto simp: Mgr_Close_def)
  have s: "\<exists>r c' k'. onSocket (Mgr_Close K) (c, k) = (Inr r, (c', k'))" for c k
    using m [of "TCPClient c" k] by (auto simp: onSocket_def)
  have c: "\<exists>r c' k'. Client_close K (c, k) = (Inr r, (c', k'))" for c k
  proof -
    obtain r c' k' where "onSocket (Mgr_Close K) (c, k) = (Inr r, (c', k'))" using s by blast
    then show ?thesis by (auto simp: Client_close_def bindX_def)
  qed
  have d: "\<exists>m' k'. ofxTCPManager_delete K (m, k) = (Inr (), (m', k'))" for m k
  proof -
    obtain r m' k' where "Mgr_Close K (m, k) = (Inr r, (m', k'))" using m by blast
    then show ?thesis by (auto simp: ofxTCPManager_delete_def)
  qed
  obtain r c1 k1 where "Client_close K (c, k) = (Inr r, (c1, k1))" using c by blast
  moreover obtain m2 k2 where "ofxTCPManager_delete K (TCPClient c1, k1) = (Inr (), (m2, k2))"
    using d by blast
  ultimately show ?thesis by (auto simp: ofxTCPClient_delete_def)
qed

lemma delete_clients:
  assumes "sorted_wrt (<) (ids v)" "set is \<subseteq> set (ids v)"
  shows "\<exists>v' k'. forX is (\<lambda>i. onClient i (ofxTCPClient_delete K)) (v, k) = (Inr (), (v', k')) \<and>
    idCount v' = idCount v"
  using assms
proof (induction "is" arbitrary: v k)
  case Nil
  then show ?case by simp
next
  case (Cons i "is")
  then have "i \<in> fst ` set (TCPConnections v)" by (simp add: ids_def)
  then obtain c where c: "map_of (TCPConnections v) i = Some c"
    by (metis map_of_eq_None_iff not_None_eq)
  obtain c' k' where d: "ofxTCPClient_delete K (c, k) = (Inr (), (c', k'))"
    using ofxTCPClient_delete_returns [of K c k] by blast
  let ?v = "v\<lparr>TCPConnections := conn_put i c' (TCPConnections v)\<rparr>"
  have run: "onClient i (ofxTCPClient_delete K) (v, k) = (Inr (), (?v, k'))"
    using c d by (simp add: onClient_def)
  have "i \<in> set (map fst (TCPConnections v))" using Cons.prems(2) by (simp add: ids_def)
  then have v: "ids ?v = ids v"
    using Cons.prems(1) keys_conn_put_same unfolding ids_def by simp
  from Cons.IH [of ?v k'] Cons.prems v run show ?case by simp
qed

text \<open>
  The invariant of the server and its thread. The number the thread has in hand is not above the
  counter. After the thread has left its loop the counter is zero, and the clients are still there
  until the table is cleared.
\<close>

definition number_ok :: "thread_at \<Rightarrow> int \<Rightarrow> bool" where
  "number_ok t n \<longleftrightarrow>
     (case t of
        Search i \<Rightarrow> 0 \<le> i \<and> i \<le> n
      | Listening i \<Rightarrow> 0 \<le> i \<and> i \<le> n \<and> i < TCP_MAX_CLIENTS
      | Accepting i \<Rightarrow> 0 \<le> i \<and> i \<le> n \<and> i < TCP_MAX_CLIENTS
      | Adding i h \<Rightarrow> 0 \<le> i \<and> i \<le> n \<and> i < TCP_MAX_CLIENTS
      | _ \<Rightarrow> True)"

definition server_inv :: "thread_at \<Rightarrow> ofxTCPServer \<Rightarrow> bool" where
  "server_inv t v \<longleftrightarrow>
     number_ok t (idCount v) \<and>
     (if t = Clearing
      then idCount v = 0 \<and> sorted_wrt (<) (ids v) \<and> (\<forall>i \<in> set (ids v). 0 \<le> i \<and> i < TCP_MAX_CLIENTS)
      else ids_ok v)"

lemma server_inv_sorted: "server_inv t v \<Longrightarrow> sorted_wrt (<) (ids v)"
  by (auto simp: server_inv_def ids_ok_def split: if_splits)

lemma shrinking_server_inv:
  assumes "shrinking m" "server_inv t v" "m (v, k) = (r, (v', k'))"
  shows "server_inv t v' \<and> idCount v' = idCount v"
proof -
  from assms obtain P where "idCount v' = idCount v" "ids v' = filter P (ids v)"
    using server_inv_sorted [OF assms(2)] unfolding shrinking_def by blast
  with assms(2) show ?thesis
    by (auto simp: server_inv_def ids_ok_def sorted_wrt_filter split: if_splits)
qed

lemma shrinking_program:
  "shrinking m \<Longrightarrow> server_inv t (fst s) \<Longrightarrow> server_inv t (fst (snd (m s)))"
  using shrinking_server_inv [of m t "fst s" "snd s"] by (cases "m s") auto

lemma connected_is_listed:
  assumes "isClientConnected K i (v, k) = (Inr True, s')"
  shows "i \<in> set (ids v)"
proof -
  have "isClientSetup i v" using assms by (auto simp: isClientConnected_def split: if_splits)
  then show ?thesis unfolding isClientSetup_def ids_def by (metis map_of_eq_None_iff set_map)
qed

lemma search_step:
  assumes "server_inv (Search i) v" "thread_step K (Search i) (v, k) = (Inr t', (v', k'))"
  shows "server_inv t' v'"
proof -
  have i: "0 \<le> i" "i \<le> idCount v" and ok: "ids_ok v"
    using assms(1) by (simp_all add: server_inv_def number_ok_def)
  obtain up where c: "isClientConnected K i (v, k) = (Inr up, (v', k'))"
    and t': "t' = (if up then Search (i + 1) else chosen i)"
    using assms(2) i(2) by (auto simp: bindX_eq_Inr)
  note v' = shrinking_server_inv [OF shrinking_ops(1) assms(1) c]
  have "i < idCount v" if up
    using connected_is_listed [of K i v k] c that ok by (auto simp: ids_ok_def)
  moreover have "i < TCP_MAX_CLIENTS" if "i \<noteq> TCP_MAX_CLIENTS"
    using that i(2) ok by (simp add: ids_ok_def)
  ultimately show ?thesis
    using v' i t' by (auto simp: server_inv_def number_ok_def chosen_def)
qed

lemma clearing_step:
  assumes "server_inv Clearing v" "thread_step K Clearing (v, k) = (Inr t', (v', k'))"
  shows "server_inv t' v'"
proof -
  obtain w l where "forX (ids v) (\<lambda>i. onClient i (ofxTCPClient_delete K)) (v, k) = (Inr (), (w, l))"
    "idCount w = idCount v"
    using delete_clients [OF server_inv_sorted [OF assms(1)], of "ids v" K k] by auto
  then show ?thesis
    using assms by (auto simp: clearConnections_def ids_def ids_ok_def TCP_MAX_CLIENTS_def server_inv_def
        number_ok_def)
qed

lemma adding_step:
  assumes "server_inv (Adding i h) v" "thread_step K (Adding i h) (v, k) = (Inr t', (v', k'))"
  shows "server_inv t' v'"
proof -
  have "ids_ok v" "0 \<le> i" "i \<le> idCount v" "i < TCP_MAX_CLIENTS"
    using assms(1) by (simp_all add: server_inv_def number_ok_def)
  from addConnection_ids_ok [OF this, of K h k] assms(2) show ?thesis
    by (auto simp: thenX_eq_Inr server_inv_def number_ok_def)
qed

lemma thread_step_inv:
  assumes "server_inv t v" "thread_step K t (v, k) = (Inr t', (v', k'))"
  shows "server_inv t' v'"
proof (cases t)
  case (Search i)
  from assms [unfolded Search] show ?thesis by (rule search_step)
next
  case (Listening i)
  then obtain b where "onListener (Mgr_Listen K TCP_MAX_CLIENTS) (v, k) = (Inr b, (v', k'))" "t' = Accepting i"
    using assms(2) by (auto simp: bindX_eq_Inr)
  with shrinking_server_inv [OF shrinking_onListener assms(1) this(1)] Listening show ?thesis
    by (auto simp: server_inv_def number_ok_def)
next
  case (Accepting i)
  then obtain c where "onListener (Mgr_Accept K) (v, k) = (Inr c, (v', k'))"
    "t' = (case c of None \<Rightarrow> Next_round | Some h \<Rightarrow> Adding i h)"
    using assms(2) by (auto simp: bindX_eq_Inr)
  with shrinking_server_inv [OF shrinking_onListener assms(1) this(1)] Accepting show ?thesis
    by (auto simp: server_inv_def number_ok_def split: option.split)
next
  case (Adding i h)
  from assms [unfolded Adding] show ?thesis by (rule adding_step)
next
  case Clearing
  from assms [unfolded Clearing] show ?thesis by (rule clearing_step)
qed (use assms in \<open>force simp: server_inv_def number_ok_def ids_ok_def ids_def split: if_splits\<close>)+

section \<open>Properties\<close>

text \<open>
  Everything that happens to a server: steps of its thread and, between any two of them, the calls of a
  program. A successful set-up starts the thread when none is there.
\<close>

inductive server_step ::
  "'o os_api \<Rightarrow> thread_at \<times> 'o srv \<Rightarrow> thread_at \<times> 'o srv \<Rightarrow> bool" for K where
  set_up: "Server_setup K st s = (Inr ok, s') \<Longrightarrow>
    server_step K (t, s) (if ok \<and> t = Not_running then Next_round else t, s')"
| thread: "thread_step K t s = (Inr t', s') \<Longrightarrow> server_step K (t, s) (t', s')"
| closing: "server_step K (t, s) (t, snd (Server_close K s))"
| send: "server_step K (t, s) (t, snd (Server_send K i msg s))"
| send_all: "server_step K (t, s) (t, snd (sendToAll K msg s))"
| receive: "server_step K (t, s) (t, snd (Server_receive K str i s))"
| asks: "server_step K (t, s) (t, snd (isClientConnected K i s))"
| disconnect: "server_step K (t, s) (t, snd (disconnectClient K i s))"
| disconnect_all: "server_step K (t, s) (t, snd (disconnectAllClients K s))"
| raw_send: "server_step K (t, s) (t, snd (Server_sendRawMsg K i msg s))"
| raw_receive: "server_step K (t, s) (t, snd (Server_receiveRawMsg K i n s))"
| other: "server_step K (t, (v, k)) (t, (v, k'))"

lemma server_step_inv:
  "server_step K x y \<Longrightarrow> server_inv (fst x) (fst (snd x)) \<Longrightarrow> server_inv (fst y) (fst (snd y))"
proof (induction rule: server_step.induct)
  case (set_up st s ok s' t)
  then have "server_inv t (fst s')"
    using shrinking_program [OF shrinking_setup(1), of t s K st] by simp
  then show ?case by (auto simp: server_inv_def number_ok_def)
next
  case (thread t s t' s')
  then show ?case
    using thread_step_inv [of t "fst s" K "snd s" t' "fst s'" "snd s'"] by simp
qed (simp_all add: shrinking_program shrink_intros)

lemma server_steps_inv:
  "(server_step K)\<^sup>*\<^sup>* x y \<Longrightarrow> server_inv (fst x) (fst (snd x)) \<Longrightarrow> server_inv (fst y) (fst (snd y))"
  by (induction rule: rtranclp_induct) (auto intro: server_step_inv)

lemma ids_ok_new: "ids_ok ofxTCPServer_new"
  by (simp add: ids_ok_def ids_def ofxTCPServer_new_def TCP_MAX_CLIENTS_def)

lemma numbers_distinct:
  assumes "sorted_wrt (<) (ids v)" "\<forall>i \<in> set (ids v). 0 \<le> i \<and> i < TCP_MAX_CLIENTS"
  shows "distinct (ids v)" "getNumClients v \<le> 32"
proof -
  show d: "distinct (ids v)" using assms(1) strict_sorted_iff [of "ids v"] by simp
  have "set (ids v) \<subseteq> {0..<32}" using assms(2) by (auto simp: TCP_MAX_CLIENTS_def)
  then have "card (set (ids v)) \<le> card {0..<32 :: int}" by (intro card_mono) auto
  with distinct_card [OF d] show "getNumClients v \<le> 32" by (simp add: ids_def getNumClients_def)
qed

text \<open>
  C14. Whatever happens to a server from its construction, in any interleaving of the steps of the
  accepting thread with messages, disconnections and other calls of a program, the numbers of its
  clients are distinct and lie between 0 and 31, so that there are never more than 32. They are below
  \<open>getLastID\<close>, which a loop over the clients uses as its bound, except in the moment in which the
  thread has ended and not yet cleared the table: there \<open>getLastID\<close> is zero.
\<close>

theorem server_ids:
  assumes "(server_step K)\<^sup>*\<^sup>* (Not_running, (ofxTCPServer_new, k)) (t, (v, k'))"
  shows "distinct (map fst (TCPConnections v)) \<and>
    (\<forall>i \<in> set (map fst (TCPConnections v)). 0 \<le> i \<and> i < 32) \<and> getNumClients v \<le> 32 \<and>
    (if t = Clearing then getLastID v = 0
     else \<forall>i \<in> set (map fst (TCPConnections v)). i < getLastID v)"
proof -
  have inv: "server_inv t v"
    using server_steps_inv [OF assms] ids_ok_new by (simp add: server_inv_def number_ok_def)
  then have lim: "\<forall>i \<in> set (ids v). 0 \<le> i \<and> i < TCP_MAX_CLIENTS"
    by (auto simp: server_inv_def ids_ok_def split: if_splits)
  with numbers_distinct [OF server_inv_sorted [OF inv]] inv show ?thesis
    by (auto simp: server_inv_def ids_ok_def ids_def getLastID_def TCP_MAX_CLIENTS_def split: if_splits)
qed

text \<open>A run in which two clients connect.\<close>

primrec thread_run :: "'o os_api \<Rightarrow> nat \<Rightarrow> thread_at \<times> 'o srv \<Rightarrow> thread_at \<times> 'o srv" where
  "thread_run K 0 x = x"
| "thread_run K (Suc n) x =
     (case thread_step K (fst x) (snd x) of (Inr t', s') \<Rightarrow> thread_run K n (t', s') | _ \<Rightarrow> x)"

lemma thread_run_steps: "(server_step K)\<^sup>*\<^sup>* x (thread_run K n x)"
proof (induction n arbitrary: x)
  case (Suc n)
  have "server_step K x (t', s')" if "thread_step K (fst x) (snd x) = (Inr t', s')" for t' s'
    using server_step.thread [OF that] by simp
  with Suc.IH show ?case
    by (auto split: prod.split sum.split intro: converse_rtranclp_into_rtranclp)
qed simp

definition ex_server_up :: "thread_at \<times> ex_kernel srv" where
  "ex_server_up = thread_run ex_K 11 (Next_round, snd (Server_setup ex_K (ofxTCPSettings_new [] 8000)
     (ofxTCPServer_new, \<lparr>ex_out = [], ex_in = ''x''\<rparr>)))"

theorem server_ids_witness:
  "(server_step ex_K)\<^sup>*\<^sup>* (Not_running, (ofxTCPServer_new, \<lparr>ex_out = [], ex_in = ''x''\<rparr>)) ex_server_up \<and>
   map fst (TCPConnections (fst (snd ex_server_up))) = [0, 1] \<and>
   list_all (\<lambda>i. i < getLastID (fst (snd ex_server_up))) (map fst (TCPConnections (fst (snd ex_server_up))))"
proof -
  let ?i = "(ofxTCPServer_new, \<lparr>ex_out = [], ex_in = ''x''\<rparr>)"
  have "case Server_setup ex_K (ofxTCPSettings_new [] 8000) ?i of (Inr ok, _) \<Rightarrow> ok | _ \<Rightarrow> False"
    by code_simp
  then have "Server_setup ex_K (ofxTCPSettings_new [] 8000) ?i =
      (Inr True, snd (Server_setup ex_K (ofxTCPSettings_new [] 8000) ?i))"
    by (auto split: prod.splits sum.splits)
  from server_step.set_up [OF this, of Not_running]
  have "server_step ex_K (Not_running, ?i) (Next_round, snd (Server_setup ex_K (ofxTCPSettings_new [] 8000) ?i))"
    by simp
  then have run: "(server_step ex_K)\<^sup>*\<^sup>* (Not_running, ?i) ex_server_up"
    unfolding ex_server_up_def by (rule converse_rtranclp_into_rtranclp [OF _ thread_run_steps])
  have table: "map fst (TCPConnections (fst (snd ex_server_up))) = [0, 1]" by code_simp
  have at: "case fst ex_server_up of Next_round \<Rightarrow> True | _ \<Rightarrow> False" by code_simp
  obtain t v k where x: "ex_server_up = (t, (v, k))" by (metis surj_pair)
  from run have "(server_step ex_K)\<^sup>*\<^sup>* (Not_running, ?i) (t, (v, k))" unfolding x .
  from server_ids [OF this] at have "list_all (\<lambda>i. i < getLastID v) (map fst (TCPConnections v))"
    by (auto simp: x list_all_iff split: thread_at.splits)
  with run table show ?thesis by (simp only: x fst_conv snd_conv)
qed

end
