(* ===== verification/Yqueue.thy ===== *)
theory Yqueue
  imports Prelude
begin

text \<open>
  \<open>libzmq/yqueue.hpp\<close>: the queue behind every pipe of a ZeroMQ socket. Elements live in chunks
  of \<open>N\<close> places that form a doubly linked list, here the list of the chunks from the first to
  the last; the chunk that was emptied last is kept as a spare. A chunk is a number and memory
  gives each place of a chunk its value, none while nothing was written there. \<open>malloc\<close> returns
  a number that was not used before and is taken to succeed, as the code asserts.
\<close>

section \<open>The queue\<close>

type_synonym place = "nat \<times> nat"

record 'a yqueue =
  yq_values :: "place \<Rightarrow> 'a option"
  yq_chunks :: "nat list"
  yq_begin_pos :: nat
  yq_back_chunk :: "nat option"
  yq_back_pos :: nat
  yq_end_pos :: nat
  yq_spare :: "nat option"
  yq_next :: nat

definition allocate_chunk :: "'a yqueue \<Rightarrow> nat \<times> 'a yqueue" where
  "allocate_chunk q =
     (yq_next q, q\<lparr>yq_next := Suc (yq_next q),
        yq_values := (\<lambda>a. if fst a = yq_next q then None else yq_values q a)\<rparr>)"

definition yqueue_new :: "'a yqueue" where
  "yqueue_new =
     \<lparr>yq_values = (\<lambda>_. None), yq_chunks = [0], yq_begin_pos = 0, yq_back_chunk = None,
      yq_back_pos = 0, yq_end_pos = 0, yq_spare = None, yq_next = 1\<rparr>"

definition yq_front :: "'a yqueue \<Rightarrow> place" where
  "yq_front q = (hd (yq_chunks q), yq_begin_pos q)"

text \<open>Before the first push there is no back.\<close>

definition yq_back :: "'a yqueue \<Rightarrow> place" where
  "yq_back q = (the (yq_back_chunk q), yq_back_pos q)"

definition yq_set_back :: "'a \<Rightarrow> 'a yqueue \<Rightarrow> 'a yqueue" where
  "yq_set_back v q = q\<lparr>yq_values := (yq_values q)(yq_back q := Some v)\<rparr>"

definition yq_push :: "nat \<Rightarrow> 'a yqueue \<Rightarrow> 'a yqueue" where
  "yq_push N q =
     (let q = q\<lparr>yq_back_chunk := Some (last (yq_chunks q)), yq_back_pos := yq_end_pos q,
                yq_end_pos := Suc (yq_end_pos q)\<rparr> in
      if yq_end_pos q \<noteq> N then q
      else let (c, q) = (case yq_spare q of Some c \<Rightarrow> (c, q\<lparr>yq_spare := None\<rparr>) | None \<Rightarrow> allocate_chunk q) in
           q\<lparr>yq_chunks := yq_chunks q @ [c], yq_end_pos := 0\<rparr>)"

text \<open>The \<open>prev\<close> pointer of a chunk of the list.\<close>

definition prev_chunk :: "nat list \<Rightarrow> nat \<Rightarrow> nat" where
  "prev_chunk cs c = last (takeWhile (\<lambda>x. x \<noteq> c) cs)"

definition yq_unpush :: "nat \<Rightarrow> 'a yqueue \<Rightarrow> 'a yqueue" where
  "yq_unpush N q =
     (let q = (if yq_back_pos q \<noteq> 0 then q\<lparr>yq_back_pos := yq_back_pos q - 1\<rparr>
               else q\<lparr>yq_back_pos := N - 1,
                      yq_back_chunk := map_option (prev_chunk (yq_chunks q)) (yq_back_chunk q)\<rparr>) in
      if yq_end_pos q \<noteq> 0 then q\<lparr>yq_end_pos := yq_end_pos q - 1\<rparr>
      else q\<lparr>yq_end_pos := N - 1, yq_chunks := butlast (yq_chunks q)\<rparr>)"

definition yq_pop :: "nat \<Rightarrow> 'a yqueue \<Rightarrow> 'a yqueue" where
  "yq_pop N q =
     (let q = q\<lparr>yq_begin_pos := Suc (yq_begin_pos q)\<rparr> in
      if yq_begin_pos q = N then
        q\<lparr>yq_chunks := tl (yq_chunks q), yq_begin_pos := 0, yq_spare := Some (hd (yq_chunks q))\<rparr>
      else q)"

section \<open>The places of the elements\<close>

text \<open>The end, counted from the start of the first chunk.\<close>

definition yq_end :: "nat \<Rightarrow> 'a yqueue \<Rightarrow> nat" where
  "yq_end N q = (length (yq_chunks q) - 1) * N + yq_end_pos q"

definition yq_length :: "nat \<Rightarrow> 'a yqueue \<Rightarrow> nat" where
  "yq_length N q = yq_end N q - yq_begin_pos q"

definition yq_place :: "nat \<Rightarrow> 'a yqueue \<Rightarrow> nat \<Rightarrow> place" where
  "yq_place N q i =
     (yq_chunks q ! ((yq_begin_pos q + i) div N), (yq_begin_pos q + i) mod N)"

definition yq_items :: "nat \<Rightarrow> 'a yqueue \<Rightarrow> 'a option list" where
  "yq_items N q = map (\<lambda>i. yq_values q (yq_place N q i)) [0..<yq_length N q]"

text \<open>
  The positions are inside the chunks, no chunk occurs twice, and the back is the last element.
\<close>

definition yq_ok :: "nat \<Rightarrow> 'a yqueue \<Rightarrow> bool" where
  "yq_ok N q \<longleftrightarrow>
     yq_chunks q \<noteq> [] \<and> distinct (yq_chunks q) \<and> yq_begin_pos q < N \<and> yq_end_pos q < N \<and>
     (\<forall>c \<in> set (yq_chunks q). c < yq_next q) \<and>
     (\<forall>c. yq_spare q = Some c \<longrightarrow> c < yq_next q \<and> c \<notin> set (yq_chunks q)) \<and>
     yq_begin_pos q < yq_end N q \<and>
     yq_back_chunk q = Some (yq_chunks q ! ((yq_end N q - 1) div N)) \<and>
     yq_back_pos q = (yq_end N q - 1) mod N"

lemma yq_ok_length: "yq_ok N q \<Longrightarrow> 0 < yq_length N q"
  by (auto simp: yq_ok_def yq_length_def)

lemma yq_end_less: "yq_ok N q \<Longrightarrow> yq_end N q < length (yq_chunks q) * N"
  by (cases "length (yq_chunks q)") (auto simp: yq_ok_def yq_end_def)

lemma yq_end_split:
  assumes "yq_ok N q"
  shows "yq_end N q div N = length (yq_chunks q) - 1" "yq_end N q mod N = yq_end_pos q"
  using assms by (auto simp: yq_end_def yq_ok_def)

lemma yq_chunk_index:
  assumes "yq_ok N q" "i < yq_length N q"
  shows "(yq_begin_pos q + i) div N < length (yq_chunks q)"
proof -
  have "yq_begin_pos q + i < length (yq_chunks q) * N"
    using assms yq_end_less [OF assms(1)] by (auto simp: yq_length_def)
  then show ?thesis by (simp add: less_mult_imp_div_less)
qed

lemma yq_place_inj:
  assumes "yq_ok N q" "i < yq_length N q" "j < yq_length N q"
  shows "yq_place N q i = yq_place N q j \<longleftrightarrow> i = j"
proof
  assume eq: "yq_place N q i = yq_place N q j"
  have "(yq_begin_pos q + i) div N = (yq_begin_pos q + j) div N"
    using eq yq_chunk_index [OF assms(1,2)] yq_chunk_index [OF assms(1,3)] assms(1)
    by (simp add: yq_place_def yq_ok_def nth_eq_iff_index_eq)
  moreover have "(yq_begin_pos q + i) mod N = (yq_begin_pos q + j) mod N"
    using eq by (simp add: yq_place_def)
  ultimately have "yq_begin_pos q + i = yq_begin_pos q + j" by (metis div_mult_mod_eq)
  then show "i = j" by simp
qed simp

lemma yq_front_place: "yq_ok N q \<Longrightarrow> yq_front q = yq_place N q 0"
  by (auto simp: yq_front_def yq_place_def yq_ok_def hd_conv_nth)

lemma yq_back_place:
  assumes "yq_ok N q"
  shows "yq_back q = yq_place N q (yq_length N q - 1)"
proof -
  have "yq_begin_pos q + (yq_length N q - 1) = yq_end N q - 1"
    using assms by (auto simp: yq_ok_def yq_length_def)
  then show ?thesis using assms by (simp add: yq_ok_def yq_back_def yq_place_def)
qed

section \<open>Pushing and popping\<close>

lemma yq_set_back_ok [simp]: "yq_ok N (yq_set_back v q) = yq_ok N q"
  by (simp add: yq_ok_def yq_set_back_def yq_end_def)

lemma yq_set_back_place [simp]:
  "yq_place N (yq_set_back v q) = yq_place N q" "yq_length N (yq_set_back v q) = yq_length N q"
  by (auto simp: yq_set_back_def yq_place_def yq_length_def yq_end_def)

lemma length_yq_items [simp]: "length (yq_items N q) = yq_length N q"
  by (simp add: yq_items_def)

lemma nth_yq_items [simp]: "i < yq_length N q \<Longrightarrow> yq_items N q ! i = yq_values q (yq_place N q i)"
  by (simp add: yq_items_def)

lemma yq_set_back_items:
  assumes "yq_ok N q"
  shows "yq_items N (yq_set_back v q) = butlast (yq_items N q) @ [Some v]"
proof (rule nth_equalityI)
  have pos: "0 < yq_length N q" by (rule yq_ok_length [OF assms])
  show "length (yq_items N (yq_set_back v q)) = length (butlast (yq_items N q) @ [Some v])"
    using pos by simp
  fix i assume "i < length (yq_items N (yq_set_back v q))"
  then have i: "i < yq_length N q" by simp
  show "yq_items N (yq_set_back v q) ! i = (butlast (yq_items N q) @ [Some v]) ! i"
  proof (cases "i = yq_length N q - 1")
    case True
    with pos show ?thesis using yq_back_place [OF assms]
      by (simp add: nth_append yq_set_back_def yq_place_def yq_length_def yq_end_def)
  next
    case False
    with i pos have "yq_place N q i \<noteq> yq_back q"
      unfolding yq_back_place [OF assms] by (subst yq_place_inj [OF assms]) auto
    moreover have "i < yq_length N q - 1" using i False by simp
    ultimately show ?thesis
      using i by (simp add: nth_append nth_butlast) (simp add: yq_set_back_def)
  qed
qed

text \<open>What a push makes of the fields.\<close>

lemma yq_push_fields:
  assumes ok: "yq_ok N q"
  obtains cs where "yq_chunks (yq_push N q) = yq_chunks q @ cs" "yq_begin_pos (yq_push N q) = yq_begin_pos q"
    "yq_end N (yq_push N q) = Suc (yq_end N q)"
    "yq_back_chunk (yq_push N q) = Some (last (yq_chunks q))" "yq_back_pos (yq_push N q) = yq_end_pos q"
    "\<And>a. fst a \<in> set (yq_chunks q) \<Longrightarrow> yq_values (yq_push N q) a = yq_values q a"
    "yq_ok N (yq_push N q)"
proof -
  have "N \<noteq> 0" "yq_chunks q \<noteq> []" using ok by (auto simp: yq_ok_def)
  have bk: "yq_chunks q ! (yq_end N q div N) = last (yq_chunks q)" "yq_end N q mod N = yq_end_pos q"
    using yq_end_split [OF ok] ok by (auto simp: last_conv_nth yq_ok_def)
  show thesis
  proof (cases "Suc (yq_end_pos q) = N")
    case False
    let ?q = "q\<lparr>yq_back_chunk := Some (last (yq_chunks q)), yq_back_pos := yq_end_pos q,
                yq_end_pos := Suc (yq_end_pos q)\<rparr>"
    have p: "yq_push N q = ?q" using False by (simp add: yq_push_def Let_def)
    have e: "yq_end N ?q = Suc (yq_end N q)" by (simp add: yq_end_def)
    have "yq_ok N ?q"
      using ok False bk unfolding yq_ok_def e by auto
    then show thesis using that [of "[]"] e unfolding p by simp
  next
    case True
    define c where "c = (case yq_spare q of Some c \<Rightarrow> c | None \<Rightarrow> yq_next q)"
    define n where "n = (case yq_spare q of Some c \<Rightarrow> yq_next q | None \<Rightarrow> Suc (yq_next q))"
    define vs where "vs = (case yq_spare q of Some c \<Rightarrow> yq_values q
        | None \<Rightarrow> (\<lambda>a. if fst a = yq_next q then None else yq_values q a))"
    let ?q = "\<lparr>yq_values = vs, yq_chunks = yq_chunks q @ [c], yq_begin_pos = yq_begin_pos q,
       yq_back_chunk = Some (last (yq_chunks q)), yq_back_pos = yq_end_pos q, yq_end_pos = 0,
       yq_spare = None, yq_next = n\<rparr>"
    have p: "yq_push N q = ?q" using True
      by (cases q) (auto simp: yq_push_def Let_def c_def n_def vs_def allocate_chunk_def split: option.split)
    have e: "yq_end N ?q = Suc (yq_end N q)"
      using True \<open>yq_chunks q \<noteq> []\<close> by (cases "length (yq_chunks q)") (auto simp: yq_end_def)
    have c: "c \<notin> set (yq_chunks q)" "c < n" "yq_next q \<le> n"
      using ok by (auto simp: yq_ok_def c_def n_def split: option.split)
    have len: "yq_end N q div N < length (yq_chunks q)"
      using yq_end_less [OF ok] by (simp add: less_mult_imp_div_less)
    have "yq_ok N ?q"
      using ok bk c len unfolding yq_ok_def e by (auto simp: nth_append)
    moreover have "vs a = yq_values q a" if "fst a \<in> set (yq_chunks q)" for a
      using that ok by (auto simp: vs_def yq_ok_def split: option.split)
    ultimately show thesis using that [of "[c]"] e unfolding p by simp
  qed
qed

lemma yq_push_place:
  assumes ok: "yq_ok N q"
  shows "yq_ok N (yq_push N q)" "yq_length N (yq_push N q) = Suc (yq_length N q)"
    and "i < yq_length N q \<Longrightarrow> yq_place N (yq_push N q) i = yq_place N q i"
    and "i < yq_length N q \<Longrightarrow> yq_values (yq_push N q) (yq_place N q i) = yq_values q (yq_place N q i)"
proof -
  obtain cs where f: "yq_chunks (yq_push N q) = yq_chunks q @ cs" "yq_begin_pos (yq_push N q) = yq_begin_pos q"
    "yq_end N (yq_push N q) = Suc (yq_end N q)"
    "\<And>a. fst a \<in> set (yq_chunks q) \<Longrightarrow> yq_values (yq_push N q) a = yq_values q a" "yq_ok N (yq_push N q)"
    using yq_push_fields [OF ok] by blast
  show "yq_ok N (yq_push N q)" by (rule f)
  show "yq_length N (yq_push N q) = Suc (yq_length N q)"
    using f(2,3) ok by (auto simp: yq_length_def yq_ok_def)
  assume i: "i < yq_length N q"
  note idx = yq_chunk_index [OF ok i]
  show "yq_place N (yq_push N q) i = yq_place N q i"
    using idx by (simp add: yq_place_def f(1,2) nth_append)
  show "yq_values (yq_push N q) (yq_place N q i) = yq_values q (yq_place N q i)"
    by (rule f(4)) (use idx in \<open>simp add: yq_place_def\<close>)
qed

lemma yq_push_items:
  assumes "yq_ok N q"
  shows "\<exists>x. yq_items N (yq_push N q) = yq_items N q @ [x]"
  using yq_push_place [OF assms] by (auto simp: yq_items_def)

lemma yq_pop_place:
  assumes ok: "yq_ok N q" and two: "1 < yq_length N q"
  shows "yq_ok N (yq_pop N q)" "Suc (yq_length N (yq_pop N q)) = yq_length N q"
    and "yq_place N (yq_pop N q) i = yq_place N q (Suc i)" "yq_values (yq_pop N q) = yq_values q"
proof -
  show "yq_values (yq_pop N q) = yq_values q" by (simp add: yq_pop_def Let_def)
  have N: "N \<noteq> 0" using ok by (auto simp: yq_ok_def)
  consider (same) "Suc (yq_begin_pos q) \<noteq> N" | (next_chunk) "Suc (yq_begin_pos q) = N" by blast
  then have "yq_ok N (yq_pop N q) \<and> Suc (yq_length N (yq_pop N q)) = yq_length N q \<and>
    yq_place N (yq_pop N q) i = yq_place N q (Suc i)"
  proof cases
    case same
    let ?q = "q\<lparr>yq_begin_pos := Suc (yq_begin_pos q)\<rparr>"
    have p: "yq_pop N q = ?q" using same by (simp add: yq_pop_def Let_def)
    have e: "yq_end N ?q = yq_end N q" by (simp add: yq_end_def)
    have "yq_ok N ?q" using ok same two unfolding yq_ok_def e by (auto simp: yq_length_def)
    then show ?thesis using two unfolding p by (auto simp: yq_length_def e yq_place_def)
  next
    case next_chunk
    then obtain c d ds where cs: "yq_chunks q = c # d # ds"
      using ok two by (cases "yq_chunks q"; cases "tl (yq_chunks q)")
        (auto simp: yq_ok_def yq_length_def yq_end_def)
    let ?q = "q\<lparr>yq_chunks := d # ds, yq_begin_pos := 0, yq_spare := Some c\<rparr>"
    have p: "yq_pop N q = ?q" using next_chunk cs by (simp add: yq_pop_def Let_def)
    have e: "yq_end N q = N + yq_end N ?q" by (simp add: yq_end_def cs)
    have pos: "0 < yq_end N ?q" using two next_chunk e by (simp add: yq_length_def)
    have bk: "(yq_end N q - 1) div N = Suc ((yq_end N ?q - 1) div N)"
      "(yq_end N q - 1) mod N = (yq_end N ?q - 1) mod N"
      using pos N unfolding e by (simp_all add: Nat.add_diff_assoc div_add_self1 flip: add_diff_assoc)
    have "yq_ok N ?q"
      using ok pos unfolding yq_ok_def bk cs by auto
    moreover have i: "yq_begin_pos q + Suc i = N + i" using next_chunk by simp
    have "yq_place N q (Suc i) = yq_place N ?q i"
      unfolding yq_place_def i cs using N by simp
    moreover have "Suc (yq_length N ?q) = yq_length N q"
      using e next_chunk pos by (simp add: yq_length_def)
    ultimately show ?thesis unfolding p by simp
  qed
  then show "yq_ok N (yq_pop N q)" "Suc (yq_length N (yq_pop N q)) = yq_length N q"
    "yq_place N (yq_pop N q) i = yq_place N q (Suc i)" by blast+
qed

lemma yq_pop_items:
  assumes "yq_ok N q" "1 < yq_length N q"
  shows "yq_items N (yq_pop N q) = tl (yq_items N q)"
  using yq_pop_place [OF assms] by (auto intro!: nth_equalityI simp: nth_tl)

lemma chunk_end:
  fixes N :: nat
  assumes "0 < N"
  shows "(k * N + (N - 1)) div N = k" "(k * N + (N - 1)) mod N = N - 1"
proof -
  obtain n where "N = Suc n" using assms gr0_implies_Suc by blast
  then show "(k * N + (N - 1)) div N = k" "(k * N + (N - 1)) mod N = N - 1"
    by (simp_all only: diff_Suc_1 div_mult_self3 mod_mult_self3) simp_all
qed

lemma prev_chunk_nth:
  assumes "distinct cs" "Suc i < length cs"
  shows "prev_chunk cs (cs ! Suc i) = cs ! i"
proof -
  have "takeWhile (\<lambda>x. x \<noteq> cs ! Suc i) cs = take (Suc i) cs"
  proof (rule takeWhile_eq_take_P_nth)
    fix j assume "j < Suc i" "j < length cs"
    then show "cs ! j \<noteq> cs ! Suc i" using assms by (auto simp: nth_eq_iff_index_eq)
  qed auto
  then show ?thesis using assms(2) by (simp add: prev_chunk_def take_Suc_conv_app_nth)
qed

lemma yq_unpush_eq:
  assumes "yq_back_chunk q = Some c"
    and "(if yq_back_pos q \<noteq> 0 then (yq_back_pos q - 1, c) else (N - 1, prev_chunk (yq_chunks q) c)) = (bp, bc)"
  shows "yq_unpush N q =
    (if yq_end_pos q \<noteq> 0 then q\<lparr>yq_back_pos := bp, yq_back_chunk := Some bc, yq_end_pos := yq_end_pos q - 1\<rparr>
     else q\<lparr>yq_back_pos := bp, yq_back_chunk := Some bc, yq_end_pos := N - 1, yq_chunks := butlast (yq_chunks q)\<rparr>)"
  using assms by (cases q) (auto simp: yq_unpush_def split: if_splits)

lemma yq_unpush_fields:
  assumes ok: "yq_ok N q" and two: "1 < yq_length N q"
  shows "yq_chunks (yq_unpush N q) = take (Suc ((yq_end N q - 1) div N)) (yq_chunks q) \<and>
    yq_begin_pos (yq_unpush N q) = yq_begin_pos q \<and> yq_values (yq_unpush N q) = yq_values q \<and>
    Suc (yq_end N (yq_unpush N q)) = yq_end N q \<and> yq_ok N (yq_unpush N q)"
proof -
  define E where "E = yq_end N q"
  define cs where "cs = yq_chunks q"
  have f: "N \<noteq> 0" "cs \<noteq> []" "distinct cs" "yq_end_pos q < N" "E = (length cs - 1) * N + yq_end_pos q"
    using ok by (auto simp: yq_ok_def E_def yq_end_def cs_def)
  have E2: "Suc (yq_begin_pos q) < E" using two by (simp add: yq_length_def E_def)
  have bk: "yq_back_chunk q = Some (cs ! ((E - 1) div N))" "yq_back_pos q = (E - 1) mod N"
    using ok by (auto simp: yq_ok_def E_def cs_def)
  have lenE: "(E - 1) div N < length cs"
    using yq_end_less [OF ok] by (simp add: E_def cs_def less_mult_imp_div_less)
  let ?b = "(if (E - 1) mod N \<noteq> 0 then ((E - 1) mod N - 1, cs ! ((E - 1) div N))
             else (N - 1, prev_chunk cs (cs ! ((E - 1) div N))))"
  have b: "?b = ((E - 2) mod N, cs ! ((E - 2) div N))"
  proof (cases "(E - 1) mod N = 0")
    case False
    have "E - 1 = Suc (E - 2)" using E2 by simp
    with False have "(E - 2) mod N = (E - 1) mod N - 1" "(E - 2) div N = (E - 1) div N"
      by (metis diff_Suc_1 mod_Suc zero_neq_one, metis div_Suc)
    with False show ?thesis by simp
  next
    case True
    define m where "m = (E - 1) div N"
    have "E - 1 = m * N" using True unfolding m_def by (metis add.right_neutral div_mult_mod_eq)
    moreover have "0 < E - 1" using E2 by simp
    ultimately have m: "0 < m" by auto
    then obtain k where k: "m = Suc k" using gr0_implies_Suc by blast
    have "E - 2 = k * N + (N - 1)" using \<open>E - 1 = m * N\<close> k f(1) by simp
    then have "(E - 2) div N = k" "(E - 2) mod N = N - 1" using chunk_end [of N k] f(1) by simp_all
    then show ?thesis using True prev_chunk_nth [OF f(3), of k] lenE k by (simp add: m_def)
  qed
  let ?q = "q\<lparr>yq_back_pos := (E - 2) mod N, yq_back_chunk := Some (cs ! ((E - 2) div N))\<rparr>"
  have p: "yq_unpush N q = (if yq_end_pos q \<noteq> 0 then ?q\<lparr>yq_end_pos := yq_end_pos q - 1\<rparr>
      else ?q\<lparr>yq_end_pos := N - 1, yq_chunks := butlast cs\<rparr>)"
    unfolding cs_def by (rule yq_unpush_eq [OF bk(1) [unfolded cs_def] b [folded bk(2), unfolded cs_def]])
  define q' where "q' = yq_unpush N q"
  have "yq_chunks q' = take (Suc ((E - 1) div N)) cs \<and> yq_end_pos q' < N \<and> Suc (yq_end N q') = E"
  proof (cases "yq_end_pos q = 0")
    case False
    then obtain j where j: "yq_end_pos q = Suc j" using not0_implies_Suc by blast
    then have "E - 1 = (length cs - 1) * N + j" "j < N" using f(4,5) by simp_all
    then have "(E - 1) div N = length cs - 1" by simp
    with False f show ?thesis by (auto simp: q'_def p yq_end_def cs_def)
  next
    case True
    with f E2 obtain k where k: "length cs = Suc (Suc k)" by (cases "length cs"; cases "length cs - 1") auto
    have "E - 1 = k * N + (N - 1)" using f(1,5) True k by simp
    then have "(E - 1) div N = k" using chunk_end [of N k] f(1) by simp
    with True f k show ?thesis by (auto simp: q'_def p yq_end_def cs_def butlast_conv_take)
  qed
  then have c: "yq_chunks q' = take (Suc ((E - 1) div N)) cs" "yq_end_pos q' < N" "Suc (yq_end N q') = E"
    by auto
  have same: "yq_begin_pos q' = yq_begin_pos q" "yq_values q' = yq_values q" "yq_spare q' = yq_spare q"
    "yq_next q' = yq_next q" "yq_back_pos q' = (E - 2) mod N" "yq_back_chunk q' = Some (cs ! ((E - 2) div N))"
    by (auto simp: q'_def p)
  have "(E - 2) div N \<le> (E - 1) div N" by (rule div_le_mono) simp
  moreover have "yq_end N q' = E - 1" using c(3) by simp
  ultimately have "yq_ok N q'"
    using ok f(2,3) E2 unfolding yq_ok_def c(1) same cs_def [symmetric]
    by (auto simp: c(2) numeral_2_eq_2 dest: in_set_takeD)
  with c same show ?thesis unfolding q'_def E_def cs_def by blast
qed

lemma yq_unpush_place:
  assumes ok: "yq_ok N q" and two: "1 < yq_length N q"
  shows "yq_ok N (yq_unpush N q)" "Suc (yq_length N (yq_unpush N q)) = yq_length N q"
    and "yq_values (yq_unpush N q) = yq_values q"
    and "i < yq_length N q \<Longrightarrow> yq_place N (yq_unpush N q) i = yq_place N q i"
proof -
  note f = yq_unpush_fields [OF ok two]
  show "yq_ok N (yq_unpush N q)" "yq_values (yq_unpush N q) = yq_values q" using f by blast+
  show "Suc (yq_length N (yq_unpush N q)) = yq_length N q"
    using f two by (auto simp: yq_length_def)
  assume i: "i < yq_length N q"
  then have "yq_begin_pos q + i \<le> yq_end N q - 1" by (simp add: yq_length_def)
  then have "(yq_begin_pos q + i) div N \<le> (yq_end N q - 1) div N" by (rule div_le_mono)
  then show "yq_place N (yq_unpush N q) i = yq_place N q i"
    using f by (auto simp: yq_place_def)
qed

lemma yq_unpush_items:
  assumes "yq_ok N q" "1 < yq_length N q"
  shows "yq_items N (yq_unpush N q) = butlast (yq_items N q)"
  using yq_unpush_place [OF assms] by (auto intro!: nth_equalityI simp: nth_butlast)

text \<open>The queue of a new pipe: one push after the construction.\<close>

lemma yq_new_push:
  assumes "0 < N"
  shows "yq_ok N (yq_push N yqueue_new)" "yq_length N (yq_push N yqueue_new) = 1"
  using assms
  by (cases "N = 1"; simp add: yq_ok_def yq_push_def yqueue_new_def Let_def allocate_chunk_def
      yq_end_def yq_length_def)+

end
