(* ===== verification/Ypipe.thy ===== *)
theory Ypipe
  imports Yqueue
begin

text \<open>
  \<open>libzmq/ypipe.hpp\<close>: the lock-free pipe between a writing and a reading thread. The four
  pointers of the code are places of the queue: \<open>w\<close> the first item that is not flushed, \<open>f\<close> the
  first item of a message that is not complete, \<open>r\<close> the first item that is not prefetched and
  \<open>c\<close>, the only one both threads use, the place behind the last flushed item, or null while the
  reader sleeps. Each member function is one step: the only shared accesses are the two
  compare-and-swap operations, one in each of the functions that have one.
\<close>

section \<open>The pipe\<close>

record 'a ypipe =
  yp_queue :: "'a yqueue"
  yp_w :: place
  yp_r :: "place option"
  yp_f :: place
  yp_c :: "place option"

definition ypipe_new :: "nat \<Rightarrow> 'a ypipe" where
  "ypipe_new N =
     (let q = yq_push N yqueue_new in
      \<lparr>yp_queue = q, yp_w = yq_back q, yp_r = Some (yq_back q), yp_f = yq_back q, yp_c = Some (yq_back q)\<rparr>)"

definition ypipe_write :: "nat \<Rightarrow> 'a \<Rightarrow> bool \<Rightarrow> 'a ypipe \<Rightarrow> 'a ypipe" where
  "ypipe_write N value incomplete p =
     (let q = yq_push N (yq_set_back value (yp_queue p)); p = p\<lparr>yp_queue := q\<rparr> in
      if \<not> incomplete then p\<lparr>yp_f := yq_back q\<rparr> else p)"

text \<open>The item that is taken back, when there is one.\<close>

definition ypipe_unwrite :: "nat \<Rightarrow> 'a ypipe \<Rightarrow> 'a option option \<times> 'a ypipe" where
  "ypipe_unwrite N p =
     (if yp_f p = yq_back (yp_queue p) then (None, p)
      else let q = yq_unpush N (yp_queue p) in (Some (yq_values q (yq_back q)), p\<lparr>yp_queue := q\<rparr>))"

text \<open>\<open>atomic_ptr_t::cas\<close>: the old value is returned.\<close>

definition cas :: "place option \<Rightarrow> place option \<Rightarrow> 'a ypipe \<Rightarrow> place option \<times> 'a ypipe" where
  "cas expected new p = (yp_c p, if yp_c p = expected then p\<lparr>yp_c := new\<rparr> else p)"

definition ypipe_flush :: "'a ypipe \<Rightarrow> bool \<times> 'a ypipe" where
  "ypipe_flush p =
     (if yp_w p = yp_f p then (True, p)
      else case cas (Some (yp_w p)) (Some (yp_f p)) p of (old, p) \<Rightarrow>
        if old \<noteq> Some (yp_w p) then (False, p\<lparr>yp_c := Some (yp_f p), yp_w := yp_f p\<rparr>)
        else (True, p\<lparr>yp_w := yp_f p\<rparr>))"

definition ypipe_check_read :: "'a ypipe \<Rightarrow> bool \<times> 'a ypipe" where
  "ypipe_check_read p =
     (let front = Some (yq_front (yp_queue p)) in
      if front \<noteq> yp_r p \<and> yp_r p \<noteq> None then (True, p)
      else case cas front None p of (r, p) \<Rightarrow> (\<not> (front = r \<or> r = None), p\<lparr>yp_r := r\<rparr>))"

definition ypipe_read :: "nat \<Rightarrow> 'a ypipe \<Rightarrow> 'a option option \<times> 'a ypipe" where
  "ypipe_read N p =
     (case ypipe_check_read p of (ok, p) \<Rightarrow>
        if \<not> ok then (None, p)
        else (Some (yq_values (yp_queue p) (yq_front (yp_queue p))), p\<lparr>yp_queue := yq_pop N (yp_queue p)\<rparr>))"

text \<open>\<open>probe\<close> looks at the first item; without one it fails an assertion.\<close>

definition ypipe_probe :: "('a option \<Rightarrow> bool) \<Rightarrow> 'a ypipe \<Rightarrow> bool option \<times> 'a ypipe" where
  "ypipe_probe fn p =
     (case ypipe_check_read p of (ok, p) \<Rightarrow>
        (if ok then Some (fn (yq_values (yp_queue p) (yq_front (yp_queue p)))) else None, p))"

section \<open>What a pipe promises\<close>

text \<open>
  The specification: items that can be read, items of complete messages that are not flushed,
  items of a message that is being written, and whether the reader has gone to sleep.
\<close>

record 'a chan =
  flushed :: "'a list"
  ready :: "'a list"
  partial :: "'a list"
  asleep :: bool

definition chan_new :: "'a chan" where
  "chan_new = \<lparr>flushed = [], ready = [], partial = [], asleep = False\<rparr>"

definition chan_write :: "'a \<Rightarrow> bool \<Rightarrow> 'a chan \<Rightarrow> 'a chan" where
  "chan_write v incomplete c =
     (if incomplete then c\<lparr>partial := partial c @ [v]\<rparr>
      else c\<lparr>ready := ready c @ partial c @ [v], partial := []\<rparr>)"

definition chan_unwrite :: "'a chan \<Rightarrow> 'a option \<times> 'a chan" where
  "chan_unwrite c =
     (if partial c = [] then (None, c)
      else (Some (last (partial c)), c\<lparr>partial := butlast (partial c)\<rparr>))"

definition chan_flush :: "'a chan \<Rightarrow> bool \<times> 'a chan" where
  "chan_flush c =
     (if ready c = [] then (True, c)
      else (\<not> asleep c, c\<lparr>flushed := flushed c @ ready c, ready := [], asleep := False\<rparr>))"

definition chan_check_read :: "'a chan \<Rightarrow> bool \<times> 'a chan" where
  "chan_check_read c = (flushed c \<noteq> [], if flushed c = [] then c\<lparr>asleep := True\<rparr> else c)"

definition chan_read :: "'a chan \<Rightarrow> 'a option \<times> 'a chan" where
  "chan_read c =
     (case flushed c of
        [] \<Rightarrow> (None, c\<lparr>asleep := True\<rparr>)
      | v # vs \<Rightarrow> (Some v, c\<lparr>flushed := vs\<rparr>))"

text \<open>
  A run of operations on the specification, and the items of the messages that the operations
  complete, in order.
\<close>

datatype 'a chan_op = Write 'a bool | Unwrite | Flush | CheckRead | Read

primrec chan_run :: "'a chan_op list \<Rightarrow> 'a chan \<Rightarrow> 'a list \<times> 'a chan" where
  "chan_run [] c = ([], c)"
| "chan_run (op # ops) c =
     (case op of
        Write v incomplete \<Rightarrow> chan_run ops (chan_write v incomplete c)
      | Unwrite \<Rightarrow> chan_run ops (snd (chan_unwrite c))
      | Flush \<Rightarrow> chan_run ops (snd (chan_flush c))
      | CheckRead \<Rightarrow> chan_run ops (snd (chan_check_read c))
      | Read \<Rightarrow> (case chan_read c of (r, c) \<Rightarrow> case chan_run ops c of (rs, c) \<Rightarrow>
          (case r of None \<Rightarrow> rs | Some v \<Rightarrow> v # rs, c)))"

primrec committed :: "'a list \<Rightarrow> 'a chan_op list \<Rightarrow> 'a list" where
  "committed part [] = []"
| "committed part (op # ops) =
     (case op of
        Write v incomplete \<Rightarrow>
          if incomplete then committed (part @ [v]) ops else part @ v # committed [] ops
      | Unwrite \<Rightarrow> committed (butlast part) ops
      | _ \<Rightarrow> committed part ops)"

lemma chan_run_committed:
  "fst (chan_run ops c) @ flushed (snd (chan_run ops c)) @ ready (snd (chan_run ops c)) =
     flushed c @ ready c @ committed (partial c) ops"
proof (induction ops arbitrary: c)
  case (Cons op ops)
  show ?case
  proof (cases op)
    case Read
    then show ?thesis using Cons.IH [of "snd (chan_read c)"]
      by (auto simp: chan_read_def split: list.split prod.split)
  qed (use Cons.IH in \<open>auto simp: chan_write_def chan_unwrite_def chan_flush_def chan_check_read_def\<close>)
qed simp

lemma chan_run_append:
  "chan_run (xs @ ys) c =
     (let r = chan_run xs c; r' = chan_run ys (snd r) in (fst r @ fst r', snd r'))"
  by (induction xs arbitrary: c)
    (auto simp: Let_def split: chan_op.split prod.split option.split)

lemma chan_run_reads:
  "chan_run (replicate n Read) c =
     (take n (flushed c), c\<lparr>flushed := drop n (flushed c),
        asleep := asleep c \<or> length (flushed c) < n\<rparr>)"
proof (induction n arbitrary: c)
  case (Suc n)
  then show ?case by (cases "flushed c") (auto simp: chan_read_def)
qed simp

lemma chan_run_delivers:
  assumes "length (committed [] ops) \<le> n"
  shows "fst (chan_run (ops @ Flush # replicate n Read) chan_new) = committed [] ops"
proof -
  let ?r = "chan_run ops chan_new"
  let ?c = "snd (chan_flush (snd ?r))"
  have c: "fst ?r @ flushed (snd ?r) @ ready (snd ?r) = committed [] ops"
    using chan_run_committed [of ops chan_new] by (simp add: chan_new_def)
  have f: "flushed ?c = flushed (snd ?r) @ ready (snd ?r)" by (simp add: chan_flush_def)
  have "length (flushed ?c) \<le> n" using assms c f by (metis length_append le_add2 le_trans)
  then show ?thesis using c f by (simp add: chan_run_append Let_def chan_run_reads)
qed

section \<open>The interface and its client\<close>

text \<open>Runs of operations on a pipe, in any order: the values that are read are collected.\<close>

primrec channel_run ::
  "('a \<Rightarrow> bool \<Rightarrow> 'p \<Rightarrow> 'p) \<Rightarrow> ('p \<Rightarrow> 'a option option \<times> 'p) \<Rightarrow> ('p \<Rightarrow> bool \<times> 'p) \<Rightarrow>
   ('p \<Rightarrow> bool \<times> 'p) \<Rightarrow> ('p \<Rightarrow> 'a option option \<times> 'p) \<Rightarrow> 'a chan_op list \<Rightarrow> 'p \<Rightarrow> 'a option list \<times> 'p" where
  "channel_run put unput push check get [] p = ([], p)"
| "channel_run put unput push check get (op # ops) p =
     (case op of
        Write v incomplete \<Rightarrow> channel_run put unput push check get ops (put v incomplete p)
      | Unwrite \<Rightarrow> channel_run put unput push check get ops (snd (unput p))
      | Flush \<Rightarrow> channel_run put unput push check get ops (snd (push p))
      | CheckRead \<Rightarrow> channel_run put unput push check get ops (snd (check p))
      | Read \<Rightarrow> (case get p of (r, p) \<Rightarrow> case channel_run put unput push check get ops p of (rs, p) \<Rightarrow>
          (case r of None \<Rightarrow> rs | Some v \<Rightarrow> v # rs, p)))"

text \<open>
  A pipe implements the specification when there is a relation that every operation keeps, with
  the same answers.
\<close>

locale message_channel =
  fixes put :: "'a \<Rightarrow> bool \<Rightarrow> 'p \<Rightarrow> 'p"
    and unput :: "'p \<Rightarrow> 'a option option \<times> 'p"
    and push :: "'p \<Rightarrow> bool \<times> 'p"
    and check :: "'p \<Rightarrow> bool \<times> 'p"
    and get :: "'p \<Rightarrow> 'a option option \<times> 'p"
    and rel :: "'p \<Rightarrow> 'a chan \<Rightarrow> bool"
  assumes rel_write: "rel p c \<Longrightarrow> rel (put v incomplete p) (chan_write v incomplete c)"
    and rel_unwrite: "rel p c \<Longrightarrow>
      fst (unput p) = map_option Some (fst (chan_unwrite c)) \<and> rel (snd (unput p)) (snd (chan_unwrite c))"
    and rel_flush: "rel p c \<Longrightarrow>
      fst (push p) = fst (chan_flush c) \<and> rel (snd (push p)) (snd (chan_flush c))"
    and rel_check_read: "rel p c \<Longrightarrow>
      fst (check p) = fst (chan_check_read c) \<and> rel (snd (check p)) (snd (chan_check_read c))"
    and rel_read: "rel p c \<Longrightarrow>
      fst (get p) = map_option Some (fst (chan_read c)) \<and> rel (snd (get p)) (snd (chan_read c))"
begin

lemma run_spec:
  assumes "rel p c"
  shows "fst (channel_run put unput push check get ops p) = map Some (fst (chan_run ops c)) \<and>
    rel (snd (channel_run put unput push check get ops p)) (snd (chan_run ops c))"
  using assms
proof (induction ops arbitrary: p c)
  case (Cons op ops)
  show ?case
  proof (cases op)
    case (Write v i)
    then show ?thesis using Cons.IH [OF rel_write [OF Cons.prems]] by simp
  next
    case Unwrite
    then show ?thesis using Cons.IH rel_unwrite [OF Cons.prems] by simp
  next
    case Flush
    then show ?thesis using Cons.IH rel_flush [OF Cons.prems] by simp
  next
    case CheckRead
    then show ?thesis using Cons.IH rel_check_read [OF Cons.prems] by simp
  next
    case Read
    obtain r p' where g: "get p = (r, p')" by fastforce
    obtain r' c' where h: "chan_read c = (r', c')" by fastforce
    have "r = map_option Some r'" "rel p' c'" using rel_read [OF Cons.prems] g h by auto
    then show ?thesis using Cons.IH [of p' c'] Read g h
      by (auto split: option.split prod.split)
  qed
qed simp

end

section \<open>The lock-free pipe implements the specification\<close>

definition ypipe_rel :: "nat \<Rightarrow> 'a ypipe \<Rightarrow> 'a chan \<Rightarrow> bool" where
  "ypipe_rel N p c \<longleftrightarrow>
     (let q = yp_queue p; fl = flushed c; co = ready c; pa = partial c in
      yq_ok N q \<and> (\<exists>x. yq_items N q = map Some (fl @ co @ pa) @ [x]) \<and>
      yp_w p = yq_place N q (length fl) \<and> yp_f p = yq_place N q (length fl + length co) \<and>
      yp_c p = (if asleep c then None else Some (yq_place N q (length fl))) \<and>
      (asleep c \<longrightarrow> fl = []) \<and>
      (yp_r p = None \<or> (\<exists>i \<le> length fl. yp_r p = Some (yq_place N q i))))"

lemma ypipe_relD:
  assumes "ypipe_rel N p c"
  shows "yq_ok N (yp_queue p)"
    and "\<exists>x. yq_items N (yp_queue p) = map Some (flushed c @ ready c @ partial c) @ [x]"
    and "yp_w p = yq_place N (yp_queue p) (length (flushed c))"
    and "yp_f p = yq_place N (yp_queue p) (length (flushed c) + length (ready c))"
    and "yp_c p = (if asleep c then None else Some (yq_place N (yp_queue p) (length (flushed c))))"
    and "asleep c \<Longrightarrow> flushed c = []"
    and "yp_r p = None \<or> (\<exists>i \<le> length (flushed c). yp_r p = Some (yq_place N (yp_queue p) i))"
  using assms unfolding ypipe_rel_def Let_def by blast+

lemma ypipe_rel_length:
  assumes "ypipe_rel N p c"
  shows "yq_length N (yp_queue p) = Suc (length (flushed c) + length (ready c) + length (partial c))"
proof -
  obtain x where "yq_items N (yp_queue p) = map Some (flushed c @ ready c @ partial c) @ [x]"
    using ypipe_relD(2) [OF assms] by blast
  from arg_cong [OF this, of length] show ?thesis by simp
qed

lemma ypipe_rel_new: "0 < N \<Longrightarrow> ypipe_rel N (ypipe_new N :: 'a ypipe) chan_new"
proof -
  assume N: "0 < N"
  have q: "yq_ok N (yq_push N yqueue_new :: 'a yqueue)" "yq_length N (yq_push N yqueue_new :: 'a yqueue) = 1"
    by (rule yq_new_push [OF N])+
  have "yq_back (yq_push N yqueue_new :: 'a yqueue) = yq_place N (yq_push N yqueue_new :: 'a yqueue) 0"
    using yq_back_place [OF q(1)] q(2) by simp
  moreover have "\<exists>x. yq_items N (yq_push N yqueue_new :: 'a yqueue) = [x]"
    using q(2) by (simp add: yq_items_def)
  ultimately show ?thesis using q by (simp add: ypipe_rel_def ypipe_new_def chan_new_def Let_def)
qed

lemma ypipe_rel_write:
  assumes rel: "ypipe_rel N p c"
  shows "ypipe_rel N (ypipe_write N v incomplete p) (chan_write v incomplete c)"
proof -
  let ?q = "yp_queue p" and ?q1 = "yq_set_back v (yp_queue p)"
  let ?q2 = "yq_push N ?q1"
  have ok: "yq_ok N ?q" using rel by (simp add: ypipe_rel_def Let_def)
  then have ok1: "yq_ok N ?q1" by simp
  note pl = yq_push_place [OF ok1] and len = ypipe_rel_length [OF rel]
  obtain x where "yq_items N ?q = map Some (flushed c @ ready c @ partial c) @ [x]"
    using rel by (auto simp: ypipe_rel_def Let_def)
  then have "yq_items N ?q1 = map Some (flushed c @ ready c @ partial c @ [v])"
    by (simp add: yq_set_back_items [OF ok] butlast_append)
  then have items: "\<exists>y. yq_items N ?q2 = map Some (flushed c @ ready c @ partial c @ [v]) @ [y]"
    using yq_push_items [OF ok1] by auto
  have bk: "yq_back ?q2 = yq_place N ?q2 (length (flushed c) + length (ready c) + length (partial c) + 1)"
    using yq_back_place [OF pl(1)] pl(2) len by (simp add: add.assoc)
  have same: "yq_place N ?q2 i = yq_place N ?q i"
    if "i \<le> length (flushed c) + length (ready c)" for i
    using pl(3) [of i] that len by simp
  show ?thesis
    using rel items bk pl(1) same
    by (cases incomplete) (auto simp: ypipe_rel_def ypipe_write_def chan_write_def Let_def add.assoc)
qed

lemma ypipe_rel_unwrite:
  assumes rel: "ypipe_rel N p c"
  shows "fst (ypipe_unwrite N p) = map_option Some (fst (chan_unwrite c)) \<and>
    ypipe_rel N (snd (ypipe_unwrite N p)) (snd (chan_unwrite c))"
proof -
  let ?q = "yp_queue p" and ?k = "length (flushed c) + length (ready c)"
  let ?u = "yq_unpush N ?q"
  have ok: "yq_ok N ?q" and f: "yp_f p = yq_place N ?q ?k" using rel by (auto simp: ypipe_rel_def Let_def)
  note len = ypipe_rel_length [OF rel]
  have none: "yp_f p = yq_back ?q \<longleftrightarrow> partial c = []"
    unfolding f yq_back_place [OF ok] using len by (subst yq_place_inj [OF ok]) auto
  show ?thesis
  proof (cases "partial c = []")
    case True
    then show ?thesis using rel none by (simp add: ypipe_unwrite_def chan_unwrite_def)
  next
    case False
    then have two: "1 < yq_length N ?q" using len by (cases "partial c") auto
    note pl = yq_unpush_place [OF ok two]
    obtain x where it: "yq_items N ?q = map Some (flushed c @ ready c @ partial c) @ [x]"
      using rel by (auto simp: ypipe_rel_def Let_def)
    obtain ys y where y: "partial c = ys @ [y]" using False by (cases "partial c" rule: rev_cases) auto
    have items: "yq_items N ?u = map Some (flushed c @ ready c @ butlast (partial c)) @ [Some (last (partial c))]"
      unfolding yq_unpush_items [OF ok two] it y by (simp add: butlast_append)
    have "yq_values ?u (yq_back ?u) = last (yq_items N ?u)"
      using yq_back_place [OF pl(1)] yq_ok_length [OF pl(1)] by (simp add: last_conv_nth yq_items_def)
    then have v: "yq_values ?u (yq_back ?u) = Some (last (partial c))" by (simp add: items)
    have same: "yq_place N ?u i = yq_place N ?q i" if "i \<le> ?k" for i using pl(4) [of i] that len by simp
    have "yp_r p = None \<or> (\<exists>i \<le> length (flushed c). yp_r p = Some (yq_place N ?u i))"
      using ypipe_relD(7) [OF rel] same by (metis trans_le_add1)
    then have "ypipe_rel N (p\<lparr>yp_queue := ?u\<rparr>) (c\<lparr>partial := butlast (partial c)\<rparr>)"
      using ypipe_relD(3-6) [OF rel] items pl(1) by (simp add: ypipe_rel_def Let_def same)
    then show ?thesis using False none v by (simp add: ypipe_unwrite_def chan_unwrite_def Let_def)
  qed
qed

lemma ypipe_rel_flush:
  assumes rel: "ypipe_rel N p c"
  shows "fst (ypipe_flush p) = fst (chan_flush c) \<and> ypipe_rel N (snd (ypipe_flush p)) (snd (chan_flush c))"
proof -
  note d = ypipe_relD [OF rel]
  have e: "yp_w p = yp_f p \<longleftrightarrow> ready c = []"
    unfolding d(3,4) using ypipe_rel_length [OF rel] by (subst yq_place_inj [OF d(1)]) auto
  show ?thesis
  proof (cases "ready c = []")
    case True
    with rel e show ?thesis by (simp add: ypipe_flush_def chan_flush_def)
  next
    case False
    have "yp_c p = (if asleep c then None else Some (yp_w p))" using d(3,5) by simp
    then have run: "ypipe_flush p = (\<not> asleep c, p\<lparr>yp_c := Some (yp_f p), yp_w := yp_f p\<rparr>)"
      using False e by (cases "asleep c") (simp_all add: ypipe_flush_def cas_def)
    have "yp_r p = None \<or> (\<exists>i \<le> length (flushed c) + length (ready c). yp_r p = Some (yq_place N (yp_queue p) i))"
      using d(7) trans_le_add1 by blast
    then have "ypipe_rel N (p\<lparr>yp_c := Some (yp_f p), yp_w := yp_f p\<rparr>)
        (c\<lparr>flushed := flushed c @ ready c, ready := [], asleep := False\<rparr>)"
      using d(1,2,4) by (simp add: ypipe_rel_def Let_def)
    with run False show ?thesis by (simp add: chan_flush_def)
  qed
qed

text \<open>After a successful check the reader has prefetched more than the first item.\<close>

lemma check_read_prefetched:
  "ypipe_check_read p = (True, p') \<Longrightarrow> yp_r p' \<noteq> None \<and> yp_r p' \<noteq> Some (yq_front (yp_queue p'))"
  by (auto simp: ypipe_check_read_def cas_def Let_def split: if_splits)

lemma ypipe_rel_check_read:
  assumes rel: "ypipe_rel N p c"
  shows "fst (ypipe_check_read p) = fst (chan_check_read c) \<and>
    ypipe_rel N (snd (ypipe_check_read p)) (snd (chan_check_read c))"
proof -
  let ?q = "yp_queue p"
  note d = ypipe_relD [OF rel] and len = ypipe_rel_length [OF rel]
  have inj: "yq_place N ?q i = yq_front ?q \<longleftrightarrow> i = 0" if "i \<le> length (flushed c)" for i
    unfolding yq_front_place [OF d(1)] using len that by (subst yq_place_inj [OF d(1)]) auto
  show ?thesis
  proof (cases "\<exists>i \<le> length (flushed c). 0 < i \<and> yp_r p = Some (yq_place N ?q i)")
    case True
    then obtain i where i: "i \<le> length (flushed c)" "0 < i" "yp_r p = Some (yq_place N ?q i)" by blast
    then have "yp_r p \<noteq> None" "Some (yq_front ?q) \<noteq> yp_r p" using inj [OF i(1)] by auto
    then have "ypipe_check_read p = (True, p)" by (simp add: ypipe_check_read_def Let_def)
    moreover have "flushed c \<noteq> []" using i by auto
    ultimately show ?thesis using rel by (simp add: chan_check_read_def)
  next
    case False
    then have "yp_r p = None \<or> yp_r p = Some (yq_front ?q)"
      using d(7) yq_front_place [OF d(1)] by (metis gr0I)
    then have "ypipe_check_read p =
        (case cas (Some (yq_front ?q)) None p of (r, p) \<Rightarrow>
           (\<not> (Some (yq_front ?q) = r \<or> r = None), p\<lparr>yp_r := r\<rparr>))"
      by (auto simp: ypipe_check_read_def Let_def)
    moreover have "yp_c p = (if asleep c then None else if flushed c = [] then Some (yq_front ?q)
        else Some (yq_place N ?q (length (flushed c))))"
      using d(5) yq_front_place [OF d(1)] by simp
    ultimately have run: "ypipe_check_read p =
        (if asleep c then (False, p\<lparr>yp_r := None\<rparr>)
         else if flushed c = [] then (False, p\<lparr>yp_c := None, yp_r := Some (yq_front ?q)\<rparr>)
         else (True, p\<lparr>yp_r := Some (yq_place N ?q (length (flushed c)))\<rparr>))"
      using inj [of "length (flushed c)"] by (auto simp: cas_def)
    show ?thesis
    proof (cases "asleep c \<or> flushed c \<noteq> []")
      case True
      with run d show ?thesis
        by (cases "asleep c") (simp_all add: chan_check_read_def ypipe_rel_def Let_def, blast)
    next
      case False
      with run d show ?thesis
        by (simp add: chan_check_read_def ypipe_rel_def Let_def yq_front_place [OF d(1)])
    qed
  qed
qed

lemma ypipe_rel_read:
  assumes rel: "ypipe_rel N p c"
  shows "fst (ypipe_read N p) = map_option Some (fst (chan_read c)) \<and>
    ypipe_rel N (snd (ypipe_read N p)) (snd (chan_read c))"
proof -
  obtain b p1 where ck: "ypipe_check_read p = (b, p1)" by fastforce
  then have b: "b \<longleftrightarrow> flushed c \<noteq> []" and r1: "ypipe_rel N p1 (snd (chan_check_read c))"
    using ypipe_rel_check_read [OF rel] by (auto simp: chan_check_read_def)
  show ?thesis
  proof (cases "flushed c")
    case Nil
    with b ck r1 show ?thesis by (simp add: ypipe_read_def chan_read_def chan_check_read_def)
  next
    case (Cons v vs)
    let ?q = "yp_queue p1"
    have r1: "ypipe_rel N p1 c" using r1 Cons by (simp add: chan_check_read_def)
    note d = ypipe_relD [OF r1]
    have two: "1 < yq_length N ?q" using ypipe_rel_length [OF r1] Cons by simp
    note pl = yq_pop_place [OF d(1) two]
    obtain x where it: "yq_items N ?q = map Some (flushed c @ ready c @ partial c) @ [x]"
      using d(2) by blast
    have "yq_values ?q (yq_front ?q) = yq_items N ?q ! 0"
      using two by (simp add: yq_front_place [OF d(1)])
    then have v: "yq_values ?q (yq_front ?q) = Some v" by (simp add: it Cons)
    obtain i where i: "i \<le> length (flushed c)" "yp_r p1 = Some (yq_place N ?q i)" "i \<noteq> 0"
      using check_read_prefetched [of p p1] ck b Cons d(7) yq_front_place [OF d(1)] by auto
    then obtain j where j: "i = Suc j" using not0_implies_Suc by blast
    have "asleep c = False" using d(6) Cons by auto
    then have "ypipe_rel N (p1\<lparr>yp_queue := yq_pop N ?q\<rparr>) (c\<lparr>flushed := vs\<rparr>)"
      using d(3-5) i Cons pl(1) yq_pop_items [OF d(1) two] it
      by (auto simp: ypipe_rel_def Let_def pl(3) j)
    with ck b v Cons show ?thesis by (simp add: ypipe_read_def chan_read_def)
  qed
qed

interpretation yp: message_channel "ypipe_write N" "ypipe_unwrite N" ypipe_flush ypipe_check_read
  "ypipe_read N" "ypipe_rel N" for N
  by unfold_locales (rule ypipe_rel_write ypipe_rel_unwrite ypipe_rel_flush ypipe_rel_check_read
      ypipe_rel_read; assumption)+

section \<open>Properties\<close>

text \<open>
  C11. Whatever the two threads have done with a new pipe, in any order, after one more flush
  enough reads have returned exactly the items of the complete messages, in the order in which
  they were written: nothing is lost, repeated, reordered or read before it is written, and an
  item that was taken back or belongs to an unfinished message is never read.
\<close>

theorem ypipe_delivers:
  assumes "0 < N" "length (committed [] ops) \<le> n"
  shows "fst (channel_run (ypipe_write N) (ypipe_unwrite N) ypipe_flush ypipe_check_read (ypipe_read N)
      (ops @ Flush # replicate n Read) (ypipe_new N)) = map Some (committed [] ops)"
  using yp.run_spec [OF ypipe_rel_new [OF assms(1)]] chan_run_delivers [OF assms(2)] by metis

theorem ypipe_delivers_witness:
  "fst (channel_run (ypipe_write 2) (ypipe_unwrite 2) ypipe_flush ypipe_check_read (ypipe_read 2)
     ([Write (1 :: nat) False, Read, Flush, Write 2 True, Unwrite, Write 3 True, Read, Write 4 False] @
      Flush # replicate 5 Read) (ypipe_new 2)) = [Some 1, Some 3, Some 4]"
  using ypipe_delivers [of 2 "[Write (1 :: nat) False, Read, Flush, Write 2 True, Unwrite, Write 3 True, Read, Write 4 False]" 5]
  by simp

text \<open>A sleeping reader stays asleep while nothing is flushed.\<close>

lemma chan_run_asleep:
  assumes "asleep c" "flushed c = []" "Flush \<notin> set ops"
  shows "fst (chan_run ops c) = [] \<and> asleep (snd (chan_run ops c)) \<and> flushed (snd (chan_run ops c)) = []"
  using assms
proof (induction ops arbitrary: c)
  case (Cons op ops)
  then show ?case
    by (cases op) (simp_all add: chan_write_def chan_unwrite_def chan_check_read_def chan_read_def)
qed simp

abbreviation ypipe_run :: "nat \<Rightarrow> 'a chan_op list \<Rightarrow> 'a ypipe \<Rightarrow> 'a option list \<times> 'a ypipe" where
  "ypipe_run N \<equiv>
     channel_run (ypipe_write N) (ypipe_unwrite N) ypipe_flush ypipe_check_read (ypipe_read N)"

text \<open>
  C38. No wake-up is lost. A read has found nothing after any operations on a new pipe, and then
  anything but a flush has happened: items of complete or unfinished messages written or taken
  back, or nothing at all, and further reads. The next flush answers that the reader has to be
  woken exactly when there is an item of a complete message that has not been read, be it written
  before or after the read that failed; then the next read gets the first of these items, and
  otherwise it finds nothing again.
\<close>

theorem ypipe_wakes_reader:
  assumes "0 < N" "fst (ypipe_read N (snd (ypipe_run N ops (ypipe_new N)))) = None" "Flush \<notin> set later"
    and "ypipe_run N (ops @ Read # later) (ypipe_new N) = (vs, p)" "items = committed [] (ops @ Read # later)"
    and "ypipe_flush p = (alive, p')"
  shows "if length vs < length items
    then \<not> alive \<and> fst (ypipe_read N p') = Some (Some (items ! length vs))
    else alive \<and> fst (ypipe_read N p') = None"
proof -
  let ?c = "snd (chan_run ops chan_new)" and ?r = "chan_run (ops @ Read # later) chan_new"
  have rel0: "ypipe_rel N (snd (ypipe_run N ops (ypipe_new N))) ?c"
    using yp.run_spec [OF ypipe_rel_new [OF assms(1)]] by blast
  have rel: "vs = map Some (fst ?r)" "ypipe_rel N p (snd ?r)"
    using yp.run_spec [OF ypipe_rel_new [OF assms(1)], of "ops @ Read # later"] assms(4) by simp_all
  have c: "flushed ?c = []"
    using yp.rel_read [OF rel0] assms(2) by (auto simp: chan_read_def split: list.splits)
  have "snd ?r = snd (chan_run later (?c\<lparr>asleep := True\<rparr>))"
    using c by (simp add: chan_run_append Let_def chan_read_def split: prod.split)
  then have r: "asleep (snd ?r)" "flushed (snd ?r) = []"
    using chan_run_asleep [of "?c\<lparr>asleep := True\<rparr>" later] c assms(3) by simp_all
  have items: "items = fst ?r @ ready (snd ?r)"
    using chan_run_committed [of "ops @ Read # later" chan_new] r(2) assms(5) by (simp add: chan_new_def)
  have alive: "alive = fst (chan_flush (snd ?r))" "ypipe_rel N p' (snd (chan_flush (snd ?r)))"
    using yp.rel_flush [OF rel(2)] assms(6) by simp_all
  show ?thesis
    using alive(1) yp.rel_read [OF alive(2)] r rel(1) items
    by (cases "ready (snd ?r)") (simp_all add: chan_flush_def chan_read_def)
qed

theorem ypipe_wakes_reader_witness:
  "\<exists>p alive p'. channel_run (ypipe_write 2) (ypipe_unwrite 2) ypipe_flush ypipe_check_read (ypipe_read 2)
       ([Write (7 :: nat) True, Write 8 False] @ Read # [Write 9 True]) (ypipe_new 2) = ([], p) \<and>
     ypipe_flush p = (alive, p') \<and> \<not> alive \<and> fst (ypipe_read 2 p') = Some (Some 7)"
proof -
  let ?run = "channel_run (ypipe_write 2) (ypipe_unwrite 2) ypipe_flush ypipe_check_read (ypipe_read 2)"
  have new: "ypipe_rel 2 (ypipe_new 2 :: nat ypipe) chan_new" by (rule ypipe_rel_new) simp
  have f: "fst (ypipe_read 2 (snd (?run [Write (7 :: nat) True, Write 8 False] (ypipe_new 2)))) = None"
    using yp.rel_read [OF conjunct2 [OF yp.run_spec [OF new, of "[Write 7 True, Write 8 False]"]]]
    by (simp add: chan_read_def chan_write_def chan_new_def)
  obtain p where p: "?run ([Write (7 :: nat) True, Write 8 False] @ Read # [Write 9 True]) (ypipe_new 2) = ([], p)"
    using yp.run_spec [OF new, of "[Write 7 True, Write 8 False] @ Read # [Write 9 True]"]
    by (cases "?run ([Write (7 :: nat) True, Write 8 False] @ Read # [Write 9 True]) (ypipe_new 2)")
      (simp add: chan_read_def chan_write_def chan_new_def)
  obtain alive p' where w: "ypipe_flush p = (alive, p')" by fastforce
  from ypipe_wakes_reader [OF _ f _ p refl w] p w show ?thesis by auto
qed

end
