(* ===== verification/ZmqPipe.thy ===== *)
theory ZmqPipe
  imports Ypipe "HOL-Library.Signed_Division"
begin

text \<open>
  \<open>libzmq/pipe.cpp\<close>: one end of the bidirectional pipe between a socket and the session of a
  peer. An end reads from one \<open>ypipe\<close> and writes to the other; what it tells its peer through
  the mailboxes (there is something to read, so many messages have been read, the pipe is to be
  closed) is appended to the list of commands it has sent. The pipes of REQ and REP sockets do
  not conflate messages, so the variant for that is left out. A message part is its bytes and
  the flags that the sockets look at.
\<close>

section \<open>Messages, commands and the object\<close>

record zmsg =
  zm_data :: string
  zm_more :: bool
  zm_command :: bool
  zm_credential :: bool
  zm_routing_id :: bool
  zm_delimiter :: bool

text \<open>\<open>init\<close>, \<open>init_delimiter\<close> and \<open>init_size\<close> with the data copied in\<close>

definition zmsg_init :: zmsg where
  "zmsg_init = \<lparr>zm_data = [], zm_more = False, zm_command = False, zm_credential = False,
                zm_routing_id = False, zm_delimiter = False\<rparr>"

definition zmsg_delimiter :: zmsg where
  "zmsg_delimiter = zmsg_init\<lparr>zm_delimiter := True\<rparr>"

definition zmsg_of :: "string \<Rightarrow> zmsg" where
  "zmsg_of b = zmsg_init\<lparr>zm_data := b\<rparr>"

datatype pipe_state =
    Active | Delimiter_received | Waiting_for_delimiter | Term_ack_sent | Term_req_sent1 | Term_req_sent2

datatype pipe_command =
    Activate_read | Activate_write ulonglong | Hiccup | Pipe_term | Pipe_term_ack | Pipe_hwm int int

definition message_pipe_granularity :: nat where
  "message_pipe_granularity = 256"

abbreviation granularity :: nat where
  "granularity \<equiv> message_pipe_granularity"

record pipe =
  pp_in :: "zmsg ypipe"
  pp_out :: "zmsg ypipe option"
  pp_in_active :: bool
  pp_out_active :: bool
  pp_hwm :: int
  pp_lwm :: int
  pp_in_hwm_boost :: int
  pp_out_hwm_boost :: int
  pp_msgs_read :: ulonglong
  pp_msgs_written :: ulonglong
  pp_peers_msgs_read :: ulonglong
  pp_state :: pipe_state
  pp_delay :: bool
  pp_routing_id :: string
  pp_disconnect_msg :: zmsg
  pp_sent :: "pipe_command list"

definition compute_lwm :: "int \<Rightarrow> int" where
  "compute_lwm hwm = (hwm + 1) sdiv 2"

definition pipe_new :: "zmsg ypipe \<Rightarrow> zmsg ypipe \<Rightarrow> int \<Rightarrow> int \<Rightarrow> pipe" where
  "pipe_new inpipe outpipe inhwm outhwm =
     \<lparr>pp_in = inpipe, pp_out = Some outpipe, pp_in_active = True, pp_out_active = True,
      pp_hwm = outhwm, pp_lwm = compute_lwm inhwm, pp_in_hwm_boost = -1, pp_out_hwm_boost = -1,
      pp_msgs_read = 0, pp_msgs_written = 0, pp_peers_msgs_read = 0, pp_state = Active,
      pp_delay = True, pp_routing_id = [], pp_disconnect_msg = zmsg_init, pp_sent = []\<rparr>"

text \<open>Both ends of a new pipe; \<open>upipe1\<close> carries messages to the first end.\<close>

definition pipepair :: "int \<Rightarrow> int \<Rightarrow> pipe \<times> pipe" where
  "pipepair hwm0 hwm1 =
     (let upipe1 = ypipe_new granularity; upipe2 = ypipe_new granularity in
      (pipe_new upipe1 upipe2 hwm1 hwm0, pipe_new upipe2 upipe1 hwm0 hwm1))"

definition send_command :: "pipe_command \<Rightarrow> (pipe, unit) cxx" where
  "send_command cmd = modS (\<lambda>p. p\<lparr>pp_sent := pp_sent p @ [cmd]\<rparr>)"

definition set_router_socket_routing_id :: "string \<Rightarrow> pipe \<Rightarrow> pipe" where
  "set_router_socket_routing_id rid p = p\<lparr>pp_routing_id := rid\<rparr>"

section \<open>Writing\<close>

text \<open>Taking back the parts of an unfinished message; each of them must have more to come.\<close>

partial_function (option) rollback_loop :: "zmsg ypipe \<Rightarrow> (unit res \<times> zmsg ypipe) option" where
  "rollback_loop q =
     (case ypipe_unwrite granularity q of
        (None, q') \<Rightarrow> Some (Inr (), q')
      | (Some None, q') \<Rightarrow> Some (Inl (UB UninitialisedRead), q')
      | (Some (Some m), q') \<Rightarrow> if zm_more m then rollback_loop q' else Some (Inl AssertFailed, q'))"

definition pipe_rollback :: "(pipe, unit) cxx" where
  "pipe_rollback =
     bindX (getS pp_out) (\<lambda>out.
     case out of
       None \<Rightarrow> ret ()
     | Some q \<Rightarrow>
         (case rollback_loop q of
            None \<Rightarrow> throw NoReturn
          | Some (r, q') \<Rightarrow> thenX (modS (\<lambda>p. p\<lparr>pp_out := Some q'\<rparr>)) (liftR r)))"

definition check_hwm :: "pipe \<Rightarrow> bool" where
  "check_hwm p \<longleftrightarrow>
     \<not> (pp_hwm p > 0 \<and> pp_msgs_written p - pp_peers_msgs_read p \<ge> word_of_int (pp_hwm p))"

definition pipe_check_write :: "pipe \<Rightarrow> bool \<times> pipe" where
  "pipe_check_write p =
     (if \<not> pp_out_active p \<or> pp_state p \<noteq> Active then (False, p)
      else if \<not> check_hwm p then (False, p\<lparr>pp_out_active := False\<rparr>)
      else (True, p))"

definition pipe_write :: "zmsg \<Rightarrow> (pipe, bool) cxx" where
  "pipe_write msg = (\<lambda>p.
     case pipe_check_write p of (ok, p) \<Rightarrow>
     if \<not> ok then (Inr False, p) else
     case pp_out p of
       None \<Rightarrow> (Inl (UB NullDeref), p)
     | Some q \<Rightarrow>
         let p = p\<lparr>pp_out := Some (ypipe_write granularity msg (zm_more msg) q)\<rparr> in
         (Inr True, if \<not> zm_more msg \<and> \<not> zm_routing_id msg
                    then p\<lparr>pp_msgs_written := pp_msgs_written p + 1\<rparr> else p))"

definition pipe_flush :: "(pipe, unit) cxx" where
  "pipe_flush =
     bindX (getS id) (\<lambda>p.
     if pp_state p = Term_ack_sent then ret () else
     case pp_out p of
       None \<Rightarrow> ret ()
     | Some q \<Rightarrow>
         (case ypipe_flush q of (alive, q') \<Rightarrow>
            thenX (modS (\<lambda>p. p\<lparr>pp_out := Some q'\<rparr>)) (
            if alive then ret () else send_command Activate_read)))"

text \<open>The first message of a connection, and the one a peer can be configured to send.\<close>

definition send_routing_id :: "string \<Rightarrow> (pipe, unit) cxx" where
  "send_routing_id rid =
     bindX (pipe_write ((zmsg_of rid)\<lparr>zm_routing_id := True\<rparr>)) (\<lambda>written.
     if written then pipe_flush else throw AssertFailed)"

definition send_hello_msg :: "string \<Rightarrow> (pipe, unit) cxx" where
  "send_hello_msg hello =
     bindX (pipe_write (zmsg_of hello)) (\<lambda>written.
     if written then pipe_flush else throw AssertFailed)"

section \<open>Reading\<close>

definition process_delimiter :: "(pipe, unit) cxx" where
  "process_delimiter =
     bindX (getS pp_state) (\<lambda>st.
     if st = Active then modS (\<lambda>p. p\<lparr>pp_state := Delimiter_received\<rparr>)
     else if st = Waiting_for_delimiter then
       thenX pipe_rollback (
       thenX (modS (\<lambda>p. p\<lparr>pp_out := None\<rparr>)) (
       thenX (send_command Pipe_term_ack) (
       modS (\<lambda>p. p\<lparr>pp_state := Term_ack_sent\<rparr>))))
     else throw AssertFailed)"

definition can_read :: "pipe \<Rightarrow> bool" where
  "can_read p \<longleftrightarrow>
     pp_in_active p \<and> (pp_state p = Active \<or> pp_state p = Waiting_for_delimiter)"

definition is_delimiter :: "zmsg option \<Rightarrow> bool" where
  "is_delimiter m \<longleftrightarrow> map_option zm_delimiter m = Some True"

definition pipe_check_read :: "(pipe, bool) cxx" where
  "pipe_check_read =
     bindX (getS id) (\<lambda>p.
     if \<not> can_read p then ret False else
     case ypipe_check_read (pp_in p) of (ok, q) \<Rightarrow>
     if \<not> ok then thenX (modS (\<lambda>p. p\<lparr>pp_in := q, pp_in_active := False\<rparr>)) (ret False) else
     case ypipe_probe is_delimiter q of
       (None, q) \<Rightarrow> throw AssertFailed
     | (Some False, q) \<Rightarrow> thenX (modS (\<lambda>p. p\<lparr>pp_in := q\<rparr>)) (ret True)
     | (Some True, q) \<Rightarrow>
         (case ypipe_read granularity q of (r, q) \<Rightarrow>
            thenX (modS (\<lambda>p. p\<lparr>pp_in := q\<rparr>)) (
            if r = None then throw AssertFailed
            else thenX process_delimiter (ret False))))"

text \<open>The next part that is not a credential.\<close>

partial_function (option) read_loop :: "zmsg ypipe \<Rightarrow> (zmsg option res \<times> zmsg ypipe) option" where
  "read_loop q =
     (case ypipe_read granularity q of
        (None, q') \<Rightarrow> Some (Inr None, q')
      | (Some None, q') \<Rightarrow> Some (Inl (UB UninitialisedRead), q')
      | (Some (Some m), q') \<Rightarrow> if zm_credential m then read_loop q' else Some (Inr (Some m), q'))"

definition pipe_read :: "(pipe, zmsg option) cxx" where
  "pipe_read =
     bindX (getS id) (\<lambda>p.
     if \<not> can_read p then ret None else
     case read_loop (pp_in p) of
       None \<Rightarrow> throw NoReturn
     | Some (r, q) \<Rightarrow>
         thenX (modS (\<lambda>p. p\<lparr>pp_in := q\<rparr>)) (
         bindX (liftR r) (\<lambda>m.
         case m of
           None \<Rightarrow> thenX (modS (\<lambda>p. p\<lparr>pp_in_active := False\<rparr>)) (ret None)
         | Some msg \<Rightarrow>
             if zm_delimiter msg then thenX process_delimiter (ret None)
             else thenX (modS (\<lambda>p. if \<not> zm_more msg \<and> \<not> zm_routing_id msg
                                   then p\<lparr>pp_msgs_read := pp_msgs_read p + 1\<rparr> else p)) (
                  bindX (getS id) (\<lambda>p.
                  thenX (if pp_lwm p > 0 \<and> pp_msgs_read p mod word_of_int (pp_lwm p) = 0
                         then send_command (Activate_write (pp_msgs_read p)) else ret ()) (
                  ret (Some msg)))))))"

section \<open>Commands of the peer\<close>

text \<open>The answer says whether the owner of the pipe is notified.\<close>

definition process_activate_read :: "pipe \<Rightarrow> bool \<times> pipe" where
  "process_activate_read p =
     (if \<not> pp_in_active p \<and> (pp_state p = Active \<or> pp_state p = Waiting_for_delimiter)
      then (True, p\<lparr>pp_in_active := True\<rparr>) else (False, p))"

definition process_activate_write :: "ulonglong \<Rightarrow> pipe \<Rightarrow> bool \<times> pipe" where
  "process_activate_write msgs_read p =
     (let p = p\<lparr>pp_peers_msgs_read := msgs_read\<rparr> in
      if \<not> pp_out_active p \<and> pp_state p = Active then (True, p\<lparr>pp_out_active := True\<rparr>) else (False, p))"

definition process_pipe_term :: "(pipe, unit) cxx" where
  "process_pipe_term =
     bindX (getS id) (\<lambda>p.
     if pp_state p = Active \<and> pp_delay p then
       modS (\<lambda>p. p\<lparr>pp_state := Waiting_for_delimiter\<rparr>)
     else if pp_state p = Active \<or> pp_state p = Delimiter_received then
       thenX (modS (\<lambda>p. p\<lparr>pp_state := Term_ack_sent, pp_out := None\<rparr>)) (send_command Pipe_term_ack)
     else if pp_state p = Term_req_sent1 then
       thenX (modS (\<lambda>p. p\<lparr>pp_state := Term_req_sent2, pp_out := None\<rparr>)) (send_command Pipe_term_ack)
     else throw AssertFailed)"

text \<open>
  After it the end of the pipe is deallocated, which the component that calls it keeps track of. The
  unread messages of the incoming queue go with it: closing them gives back their memory and changes
  nothing the other end can see.
\<close>

definition process_pipe_term_ack :: "(pipe, unit) cxx" where
  "process_pipe_term_ack =
     bindX (getS pp_state) (\<lambda>st.
     if st = Term_req_sent1 then
       thenX (modS (\<lambda>p. p\<lparr>pp_out := None\<rparr>)) (send_command Pipe_term_ack)
     else if st = Term_ack_sent \<or> st = Term_req_sent2 then ret ()
     else throw AssertFailed)"

definition set_hwms :: "int \<Rightarrow> int \<Rightarrow> pipe \<Rightarrow> pipe" where
  "set_hwms inhwm outhwm p =
     (let inn = (if inhwm \<le> 0 \<or> pp_in_hwm_boost p = 0 then 0 else inhwm + max (pp_in_hwm_boost p) 0);
          out = (if outhwm \<le> 0 \<or> pp_out_hwm_boost p = 0 then 0 else outhwm + max (pp_out_hwm_boost p) 0) in
      p\<lparr>pp_lwm := compute_lwm inn, pp_hwm := out\<rparr>)"

definition set_hwms_boost :: "int \<Rightarrow> int \<Rightarrow> pipe \<Rightarrow> pipe" where
  "set_hwms_boost inb outb p = p\<lparr>pp_in_hwm_boost := inb, pp_out_hwm_boost := outb\<rparr>"

definition process_pipe_hwm :: "int \<Rightarrow> int \<Rightarrow> pipe \<Rightarrow> pipe" where
  "process_pipe_hwm inhwm outhwm p = set_hwms inhwm outhwm p"

text \<open>
  A reconnecting session starts over: the end gets a new inbound pipe and sends it to its peer,
  which takes the messages out of the old one and writes to the new one from then on.
\<close>

definition pipe_hiccup :: "pipe \<Rightarrow> pipe" where
  "pipe_hiccup p =
     (if pp_state p \<noteq> Active then p
      else p\<lparr>pp_in := ypipe_new granularity, pp_in_active := True, pp_sent := pp_sent p @ [Hiccup]\<rparr>)"

partial_function (option) hiccup_loop :: "zmsg ypipe \<Rightarrow> ulonglong \<Rightarrow> (ulonglong res \<times> zmsg ypipe) option" where
  "hiccup_loop q written =
     (case ypipe_read granularity q of
        (None, q') \<Rightarrow> Some (Inr written, q')
      | (Some None, q') \<Rightarrow> Some (Inl (UB UninitialisedRead), q')
      | (Some (Some m), q') \<Rightarrow> hiccup_loop q' (if zm_more m then written else written - 1))"

definition process_hiccup :: "zmsg ypipe \<Rightarrow> (pipe, bool) cxx" where
  "process_hiccup new =
     bindX (getS id) (\<lambda>p.
     case pp_out p of
       None \<Rightarrow> throw AssertFailed
     | Some q \<Rightarrow>
         (case hiccup_loop (snd (ypipe_flush q)) (pp_msgs_written p) of
            None \<Rightarrow> throw NoReturn
          | Some (r, _) \<Rightarrow>
              bindX (liftR r) (\<lambda>written.
              thenX (modS (\<lambda>p. p\<lparr>pp_msgs_written := written, pp_out := Some new, pp_out_active := True\<rparr>)) (
              getS (\<lambda>p. pp_state p = Active)))))"

section \<open>Closing\<close>

definition set_nodelay :: "pipe \<Rightarrow> pipe" where
  "set_nodelay p = p\<lparr>pp_delay := False\<rparr>"

text \<open>The part of \<open>terminate\<close> behind the state: stop writing and leave the delimiter.\<close>

definition write_delimiter :: "(pipe, unit) cxx" where
  "write_delimiter =
     thenX (modS (\<lambda>p. p\<lparr>pp_out_active := False\<rparr>)) (
     bindX (getS pp_out) (\<lambda>out.
     if out = None then ret () else
     thenX pipe_rollback (
     thenX (modS (\<lambda>p. p\<lparr>pp_out := map_option (ypipe_write granularity zmsg_delimiter False) (pp_out p)\<rparr>))
     pipe_flush)))"

definition pipe_terminate :: "bool \<Rightarrow> (pipe, unit) cxx" where
  "pipe_terminate delay =
     thenX (modS (\<lambda>p. p\<lparr>pp_delay := delay\<rparr>)) (
     bindX (getS pp_state) (\<lambda>st.
     if st = Term_req_sent1 \<or> st = Term_req_sent2 \<or> st = Term_ack_sent then ret ()
     else if st = Active \<or> st = Delimiter_received then
       thenX (send_command Pipe_term) (
       thenX (modS (\<lambda>p. p\<lparr>pp_state := Term_req_sent1\<rparr>)) write_delimiter)
     else if \<not> delay then
       thenX pipe_rollback (
       thenX (modS (\<lambda>p. p\<lparr>pp_out := None\<rparr>)) (
       thenX (send_command Pipe_term_ack) (
       thenX (modS (\<lambda>p. p\<lparr>pp_state := Term_ack_sent\<rparr>)) write_delimiter)))
     else write_delimiter))"

definition send_disconnect_msg :: "(pipe, unit) cxx" where
  "send_disconnect_msg =
     bindX (getS pp_disconnect_msg) (\<lambda>m.
     if zm_data m = [] then ret () else
     thenX pipe_rollback (
     bindX (getS pp_out) (\<lambda>out.
     case out of
       None \<Rightarrow> throw (UB NullDeref)
     | Some q \<Rightarrow>
         thenX (modS (\<lambda>p. p\<lparr>pp_out := Some (ypipe_write granularity m False q)\<rparr>)) (
         thenX pipe_flush (
         modS (\<lambda>p. p\<lparr>pp_disconnect_msg := zmsg_init\<rparr>))))))"

definition set_disconnect_msg :: "string \<Rightarrow> pipe \<Rightarrow> pipe" where
  "set_disconnect_msg b p = p\<lparr>pp_disconnect_msg := zmsg_of b\<rparr>"

text \<open>The loops as equations to compute with.\<close>

declare rollback_loop.simps [code] read_loop.simps [code] hiccup_loop.simps [code]

end
