(* ===== verification/ZmqFq.thy ===== *)
theory ZmqFq
  imports ZmqPipe
begin

text \<open>
  \<open>libzmq/fq.cpp\<close>, \<open>libzmq/lb.cpp\<close> and the array of pipes both use (\<open>array.hpp\<close>): fair queueing
  over the pipes a socket reads from and load balancing over those it writes to. A pipe is a
  number; the pipes themselves are a map that the two share. The active pipes are the first ones
  of the array.
\<close>

section \<open>The array of pipes\<close>

definition array_swap :: "nat \<Rightarrow> nat \<Rightarrow> 'a list \<Rightarrow> 'a list" where
  "array_swap i j xs = xs[i := xs ! j, j := xs ! i]"

text \<open>The position that the item itself remembers.\<close>

definition array_index :: "'a list \<Rightarrow> 'a \<Rightarrow> nat" where
  "array_index xs x = length (takeWhile (\<lambda>y. y \<noteq> x) xs)"

definition array_erase :: "'a \<Rightarrow> 'a list \<Rightarrow> 'a list" where
  "array_erase x xs = (if xs = [] then [] else butlast (xs[array_index xs x := last xs]))"

lemma array_swap_simps [simp]:
  "length (array_swap i j xs) = length xs"
  by (simp add: array_swap_def)

lemma set_array_swap [simp]:
  assumes "i < length xs" "j < length xs"
  shows "set (array_swap i j xs) = set xs" "distinct (array_swap i j xs) = distinct xs"
  using assms by (simp_all add: array_swap_def)

section \<open>Fair queueing\<close>

type_synonym pipes = "nat \<Rightarrow> pipe"

record fq =
  fq_pipes :: "nat list"
  fq_active :: nat
  fq_last_in :: "nat option"
  fq_current :: nat
  fq_more :: bool

type_synonym fqs = "fq \<times> pipes"

definition fq_new :: fq where
  "fq_new = \<lparr>fq_pipes = [], fq_active = 0, fq_last_in = None, fq_current = 0, fq_more = False\<rparr>"

definition fq_attach :: "nat \<Rightarrow> fq \<Rightarrow> fq" where
  "fq_attach p f =
     (let ps = fq_pipes f @ [p] in
      f\<lparr>fq_pipes := array_swap (fq_active f) (length ps - 1) ps, fq_active := Suc (fq_active f)\<rparr>)"

definition fq_pipe_terminated :: "nat \<Rightarrow> fq \<Rightarrow> fq" where
  "fq_pipe_terminated p f =
     (let i = array_index (fq_pipes f) p;
          f = (if i < fq_active f then
                 let a = fq_active f - 1 in
                 f\<lparr>fq_active := a, fq_pipes := array_swap i a (fq_pipes f),
                   fq_current := (if fq_current f = a then 0 else fq_current f)\<rparr>
               else f);
          f = f\<lparr>fq_pipes := array_erase p (fq_pipes f)\<rparr> in
      if fq_last_in f = Some p then f\<lparr>fq_last_in := None\<rparr> else f)"

definition fq_activated :: "nat \<Rightarrow> fq \<Rightarrow> fq" where
  "fq_activated p f =
     f\<lparr>fq_pipes := array_swap (array_index (fq_pipes f) p) (fq_active f) (fq_pipes f),
       fq_active := Suc (fq_active f)\<rparr>"

text \<open>An operation of one of the pipes.\<close>

definition onPipe :: "nat \<Rightarrow> (pipe, 'a) cxx \<Rightarrow> ('f \<times> pipes, 'a) cxx" where
  "onPipe p m = (\<lambda>(f, ps). case m (ps p) of (r, q) \<Rightarrow> (r, (f, ps(p := q))))"

definition modF :: "('f \<Rightarrow> 'f) \<Rightarrow> ('f \<times> pipes, unit) cxx" where
  "modF u = (\<lambda>(f, ps). (Inr (), (u f, ps)))"

lemma onPipe_run: "m (ps p) = (r, q) \<Longrightarrow> onPipe p m (f, ps) = (r, (f, ps(p := q)))"
  by (simp add: onPipe_def)

lemma modF_run [simp]: "modF u (f, ps) = (Inr (), (u f, ps))"
  by (simp add: modF_def)

text \<open>The current pipe had nothing: it leaves the active ones.\<close>

definition fq_deactivate :: "fq \<Rightarrow> fq" where
  "fq_deactivate f =
     (let a = fq_active f - 1 in
      f\<lparr>fq_active := a, fq_pipes := array_swap (fq_current f) a (fq_pipes f),
        fq_current := (if fq_current f = a then 0 else fq_current f)\<rparr>)"

text \<open>The loops run while there are active pipes, whose number is the argument.\<close>

primrec fq_recv_loop :: "nat \<Rightarrow> (fqs, (zmsg \<times> nat) option) cxx" where
  "fq_recv_loop 0 = ret None"
| "fq_recv_loop (Suc n) =
     bindX (getS fst) (\<lambda>f.
     let p = fq_pipes f ! fq_current f in
     bindX (onPipe p pipe_read) (\<lambda>m.
     case m of
       Some msg \<Rightarrow>
         thenX (modF (\<lambda>f. f\<lparr>fq_more := zm_more msg\<rparr>)) (
         thenX (if zm_more msg then ret ()
                else modF (\<lambda>f. f\<lparr>fq_last_in := Some p, fq_current := (fq_current f + 1) mod fq_active f\<rparr>)) (
         ret (Some (msg, p))))
     | None \<Rightarrow>
         if fq_more f then throw AssertFailed
         else thenX (modF fq_deactivate) (fq_recv_loop n)))"

definition fq_recvpipe :: "(fqs, (zmsg \<times> nat) option) cxx" where
  "fq_recvpipe = bindX (getS fst) (\<lambda>f. fq_recv_loop (fq_active f))"

primrec fq_has_in_loop :: "nat \<Rightarrow> (fqs, bool) cxx" where
  "fq_has_in_loop 0 = ret False"
| "fq_has_in_loop (Suc n) =
     bindX (getS fst) (\<lambda>f.
     bindX (onPipe (fq_pipes f ! fq_current f) pipe_check_read) (\<lambda>ok.
     if ok then ret True else thenX (modF fq_deactivate) (fq_has_in_loop n)))"

definition fq_has_in :: "(fqs, bool) cxx" where
  "fq_has_in =
     bindX (getS fst) (\<lambda>f. if fq_more f then ret True else fq_has_in_loop (fq_active f))"

section \<open>Load balancing\<close>

record lb =
  lb_pipes :: "nat list"
  lb_active :: nat
  lb_current :: nat
  lb_more :: bool
  lb_dropping :: bool

type_synonym lbs = "lb \<times> pipes"

definition lb_new :: lb where
  "lb_new = \<lparr>lb_pipes = [], lb_active = 0, lb_current = 0, lb_more = False, lb_dropping = False\<rparr>"

definition lb_activated :: "nat \<Rightarrow> lb \<Rightarrow> lb" where
  "lb_activated p f =
     f\<lparr>lb_pipes := array_swap (array_index (lb_pipes f) p) (lb_active f) (lb_pipes f),
       lb_active := Suc (lb_active f)\<rparr>"

definition lb_attach :: "nat \<Rightarrow> lb \<Rightarrow> lb" where
  "lb_attach p f = lb_activated p (f\<lparr>lb_pipes := lb_pipes f @ [p]\<rparr>)"

definition lb_pipe_terminated :: "nat \<Rightarrow> lb \<Rightarrow> lb" where
  "lb_pipe_terminated p f =
     (let i = array_index (lb_pipes f) p;
          f = (if i = lb_current f \<and> lb_more f then f\<lparr>lb_dropping := True\<rparr> else f);
          f = (if i < lb_active f then
                 let a = lb_active f - 1 in
                 f\<lparr>lb_active := a, lb_pipes := array_swap i a (lb_pipes f),
                   lb_current := (if lb_current f = a then 0 else lb_current f)\<rparr>
               else f) in
      f\<lparr>lb_pipes := array_erase p (lb_pipes f)\<rparr>)"

definition lb_deactivate :: "lb \<Rightarrow> lb" where
  "lb_deactivate f =
     (let a = lb_active f - 1 in
      if lb_current f < a then f\<lparr>lb_active := a, lb_pipes := array_swap (lb_current f) a (lb_pipes f)\<rparr>
      else f\<lparr>lb_active := a, lb_current := 0\<rparr>)"

text \<open>
  The answer of a send: done, with the pipe that took the part unless the part was dropped; try
  again; or the message was cut off in the middle, which is answered \<open>-2\<close>.
\<close>

datatype send_result = Sent "nat option" | Again | Cut_off

definition lb_finish :: "zmsg \<Rightarrow> nat \<Rightarrow> (lbs, send_result) cxx" where
  "lb_finish msg p =
     thenX (modF (\<lambda>f. f\<lparr>lb_more := zm_more msg\<rparr>)) (
     thenX (if zm_more msg then ret ()
            else thenX (onPipe p pipe_flush) (
                 modF (\<lambda>f. f\<lparr>lb_current := (if lb_current f + 1 \<ge> lb_active f then 0 else lb_current f + 1)\<rparr>))) (
     ret (Sent (Some p))))"

primrec lb_send_loop :: "zmsg \<Rightarrow> nat \<Rightarrow> (lbs, send_result) cxx" where
  "lb_send_loop msg 0 = ret Again"
| "lb_send_loop msg (Suc n) =
     bindX (getS fst) (\<lambda>f.
     let p = lb_pipes f ! lb_current f in
     bindX (onPipe p (pipe_write msg)) (\<lambda>ok.
     if ok then lb_finish msg p
     else if lb_more f then
       thenX (onPipe p pipe_rollback) (
       thenX (modF (\<lambda>f. f\<lparr>lb_dropping := zm_more msg, lb_more := False\<rparr>)) (
       ret Cut_off))
     else thenX (modF lb_deactivate) (lb_send_loop msg n)))"

definition lb_sendpipe :: "zmsg \<Rightarrow> (lbs, send_result) cxx" where
  "lb_sendpipe msg =
     bindX (getS fst) (\<lambda>f.
     if lb_dropping f then
       thenX (modF (\<lambda>f. f\<lparr>lb_more := zm_more msg, lb_dropping := zm_more msg\<rparr>)) (ret (Sent None))
     else lb_send_loop msg (lb_active f))"

primrec lb_has_out_loop :: "nat \<Rightarrow> (lbs, bool) cxx" where
  "lb_has_out_loop 0 = ret False"
| "lb_has_out_loop (Suc n) =
     bindX (getS fst) (\<lambda>f.
     bindX (onPipe (lb_pipes f ! lb_current f) (\<lambda>p. case pipe_check_write p of (b, p) \<Rightarrow> (Inr b, p))) (\<lambda>ok.
     if ok then ret True
     else thenX (modF (\<lambda>f. let a = lb_active f - 1 in
                   f\<lparr>lb_active := a, lb_pipes := array_swap (lb_current f) a (lb_pipes f),
                     lb_current := (if lb_current f = a then 0 else lb_current f)\<rparr>)) (
          lb_has_out_loop n)))"

definition lb_has_out :: "(lbs, bool) cxx" where
  "lb_has_out =
     bindX (getS fst) (\<lambda>f. if lb_more f then ret True else lb_has_out_loop (lb_active f))"

end
