(* ===== verification/ZmqReq.thy ===== *)
theory ZmqReq
  imports ZmqFq
begin

text \<open>
  \<open>libzmq/dealer.cpp\<close> and \<open>libzmq/req.cpp\<close>: the socket of the client. A REQ socket puts an empty
  part (and, on demand, a number) in front of each request, remembers which pipe took it and
  accepts nothing but the reply from that pipe before the next request.
\<close>

section \<open>The dealer\<close>

text \<open>The errors a socket reports; \<open>EAGAIN_cut\<close> is the return value \<open>-2\<close>.\<close>

datatype zerr = EFSM | EAGAIN | EAGAIN_cut | EHOSTUNREACH | EINVAL | EFAULT

record dealer =
  dl_fq :: fq
  dl_lb :: lb
  dl_pipes :: pipes
  dl_probe_router :: bool

definition dealer_new :: dealer where
  "dealer_new = \<lparr>dl_fq = fq_new, dl_lb = lb_new, dl_pipes = (\<lambda>_. fst (pipepair 0 0)), dl_probe_router = False\<rparr>"

definition onFq :: "(fqs, 'a) cxx \<Rightarrow> ('z dealer_scheme, 'a) cxx" where
  "onFq m = (\<lambda>d. case m (dl_fq d, dl_pipes d) of (r, (f, ps)) \<Rightarrow> (r, d\<lparr>dl_fq := f, dl_pipes := ps\<rparr>))"

definition onLb :: "(lbs, 'a) cxx \<Rightarrow> ('z dealer_scheme, 'a) cxx" where
  "onLb m = (\<lambda>d. case m (dl_lb d, dl_pipes d) of (r, (f, ps)) \<Rightarrow> (r, d\<lparr>dl_lb := f, dl_pipes := ps\<rparr>))"

definition dealer_pipe :: "nat \<Rightarrow> (pipe, 'a) cxx \<Rightarrow> ('z dealer_scheme, 'a) cxx" where
  "dealer_pipe p m = (\<lambda>d. case m (dl_pipes d p) of (r, q) \<Rightarrow> (r, d\<lparr>dl_pipes := (dl_pipes d)(p := q)\<rparr>))"

definition dealer_xattach_pipe :: "nat \<Rightarrow> ('z dealer_scheme, unit) cxx" where
  "dealer_xattach_pipe p =
     bindX (getS dl_probe_router) (\<lambda>probe.
     thenX (if probe then bindX (dealer_pipe p (pipe_write zmsg_init)) (\<lambda>_. dealer_pipe p pipe_flush)
            else ret ()) (
     modS (\<lambda>d. d\<lparr>dl_fq := fq_attach p (dl_fq d), dl_lb := lb_attach p (dl_lb d)\<rparr>)))"

definition ZMQ_PROBE_ROUTER :: int where
  "ZMQ_PROBE_ROUTER = 51"

text \<open>The value of an option is none when its size is not that of an \<open>int\<close>.\<close>

definition dealer_xsetsockopt :: "int \<Rightarrow> int option \<Rightarrow> ('z dealer_scheme, zerr option) cxx" where
  "dealer_xsetsockopt opt value =
     (case value of
        Some v \<Rightarrow>
          if opt = ZMQ_PROBE_ROUTER \<and> v \<ge> 0
          then thenX (modS (\<lambda>d. d\<lparr>dl_probe_router := (v \<noteq> 0)\<rparr>)) (ret None)
          else ret (Some EINVAL)
      | None \<Rightarrow> ret (Some EINVAL))"

definition dealer_sendpipe :: "zmsg \<Rightarrow> ('z dealer_scheme, send_result) cxx" where
  "dealer_sendpipe msg = onLb (lb_sendpipe msg)"

definition dealer_recvpipe :: "('z dealer_scheme, (zmsg \<times> nat) option) cxx" where
  "dealer_recvpipe = onFq fq_recvpipe"

definition send_error :: "send_result \<Rightarrow> zerr option" where
  "send_error r = (case r of Sent _ \<Rightarrow> None | Again \<Rightarrow> Some EAGAIN | Cut_off \<Rightarrow> Some EAGAIN_cut)"

definition dealer_xsend :: "zmsg \<Rightarrow> ('z dealer_scheme, zerr option) cxx" where
  "dealer_xsend msg = bindX (dealer_sendpipe msg) (\<lambda>r. ret (send_error r))"

definition dealer_xrecv :: "('z dealer_scheme, zmsg option) cxx" where
  "dealer_xrecv = bindX dealer_recvpipe (\<lambda>r. ret (map_option fst r))"

definition dealer_xhas_in :: "('z dealer_scheme, bool) cxx" where
  "dealer_xhas_in = onFq fq_has_in"

definition dealer_xhas_out :: "('z dealer_scheme, bool) cxx" where
  "dealer_xhas_out = onLb lb_has_out"

definition dealer_xread_activated :: "nat \<Rightarrow> 'z dealer_scheme \<Rightarrow> 'z dealer_scheme" where
  "dealer_xread_activated p d = d\<lparr>dl_fq := fq_activated p (dl_fq d)\<rparr>"

definition dealer_xwrite_activated :: "nat \<Rightarrow> 'z dealer_scheme \<Rightarrow> 'z dealer_scheme" where
  "dealer_xwrite_activated p d = d\<lparr>dl_lb := lb_activated p (dl_lb d)\<rparr>"

definition dealer_xpipe_terminated :: "nat \<Rightarrow> 'z dealer_scheme \<Rightarrow> 'z dealer_scheme" where
  "dealer_xpipe_terminated p d =
     d\<lparr>dl_fq := fq_pipe_terminated p (dl_fq d), dl_lb := lb_pipe_terminated p (dl_lb d)\<rparr>"

section \<open>The request socket\<close>

record req = dealer +
  rq_receiving_reply :: bool
  rq_message_begins :: bool
  rq_reply_pipe :: "nat option"
  rq_request_id_frames_enabled :: bool
  rq_request_id :: uint
  rq_strict :: bool

definition req_new :: "uint \<Rightarrow> req" where
  "req_new random =
     dealer.extend dealer_new
     \<lparr>rq_receiving_reply = False, rq_message_begins = True,
      rq_reply_pipe = None, rq_request_id_frames_enabled = False, rq_request_id = random,
      rq_strict = True\<rparr>"

text \<open>The bytes of a number in the memory of a little-endian machine.\<close>

definition mem_uint32 :: "uint \<Rightarrow> string" where
  "mem_uint32 w = map (\<lambda>i. char_of (unat (drop_bit (8 * i) w) mod 256)) [0, 1, 2, 3]"

definition with_more :: "zmsg \<Rightarrow> zmsg" where
  "with_more m = m\<lparr>zm_more := True\<rparr>"

text \<open>A part in front of the request; the pipe that takes it is the one that will reply.\<close>

definition req_sendpipe :: "zmsg \<Rightarrow> (req, bool) cxx" where
  "req_sendpipe msg =
     bindX (dealer_sendpipe msg) (\<lambda>r.
     case r of
       Sent p \<Rightarrow> thenX (modS (\<lambda>d. case p of None \<Rightarrow> d | Some _ \<Rightarrow> d\<lparr>rq_reply_pipe := p\<rparr>)) (ret True)
     | _ \<Rightarrow> ret False)"

text \<open>All messages that are there before the request are thrown away.\<close>

partial_function (option) drop_loop :: "req \<Rightarrow> (unit res \<times> req) option" where
  "drop_loop d =
     (case dealer_xrecv d of
        (Inl e, d') \<Rightarrow> Some (Inl e, d')
      | (Inr None, d') \<Rightarrow> Some (Inr (), d')
      | (Inr (Some _), d') \<Rightarrow> drop_loop d')"

definition loopX :: "('s \<Rightarrow> ('a res \<times> 's) option) \<Rightarrow> ('s, 'a) cxx" where
  "loopX l = (\<lambda>s. case l s of None \<Rightarrow> (Inl NoReturn, s) | Some r \<Rightarrow> r)"

definition begin_request :: "(req, bool) cxx" where
  "begin_request =
     thenX (modS (\<lambda>d. d\<lparr>rq_reply_pipe := None\<rparr>)) (
     bindX (getS rq_request_id_frames_enabled) (\<lambda>ids.
     bindX (if ids then
              thenX (modS (\<lambda>d. d\<lparr>rq_request_id := rq_request_id d + 1\<rparr>)) (
              bindX (getS rq_request_id) (\<lambda>n. req_sendpipe (with_more (zmsg_of (mem_uint32 n)))))
            else ret True) (\<lambda>ok.
     if \<not> ok then ret False else
     bindX (req_sendpipe (with_more zmsg_init)) (\<lambda>ok.
     if \<not> ok then ret False else
     bindX (getS rq_reply_pipe) (\<lambda>p.
     if p = None then throw AssertFailed else
     thenX (modS (\<lambda>d. d\<lparr>rq_message_begins := False\<rparr>)) (
     thenX (loopX drop_loop) (ret True)))))))"

definition req_xsend :: "zmsg \<Rightarrow> (req, zerr option) cxx" where
  "req_xsend msg =
     bindX (getS id) (\<lambda>d.
     if rq_receiving_reply d \<and> rq_strict d then ret (Some EFSM) else
     thenX (if rq_receiving_reply d
            then modS (\<lambda>d. d\<lparr>rq_receiving_reply := False, rq_message_begins := True\<rparr>) else ret ()) (
     bindX (getS rq_message_begins) (\<lambda>begins.
     bindX (if begins then begin_request else ret True) (\<lambda>ok.
     if \<not> ok then ret (Some EAGAIN) else
     bindX (dealer_xsend msg) (\<lambda>rc.
     if rc \<noteq> None then ret rc else
     thenX (if zm_more msg then ret ()
            else modS (\<lambda>d. d\<lparr>rq_receiving_reply := True, rq_message_begins := True\<rparr>)) (
     ret None))))))"

partial_function (option) recv_reply_pipe_loop :: "req \<Rightarrow> (zmsg option res \<times> req) option" where
  "recv_reply_pipe_loop d =
     (case dealer_recvpipe d of
        (Inl e, d') \<Rightarrow> Some (Inl e, d')
      | (Inr None, d') \<Rightarrow> Some (Inr None, d')
      | (Inr (Some (m, p)), d') \<Rightarrow>
          if rq_reply_pipe d' = None \<or> rq_reply_pipe d' = Some p then Some (Inr (Some m), d')
          else recv_reply_pipe_loop d')"

definition recv_reply_pipe :: "(req, zmsg option) cxx" where
  "recv_reply_pipe = loopX recv_reply_pipe_loop"

text \<open>The remaining parts of a message that is not the reply.\<close>

partial_function (option) skip_loop :: "zmsg \<Rightarrow> req \<Rightarrow> (unit res \<times> req) option" where
  "skip_loop m d =
     (if \<not> zm_more m then Some (Inr (), d)
      else case recv_reply_pipe d of
        (Inl e, d') \<Rightarrow> Some (Inl e, d')
      | (Inr None, d') \<Rightarrow> Some (Inl AssertFailed, d')
      | (Inr (Some m'), d') \<Rightarrow> skip_loop m' d')"

text \<open>
  One attempt to read the parts in front of a reply: nothing there, another message (which is
  skipped), or the reply.
\<close>

datatype reply_head = No_message | Other_message | Reply_found

definition head_part :: "(zmsg \<Rightarrow> bool) \<Rightarrow> (req, reply_head) cxx" where
  "head_part wanted =
     bindX recv_reply_pipe (\<lambda>m.
     case m of
       None \<Rightarrow> ret No_message
     | Some m \<Rightarrow>
         if zm_more m \<and> wanted m then ret Reply_found
         else thenX (loopX (skip_loop m)) (ret Other_message))"

definition reply_head_parts :: "(req, reply_head) cxx" where
  "reply_head_parts =
     bindX (getS id) (\<lambda>d.
     bindX (if rq_request_id_frames_enabled d
            then head_part (\<lambda>m. length (zm_data m) = 4 \<and> zm_data m = mem_uint32 (rq_request_id d))
            else ret Reply_found) (\<lambda>h.
     if h \<noteq> Reply_found then ret h else head_part (\<lambda>m. zm_data m = [])))"

partial_function (option) reply_loop :: "req \<Rightarrow> (bool res \<times> req) option" where
  "reply_loop d =
     (if \<not> rq_message_begins d then Some (Inr True, d)
      else case reply_head_parts d of
        (Inl e, d') \<Rightarrow> Some (Inl e, d')
      | (Inr No_message, d') \<Rightarrow> Some (Inr False, d')
      | (Inr Other_message, d') \<Rightarrow> reply_loop d'
      | (Inr Reply_found, d') \<Rightarrow> reply_loop (d'\<lparr>rq_message_begins := False\<rparr>))"

definition req_xrecv :: "(req, zerr + zmsg) cxx" where
  "req_xrecv =
     bindX (getS id) (\<lambda>d.
     if \<not> rq_receiving_reply d then ret (Inl EFSM) else
     bindX (loopX reply_loop) (\<lambda>found.
     if \<not> found then ret (Inl EAGAIN) else
     bindX recv_reply_pipe (\<lambda>m.
     case m of
       None \<Rightarrow> ret (Inl EAGAIN)
     | Some m \<Rightarrow>
         thenX (if zm_more m then ret ()
                else modS (\<lambda>d. d\<lparr>rq_receiving_reply := False, rq_message_begins := True\<rparr>)) (
         ret (Inr m)))))"

definition req_xhas_in :: "(req, bool) cxx" where
  "req_xhas_in = bindX (getS rq_receiving_reply) (\<lambda>r. if \<not> r then ret False else dealer_xhas_in)"

definition req_xhas_out :: "(req, bool) cxx" where
  "req_xhas_out =
     bindX (getS id) (\<lambda>d. if rq_receiving_reply d \<and> rq_strict d then ret False else dealer_xhas_out)"

definition ZMQ_REQ_CORRELATE :: int where
  "ZMQ_REQ_CORRELATE = 52"

definition ZMQ_REQ_RELAXED :: int where
  "ZMQ_REQ_RELAXED = 53"

definition req_xsetsockopt :: "int \<Rightarrow> int option \<Rightarrow> (req, zerr option) cxx" where
  "req_xsetsockopt opt value =
     (case value of
        Some v \<Rightarrow>
          if opt = ZMQ_REQ_CORRELATE \<and> v \<ge> 0 then
            thenX (modS (\<lambda>d. d\<lparr>rq_request_id_frames_enabled := (v \<noteq> 0)\<rparr>)) (ret None)
          else if opt = ZMQ_REQ_RELAXED \<and> v \<ge> 0 then
            thenX (modS (\<lambda>d. d\<lparr>rq_strict := (v = 0)\<rparr>)) (ret None)
          else dealer_xsetsockopt opt value
      | None \<Rightarrow> dealer_xsetsockopt opt value)"

definition req_xpipe_terminated :: "nat \<Rightarrow> req \<Rightarrow> req" where
  "req_xpipe_terminated p d =
     dealer_xpipe_terminated p (if rq_reply_pipe d = Some p then d\<lparr>rq_reply_pipe := None\<rparr> else d)"

section \<open>The session of a request socket\<close>

text \<open>
  What the session lets through to the socket: replies of the right shape. The answer is the
  new state and whether the part is pushed to the socket; none stands for the error.
\<close>

datatype req_session_state = Bottom | Request_id | Body

definition only_more :: "zmsg \<Rightarrow> bool" where
  "only_more m \<longleftrightarrow> zm_more m \<and> \<not> zm_command m \<and> \<not> zm_credential m \<and> \<not> zm_routing_id m"

definition no_flags :: "zmsg \<Rightarrow> bool" where
  "no_flags m \<longleftrightarrow> \<not> zm_more m \<and> \<not> zm_command m \<and> \<not> zm_credential m \<and> \<not> zm_routing_id m"

definition req_session_push_msg :: "zmsg \<Rightarrow> req_session_state \<Rightarrow> (bool \<times> req_session_state) option" where
  "req_session_push_msg m st =
     (if zm_command m then Some (False, st)
      else case st of
        Bottom \<Rightarrow>
          if only_more m \<and> length (zm_data m) = 4 then Some (True, Request_id)
          else if only_more m \<and> zm_data m = [] then Some (True, Body)
          else None
      | Request_id \<Rightarrow> if only_more m \<and> zm_data m = [] then Some (True, Body) else None
      | Body \<Rightarrow>
          if only_more m then Some (True, Body)
          else if no_flags m then Some (True, Bottom)
          else None)"

definition req_session_reset :: "req_session_state \<Rightarrow> req_session_state" where
  "req_session_reset st = Bottom"

text \<open>The loops as equations to compute with.\<close>

declare drop_loop.simps [code] recv_reply_pipe_loop.simps [code] skip_loop.simps [code] reply_loop.simps [code]

end
