(* ===== verification/ZmqWire.thy ===== *)
theory ZmqWire
  imports Prelude
begin

unbundle bit_operations_syntax

text \<open>
  \<open>libzmq/wire.hpp\<close>: numbers in network byte order. A buffer is a string; the router makes its
  routing ids this way.
\<close>

section \<open>Definitions\<close>

definition put_uint8 :: "8 word \<Rightarrow> string" where
  "put_uint8 v = [char_of (unat v)]"

definition get_uint8 :: "string \<Rightarrow> 8 word" where
  "get_uint8 b = of_nat (of_char (b ! 0))"

definition put_uint16 :: "16 word \<Rightarrow> string" where
  "put_uint16 v = map (\<lambda>k. char_of (unat (drop_bit k v AND 0xff))) [8, 0]"

definition get_uint16 :: "string \<Rightarrow> 16 word" where
  "get_uint16 b = push_bit 8 (of_nat (of_char (b ! 0))) OR of_nat (of_char (b ! 1))"

definition put_uint32 :: "uint \<Rightarrow> string" where
  "put_uint32 v = map (\<lambda>k. char_of (unat (drop_bit k v AND 0xff))) [24, 16, 8, 0]"

definition get_uint32 :: "string \<Rightarrow> uint" where
  "get_uint32 b =
     push_bit 24 (of_nat (of_char (b ! 0))) OR push_bit 16 (of_nat (of_char (b ! 1))) OR
     push_bit 8 (of_nat (of_char (b ! 2))) OR of_nat (of_char (b ! 3))"

definition put_uint64 :: "ulonglong \<Rightarrow> string" where
  "put_uint64 v = map (\<lambda>k. char_of (unat (drop_bit k v AND 0xff))) [56, 48, 40, 32, 24, 16, 8, 0]"

definition get_uint64 :: "string \<Rightarrow> ulonglong" where
  "get_uint64 b =
     push_bit 56 (of_nat (of_char (b ! 0))) OR push_bit 48 (of_nat (of_char (b ! 1))) OR
     push_bit 40 (of_nat (of_char (b ! 2))) OR push_bit 32 (of_nat (of_char (b ! 3))) OR
     push_bit 24 (of_nat (of_char (b ! 4))) OR push_bit 16 (of_nat (of_char (b ! 5))) OR
     push_bit 8 (of_nat (of_char (b ! 6))) OR of_nat (of_char (b ! 7))"

section \<open>One byte after the other\<close>

lemma byte_take_bit: "x AND 0xff = take_bit 8 (x :: 'a :: len word)"
proof -
  have "(0xff :: 'a word) = mask 8" by (simp add: mask_eq_exp_minus_1)
  then show ?thesis by (simp only: take_bit_eq_mask)
qed

lemma of_char_byte:
  "of_nat (of_char (char_of (unat (x AND 0xff)) :: char)) = take_bit 8 (x :: 'a :: len word)"
proof -
  have "unat (take_bit 8 x) < 256"
    using take_bit_nat_less_exp [of 8 "unat x"] by (simp add: unsigned_take_bit_eq)
  then show ?thesis by (simp add: byte_take_bit)
qed

lemma join_byte:
  "push_bit k (take_bit 8 (drop_bit k v)) OR take_bit k v = take_bit (k + 8) (v :: 'a :: len word)"
  by (rule bit_word_eqI) (auto simp: bit_simps)

lemmas join_bytes = join_byte [where k = 8, simplified] join_byte [where k = 16, simplified]
  join_byte [where k = 24, simplified] join_byte [where k = 32, simplified]
  join_byte [where k = 40, simplified] join_byte [where k = 48, simplified]
  join_byte [where k = 56, simplified] take_bit_word_eq_self

lemma get_put_uint8: "get_uint8 (put_uint8 v) = v"
  unfolding get_uint8_def put_uint8_def
  using unsigned_less [of v, where 'a = nat] by simp

lemma get_put_uint16: "get_uint16 (put_uint16 v) = v"
  unfolding get_uint16_def put_uint16_def by (simp add: of_char_byte join_bytes del: of_char_of)

lemma get_put_uint32: "get_uint32 (put_uint32 v) = v"
  unfolding get_uint32_def put_uint32_def by (simp add: of_char_byte join_bytes del: of_char_of)

lemma get_put_uint64: "get_uint64 (put_uint64 v) = v"
  unfolding get_uint64_def put_uint64_def by (simp add: of_char_byte join_bytes del: of_char_of)

text \<open>
  A number of one, two, four or eight bytes that is put into a buffer is read back from it,
  and it takes that many bytes.
\<close>

theorem wire_roundtrip:
  "get_uint8 (put_uint8 a) = a \<and> get_uint16 (put_uint16 b) = b \<and> get_uint32 (put_uint32 c) = c \<and>
   get_uint64 (put_uint64 d) = d \<and>
   map length [put_uint8 a, put_uint16 b, put_uint32 c, put_uint64 d] = [1, 2, 4, 8]"
  by (simp add: get_put_uint8 get_put_uint16 get_put_uint32 get_put_uint64)
    (simp add: put_uint8_def put_uint16_def put_uint32_def put_uint64_def)

end
