(* ===== verification/ZmqRep.thy ===== *)
theory ZmqRep
  imports ZmqReq ZmqWire
begin

text \<open>
  \<open>libzmq/router.cpp\<close> (with its base class at the end of \<open>socket_base.cpp\<close>) and
  \<open>libzmq/rep.cpp\<close>: the socket of the server. A router puts the routing id of the peer in front
  of each message it returns and takes it off the messages it sends; a REP socket copies the
  parts up to the empty one from the request to the reply.
\<close>

section \<open>The router\<close>

text \<open>The options are fields; a peer is found by its routing id together with whether its pipe is active.\<close>

record router =
  rt_fq :: fq
  rt_pipes :: pipes
  rt_prefetched :: bool
  rt_routing_id_sent :: bool
  rt_prefetched_id :: zmsg
  rt_prefetched_msg :: zmsg
  rt_current_in :: "nat option"
  rt_terminate_current_in :: bool
  rt_more_in :: bool
  rt_anonymous_pipes :: "nat set"
  rt_out_pipes :: "(string \<times> nat \<times> bool) list"
  rt_current_out :: "nat option"
  rt_more_out :: bool
  rt_next_integral_routing_id :: uint
  rt_connect_routing_id :: string
  rt_mandatory :: bool
  rt_raw_socket :: bool
  rt_probe_router :: bool
  rt_handover :: bool
  rt_opt_raw_socket :: bool
  rt_opt_recv_routing_id :: bool

text \<open>\<open>random\<close> is the first number for peers without a routing id.\<close>

definition router_new :: "uint \<Rightarrow> router" where
  "router_new random =
     \<lparr>rt_fq = fq_new, rt_pipes = (\<lambda>_. fst (pipepair 0 0)), rt_prefetched = False,
      rt_routing_id_sent = False, rt_prefetched_id = zmsg_init, rt_prefetched_msg = zmsg_init,
      rt_current_in = None, rt_terminate_current_in = False, rt_more_in = False,
      rt_anonymous_pipes = {}, rt_out_pipes = [], rt_current_out = None, rt_more_out = False,
      rt_next_integral_routing_id = random, rt_connect_routing_id = [], rt_mandatory = False,
      rt_raw_socket = False, rt_probe_router = False, rt_handover = False,
      rt_opt_raw_socket = False, rt_opt_recv_routing_id = True\<rparr>"

text \<open>Options: the bytes of the value, and the \<open>int\<close> they are when there are four of them.\<close>

definition ZMQ_CONNECT_ROUTING_ID :: int where
  "ZMQ_CONNECT_ROUTING_ID = 61"

definition ZMQ_ROUTER_MANDATORY :: int where
  "ZMQ_ROUTER_MANDATORY = 33"

definition ZMQ_ROUTER_RAW :: int where
  "ZMQ_ROUTER_RAW = 41"

definition ZMQ_ROUTER_HANDOVER :: int where
  "ZMQ_ROUTER_HANDOVER = 56"

definition routing_xsetsockopt :: "int \<Rightarrow> string \<Rightarrow> ('z router_scheme, zerr option) cxx" where
  "routing_xsetsockopt opt bytes =
     (if opt = ZMQ_CONNECT_ROUTING_ID \<and> bytes \<noteq> []
      then thenX (modS (\<lambda>d. d\<lparr>rt_connect_routing_id := bytes\<rparr>)) (ret None)
      else ret (Some EINVAL))"

definition router_xsetsockopt :: "int \<Rightarrow> string \<Rightarrow> int option \<Rightarrow> ('z router_scheme, zerr option) cxx" where
  "router_xsetsockopt opt bytes value =
     (let flag = (\<lambda>u. case value of
                        Some v \<Rightarrow> if v \<ge> 0 then thenX (modS (u (v \<noteq> 0))) (ret None) else ret (Some EINVAL)
                      | None \<Rightarrow> ret (Some EINVAL)) in
      if opt = ZMQ_ROUTER_RAW then
        flag (\<lambda>b d. if b then d\<lparr>rt_raw_socket := True, rt_opt_recv_routing_id := False, rt_opt_raw_socket := True\<rparr>
                    else d\<lparr>rt_raw_socket := False\<rparr>)
      else if opt = ZMQ_ROUTER_MANDATORY then flag (\<lambda>b d. d\<lparr>rt_mandatory := b\<rparr>)
      else if opt = ZMQ_PROBE_ROUTER then flag (\<lambda>b d. d\<lparr>rt_probe_router := b\<rparr>)
      else if opt = ZMQ_ROUTER_HANDOVER then flag (\<lambda>b d. d\<lparr>rt_handover := b\<rparr>)
      else routing_xsetsockopt opt bytes)"

definition routerFq :: "(fqs, 'a) cxx \<Rightarrow> ('z router_scheme, 'a) cxx" where
  "routerFq m = (\<lambda>d. case m (rt_fq d, rt_pipes d) of (r, (f, ps)) \<Rightarrow> (r, d\<lparr>rt_fq := f, rt_pipes := ps\<rparr>))"

definition routerPipe :: "nat \<Rightarrow> (pipe, 'a) cxx \<Rightarrow> ('z router_scheme, 'a) cxx" where
  "routerPipe p m = (\<lambda>d. case m (rt_pipes d p) of (r, q) \<Rightarrow> (r, d\<lparr>rt_pipes := (rt_pipes d)(p := q)\<rparr>))"

text \<open>The table of the peers.\<close>

definition add_out_pipe :: "string \<Rightarrow> nat \<Rightarrow> ('z router_scheme, unit) cxx" where
  "add_out_pipe rid p =
     bindX (getS rt_out_pipes) (\<lambda>out.
     if map_of out rid \<noteq> None then throw AssertFailed
     else modS (\<lambda>d. d\<lparr>rt_out_pipes := (rid, p, True) # out\<rparr>))"

definition erase_out_pipe :: "nat \<Rightarrow> ('z router_scheme, unit) cxx" where
  "erase_out_pipe p =
     bindX (getS id) (\<lambda>d.
     let rid = pp_routing_id (rt_pipes d p) in
     if map_of (rt_out_pipes d) rid = None then throw AssertFailed
     else modS (\<lambda>d. d\<lparr>rt_out_pipes := filter (\<lambda>e. fst e \<noteq> rid) (rt_out_pipes d)\<rparr>))"

definition set_active :: "string \<Rightarrow> bool \<Rightarrow> (string \<times> nat \<times> bool) list \<Rightarrow> (string \<times> nat \<times> bool) list" where
  "set_active rid b out = map (\<lambda>(r, p, a). (r, p, if r = rid then b else a)) out"

text \<open>The number that replaces a missing routing id: a zero byte and four bytes.\<close>

definition next_routing_id :: "('z router_scheme, string) cxx" where
  "next_routing_id =
     bindX (getS rt_next_integral_routing_id) (\<lambda>n.
     thenX (modS (\<lambda>d. d\<lparr>rt_next_integral_routing_id := n + 1\<rparr>)) (
     ret (char_of (0 :: nat) # put_uint32 n)))"

text \<open>A new connection takes over the routing id of an old one.\<close>

definition hand_over :: "nat \<Rightarrow> ('z router_scheme, unit) cxx" where
  "hand_over old_pipe =
     bindX next_routing_id (\<lambda>new.
     thenX (erase_out_pipe old_pipe) (
     thenX (modS (\<lambda>d. d\<lparr>rt_pipes := (rt_pipes d)(old_pipe := set_router_socket_routing_id new (rt_pipes d old_pipe))\<rparr>)) (
     thenX (add_out_pipe new old_pipe) (
     bindX (getS rt_current_in) (\<lambda>cur.
     if cur = Some old_pipe then modS (\<lambda>d. d\<lparr>rt_terminate_current_in := True\<rparr>)
     else routerPipe old_pipe (pipe_terminate True))))))"

text \<open>The routing id of a peer, none when the peer cannot be identified (yet).\<close>

definition peer_routing_id :: "nat \<Rightarrow> bool \<Rightarrow> ('z router_scheme, string option) cxx" where
  "peer_routing_id p locally_initiated =
     bindX (getS id) (\<lambda>d.
     if locally_initiated \<and> rt_connect_routing_id d \<noteq> [] then
       thenX (modS (\<lambda>d. d\<lparr>rt_connect_routing_id := []\<rparr>)) (
       if map_of (rt_out_pipes d) (rt_connect_routing_id d) \<noteq> None then throw AssertFailed
       else ret (Some (rt_connect_routing_id d)))
     else if rt_opt_raw_socket d then bindX next_routing_id (\<lambda>rid. ret (Some rid))
     else
       bindX (routerPipe p pipe_read) (\<lambda>m.
       case m of
         None \<Rightarrow> ret None
       | Some msg \<Rightarrow>
           if zm_data msg = [] then bindX next_routing_id (\<lambda>rid. ret (Some rid)) else
           bindX (getS id) (\<lambda>d.
           case map_of (rt_out_pipes d) (zm_data msg) of
             None \<Rightarrow> ret (Some (zm_data msg))
           | Some (old_pipe, _) \<Rightarrow>
               if \<not> rt_handover d then ret None
               else thenX (hand_over old_pipe) (ret (Some (zm_data msg))))))"

definition identify_peer :: "nat \<Rightarrow> bool \<Rightarrow> ('z router_scheme, bool) cxx" where
  "identify_peer p locally_initiated =
     bindX (peer_routing_id p locally_initiated) (\<lambda>rid.
     case rid of
       None \<Rightarrow> ret False
     | Some rid \<Rightarrow>
         thenX (modS (\<lambda>d. d\<lparr>rt_pipes := (rt_pipes d)(p := set_router_socket_routing_id rid (rt_pipes d p))\<rparr>)) (
         thenX (add_out_pipe rid p) (ret True)))"

definition router_xattach_pipe :: "nat \<Rightarrow> bool \<Rightarrow> ('z router_scheme, unit) cxx" where
  "router_xattach_pipe p locally_initiated =
     bindX (getS rt_probe_router) (\<lambda>probe.
     thenX (if probe then bindX (routerPipe p (pipe_write zmsg_init)) (\<lambda>_. routerPipe p pipe_flush)
            else ret ()) (
     bindX (identify_peer p locally_initiated) (\<lambda>ok.
     modS (\<lambda>d. if ok then d\<lparr>rt_fq := fq_attach p (rt_fq d)\<rparr>
               else d\<lparr>rt_anonymous_pipes := insert p (rt_anonymous_pipes d)\<rparr>))))"

definition router_xpipe_terminated :: "nat \<Rightarrow> ('z router_scheme, unit) cxx" where
  "router_xpipe_terminated p =
     bindX (getS id) (\<lambda>d.
     if p \<in> rt_anonymous_pipes d then
       modS (\<lambda>d. d\<lparr>rt_anonymous_pipes := rt_anonymous_pipes d - {p}\<rparr>)
     else
       thenX (erase_out_pipe p) (
       thenX (modS (\<lambda>d. d\<lparr>rt_fq := fq_pipe_terminated p (rt_fq d)\<rparr>)) (
       thenX (routerPipe p pipe_rollback) (
       modS (\<lambda>d. if rt_current_out d = Some p then d\<lparr>rt_current_out := None\<rparr> else d)))))"

definition router_xread_activated :: "nat \<Rightarrow> ('z router_scheme, unit) cxx" where
  "router_xread_activated p =
     bindX (getS id) (\<lambda>d.
     if p \<notin> rt_anonymous_pipes d then modS (\<lambda>d. d\<lparr>rt_fq := fq_activated p (rt_fq d)\<rparr>)
     else
       bindX (identify_peer p False) (\<lambda>ok.
       if ok then modS (\<lambda>d. d\<lparr>rt_anonymous_pipes := rt_anonymous_pipes d - {p}, rt_fq := fq_attach p (rt_fq d)\<rparr>)
       else ret ()))"

definition router_xwrite_activated :: "nat \<Rightarrow> ('z router_scheme, unit) cxx" where
  "router_xwrite_activated p =
     bindX (getS rt_out_pipes) (\<lambda>out.
     case find (\<lambda>e. fst (snd e) = p) out of
       Some (rid, _, False) \<Rightarrow> modS (\<lambda>d. d\<lparr>rt_out_pipes := set_active rid True out\<rparr>)
     | _ \<Rightarrow> throw AssertFailed)"

section \<open>Sending and receiving\<close>

text \<open>The first part of a message names the peer.\<close>

definition router_address :: "zmsg \<Rightarrow> ('z router_scheme, zerr option) cxx" where
  "router_address msg =
     bindX (getS id) (\<lambda>d.
     if rt_current_out d \<noteq> None then throw AssertFailed
     else if \<not> zm_more msg then ret None
     else
       thenX (modS (\<lambda>d. d\<lparr>rt_more_out := True\<rparr>)) (
       case map_of (rt_out_pipes d) (zm_data msg) of
         Some (p, act) \<Rightarrow>
           (case pipe_check_write (rt_pipes d p) of (ok, q) \<Rightarrow>
              thenX (modS (\<lambda>d. d\<lparr>rt_pipes := (rt_pipes d)(p := q), rt_current_out := Some p\<rparr>)) (
              if ok then ret None
              else
                thenX (modS (\<lambda>d. d\<lparr>rt_out_pipes := set_active (zm_data msg) False (rt_out_pipes d), rt_current_out := None\<rparr>)) (
                if rt_mandatory d then
                  thenX (modS (\<lambda>d. d\<lparr>rt_more_out := False\<rparr>)) (
                  ret (Some (if check_hwm q then EHOSTUNREACH else EAGAIN)))
                else ret None)))
       | None \<Rightarrow>
           if rt_mandatory d then thenX (modS (\<lambda>d. d\<lparr>rt_more_out := False\<rparr>)) (ret (Some EHOSTUNREACH))
           else ret None))"

definition router_xsend :: "zmsg \<Rightarrow> ('z router_scheme, zerr option) cxx" where
  "router_xsend msg =
     bindX (getS id) (\<lambda>d.
     if \<not> rt_more_out d then router_address msg else
     let msg = (if rt_opt_raw_socket d then msg\<lparr>zm_more := False\<rparr> else msg) in
     thenX (modS (\<lambda>d. d\<lparr>rt_more_out := zm_more msg\<rparr>)) (
     case rt_current_out d of
       None \<Rightarrow> ret None
     | Some p \<Rightarrow>
         if rt_raw_socket d \<and> zm_data msg = [] then
           thenX (routerPipe p (pipe_terminate False)) (
           thenX (modS (\<lambda>d. d\<lparr>rt_current_out := None\<rparr>)) (ret None))
         else
           bindX (routerPipe p (pipe_write msg)) (\<lambda>ok.
           thenX (if \<not> ok then
                    thenX (routerPipe p pipe_rollback) (modS (\<lambda>d. d\<lparr>rt_current_out := None\<rparr>))
                  else if zm_more msg then ret ()
                  else thenX (routerPipe p pipe_flush) (modS (\<lambda>d. d\<lparr>rt_current_out := None\<rparr>))) (
           ret None))))"

text \<open>The end of a message: a pipe that was only kept for it is closed.\<close>

definition end_of_part :: "zmsg \<Rightarrow> ('z router_scheme, unit) cxx" where
  "end_of_part msg =
     thenX (modS (\<lambda>d. d\<lparr>rt_more_in := zm_more msg\<rparr>)) (
     if zm_more msg then ret () else
     bindX (getS id) (\<lambda>d.
     thenX (if rt_terminate_current_in d then
              (case rt_current_in d of
                 None \<Rightarrow> throw (UB NullDeref)
               | Some p \<Rightarrow> thenX (routerPipe p (pipe_terminate True)) (
                           modS (\<lambda>d. d\<lparr>rt_terminate_current_in := False\<rparr>)))
            else ret ()) (
     modS (\<lambda>d. d\<lparr>rt_current_in := None\<rparr>))))"

text \<open>Routing ids that arrive after a reconnection are skipped.\<close>

partial_function (option) router_recv_loop ::
  "'z router_scheme \<Rightarrow> ((zmsg \<times> nat) option res \<times> 'z router_scheme) option" where
  "router_recv_loop d =
     (case routerFq fq_recvpipe d of
        (Inr (Some (m, p)), d') \<Rightarrow>
          if zm_routing_id m then router_recv_loop d' else Some (Inr (Some (m, p)), d')
      | r \<Rightarrow> Some r)"

definition routing_id_part :: "nat \<Rightarrow> 'z router_scheme \<Rightarrow> zmsg" where
  "routing_id_part p d = with_more (zmsg_of (pp_routing_id (rt_pipes d p)))"

definition router_xrecv :: "('z router_scheme, zmsg option) cxx" where
  "router_xrecv =
     bindX (getS id) (\<lambda>d.
     if rt_prefetched d then
       (if \<not> rt_routing_id_sent d then
          thenX (modS (\<lambda>d. d\<lparr>rt_routing_id_sent := True\<rparr>)) (
          thenX (end_of_part (rt_prefetched_id d)) (ret (Some (rt_prefetched_id d))))
        else
          thenX (modS (\<lambda>d. d\<lparr>rt_prefetched := False\<rparr>)) (
          thenX (end_of_part (rt_prefetched_msg d)) (ret (Some (rt_prefetched_msg d)))))
     else
       bindX (loopX router_recv_loop) (\<lambda>r.
       case r of
         None \<Rightarrow> ret None
       | Some (m, p) \<Rightarrow>
           bindX (getS id) (\<lambda>d.
           if rt_more_in d then thenX (end_of_part m) (ret (Some m))
           else thenX (modS (\<lambda>d. d\<lparr>rt_prefetched_msg := m, rt_prefetched := True, rt_current_in := Some p,
                             rt_routing_id_sent := True\<rparr>)) (
                ret (Some (routing_id_part p d))))))"

definition router_rollback :: "('z router_scheme, unit) cxx" where
  "router_rollback =
     bindX (getS rt_current_out) (\<lambda>c.
     case c of
       None \<Rightarrow> ret ()
     | Some p \<Rightarrow> thenX (routerPipe p pipe_rollback) (modS (\<lambda>d. d\<lparr>rt_current_out := None, rt_more_out := False\<rparr>)))"

definition router_xhas_in :: "('z router_scheme, bool) cxx" where
  "router_xhas_in =
     bindX (getS id) (\<lambda>d.
     if rt_more_in d \<or> rt_prefetched d then ret True else
     bindX (loopX router_recv_loop) (\<lambda>r.
     case r of
       None \<Rightarrow> ret False
     | Some (m, p) \<Rightarrow>
         thenX (modS (\<lambda>d. d\<lparr>rt_prefetched_msg := m, rt_prefetched_id := routing_id_part p d, rt_prefetched := True,
                       rt_routing_id_sent := False, rt_current_in := Some p\<rparr>)) (
         ret True)))"

text \<open>None stands for an unknown peer (\<open>EHOSTUNREACH\<close>), otherwise whether it can be written to.\<close>

definition get_peer_state :: "string \<Rightarrow> 'z router_scheme \<Rightarrow> bool option" where
  "get_peer_state rid d =
     map_option (\<lambda>(p, _). check_hwm (rt_pipes d p)) (map_of (rt_out_pipes d) rid)"

section \<open>The reply socket\<close>

record rep = router +
  rp_sending_reply :: bool
  rp_request_begins :: bool

definition rep_new :: "uint \<Rightarrow> rep" where
  "rep_new random = router.extend (router_new random) \<lparr>rp_sending_reply = False, rp_request_begins = True\<rparr>"

definition rep_xsend :: "zmsg \<Rightarrow> (rep, zerr option) cxx" where
  "rep_xsend msg =
     bindX (getS rp_sending_reply) (\<lambda>sending.
     if \<not> sending then ret (Some EFSM) else
     bindX (router_xsend msg) (\<lambda>rc.
     if rc \<noteq> None then ret rc else
     thenX (if zm_more msg then ret () else modS (\<lambda>d. d\<lparr>rp_sending_reply := False\<rparr>)) (ret None)))"

text \<open>
  The parts in front of a request go to the reply as they are; a message that ends before the
  empty part is dropped. False when nothing more can be received.
\<close>

partial_function (option) envelope_loop :: "rep \<Rightarrow> (bool res \<times> rep) option" where
  "envelope_loop d =
     (case router_xrecv d of
        (Inl e, d') \<Rightarrow> Some (Inl e, d')
      | (Inr None, d') \<Rightarrow> Some (Inr False, d')
      | (Inr (Some m), d') \<Rightarrow>
          if zm_more m then
            (case router_xsend m d' of
               (Inr None, d'') \<Rightarrow> if zm_data m = [] then Some (Inr True, d'') else envelope_loop d''
             | (Inr (Some _), d'') \<Rightarrow> Some (Inl AssertFailed, d'')
             | (Inl e, d'') \<Rightarrow> Some (Inl e, d''))
          else
            (case router_rollback d' of
               (Inr _, d'') \<Rightarrow> envelope_loop d''
             | (Inl e, d'') \<Rightarrow> Some (Inl e, d'')))"

definition rep_xrecv :: "(rep, zerr + zmsg) cxx" where
  "rep_xrecv =
     bindX (getS id) (\<lambda>d.
     if rp_sending_reply d then ret (Inl EFSM) else
     bindX (if rp_request_begins d then
              bindX (loopX envelope_loop) (\<lambda>ok.
              thenX (if ok then modS (\<lambda>d. d\<lparr>rp_request_begins := False\<rparr>) else ret ()) (ret ok))
            else ret True) (\<lambda>ok.
     if \<not> ok then ret (Inl EAGAIN) else
     bindX router_xrecv (\<lambda>m.
     case m of
       None \<Rightarrow> ret (Inl EAGAIN)
     | Some m \<Rightarrow>
         thenX (if zm_more m then ret ()
                else modS (\<lambda>d. d\<lparr>rp_sending_reply := True, rp_request_begins := True\<rparr>)) (
         ret (Inr m)))))"

definition rep_xhas_in :: "(rep, bool) cxx" where
  "rep_xhas_in = bindX (getS rp_sending_reply) (\<lambda>s. if s then ret False else router_xhas_in)"

definition router_xhas_out :: "('z router_scheme, bool) cxx" where
  "router_xhas_out =
     bindX (getS id) (\<lambda>d.
     ret (\<not> rt_mandatory d \<or> list_ex (\<lambda>e. check_hwm (rt_pipes d (fst (snd e)))) (rt_out_pipes d)))"

definition rep_xhas_out :: "(rep, bool) cxx" where
  "rep_xhas_out = bindX (getS rp_sending_reply) (\<lambda>s. if \<not> s then ret False else router_xhas_out)"

section \<open>What a REP socket keeps while it has a request to answer\<close>

lemma preserves_routerFq: "(\<And>d f ps. P (d\<lparr>rt_fq := f, rt_pipes := ps\<rparr>) = P d) \<Longrightarrow> preserves P (routerFq m)"
  by (auto simp: preserves_def routerFq_def split: prod.splits)

lemma preserves_routerPipe: "(\<And>d ps. P (d\<lparr>rt_pipes := ps\<rparr>) = P d) \<Longrightarrow> preserves P (routerPipe p m)"
  by (auto simp: preserves_def routerPipe_def split: prod.splits)

lemmas keep_reply = preserves_intros preserves_routerFq preserves_routerPipe preserves_modS

lemma keeps_sending_next_routing_id: "preserves rp_sending_reply next_routing_id"
  unfolding next_routing_id_def by (intro keep_reply) simp_all

lemma keeps_sending_add: "preserves rp_sending_reply (add_out_pipe rid p)"
  unfolding add_out_pipe_def by (intro keep_reply) simp_all

lemma keeps_sending_erase: "preserves rp_sending_reply (erase_out_pipe p)"
  unfolding erase_out_pipe_def Let_def by (intro keep_reply) simp_all

lemma keeps_sending_hand_over: "preserves rp_sending_reply (hand_over p)"
  unfolding hand_over_def
  by (intro keep_reply keeps_sending_next_routing_id keeps_sending_add keeps_sending_erase) simp_all

lemma keeps_sending_identify: "preserves rp_sending_reply (identify_peer p l)"
  unfolding identify_peer_def peer_routing_id_def
  by (auto intro!: keep_reply keeps_sending_next_routing_id keeps_sending_add keeps_sending_hand_over
      split: option.splits prod.splits)

text \<open>A REP socket that has a request to answer receives nothing.\<close>

lemma rep_xrecv_sending: "rp_sending_reply d \<Longrightarrow> rep_xrecv d = (Inr (Inl EFSM), d)"
  by (simp add: rep_xrecv_def)

abbreviation last_part_taken :: "zerr + zmsg \<Rightarrow> rep \<Rightarrow> bool" where
  "last_part_taken r d \<equiv> (case r of Inl _ \<Rightarrow> True | Inr m \<Rightarrow> \<not> zm_more m \<longrightarrow> rp_sending_reply d)"

lemma rep_xrecv_last_part: "returns last_part_taken rep_xrecv"
  unfolding rep_xrecv_def
  by (intro returns_bindX returns_if returns_case_option) (simp_all add: returns_def)

text \<open>The loops as equations to compute with.\<close>

declare router_recv_loop.simps [code] envelope_loop.simps [code]

end
