(* ===== verification/ZmqSocket.thy ===== *)
theory ZmqSocket
  imports ZmqRep
begin

text \<open>
  \<open>libzmq/socket_base.cpp\<close> and \<open>libzmq/zmq.cpp\<close>: receiving without waiting and sending on a
  socket, with the commands that other threads have put into its mailbox. A command either
  attaches a new pipe or is meant for one of the pipes, which notifies the socket. The commands
  that take a socket down are not modelled. A hiccup brings a pipe that its owner has not read
  from; the two socket classes do not expect to be told of one.
\<close>

section \<open>Commands\<close>

datatype sock_cmd = Attach nat pipe bool | To_pipe nat pipe_command

text \<open>What a socket class does when a pipe notifies it.\<close>

record 's sock_class =
  sc_pipe :: "'s \<Rightarrow> nat \<Rightarrow> pipe"
  sc_set_pipe :: "nat \<Rightarrow> pipe \<Rightarrow> 's \<Rightarrow> 's"
  sc_attach :: "nat \<Rightarrow> bool \<Rightarrow> ('s, unit) cxx"
  sc_read_activated :: "nat \<Rightarrow> ('s, unit) cxx"
  sc_write_activated :: "nat \<Rightarrow> ('s, unit) cxx"
  sc_pipe_terminated :: "nat \<Rightarrow> ('s, unit) cxx"

definition sockPipe :: "'s sock_class \<Rightarrow> nat \<Rightarrow> (pipe, 'a) cxx \<Rightarrow> ('s, 'a) cxx" where
  "sockPipe C p m = (\<lambda>s. case m (sc_pipe C s p) of (r, q) \<Rightarrow> (r, sc_set_pipe C p q s))"

definition process_command :: "'s sock_class \<Rightarrow> sock_cmd \<Rightarrow> ('s, unit) cxx" where
  "process_command C cmd =
     (case cmd of
        Attach p q locally \<Rightarrow> thenX (modS (sc_set_pipe C p q)) (sc_attach C p locally)
      | To_pipe p c \<Rightarrow>
          (case c of
             Activate_read \<Rightarrow>
               bindX (sockPipe C p (\<lambda>q. case process_activate_read q of (b, q) \<Rightarrow> (Inr b, q))) (\<lambda>notify.
               if notify then sc_read_activated C p else ret ())
           | Activate_write n \<Rightarrow>
               bindX (sockPipe C p (\<lambda>q. case process_activate_write n q of (b, q) \<Rightarrow> (Inr b, q))) (\<lambda>notify.
               if notify then sc_write_activated C p else ret ())
           | Hiccup \<Rightarrow>
               bindX (sockPipe C p (process_hiccup (ypipe_new granularity))) (\<lambda>notify.
               if notify then throw AssertFailed else ret ())
           | Pipe_hwm i o' \<Rightarrow> sockPipe C p (modS (process_pipe_hwm i o'))
           | Pipe_term \<Rightarrow> sockPipe C p process_pipe_term
           | Pipe_term_ack \<Rightarrow> thenX (sc_pipe_terminated C p) (sockPipe C p process_pipe_term_ack)))"

definition process_commands :: "'s sock_class \<Rightarrow> sock_cmd list \<Rightarrow> ('s, unit) cxx" where
  "process_commands C cmds = forX cmds (process_command C)"

definition req_class :: "req sock_class" where
  "req_class =
     \<lparr>sc_pipe = dl_pipes, sc_set_pipe = (\<lambda>p q s. s\<lparr>dl_pipes := (dl_pipes s)(p := q)\<rparr>),
      sc_attach = (\<lambda>p _. dealer_xattach_pipe p),
      sc_read_activated = (\<lambda>p. modS (dealer_xread_activated p)),
      sc_write_activated = (\<lambda>p. modS (dealer_xwrite_activated p)),
      sc_pipe_terminated = (\<lambda>p. modS (req_xpipe_terminated p))\<rparr>"

definition rep_class :: "rep sock_class" where
  "rep_class =
     \<lparr>sc_pipe = rt_pipes, sc_set_pipe = (\<lambda>p q s. s\<lparr>rt_pipes := (rt_pipes s)(p := q)\<rparr>),
      sc_attach = router_xattach_pipe,
      sc_read_activated = router_xread_activated,
      sc_write_activated = router_xwrite_activated,
      sc_pipe_terminated = router_xpipe_terminated\<rparr>"

section \<open>What the commands keep\<close>

text \<open>
  A property of a socket that no notification changes and that does not depend on the pipes is
  kept by every sequence of commands, whatever the peers send.
\<close>

locale socket_keeps =
  fixes C :: "'s sock_class" and P :: "'s \<Rightarrow> bool"
  assumes set_pipe: "P (sc_set_pipe C p q s) = P s"
    and attach: "preserves P (sc_attach C p l)"
    and read_activated: "preserves P (sc_read_activated C p)"
    and write_activated: "preserves P (sc_write_activated C p)"
    and pipe_terminated: "preserves P (sc_pipe_terminated C p)"
begin

lemma on_pipe: "preserves P (sockPipe C p m)"
  by (auto simp: preserves_def sockPipe_def set_pipe split: prod.splits)

lemma command: "preserves P (process_command C cmd)"
  unfolding process_command_def
  by (auto intro!: preserves_intros on_pipe preserves_modS attach read_activated write_activated pipe_terminated
      simp: set_pipe split: sock_cmd.split pipe_command.split)

lemma commands: "preserves P (process_commands C cmds)"
  unfolding process_commands_def by (intro preserves_forX command)

lemma after_commands: "P s \<Longrightarrow> process_commands C cmds s = (r, s') \<Longrightarrow> P s'"
  by (rule preservesD [OF commands])

end

text \<open>A REP socket that has a request to answer, and a REQ socket that waits for a reply.\<close>

interpretation replying: socket_keeps rep_class rp_sending_reply
proof
  show "preserves rp_sending_reply (sc_attach rep_class p l)" for p l
    unfolding rep_class_def router_xattach_pipe_def
    by (auto intro!: keep_reply keeps_sending_identify)
  show "preserves rp_sending_reply (sc_read_activated rep_class p)" for p
    unfolding rep_class_def router_xread_activated_def
    by (auto intro!: keep_reply keeps_sending_identify)
  show "preserves rp_sending_reply (sc_write_activated rep_class p)" for p
    unfolding rep_class_def router_xwrite_activated_def
    by (auto intro!: keep_reply split: option.split prod.split bool.split)
  show "preserves rp_sending_reply (sc_pipe_terminated rep_class p)" for p
    unfolding rep_class_def router_xpipe_terminated_def
    by (auto intro!: keep_reply keeps_sending_erase)
qed (simp add: rep_class_def)

definition req_waits :: "req \<Rightarrow> bool" where
  "req_waits d \<longleftrightarrow> rq_receiving_reply d \<and> rq_strict d"

lemma preserves_dealer_pipe: "(\<And>d ps. P (d\<lparr>dl_pipes := ps\<rparr>) = P d) \<Longrightarrow> preserves P (dealer_pipe p m)"
  by (auto simp: preserves_def dealer_pipe_def split: prod.splits)

interpretation waiting: socket_keeps req_class req_waits
proof
  show "preserves req_waits (sc_attach req_class p l)" for p l
    unfolding req_class_def dealer_xattach_pipe_def
    by (auto intro!: preserves_intros preserves_dealer_pipe preserves_modS simp: req_waits_def)
  show "preserves req_waits (sc_read_activated req_class p)" for p
    by (auto intro!: preserves_modS simp: req_class_def dealer_xread_activated_def req_waits_def)
  show "preserves req_waits (sc_write_activated req_class p)" for p
    by (auto intro!: preserves_modS simp: req_class_def dealer_xwrite_activated_def req_waits_def)
  show "preserves req_waits (sc_pipe_terminated req_class p)" for p
    by (auto intro!: preserves_modS simp: req_class_def req_xpipe_terminated_def dealer_xpipe_terminated_def req_waits_def)
qed (simp add: req_class_def req_waits_def)

section \<open>Receiving without waiting\<close>

definition inbound_poll_rate :: nat where
  "inbound_poll_rate = 100"

text \<open>A socket together with the counter that makes it look at its mailbox once in a while.\<close>

type_synonym 's ticking = "nat \<times> 's"

definition onSock :: "('s, 'a) cxx \<Rightarrow> ('s ticking, 'a) cxx" where
  "onSock m = (\<lambda>(t, s). case m s of (r, s') \<Rightarrow> (r, (t, s')))"

text \<open>
  \<open>recv\<close> with \<open>ZMQ_DONTWAIT\<close>: \<open>early\<close> and \<open>late\<close> are the commands in the mailbox at the two
  places where it is emptied.
\<close>

definition socket_recv :: "'s sock_class \<Rightarrow> ('s, zerr + zmsg) cxx \<Rightarrow> sock_cmd list \<Rightarrow> sock_cmd list \<Rightarrow>
   ('s ticking, zerr + zmsg) cxx" where
  "socket_recv C xrecv early late =
     bindX (getS fst) (\<lambda>ticks.
     thenX (if ticks + 1 = inbound_poll_rate then
              thenX (onSock (process_commands C early)) (modS (\<lambda>(_, s). (0, s)))
            else modS (\<lambda>(_, s). (ticks + 1, s))) (
     bindX (onSock xrecv) (\<lambda>r.
     case r of
       Inr m \<Rightarrow> ret (Inr m)
     | Inl e \<Rightarrow>
         if e \<noteq> EAGAIN then ret (Inl e)
         else thenX (onSock (process_commands C late)) (
              thenX (modS (\<lambda>(_, s). (0, s))) (onSock xrecv)))))"

text \<open>The size of a message as an \<open>int\<close>.\<close>

definition msg_size :: "string \<Rightarrow> int" where
  "msg_size b = min (int (length b)) (2 ^ 31 - 1)"

text \<open>
  \<open>zmq_recv\<close>: the size of the message and the bytes that fit into the buffer; none is the return
  value \<open>-1\<close>.
\<close>

definition zmq_recv :: "'s sock_class \<Rightarrow> ('s, zerr + zmsg) cxx \<Rightarrow> sock_cmd list \<Rightarrow> sock_cmd list \<Rightarrow> nat \<Rightarrow>
   ('s ticking, (int \<times> string) option) cxx" where
  "zmq_recv C xrecv early late len =
     bindX (socket_recv C xrecv early late) (\<lambda>r.
     ret (case r of Inl _ \<Rightarrow> None | Inr m \<Rightarrow> Some (msg_size (zm_data m), take (min len (nat (msg_size (zm_data m)))) (zm_data m))))"

section \<open>Sending\<close>

text \<open>
  \<open>send\<close> without a timeout waits for commands until the message can be sent: the argument is the
  batches of commands that arrive while it waits; when no more arrive it does not come back.
\<close>

primrec send_wait :: "'s sock_class \<Rightarrow> ('s, zerr option) cxx \<Rightarrow> sock_cmd list list \<Rightarrow> ('s, zerr option) cxx" where
  "send_wait C xsend [] = throw NoReturn"
| "send_wait C xsend (cmds # rest) =
     thenX (process_commands C cmds) (
     bindX xsend (\<lambda>rc.
     if rc = None then ret None
     else if rc = Some EAGAIN \<or> rc = Some EAGAIN_cut then send_wait C xsend rest
     else ret rc))"

definition socket_send :: "'s sock_class \<Rightarrow> (zmsg \<Rightarrow> ('s, zerr option) cxx) \<Rightarrow> sock_cmd list \<Rightarrow> sock_cmd list list \<Rightarrow>
   bool \<Rightarrow> zmsg \<Rightarrow> ('s, zerr option) cxx" where
  "socket_send C xsend cmds waiting sndmore msg =
     thenX (process_commands C cmds) (
     let msg = msg\<lparr>zm_more := sndmore\<rparr> in
     bindX (xsend msg) (\<lambda>rc.
     if rc = None \<or> rc = Some EAGAIN_cut then ret None
     else if rc = Some EAGAIN then send_wait C (xsend msg) waiting
     else ret rc))"

text \<open>\<open>zmq_send\<close>: the number of bytes, or \<open>-1\<close>.\<close>

definition zmq_send :: "'s sock_class \<Rightarrow> (zmsg \<Rightarrow> ('s, zerr option) cxx) \<Rightarrow> sock_cmd list \<Rightarrow> sock_cmd list list \<Rightarrow>
   string \<Rightarrow> ('s, int) cxx" where
  "zmq_send C xsend cmds waiting buf =
     bindX (socket_send C xsend cmds waiting False (zmsg_of buf)) (\<lambda>rc.
     ret (if rc = None then msg_size buf else -1))"

section \<open>Receiving a request\<close>

lemma returns_onSock: "returns Q m \<Longrightarrow> returns (\<lambda>a ts. Q a (snd ts)) (onSock m)"
  by (auto simp: returns_def onSock_def split: prod.splits)

lemma rep_socket_recv_last_part:
  "returns (\<lambda>r ts. last_part_taken r (snd ts)) (socket_recv rep_class rep_xrecv early late)"
proof -
  have again: "returns (\<lambda>r ts. last_part_taken r (snd ts))
    (thenX (onSock (process_commands rep_class late)) (thenX (modS (\<lambda>(_, s). (0, s))) (onSock rep_xrecv)))"
    by (intro returns_thenX returns_onSock rep_xrecv_last_part)
  show ?thesis
    unfolding socket_recv_def
    by (intro returns_bindX returns_thenX returns_use [OF returns_onSock [OF rep_xrecv_last_part]])
      (auto dest!: returnsD [OF again] split: prod.splits sum.splits)
qed

lemma rep_recv_sending:
  assumes "rp_sending_reply d"
  shows "\<exists>t' d'. snd (socket_recv rep_class rep_xrecv early late (t, d)) = (t', d') \<and> rp_sending_reply d'"
    and "fst (socket_recv rep_class rep_xrecv early late (t, d)) \<noteq> Inr (Inr m)"
proof -
  obtain r d' where c: "process_commands rep_class early d = (r, d')" by fastforce
  have s: "rp_sending_reply d'" using replying.after_commands [OF assms c] .
  show "\<exists>t' d'. snd (socket_recv rep_class rep_xrecv early late (t, d)) = (t', d') \<and> rp_sending_reply d'"
    using assms s c by (cases r) (auto simp: socket_recv_def onSock_def rep_xrecv_sending bindX_def thenX_def)
  show "fst (socket_recv rep_class rep_xrecv early late (t, d)) \<noteq> Inr (Inr m)"
    using assms s c by (cases r) (auto simp: socket_recv_def onSock_def rep_xrecv_sending bindX_def thenX_def)
qed

end
