(* ===== verification/PipeClose.thy ===== *)
theory PipeClose
  imports ZmqPipe
begin

text \<open>
  The two ends of a pipe of \<open>libzmq/pipe.cpp\<close> together, with the commands they send each other:
  the handshake that closes the pipe, from either side or from both at once.
\<close>

section \<open>Reading and rolling back\<close>

text \<open>A pipe that holds no unfinished parts but such that have more to come.\<close>

definition good :: "zmsg ypipe \<Rightarrow> bool" where
  "good q \<longleftrightarrow> (\<exists>c. ypipe_rel granularity q c \<and> list_all zm_more (partial c))"

lemma granularity_pos: "0 < granularity"
  by (simp add: message_pipe_granularity_def)

lemma good_new [simp]: "good (ypipe_new granularity)"
  using ypipe_rel_new [OF granularity_pos] by (auto simp: good_def chan_new_def)

lemma good_write: "good q \<Longrightarrow> good (ypipe_write granularity m (zm_more m) q)"
  using yp.rel_write by (fastforce simp: good_def chan_write_def)

lemma good_write_complete: "good q \<Longrightarrow> good (ypipe_write granularity m False q)"
  using yp.rel_write by (fastforce simp: good_def chan_write_def)

lemma good_flush: "good q \<Longrightarrow> good (snd (ypipe_flush q))"
  using yp.rel_flush by (fastforce simp: good_def chan_flush_def)

lemma good_check: "good q \<Longrightarrow> good (snd (ypipe_check_read q))"
  using yp.rel_check_read by (fastforce simp: good_def chan_check_read_def)

lemma rollback_loop_result:
  "ypipe_rel granularity q c \<Longrightarrow> list_all zm_more (partial c) \<Longrightarrow>
     \<exists>q'. rollback_loop q = Some (Inr (), q') \<and> ypipe_rel granularity q' (c\<lparr>partial := []\<rparr>)"
proof (induction "partial c" arbitrary: q c rule: rev_induct)
  case Nil
  then have "fst (ypipe_unwrite granularity q) = None" "ypipe_rel granularity (snd (ypipe_unwrite granularity q)) c"
    using yp.rel_unwrite [OF Nil(2)] by (auto simp: chan_unwrite_def)
  moreover have "c\<lparr>partial := []\<rparr> = c" using Nil(1) by (cases c) simp
  ultimately show ?case by (subst rollback_loop.simps) (auto split: prod.split)
next
  case (snoc m ms)
  then have m: "zm_more m" "list_all zm_more ms" by (auto simp flip: snoc(2))
  let ?c = "c\<lparr>partial := ms\<rparr>"
  have "fst (ypipe_unwrite granularity q) = Some (Some m)" "ypipe_rel granularity (snd (ypipe_unwrite granularity q)) ?c"
    using yp.rel_unwrite [OF snoc(3)] by (auto simp: chan_unwrite_def simp flip: snoc(2))
  moreover from this(2) obtain q' where "rollback_loop (snd (ypipe_unwrite granularity q)) = Some (Inr (), q')"
    "ypipe_rel granularity q' (?c\<lparr>partial := []\<rparr>)"
    using snoc(1) [of ?c] m(2) by auto
  ultimately show ?case using m(1) by (subst rollback_loop.simps) (auto split: prod.split)
qed

lemma read_loop_result:
  assumes "ypipe_rel granularity q c"
  shows "\<exists>q' c'. read_loop q = Some (Inr (find (\<lambda>m. \<not> zm_credential m) (flushed c)), q') \<and>
    ypipe_rel granularity q' c' \<and> partial c' = partial c \<and> ready c' = ready c \<and>
    flushed c' = tl (dropWhile zm_credential (flushed c))"
  using assms
proof (induction "flushed c" arbitrary: q c)
  case Nil
  then have "fst (ypipe_read granularity q) = None" "ypipe_rel granularity (snd (ypipe_read granularity q)) (c\<lparr>asleep := True\<rparr>)"
    using yp.rel_read [OF Nil(2)] by (auto simp: chan_read_def)
  then show ?case using Nil(1) [symmetric] by (subst read_loop.simps) (force split: prod.split)
next
  case (Cons m ms)
  let ?c = "c\<lparr>flushed := ms\<rparr>"
  note fl = Cons(2) [symmetric]
  have r: "fst (ypipe_read granularity q) = Some (Some m)" "ypipe_rel granularity (snd (ypipe_read granularity q)) ?c"
    using yp.rel_read [OF Cons(3)] by (auto simp: chan_read_def fl)
  show ?case
  proof (cases "zm_credential m")
    case True
    obtain q' c' where "read_loop (snd (ypipe_read granularity q)) =
        Some (Inr (find (\<lambda>m. \<not> zm_credential m) ms), q')" "ypipe_rel granularity q' c'"
      "partial c' = partial c" "ready c' = ready c" "flushed c' = tl (dropWhile zm_credential ms)"
      using Cons(1) [of ?c, OF _ r(2)] by auto
    then show ?thesis using True r(1) fl
      by (subst read_loop.simps) (auto split: prod.split)
  next
    case False
    then show ?thesis using r fl by (subst read_loop.simps) (force split: prod.split)
  qed
qed

lemma good_read:
  assumes "good q"
  shows "\<exists>r q'. read_loop q = Some (Inr r, q') \<and> good q'"
  using assms read_loop_result unfolding good_def by metis

lemma good_rollback:
  assumes "good q"
  shows "\<exists>q'. rollback_loop q = Some (Inr (), q') \<and> good q'"
proof -
  obtain c where c: "ypipe_rel granularity q c" "list_all zm_more (partial c)"
    using assms unfolding good_def by blast
  then obtain q' where "rollback_loop q = Some (Inr (), q')" "ypipe_rel granularity q' (c\<lparr>partial := []\<rparr>)"
    using rollback_loop_result by blast
  then show ?thesis unfolding good_def by (intro exI [of _ q'] conjI exI [of _ "c\<lparr>partial := []\<rparr>"]) simp_all
qed

section \<open>The two ends together\<close>

text \<open>An end and whether it has been deallocated.\<close>

type_synonym pend = "pipe \<times> bool"

text \<open>
  The two ends share the two pipes between them: what one end writes is what the other reads.
  After an operation on the first end the other one sees the pipes as they are now.
\<close>

definition share :: "pipe \<Rightarrow> pipe \<Rightarrow> pipe" where
  "share x y = y\<lparr>pp_in := (case pp_out x of None \<Rightarrow> pp_in y | Some q \<Rightarrow> q),
                 pp_out := map_option (\<lambda>_. pp_in x) (pp_out y)\<rparr>"

datatype pipe_op =
    Do_write zmsg | Do_flush | Do_rollback | Do_read | Do_check_read | Do_terminate bool
  | Do_command

definition discard :: "('s, 'a) cxx \<Rightarrow> ('s, unit) cxx" where
  "discard m = bindX m (\<lambda>_. ret ())"

text \<open>A command of the other end, whose inbound pipe a hiccup announces.\<close>

definition deliver :: "zmsg ypipe \<Rightarrow> pipe_command \<Rightarrow> pend \<Rightarrow> unit res \<times> pend" where
  "deliver other_in cmd = (\<lambda>(p, gone).
     case cmd of
       Activate_read \<Rightarrow> (Inr (), (snd (process_activate_read p), gone))
     | Activate_write n \<Rightarrow> (Inr (), (snd (process_activate_write n p), gone))
     | Hiccup \<Rightarrow> (case discard (process_hiccup other_in) p of (r, p) \<Rightarrow> (r, (p, gone)))
     | Pipe_hwm i o' \<Rightarrow> (Inr (), (process_pipe_hwm i o' p, gone))
     | Pipe_term \<Rightarrow> (case process_pipe_term p of (r, p) \<Rightarrow> (r, (p, gone)))
     | Pipe_term_ack \<Rightarrow> (case process_pipe_term_ack p of (r, p) \<Rightarrow> (r, (p, True))))"

definition local_op :: "pipe_op \<Rightarrow> (pipe, unit) cxx" where
  "local_op op =
     (case op of
        Do_write m \<Rightarrow> discard (pipe_write m)
      | Do_flush \<Rightarrow> pipe_flush
      | Do_rollback \<Rightarrow> pipe_rollback
      | Do_read \<Rightarrow> discard pipe_read
      | Do_check_read \<Rightarrow> discard pipe_check_read
      | Do_terminate d \<Rightarrow> pipe_terminate d
      | Do_command \<Rightarrow> ret ())"

text \<open>One operation at the first end; \<open>Do_command\<close> takes the next command from its mailbox.\<close>

definition turn :: "pipe_op \<Rightarrow> pend \<times> pend \<Rightarrow> unit res \<times> (pend \<times> pend)" where
  "turn op = (\<lambda>((x, gx), (y, gy)).
     case op of
       Do_command \<Rightarrow>
         (case pp_sent y of
            [] \<Rightarrow> (Inr (), ((x, gx), (y, gy)))
          | cmd # cs \<Rightarrow>
              (case deliver (pp_in y) cmd (x, gx) of (r, (x', gx')) \<Rightarrow>
                 (r, ((x', gx'), (share x' (y\<lparr>pp_sent := cs\<rparr>), gy)))))
     | _ \<Rightarrow> (case local_op op x of (r, x') \<Rightarrow> (r, ((x', gx), (share x' y, gy)))))"

text \<open>Both ends take turns in any order; an end is not used after its deallocation.\<close>

inductive pair_step :: "pend \<times> pend \<Rightarrow> pend \<times> pend \<Rightarrow> bool" where
  first: "\<not> snd X \<Longrightarrow> turn op (X, Y) = (r, (X', Y')) \<Longrightarrow> pair_step (X, Y) (X', Y')"
| second: "\<not> snd Y \<Longrightarrow> turn op (Y, X) = (r, (Y', X')) \<Longrightarrow> pair_step (X, Y) (X', Y')"

definition pair_new :: "int \<Rightarrow> int \<Rightarrow> pend \<times> pend" where
  "pair_new hwm0 hwm1 = (case pipepair hwm0 hwm1 of (x, y) \<Rightarrow> ((x, False), (y, False)))"

section \<open>What an operation does to one end\<close>

definition outs_ok :: "zmsg ypipe option \<Rightarrow> bool" where
  "outs_ok out \<longleftrightarrow> (\<forall>q. out = Some q \<longrightarrow> good q)"

definition acked :: "pipe_state \<Rightarrow> bool" where
  "acked st \<longleftrightarrow> st = Term_ack_sent \<or> st = Term_req_sent2"

lemma acked_simps [simp]:
  "\<not> acked Active" "\<not> acked Delimiter_received" "\<not> acked Waiting_for_delimiter" "\<not> acked Term_req_sent1"
  "acked Term_ack_sent" "acked Term_req_sent2"
  by (simp_all add: acked_def)

text \<open>An end that has acknowledged the termination has dropped its outbound pipe, and only then.\<close>

definition end_ok :: "pipe \<Rightarrow> bool" where
  "end_ok x \<longleftrightarrow> good (pp_in x) \<and> outs_ok (pp_out x) \<and> (pp_out x = None \<longleftrightarrow> acked (pp_state x))"

lemma pipe_rollback_run:
  assumes "outs_ok (pp_out x)"
  shows "\<exists>q. pipe_rollback x = (Inr (), x\<lparr>pp_out := q\<rparr>) \<and> outs_ok q \<and> (q = None \<longleftrightarrow> pp_out x = None)"
proof (cases "pp_out x")
  case None
  then show ?thesis by (intro exI [of _ None]) (simp add: pipe_rollback_def outs_ok_def)
next
  case (Some q)
  then obtain q' where "rollback_loop q = Some (Inr (), q')" "good q'"
    using assms good_rollback by (auto simp: outs_ok_def)
  with Some show ?thesis by (intro exI [of _ "Some q'"]) (simp add: pipe_rollback_def outs_ok_def)
qed

lemma pipe_flush_run:
  assumes "outs_ok (pp_out x)"
  shows "\<exists>q cs. pipe_flush x = (Inr (), x\<lparr>pp_out := q, pp_sent := pp_sent x @ cs\<rparr>) \<and> outs_ok q \<and>
    (q = None \<longleftrightarrow> pp_out x = None) \<and> set cs \<subseteq> {Activate_read} \<and>
    (cs \<noteq> [] \<longrightarrow> pp_out x \<noteq> None \<and> pp_state x \<noteq> Term_ack_sent)"
proof (cases "pp_state x = Term_ack_sent \<or> pp_out x = None")
  case True
  then have "pipe_flush x = (Inr (), x)" by (auto simp: pipe_flush_def split: option.split)
  then show ?thesis using assms by (intro exI [of _ "pp_out x"] exI [of _ "[]"]) simp
next
  case False
  then obtain q where q: "pp_out x = Some q" by auto
  obtain alive q' where f: "ypipe_flush q = (alive, q')" by fastforce
  then have g: "good q'" using good_flush [of q] assms q by (simp add: outs_ok_def)
  show ?thesis using False q f g
    by (intro exI [of _ "Some q'"] exI [of _ "if alive then [] else [Activate_read]"])
      (simp add: pipe_flush_def send_command_def outs_ok_def)
qed

lemma process_delimiter_run:
  assumes "end_ok x" "pp_state x = Active \<or> pp_state x = Waiting_for_delimiter"
  shows "process_delimiter x =
    (Inr (), if pp_state x = Active then x\<lparr>pp_state := Delimiter_received\<rparr>
             else x\<lparr>pp_out := None, pp_sent := pp_sent x @ [Pipe_term_ack], pp_state := Term_ack_sent\<rparr>)"
proof -
  obtain q where "pipe_rollback x = (Inr (), x\<lparr>pp_out := q\<rparr>)"
    using pipe_rollback_run assms(1) unfolding end_ok_def by blast
  with assms(2) show ?thesis by (auto simp: process_delimiter_def send_command_def)
qed

lemma write_delimiter_run:
  assumes "outs_ok (pp_out x)"
  shows "\<exists>q cs. write_delimiter x = (Inr (), x\<lparr>pp_out_active := False, pp_out := q, pp_sent := pp_sent x @ cs\<rparr>) \<and>
    outs_ok q \<and> (q = None \<longleftrightarrow> pp_out x = None) \<and> set cs \<subseteq> {Activate_read} \<and> (cs \<noteq> [] \<longrightarrow> pp_out x \<noteq> None)"
proof (cases "pp_out x")
  case None
  then show ?thesis
    by (intro exI [of _ None] exI [of _ "[]"]) (simp add: write_delimiter_def outs_ok_def)
next
  case (Some q0)
  let ?x = "x\<lparr>pp_out_active := False\<rparr>"
  obtain q where q: "pipe_rollback ?x = (Inr (), ?x\<lparr>pp_out := q\<rparr>)" "outs_ok q" "q \<noteq> None"
    using pipe_rollback_run [of ?x] assms Some by auto
  then obtain r where r: "q = Some r" "good r" by (auto simp: outs_ok_def)
  let ?w = "ypipe_write granularity zmsg_delimiter False r"
  let ?y = "?x\<lparr>pp_out := Some ?w\<rparr>"
  have "outs_ok (pp_out ?y)" using good_write_complete [OF r(2)] by (simp add: outs_ok_def)
  from pipe_flush_run [OF this] obtain q' cs where
    f: "pipe_flush ?y = (Inr (), ?y\<lparr>pp_out := q', pp_sent := pp_sent ?y @ cs\<rparr>)" "outs_ok q'" "q' \<noteq> None"
      "set cs \<subseteq> {Activate_read}" by auto
  have "write_delimiter x = pipe_flush ?y" using q(1) Some r(1) by (simp add: write_delimiter_def)
  with f Some show ?thesis by (intro exI [of _ q'] exI [of _ cs]) simp
qed

text \<open>The commands besides those of the termination.\<close>

definition calm :: "pipe_command list \<Rightarrow> bool" where
  "calm cs \<longleftrightarrow> Pipe_term \<notin> set cs \<and> Pipe_term_ack \<notin> set cs \<and> Hiccup \<notin> set cs"

definition moves :: "pipe \<Rightarrow> pipe \<Rightarrow> bool" where
  "moves x x' \<longleftrightarrow> end_ok x' \<and>
     (\<exists>cs. calm cs \<and>
       (pp_state x' = pp_state x \<and> pp_sent x' = pp_sent x @ cs \<and> (acked (pp_state x) \<longrightarrow> cs = []) \<or>
        pp_state x = Active \<and> pp_state x' = Delimiter_received \<and> pp_sent x' = pp_sent x @ cs \<or>
        pp_state x = Waiting_for_delimiter \<and> pp_state x' = Term_ack_sent \<and>
          pp_sent x' = pp_sent x @ [Pipe_term_ack] \<or>
        (pp_state x = Active \<or> pp_state x = Delimiter_received) \<and> pp_state x' = Term_req_sent1 \<and>
          pp_sent x' = pp_sent x @ Pipe_term # cs))"

lemma moves_same: "end_ok x' \<Longrightarrow> pp_state x' = pp_state x \<Longrightarrow> pp_sent x' = pp_sent x \<Longrightarrow> moves x x'"
  unfolding moves_def calm_def by (intro conjI exI [of _ "[]"]) auto

lemma calm_subset: "set cs \<subseteq> {Activate_read} \<Longrightarrow> calm cs"
  by (auto simp: calm_def)

lemma local_flush:
  assumes "end_ok x"
  shows "\<exists>x'. local_op Do_flush x = (Inr (), x') \<and> moves x x'"
proof -
  have "outs_ok (pp_out x)" using assms by (simp add: end_ok_def)
  from pipe_flush_run [OF this] obtain q cs where
    f: "pipe_flush x = (Inr (), x\<lparr>pp_out := q, pp_sent := pp_sent x @ cs\<rparr>)" "outs_ok q"
    "q = None \<longleftrightarrow> pp_out x = None" "set cs \<subseteq> {Activate_read}" "cs \<noteq> [] \<longrightarrow> pp_out x \<noteq> None \<and> pp_state x \<noteq> Term_ack_sent"
    by metis
  let ?x = "x\<lparr>pp_out := q, pp_sent := pp_sent x @ cs\<rparr>"
  have "end_ok ?x" using assms f(2,3) by (simp add: end_ok_def)
  moreover have "acked (pp_state x) \<longrightarrow> cs = []" using assms f(5) by (auto simp: end_ok_def)
  ultimately have "moves x ?x" unfolding moves_def using calm_subset [OF f(4)]
    by (intro conjI exI [of _ cs]) simp_all
  with f(1) show ?thesis by (simp add: local_op_def)
qed

lemma local_rollback:
  assumes "end_ok x"
  shows "\<exists>x'. local_op Do_rollback x = (Inr (), x') \<and> moves x x'"
proof -
  have "outs_ok (pp_out x)" using assms by (simp add: end_ok_def)
  from pipe_rollback_run [OF this] obtain q where
    q: "pipe_rollback x = (Inr (), x\<lparr>pp_out := q\<rparr>)" "outs_ok q" "q = None \<longleftrightarrow> pp_out x = None" by metis
  have "moves x (x\<lparr>pp_out := q\<rparr>)" using assms q(2,3) by (intro moves_same) (simp_all add: end_ok_def)
  with q(1) show ?thesis by (simp add: local_op_def)
qed

lemma local_write:
  assumes "end_ok x"
  shows "\<exists>x'. local_op (Do_write m) x = (Inr (), x') \<and> moves x x'"
proof -
  obtain ok y where c: "pipe_check_write x = (ok, y)" by fastforce
  have y: "pp_state y = pp_state x" "pp_out y = pp_out x" "pp_in y = pp_in x" "pp_sent y = pp_sent x"
    "ok \<longrightarrow> pp_state x = Active"
    using c by (auto simp: pipe_check_write_def split: if_splits)
  show ?thesis
  proof (cases ok)
    case False
    with c y assms show ?thesis
      by (auto simp: local_op_def discard_def pipe_write_def end_ok_def bindX_def intro!: moves_same)
  next
    case True
    then obtain q where q: "pp_out x = Some q" "good q" using assms y(5) by (auto simp: end_ok_def outs_ok_def)
    with c y True assms good_write [OF q(2), of m] show ?thesis
      by (auto simp: local_op_def discard_def pipe_write_def end_ok_def bindX_def Let_def outs_ok_def
          intro!: moves_same)
  qed
qed

lemma moves_delimiter:
  assumes "end_ok x" "end_ok y" "pp_state y = pp_state x" "pp_sent y = pp_sent x"
    and "pp_state x = Active \<or> pp_state x = Waiting_for_delimiter"
  shows "\<exists>x'. process_delimiter y = (Inr (), x') \<and> moves x x'"
proof -
  note run = process_delimiter_run [OF assms(2) assms(5) [folded assms(3)]]
  show ?thesis
  proof (cases "pp_state x = Active")
    case True
    with assms have "moves x (y\<lparr>pp_state := Delimiter_received\<rparr>)"
      unfolding moves_def by (intro conjI exI [of _ "[]"]) (auto simp: end_ok_def calm_def)
    with run True assms(3) show ?thesis by simp
  next
    case False
    with assms have "moves x (y\<lparr>pp_out := None, pp_sent := pp_sent y @ [Pipe_term_ack], pp_state := Term_ack_sent\<rparr>)"
      unfolding moves_def by (intro conjI exI [of _ "[]"]) (auto simp: end_ok_def calm_def outs_ok_def)
    with run False assms(3) show ?thesis by simp
  qed
qed

lemma local_read:
  assumes ok: "end_ok x"
  shows "\<exists>x'. local_op Do_read x = (Inr (), x') \<and> moves x x'"
proof (cases "can_read x")
  case False
  then have "local_op Do_read x = (Inr (), x)" by (simp add: local_op_def discard_def pipe_read_def)
  then show ?thesis using moves_same [OF ok] by simp
next
  case True
  then have st: "pp_state x = Active \<or> pp_state x = Waiting_for_delimiter" by (simp add: can_read_def)
  obtain r q where r: "read_loop (pp_in x) = Some (Inr r, q)" "good q"
    using good_read ok unfolding end_ok_def by blast
  let ?y = "x\<lparr>pp_in := q\<rparr>"
  have y: "end_ok ?y" using ok r(2) by (simp add: end_ok_def)
  show ?thesis
  proof (cases r)
    case None
    then have "local_op Do_read x = (Inr (), ?y\<lparr>pp_in_active := False\<rparr>)"
      using True r(1) by (simp add: local_op_def discard_def pipe_read_def)
    moreover have "moves x (?y\<lparr>pp_in_active := False\<rparr>)"
      using y by (intro moves_same) (simp_all add: end_ok_def)
    ultimately show ?thesis by blast
  next
    case (Some msg)
    show ?thesis
    proof (cases "zm_delimiter msg")
      case del: True
      obtain x' where "process_delimiter ?y = (Inr (), x')" "moves x x'"
        using moves_delimiter [OF ok y] st by auto
      then show ?thesis using True r(1) Some del
        by (simp add: local_op_def discard_def pipe_read_def)
    next
      case del: False
      let ?z = "if \<not> zm_more msg \<and> \<not> zm_routing_id msg then ?y\<lparr>pp_msgs_read := pp_msgs_read ?y + 1\<rparr> else ?y"
      let ?cs = "if pp_lwm ?z > 0 \<and> pp_msgs_read ?z mod word_of_int (pp_lwm ?z) = 0
        then [Activate_write (pp_msgs_read ?z)] else []"
      have "local_op Do_read x = (Inr (), ?z\<lparr>pp_sent := pp_sent ?z @ ?cs\<rparr>)"
        using True r(1) Some del
        by (simp add: local_op_def discard_def pipe_read_def send_command_def)
      moreover have "moves x (?z\<lparr>pp_sent := pp_sent ?z @ ?cs\<rparr>)"
        using y st unfolding moves_def by (intro conjI exI [of _ ?cs]) (auto simp: end_ok_def calm_def)
      ultimately show ?thesis by blast
    qed
  qed
qed

lemma local_check_read:
  assumes ok: "end_ok x"
  shows "\<exists>x'. local_op Do_check_read x = (Inr (), x') \<and> moves x x'"
proof (cases "can_read x")
  case False
  then have "local_op Do_check_read x = (Inr (), x)" by (simp add: local_op_def discard_def pipe_check_read_def)
  then show ?thesis using moves_same [OF ok] by simp
next
  case True
  then have st: "pp_state x = Active \<or> pp_state x = Waiting_for_delimiter" by (simp add: can_read_def)
  obtain c where c: "ypipe_rel granularity (pp_in x) c" "list_all zm_more (partial c)"
    using ok unfolding end_ok_def good_def by blast
  obtain b q where q: "ypipe_check_read (pp_in x) = (b, q)" by fastforce
  have b: "b \<longleftrightarrow> flushed c \<noteq> []" "ypipe_rel granularity q (snd (chan_check_read c))"
    using yp.rel_check_read [OF c(1)] q by (auto simp: chan_check_read_def)
  have gq: "good q" using good_check [of "pp_in x"] q ok by (simp add: end_ok_def)
  show ?thesis
  proof (cases b)
    case False
    then have "local_op Do_check_read x = (Inr (), x\<lparr>pp_in := q, pp_in_active := False\<rparr>)"
      using True q by (simp add: local_op_def discard_def pipe_check_read_def)
    moreover have "moves x (x\<lparr>pp_in := q, pp_in_active := False\<rparr>)"
      using ok gq by (intro moves_same) (simp_all add: end_ok_def)
    ultimately show ?thesis by blast
  next
    case bT: True
    then obtain v vs where fl: "flushed c = v # vs" using b(1) by (cases "flushed c") auto
    have rc: "ypipe_rel granularity q c" using b(2) fl by (simp add: chan_check_read_def)
    obtain b2 q2 where q2: "ypipe_check_read q = (b2, q2)" by fastforce
    have b2: b2 "ypipe_rel granularity q2 c"
      using yp.rel_check_read [OF rc] q2 fl by (auto simp: chan_check_read_def)
    obtain r q3 where q3: "ypipe_read granularity q2 = (r, q3)" by fastforce
    have r: "r = Some (Some v)" "ypipe_rel granularity q3 (c\<lparr>flushed := vs\<rparr>)"
      using yp.rel_read [OF b2(2)] q3 fl by (auto simp: chan_read_def)
    define is_del where "is_del = is_delimiter (yq_values (yp_queue q2) (yq_front (yp_queue q2)))"
    have probe: "ypipe_probe is_delimiter q = (Some is_del, q2)"
      using q2 b2(1) by (simp add: ypipe_probe_def is_del_def)
    have g: "good q2" "good q3" using b2(2) r(2) c(2) by (auto simp: good_def)
    show ?thesis
    proof (cases is_del)
      case False
      then have "local_op Do_check_read x = (Inr (), x\<lparr>pp_in := q2\<rparr>)"
        using True q bT probe by (simp add: local_op_def discard_def pipe_check_read_def)
      moreover have "moves x (x\<lparr>pp_in := q2\<rparr>)"
        using ok g(1) by (intro moves_same) (simp_all add: end_ok_def)
      ultimately show ?thesis by blast
    next
      case dl: True
      let ?y = "x\<lparr>pp_in := q3\<rparr>"
      have "end_ok ?y" using ok g(2) by (simp add: end_ok_def)
      then obtain x' where "process_delimiter ?y = (Inr (), x')" "moves x x'"
        using moves_delimiter [OF ok, of ?y] st by auto
      moreover from this have "pipe_check_read x = (Inr False, x')" using True q bT probe dl q3 r(1)
        by (simp add: pipe_check_read_def bindX_def)
      ultimately show ?thesis by (simp add: local_op_def discard_def bindX_def)
    qed
  qed
qed

lemma local_terminate:
  assumes ok: "end_ok x"
  shows "\<exists>x'. local_op (Do_terminate d) x = (Inr (), x') \<and> moves x x'"
proof -
  let ?y = "x\<lparr>pp_delay := d\<rparr>"
  have o: "outs_ok (pp_out x)" using ok by (simp add: end_ok_def)
  consider (over) "pp_state x = Term_req_sent1 \<or> acked (pp_state x)"
    | (req) "pp_state x = Active \<or> pp_state x = Delimiter_received"
    | (ack) "pp_state x = Waiting_for_delimiter" "\<not> d"
    | (wait) "pp_state x = Waiting_for_delimiter" "d"
    by (cases "pp_state x") auto
  then show ?thesis
  proof cases
    case over
    then have "local_op (Do_terminate d) x = (Inr (), ?y)"
      by (auto simp: local_op_def pipe_terminate_def acked_def)
    moreover have "moves x ?y" using ok by (intro moves_same) (simp_all add: end_ok_def)
    ultimately show ?thesis by blast
  next
    case req
    let ?z = "?y\<lparr>pp_sent := pp_sent x @ [Pipe_term], pp_state := Term_req_sent1\<rparr>"
    have "outs_ok (pp_out ?z)" using o by simp
    from write_delimiter_run [OF this] obtain q cs where
      w: "write_delimiter ?z = (Inr (), ?z\<lparr>pp_out_active := False, pp_out := q, pp_sent := pp_sent ?z @ cs\<rparr>)"
        "outs_ok q" "q = None \<longleftrightarrow> pp_out ?z = None" "set cs \<subseteq> {Activate_read}" by metis
    have "local_op (Do_terminate d) x = write_delimiter ?z"
      using req by (auto simp: local_op_def pipe_terminate_def send_command_def)
    moreover have "moves x (?z\<lparr>pp_out_active := False, pp_out := q, pp_sent := pp_sent ?z @ cs\<rparr>)"
      using ok req w(2,3) calm_subset [OF w(4)] unfolding moves_def
      by (intro conjI exI [of _ cs]) (auto simp: end_ok_def)
    ultimately show ?thesis using w(1) by simp
  next
    case ack
    obtain q where q: "pipe_rollback ?y = (Inr (), ?y\<lparr>pp_out := q\<rparr>)"
      using pipe_rollback_run [of ?y] o by auto
    let ?z = "?y\<lparr>pp_out := None, pp_sent := pp_sent x @ [Pipe_term_ack], pp_state := Term_ack_sent\<rparr>"
    have "local_op (Do_terminate d) x = write_delimiter ?z"
      using ack q by (simp add: local_op_def pipe_terminate_def send_command_def)
    moreover have "write_delimiter ?z = (Inr (), ?z\<lparr>pp_out_active := False\<rparr>)"
      by (simp add: write_delimiter_def)
    moreover have "moves x (?z\<lparr>pp_out_active := False\<rparr>)"
      using ok ack unfolding moves_def by (intro conjI exI [of _ "[]"]) (auto simp: end_ok_def calm_def outs_ok_def)
    ultimately show ?thesis by simp
  next
    case wait
    have "outs_ok (pp_out ?y)" using o by simp
    from write_delimiter_run [OF this] obtain q cs where
      w: "write_delimiter ?y = (Inr (), ?y\<lparr>pp_out_active := False, pp_out := q, pp_sent := pp_sent ?y @ cs\<rparr>)"
        "outs_ok q" "q = None \<longleftrightarrow> pp_out ?y = None" "set cs \<subseteq> {Activate_read}" by metis
    have "local_op (Do_terminate d) x = write_delimiter ?y"
      using wait by (simp add: local_op_def pipe_terminate_def)
    moreover have "moves x (?y\<lparr>pp_out_active := False, pp_out := q, pp_sent := pp_sent ?y @ cs\<rparr>)"
      using ok wait w(2,3) calm_subset [OF w(4)] unfolding moves_def
      by (intro conjI exI [of _ cs]) (auto simp: end_ok_def)
    ultimately show ?thesis using w(1) by simp
  qed
qed

lemma local_op_moves:
  assumes "end_ok x"
  shows "\<exists>x'. local_op op x = (Inr (), x') \<and> moves x x'"
proof (cases op)
  case Do_command
  then show ?thesis using moves_same [OF assms] by (simp add: local_op_def)
qed (use assms local_write local_flush local_rollback local_read local_check_read local_terminate in blast)+

section \<open>The commands between the ends\<close>

definition ctl :: "pipe_command list \<Rightarrow> pipe_command list" where
  "ctl cs = filter (\<lambda>c. c = Pipe_term \<or> c = Pipe_term_ack) cs"

lemma ctl_simps [simp]:
  "ctl [] = []" "ctl (Pipe_term # cs) = Pipe_term # ctl cs" "ctl (Pipe_term_ack # cs) = Pipe_term_ack # ctl cs"
  "ctl (xs @ ys) = ctl xs @ ctl ys" "calm cs \<Longrightarrow> ctl cs = []"
  by (auto simp: ctl_def calm_def filter_empty_conv)

lemma calm_Nil [simp]: "calm []" "calm cs \<Longrightarrow> Hiccup \<notin> set cs"
  by (simp_all add: calm_def)

definition asked :: "pipe_state \<Rightarrow> bool" where
  "asked st \<longleftrightarrow> st = Term_req_sent1 \<or> st = Term_req_sent2"

definition told :: "pipe_state \<Rightarrow> bool" where
  "told st \<longleftrightarrow> st = Waiting_for_delimiter \<or> st = Term_ack_sent \<or> st = Term_req_sent2"

lemma asked_told_simps [simp]:
  "\<not> asked Active" "\<not> asked Delimiter_received" "\<not> asked Waiting_for_delimiter" "\<not> asked Term_ack_sent"
  "asked Term_req_sent1" "asked Term_req_sent2"
  "\<not> told Active" "\<not> told Delimiter_received" "\<not> told Term_req_sent1"
  "told Waiting_for_delimiter" "told Term_ack_sent" "told Term_req_sent2"
  by (simp_all add: asked_def told_def)

text \<open>
  What is on its way from the end \<open>y\<close> to the end \<open>x\<close>, as a function of the states: a request
  that \<open>y\<close> has sent and \<open>x\<close> has not been told, and an acknowledgement, the last command ever.
  No end reconnects, so no hiccup is on its way.
\<close>

definition flow :: "pipe_state \<Rightarrow> bool \<Rightarrow> pipe_state \<Rightarrow> bool \<Rightarrow> pipe_command list \<Rightarrow> bool" where
  "flow sx gx sy gy sent \<longleftrightarrow>
     ctl sent = (if asked sy \<and> \<not> told sx then [Pipe_term] else []) @
                (if (acked sy \<or> gy) \<and> \<not> gx then [Pipe_term_ack] else []) \<and>
     (told sx \<longrightarrow> asked sy) \<and> (gx \<longrightarrow> acked sy \<or> gy) \<and>
     Hiccup \<notin> set sent \<and> (gx \<longrightarrow> sent = []) \<and> ((acked sy \<or> gy) \<and> \<not> gx \<longrightarrow> last sent = Pipe_term_ack)"

definition pair_ok :: "pend \<times> pend \<Rightarrow> bool" where
  "pair_ok = (\<lambda>((x, gx), (y, gy)).
     flow (pp_state x) gx (pp_state y) gy (pp_sent y) \<and>
     flow (pp_state y) gy (pp_state x) gx (pp_sent x) \<and>
     (\<not> gx \<longrightarrow> end_ok x) \<and> (\<not> gy \<longrightarrow> end_ok y))"

lemma share_sel [simp]:
  "pp_state (share x y) = pp_state y" "pp_sent (share x y) = pp_sent y"
  "pp_out (share x y) = None \<longleftrightarrow> pp_out y = None"
  by (simp_all add: share_def)

lemma share_ok: "good (pp_in x) \<Longrightarrow> outs_ok (pp_out x) \<Longrightarrow> end_ok y \<Longrightarrow> end_ok (share x y)"
  by (auto simp: share_def end_ok_def outs_ok_def split: option.split)

lemma pair_ok_swap: "pair_ok (X, Y) \<longleftrightarrow> pair_ok (Y, X)"
  by (auto simp: pair_ok_def split: prod.splits)

lemma pair_ok_new: "pair_ok (pair_new h0 h1)"
  by (simp add: pair_ok_def pair_new_def pipepair_def pipe_new_def Let_def flow_def end_ok_def outs_ok_def)

lemma flow_moves:
  assumes "moves x x'" "flow sx False sy gy sent" "flow sy gy sx False (pp_sent x)"
    and "sx = pp_state x" "sx' = pp_state x'"
  shows "flow sx' False sy gy sent \<and> flow sy gy sx' False (pp_sent x')"
proof -
  obtain cs where "calm cs" and c:
    "sx' = sx \<and> pp_sent x' = pp_sent x @ cs \<and> (acked sx \<longrightarrow> cs = []) \<or>
     sx = Active \<and> sx' = Delimiter_received \<and> pp_sent x' = pp_sent x @ cs \<or>
     sx = Waiting_for_delimiter \<and> sx' = Term_ack_sent \<and> pp_sent x' = pp_sent x @ [Pipe_term_ack] \<or>
     (sx = Active \<or> sx = Delimiter_received) \<and> sx' = Term_req_sent1 \<and> pp_sent x' = pp_sent x @ Pipe_term # cs"
    using assms(1,4,5) unfolding moves_def by blast
  from c show ?thesis
  proof (elim disjE conjE)
    assume "sx' = sx" "pp_sent x' = pp_sent x @ cs" "acked sx \<longrightarrow> cs = []"
    then show ?thesis using assms(2,3) \<open>calm cs\<close> by (auto simp: flow_def)
  qed (use assms(2,3) \<open>calm cs\<close> in \<open>auto simp: flow_def\<close>)
qed

text \<open>The delivery of one command.\<close>

lemma deliver_calm:
  assumes "end_ok x" "cmd \<in> {Activate_read} \<union> range Activate_write \<union> {Pipe_hwm i o' |i o'. True}"
  shows "\<exists>x'. deliver q cmd (x, gx) = (Inr (), (x', gx)) \<and> end_ok x' \<and> pp_state x' = pp_state x \<and> pp_sent x' = pp_sent x"
  using assms by (auto simp: deliver_def process_activate_read_def process_activate_write_def
      process_pipe_hwm_def set_hwms_def Let_def end_ok_def)

lemma deliver_term:
  assumes ok: "end_ok x" and f: "flow (pp_state x) False sy gy (Pipe_term # cs)" "flow sy gy (pp_state x) False (pp_sent x)"
  shows "\<exists>x'. deliver q Pipe_term (x, False) = (Inr (), (x', False)) \<and> end_ok x' \<and>
    flow (pp_state x') False sy gy cs \<and> flow sy gy (pp_state x') False (pp_sent x')"
proof -
  have t: "asked sy" "\<not> told (pp_state x)" using f(1) by (auto simp: flow_def split: if_splits)
  have tl: "last (Pipe_term # cs) = Pipe_term_ack \<Longrightarrow> last cs = Pipe_term_ack" by (cases cs) auto
  show ?thesis
  proof (cases "pp_state x")
    case Active
    then show ?thesis using ok f t tl
      by (cases "pp_delay x")
        (auto simp: deliver_def process_pipe_term_def send_command_def end_ok_def outs_ok_def flow_def)
  next
    case Delimiter_received
    then show ?thesis using ok f t tl
      by (auto simp: deliver_def process_pipe_term_def send_command_def end_ok_def outs_ok_def flow_def)
  next
    case Term_req_sent1
    then show ?thesis using ok f t tl
      by (auto simp: deliver_def process_pipe_term_def send_command_def end_ok_def outs_ok_def flow_def)
  qed (use t in simp_all)
qed

lemma deliver_ack:
  assumes ok: "end_ok x" and f: "flow (pp_state x) False sy gy (Pipe_term_ack # cs)"
    "flow sy gy (pp_state x) False (pp_sent x)"
  shows "cs = [] \<and> (\<exists>x'. deliver q Pipe_term_ack (x, False) = (Inr (), (x', True)) \<and>
    good (pp_in x') \<and> outs_ok (pp_out x') \<and>
    flow (pp_state x') True sy gy [] \<and> flow sy gy (pp_state x') True (pp_sent x'))"
proof -
  have t: "acked sy \<or> gy" "\<not> (asked sy \<and> \<not> told (pp_state x))" "ctl cs = []" "last (Pipe_term_ack # cs) = Pipe_term_ack"
    using f(1) by (auto simp: flow_def split: if_splits)
  have "cs = []"
  proof (rule ccontr)
    assume "cs \<noteq> []"
    then have "Pipe_term_ack \<in> set cs" using t(4) by (metis last.simps last_in_set)
    with t(3) show False by (auto simp: ctl_def filter_empty_conv)
  qed
  moreover have "asked (pp_state x) \<or> acked (pp_state x)"
    using t(1) f(2) by (auto simp: flow_def acked_def)
  then have "\<exists>x'. deliver q Pipe_term_ack (x, False) = (Inr (), (x', True)) \<and>
      good (pp_in x') \<and> outs_ok (pp_out x') \<and>
      flow (pp_state x') True sy gy [] \<and> flow sy gy (pp_state x') True (pp_sent x')"
    using ok f t \<open>cs = []\<close>
    by (cases "pp_state x") (auto simp: deliver_def process_pipe_term_ack_def send_command_def end_ok_def
        outs_ok_def flow_def)
  ultimately show ?thesis by blast
qed

lemma calm_tail:
  assumes "flow sx False sy gy (cmd # cs)" "cmd \<noteq> Pipe_term" "cmd \<noteq> Pipe_term_ack"
  shows "flow sx False sy gy cs"
  using assms by (cases cs) (auto simp: flow_def ctl_def)

lemma turn_command:
  assumes ok: "pair_ok ((x, False), (y, gy))"
  shows "\<exists>s'. turn Do_command ((x, False), (y, gy)) = (Inr (), s') \<and> pair_ok s'"
proof (cases "pp_sent y")
  case Nil
  then show ?thesis using ok by (simp add: turn_def)
next
  case (Cons cmd cs)
  let ?y = "y\<lparr>pp_sent := cs\<rparr>"
  have fx: "flow (pp_state x) False (pp_state y) gy (cmd # cs)" and fy: "flow (pp_state y) gy (pp_state x) False (pp_sent x)"
    and ex: "end_ok x" and ey: "\<not> gy \<longrightarrow> end_ok ?y"
    using ok Cons by (auto simp: pair_ok_def end_ok_def)
  have nh: "cmd \<noteq> Hiccup" using fx by (auto simp: flow_def)
  have run: "turn Do_command ((x, False), (y, gy)) = (r, ((x', gx'), (share x' ?y, gy)))"
    if "deliver (pp_in y) cmd (x, False) = (r, (x', gx'))" for r x' gx'
    using that Cons by (simp add: turn_def)
  consider (req) "cmd = Pipe_term" | (ack) "cmd = Pipe_term_ack"
    | (calm) "cmd \<noteq> Pipe_term" "cmd \<noteq> Pipe_term_ack" by blast
  then show ?thesis
  proof cases
    case req
    obtain x' where d: "deliver (pp_in y) cmd (x, False) = (Inr (), (x', False))" "end_ok x'"
      "flow (pp_state x') False (pp_state y) gy cs" "flow (pp_state y) gy (pp_state x') False (pp_sent x')"
      using deliver_term [OF ex _ fy, of cs "pp_in y"] fx req by blast
    then have "pair_ok ((x', False), (share x' ?y, gy))"
      using ey share_ok [of x' ?y] by (simp add: pair_ok_def end_ok_def [of x'])
    with run [OF d(1)] show ?thesis by blast
  next
    case ack
    obtain x' where d: "cs = []" "deliver (pp_in y) cmd (x, False) = (Inr (), (x', True))"
      "good (pp_in x')" "outs_ok (pp_out x')"
      "flow (pp_state x') True (pp_state y) gy []" "flow (pp_state y) gy (pp_state x') True (pp_sent x')"
      using deliver_ack [OF ex _ fy, of cs "pp_in y"] fx ack by blast
    then have "pair_ok ((x', True), (share x' ?y, gy))"
      using ey share_ok [of x' ?y] by (simp add: pair_ok_def)
    with run [OF d(2)] show ?thesis by blast
  next
    case calm
    then have "cmd \<in> {Activate_read} \<union> range Activate_write \<union> {Pipe_hwm i o' |i o'. True}"
      using nh by (cases cmd) auto
    then obtain x' where d: "deliver (pp_in y) cmd (x, False) = (Inr (), (x', False))" "end_ok x'"
      "pp_state x' = pp_state x" "pp_sent x' = pp_sent x"
      using deliver_calm [OF ex, of cmd "pp_in y" False] by blast
    then have "pair_ok ((x', False), (share x' ?y, gy))"
      using ey share_ok [of x' ?y] calm_tail [OF fx calm] fy by (simp add: pair_ok_def end_ok_def [of x'])
    with run [OF d(1)] show ?thesis by blast
  qed
qed

lemma turn_local:
  assumes ok: "pair_ok ((x, False), (y, gy))" and "op \<noteq> Do_command"
  shows "\<exists>s'. turn op ((x, False), (y, gy)) = (Inr (), s') \<and> pair_ok s'"
proof -
  have ex: "end_ok x" and f: "flow (pp_state x) False (pp_state y) gy (pp_sent y)"
    "flow (pp_state y) gy (pp_state x) False (pp_sent x)" and ey: "\<not> gy \<longrightarrow> end_ok y"
    using ok by (simp_all add: pair_ok_def)
  obtain x' where x': "local_op op x = (Inr (), x')" "moves x x'" using local_op_moves [OF ex] by blast
  then have ex': "end_ok x'" by (simp add: moves_def)
  have "turn op ((x, False), (y, gy)) = (Inr (), ((x', False), (share x' y, gy)))"
    using assms(2) x'(1) by (cases op) (simp_all add: turn_def)
  moreover have "pair_ok ((x', False), (share x' y, gy))"
    using flow_moves [OF x'(2) f refl refl] ex' ey share_ok [of x' y] by (simp add: pair_ok_def end_ok_def [of x'])
  ultimately show ?thesis by blast
qed

lemma turn_ok: "pair_ok (X, Y) \<Longrightarrow> \<not> snd X \<Longrightarrow> \<exists>s'. turn op (X, Y) = (Inr (), s') \<and> pair_ok s'"
  using turn_command turn_local by (cases X; cases Y) (cases "op = Do_command"; fastforce)

lemma pair_step_ok: "pair_step s s' \<Longrightarrow> pair_ok s \<Longrightarrow> pair_ok s'"
proof (induction rule: pair_step.induct)
  case (first X op Y r X' Y')
  then show ?case using turn_ok [of X Y op] by auto
next
  case (second Y op X r Y' X')
  then show ?case using turn_ok [of Y X op] pair_ok_swap by auto
qed

lemma pair_steps_ok: "pair_step\<^sup>*\<^sup>* s s' \<Longrightarrow> pair_ok s \<Longrightarrow> pair_ok s'"
  by (induction rule: rtranclp_induct) (auto intro: pair_step_ok)

section \<open>Properties\<close>

text \<open>
  C8. Two ends of a new pipe are used in any order and closed by either end or by both at once:
  every operation of an end that still exists completes (no assertion fails, nothing null or
  uninitialised is used, no loop runs on), and when an end has been deallocated no command to it
  is on its way and the other end has dropped the pipe that went with it.
\<close>

theorem pipe_close_safe:
  assumes "pair_step\<^sup>*\<^sup>* (pair_new h0 h1) ((x, gx), (y, gy))"
  shows "(\<not> gx \<longrightarrow> (\<exists>s'. turn op ((x, gx), (y, gy)) = (Inr (), s'))) \<and>
    (\<not> gy \<longrightarrow> (\<exists>s'. turn op ((y, gy), (x, gx)) = (Inr (), s'))) \<and>
    (gx \<longrightarrow> pp_sent y = [] \<and> (gy \<or> pp_out y = None)) \<and>
    (gy \<longrightarrow> pp_sent x = [] \<and> (gx \<or> pp_out x = None))"
proof -
  have ok: "pair_ok ((x, gx), (y, gy))" by (rule pair_steps_ok [OF assms pair_ok_new])
  then have ok': "pair_ok ((y, gy), (x, gx))" using pair_ok_swap by blast
  have "\<not> gx \<longrightarrow> (\<exists>s'. turn op ((x, gx), (y, gy)) = (Inr (), s'))" using turn_ok [OF ok, of op] by auto
  moreover have "\<not> gy \<longrightarrow> (\<exists>s'. turn op ((y, gy), (x, gx)) = (Inr (), s'))" using turn_ok [OF ok', of op] by auto
  moreover have "gx \<longrightarrow> pp_sent y = [] \<and> (gy \<or> pp_out y = None)" "gy \<longrightarrow> pp_sent x = [] \<and> (gx \<or> pp_out x = None)"
    using ok by (auto simp: pair_ok_def flow_def end_ok_def)
  ultimately show ?thesis by blast
qed

theorem pipe_close_safe_witness:
  "\<exists>s'. turn (Do_terminate True) (pair_new 1000 1000) = (Inr (), s')"
proof -
  obtain x gx y gy where p: "pair_new 1000 1000 = ((x, gx), (y, gy))" by (metis surj_pair)
  then have "pair_step\<^sup>*\<^sup>* (pair_new 1000 1000) ((x, gx), (y, gy))" by simp
  from pipe_close_safe [OF this, of "Do_terminate True"] p show ?thesis by (auto simp: pair_new_def pipepair_def Let_def)
qed

end
