(* ===== verification/ZmqFair.thy ===== *)
theory ZmqFair
  imports ZmqFq
begin

text \<open>
  Fair queueing in use: the array of pipes stays well formed whatever happens to the socket, and
  no pipe that has a message is passed over for more than one round.
\<close>

section \<open>Well-formed queues\<close>

definition fq_ok :: "fq \<Rightarrow> bool" where
  "fq_ok f \<longleftrightarrow> distinct (fq_pipes f) \<and> fq_active f \<le> length (fq_pipes f) \<and>
     (if fq_active f = 0 then fq_current f = 0 else fq_current f < fq_active f)"

definition fq_live :: "fq \<Rightarrow> nat set" where
  "fq_live f = set (take (fq_active f) (fq_pipes f))"

lemma array_index_nth: "distinct xs \<Longrightarrow> i < length xs \<Longrightarrow> array_index xs (xs ! i) = i"
proof (induction xs arbitrary: i)
  case (Cons x xs)
  then show ?case by (cases i) (auto simp: array_index_def)
qed simp

lemma array_index_less: "x \<in> set xs \<Longrightarrow> array_index xs x < length xs"
  unfolding array_index_def by (induction xs) auto

lemma nth_array_index: "x \<in> set xs \<Longrightarrow> xs ! array_index xs x = x"
  unfolding array_index_def by (induction xs) auto

lemma nth_array_swap:
  "i < length xs \<Longrightarrow> j < length xs \<Longrightarrow> k < length xs \<Longrightarrow>
     array_swap i j xs ! k = (if k = j then xs ! i else if k = i then xs ! j else xs ! k)"
  by (auto simp: array_swap_def nth_list_update)

lemma fq_live_nth: "fq_ok f \<Longrightarrow> x \<in> fq_live f \<longleftrightarrow> (\<exists>i < fq_active f. fq_pipes f ! i = x)"
  by (auto simp: fq_live_def fq_ok_def in_set_conv_nth)

lemma fq_live_subset: "fq_live f \<subseteq> set (fq_pipes f)"
  by (auto simp: fq_live_def dest: in_set_takeD)

text \<open>How many other pipes can come before a pipe.\<close>

definition fq_rank :: "fq \<Rightarrow> nat \<Rightarrow> nat" where
  "fq_rank f x =
     (let i = array_index (fq_pipes f) x in
      if fq_current f \<le> i then i - fq_current f else length (fq_pipes f) - fq_current f + i)"

lemma fq_rank_bound: "fq_ok f \<Longrightarrow> x \<in> fq_live f \<Longrightarrow> fq_rank f x < length (fq_pipes f)"
  using array_index_less [of x "fq_pipes f"] fq_live_subset [of f]
  by (auto simp: fq_rank_def Let_def fq_ok_def)

lemma fq_deactivate_simps [simp]:
  "fq_active (fq_deactivate f) = fq_active f - 1"
  "length (fq_pipes (fq_deactivate f)) = length (fq_pipes f)"
  "fq_more (fq_deactivate f) = fq_more f"
  by (simp_all add: fq_deactivate_def Let_def)

lemma fq_deactivate_ok:
  assumes "fq_ok f" "0 < fq_active f"
  shows "fq_ok (fq_deactivate f)" "set (fq_pipes (fq_deactivate f)) = set (fq_pipes f)"
    "fq_live (fq_deactivate f) = fq_live f - {fq_pipes f ! fq_current f}"
proof -
  let ?a = "fq_active f - 1" and ?c = "fq_current f" and ?xs = "fq_pipes f"
  have b: "?c < length ?xs" "?a < length ?xs" "?c \<le> ?a" using assms by (auto simp: fq_ok_def)
  show ok: "fq_ok (fq_deactivate f)" and "set (fq_pipes (fq_deactivate f)) = set ?xs"
    using assms b by (auto simp: fq_ok_def fq_deactivate_def Let_def)
  have d: "distinct ?xs" using assms by (simp add: fq_ok_def)
  have inj: "?xs ! i = ?xs ! j \<longleftrightarrow> i = j" if "i < fq_active f" "j < fq_active f" for i j
    using d assms(1) that by (auto simp: fq_ok_def nth_eq_iff_index_eq)
  have nth: "fq_pipes (fq_deactivate f) ! i = (if i = ?c then ?xs ! ?a else ?xs ! i)" if "i < ?a" for i
    using b that by (auto simp: fq_deactivate_def Let_def nth_array_swap)
  show "fq_live (fq_deactivate f) = fq_live f - {?xs ! ?c}"
  proof (intro set_eqI)
    fix x
    have "x \<in> fq_live (fq_deactivate f) \<longleftrightarrow> (\<exists>i < ?a. (if i = ?c then ?xs ! ?a else ?xs ! i) = x)"
      unfolding fq_live_nth [OF ok] fq_deactivate_simps using nth by auto
    also have "\<dots> \<longleftrightarrow> (\<exists>i < fq_active f. i \<noteq> ?c \<and> ?xs ! i = x)"
    proof
      assume "\<exists>i < ?a. (if i = ?c then ?xs ! ?a else ?xs ! i) = x"
      then obtain i where i: "i < ?a" "(if i = ?c then ?xs ! ?a else ?xs ! i) = x" by blast
      then have "(if i = ?c then ?a else i) < fq_active f" "(if i = ?c then ?a else i) \<noteq> ?c"
        using b assms(2) by (auto split: if_splits)
      with i(2) show "\<exists>i < fq_active f. i \<noteq> ?c \<and> ?xs ! i = x" by (metis (full_types))
    next
      assume "\<exists>i < fq_active f. i \<noteq> ?c \<and> ?xs ! i = x"
      then obtain i where i: "i < fq_active f" "i \<noteq> ?c" "?xs ! i = x" by blast
      show "\<exists>i < ?a. (if i = ?c then ?xs ! ?a else ?xs ! i) = x"
      proof (cases "i = ?a")
        case True
        then have "?c < ?a" using i b by simp
        then show ?thesis using i True by auto
      next
        case False
        then show ?thesis using i by (intro exI [of _ i]) auto
      qed
    qed
    also have "\<dots> \<longleftrightarrow> x \<in> fq_live f - {?xs ! ?c}"
      using inj assms b by (auto simp: fq_live_nth [OF assms(1)] fq_ok_def split: if_splits)
    finally show "x \<in> fq_live (fq_deactivate f) \<longleftrightarrow> x \<in> fq_live f - {?xs ! ?c}" .
  qed
qed

lemma fq_deactivate_rank:
  assumes "fq_ok f" "x \<in> fq_live f" "x \<noteq> fq_pipes f ! fq_current f"
  shows "fq_rank (fq_deactivate f) x \<le> fq_rank f x"
proof -
  let ?a = "fq_active f - 1" and ?c = "fq_current f" and ?xs = "fq_pipes f"
  obtain i where i: "i < fq_active f" "?xs ! i = x" using assms(1,2) by (auto simp: fq_live_nth)
  have b: "?c < length ?xs" "?a < length ?xs" "?c \<le> ?a" "i \<noteq> ?c" "i < length ?xs" "distinct ?xs"
    using assms i by (auto simp: fq_ok_def)
  have ix: "array_index ?xs x = i" using array_index_nth [of ?xs i] b i by simp
  have "fq_pipes (fq_deactivate f) ! (if i = ?a then ?c else i) = x"
    using b i by (auto simp: fq_deactivate_def Let_def nth_array_swap)
  then have "array_index (fq_pipes (fq_deactivate f)) x = (if i = ?a then ?c else i)"
    using array_index_nth [of "fq_pipes (fq_deactivate f)" "if i = ?a then ?c else i"] b
    by (auto simp: fq_deactivate_def Let_def)
  with ix b i show ?thesis
    by (auto simp: fq_rank_def Let_def) (auto simp: fq_deactivate_def Let_def split: if_splits)
qed


text \<open>The queue after the last part of a message.\<close>

definition fq_advance :: "nat \<Rightarrow> fq \<Rightarrow> fq" where
  "fq_advance p f = f\<lparr>fq_last_in := Some p, fq_current := (fq_current f + 1) mod fq_active f\<rparr>"

lemma fq_advance_ok:
  assumes "fq_ok f" "0 < fq_active f"
  shows "fq_ok (fq_advance p f)" "fq_live (fq_advance p f) = fq_live f"
  using assms by (auto simp: fq_ok_def fq_advance_def fq_live_def)

lemma fq_advance_rank:
  assumes "fq_ok f" "x \<in> fq_live f" "x \<noteq> fq_pipes f ! fq_current f"
  shows "fq_rank (fq_advance p f) x < fq_rank f x"
proof -
  let ?c = "fq_current f" and ?xs = "fq_pipes f"
  obtain i where i: "i < fq_active f" "?xs ! i = x" using assms(1,2) by (auto simp: fq_live_nth)
  have b: "?c < length ?xs" "?c < fq_active f" "fq_active f \<le> length ?xs" "i \<noteq> ?c"
    using assms i by (auto simp: fq_ok_def)
  have ix: "array_index ?xs x = i" using array_index_nth [of ?xs i] b i assms(1) by (simp add: fq_ok_def)
  have "(?c + 1) mod fq_active f = (if ?c + 1 = fq_active f then 0 else ?c + 1)" using b by auto
  then show ?thesis using ix b i by (auto simp: fq_rank_def fq_advance_def Let_def)
qed

section \<open>No pipe starves\<close>

definition readable :: "pipe \<Rightarrow> bool" where
  "readable q \<longleftrightarrow> (\<exists>m q'. pipe_read q = (Inr (Some m), q'))"

abbreviation served_later :: "fqs \<Rightarrow> nat \<Rightarrow> bool \<Rightarrow> fqs \<Rightarrow> bool" where
  "served_later s x counts s' \<equiv>
     x \<in> fq_live (fst s') \<and> snd s' x = snd s x \<and>
     fq_rank (fst s') x + (if counts then 1 else 0) \<le> fq_rank (fst s) x"

lemma fq_recv_loop_fair:
  assumes "fq_recv_loop n (f, ps) = (Inr r, (f', ps'))" "n = fq_active f" "fq_ok f" "x \<in> fq_live f" "readable (ps x)"
  shows "fq_ok f' \<and> length (fq_pipes f') = length (fq_pipes f) \<and>
    (\<exists>m p. r = Some (m, p) \<and> (p = x \<or> served_later (f, ps) x (\<not> zm_more m) (f', ps')))"
  using assms
proof (induction n arbitrary: f ps)
  case 0
  then show ?case by (auto simp: fq_live_def)
next
  case (Suc n)
  let ?p = "fq_pipes f ! fq_current f"
  obtain r1 q where read: "pipe_read (ps ?p) = (r1, q)" by fastforce
  then have run: "onPipe ?p pipe_read (f, ps) = (r1, (f, ps(?p := q)))" by (rule onPipe_run)
  have a: "0 < fq_active f" using Suc.prems(2) by simp
  show ?case
  proof (cases r1)
    case (Inl e)
    then show ?thesis using Suc.prems(1) run by (simp add: Let_def bindX_def)
  next
    case (Inr m)
    show ?thesis
    proof (cases m)
      case None
      then have n: "?p \<noteq> x" "\<not> fq_more f"
        using Suc.prems(1,5) run read Inr by (auto simp: readable_def Let_def bindX_def)
      then have step: "fq_recv_loop n (fq_deactivate f, ps(?p := q)) = (Inr r, (f', ps'))"
        using Suc.prems(1) run Inr None by (simp add: Let_def bindX_def thenX_def)
      have "n = fq_active (fq_deactivate f)" "readable ((ps(?p := q)) x)"
        using Suc.prems(2,5) n by simp_all
      from Suc.IH [OF step this(1) fq_deactivate_ok(1) [OF Suc.prems(3) a] _ this(2)]
      show ?thesis
        using fq_deactivate_ok(3) [OF Suc.prems(3) a] fq_deactivate_rank [OF Suc.prems(3,4)] n Suc.prems(4)
        by fastforce
    next
      case (Some msg)
      let ?f = "f\<lparr>fq_more := zm_more msg\<rparr>"
      have f': "r = Some (msg, ?p)" "ps' = ps(?p := q)" "f' = (if zm_more msg then ?f else fq_advance ?p ?f)"
        using Suc.prems(1) run Inr Some
        by (cases "zm_more msg"; auto simp: Let_def bindX_def thenX_def fq_advance_def)+
      have ok: "fq_ok ?f" "fq_live ?f = fq_live f" "fq_rank ?f x = fq_rank f x" "fq_pipes ?f ! fq_current ?f = ?p"
        using Suc.prems(3) by (simp_all add: fq_ok_def fq_live_def fq_rank_def Let_def)
      show ?thesis
        using f' ok fq_advance_ok [OF ok(1), of ?p] fq_advance_rank [OF ok(1), of x ?p] a Suc.prems(4)
        by (auto simp: fq_advance_def)
    qed
  qed
qed


section \<open>The queue in use\<close>

text \<open>
  What happens to the queue of a socket: messages are received, the socket is asked whether there
  is one, a pipe is woken by its peer, messages arrive in a pipe (or anything else changes in it
  that does not keep it from being read), a pipe is attached and a pipe goes away.
\<close>

datatype fq_event = Took nat | Part nat | Quiet | Polled | Gone nat

inductive fq_step :: "fqs \<Rightarrow> fq_event \<Rightarrow> fqs \<Rightarrow> bool" where
  Receive_last: "fq_recvpipe s = (Inr (Some (m, p)), s') \<Longrightarrow> \<not> zm_more m \<Longrightarrow> fq_step s (Took p) s'"
| Receive_part: "fq_recvpipe s = (Inr (Some (m, p)), s') \<Longrightarrow> zm_more m \<Longrightarrow> fq_step s (Part p) s'"
| Receive_none: "fq_recvpipe s = (Inr None, s') \<Longrightarrow> fq_step s Quiet s'"
| Has_in: "fq_has_in s = (Inr b, s') \<Longrightarrow> fq_step s Polled s'"
| Wake: "p \<in> set (fq_pipes f) \<Longrightarrow> process_activate_read (ps p) = (b, q) \<Longrightarrow>
    fq_step (f, ps) Quiet ((if b then fq_activated p f else f), ps(p := q))"
| Arrive: "pp_in_active q = pp_in_active (ps p) \<Longrightarrow> readable (ps p) \<longrightarrow> readable q \<Longrightarrow>
    fq_step (f, ps) Quiet (f, ps(p := q))"
| Attach: "p \<notin> set (fq_pipes f) \<Longrightarrow> pp_in_active q \<Longrightarrow>
    fq_step (f, ps) Quiet (fq_attach p f, ps(p := q))"
| Terminated: "p \<in> set (fq_pipes f) \<Longrightarrow> fq_step (f, ps) (Gone p) (fq_pipe_terminated p f, ps)"

inductive fq_run :: "fqs \<Rightarrow> fq_event list \<Rightarrow> fqs \<Rightarrow> bool" where
  Start: "fq_run s [] s"
| Step: "fq_run s es t \<Longrightarrow> fq_step t e u \<Longrightarrow> fq_run s (es @ [e]) u"

definition fq_inv :: "fqs \<Rightarrow> bool" where
  "fq_inv s \<longleftrightarrow> fq_ok (fst s) \<and> (\<forall>p \<in> fq_live (fst s). pp_in_active (snd s p))"

lemma pipe_read_in_active: "returns (\<lambda>m q. m \<noteq> None \<longrightarrow> pp_in_active q) pipe_read"
proof -
  have "pp_in_active q'" if "pipe_read q = (Inr (Some m), q')" for q m q'
    using that
    by (auto simp: pipe_read_def can_read_def bindX_def thenX_def send_command_def
        split: if_splits option.splits sum.splits prod.splits)
  then show ?thesis by (auto simp: returns_def)
qed

lemma pipe_check_read_in_active: "returns (\<lambda>b q. b \<longrightarrow> pp_in_active q) pipe_check_read"
proof -
  have "pp_in_active q'" if "pipe_check_read q = (Inr True, q')" for q q'
    using that
    by (auto simp: pipe_check_read_def can_read_def bindX_def thenX_def
        split: if_splits option.splits prod.splits bool.splits sum.splits)
  then show ?thesis by (auto simp: returns_def)
qed

lemma fq_activated_step:
  assumes "fq_ok f" "p \<in> set (fq_pipes f)" "p \<notin> fq_live f"
  shows "fq_ok (fq_activated p f)" "fq_live (fq_activated p f) = insert p (fq_live f)"
    "length (fq_pipes (fq_activated p f)) = length (fq_pipes f)"
    "x \<in> fq_live f \<Longrightarrow> fq_rank (fq_activated p f) x = fq_rank f x"
proof -
  let ?xs = "fq_pipes f" and ?a = "fq_active f"
  let ?i = "array_index ?xs p"
  have i: "?i < length ?xs" "?xs ! ?i = p" using assms(2) by (simp_all add: array_index_less nth_array_index)
  have a: "?a \<le> ?i" using i assms(1,3) fq_live_nth [OF assms(1), of p] by (metis not_le)
  have d: "distinct ?xs" using assms(1) by (simp add: fq_ok_def)
  let ?ys = "array_swap ?i ?a ?xs"
  have nth: "?ys ! j = (if j = ?a then p else ?xs ! j)" if "j \<le> ?a" for j
    using that a i by (auto simp: nth_array_swap)
  show ok: "fq_ok (fq_activated p f)" and len: "length (fq_pipes (fq_activated p f)) = length (fq_pipes f)"
    using assms(1) a i by (auto simp: fq_ok_def fq_activated_def split: if_splits)
  have acc: "fq_pipes (fq_activated p f) = ?ys" "fq_active (fq_activated p f) = Suc ?a"
    "fq_current (fq_activated p f) = fq_current f" by (simp_all add: fq_activated_def)
  show "fq_live (fq_activated p f) = insert p (fq_live f)"
  proof (rule set_eqI)
    fix x
    have "x \<in> fq_live (fq_activated p f) \<longleftrightarrow> (\<exists>j \<le> ?a. ?ys ! j = x)"
      using fq_live_nth [OF ok] acc by (simp add: less_Suc_eq_le)
    also have "\<dots> \<longleftrightarrow> x \<in> insert p (fq_live f)"
      using nth fq_live_nth [OF assms(1), of x] by (auto simp: le_less)
    finally show "x \<in> fq_live (fq_activated p f) \<longleftrightarrow> x \<in> insert p (fq_live f)" .
  qed
  show "fq_rank (fq_activated p f) x = fq_rank f x" if x: "x \<in> fq_live f"
  proof -
    obtain j where j: "j < ?a" "?xs ! j = x" using x fq_live_nth [OF assms(1), of x] by auto
    have "?ys ! j = x" using nth [of j] j by simp
    moreover have "distinct ?ys" "length ?ys = length ?xs" using d a i by simp_all
    ultimately have "array_index ?ys x = j" "array_index ?xs x = j"
      using array_index_nth [of ?ys j] array_index_nth [of ?xs j] j a i d by auto
    then show ?thesis using acc len by (simp add: fq_rank_def)
  qed
qed


lemma fq_attach_step:
  assumes "fq_ok f" "p \<notin> set (fq_pipes f)"
  shows "fq_ok (fq_attach p f)" "fq_live (fq_attach p f) = insert p (fq_live f)"
    "length (fq_pipes (fq_attach p f)) = Suc (length (fq_pipes f))"
    "x \<in> fq_live f \<Longrightarrow> fq_rank (fq_attach p f) x \<le> Suc (fq_rank f x)"
proof -
  let ?xs = "fq_pipes f @ [p]" and ?a = "fq_active f"
  let ?ys = "array_swap ?a (length (fq_pipes f)) ?xs"
  have acc: "fq_pipes (fq_attach p f) = ?ys" "fq_active (fq_attach p f) = Suc ?a"
    "fq_current (fq_attach p f) = fq_current f" by (simp_all add: fq_attach_def Let_def)
  have a: "?a \<le> length (fq_pipes f)" "distinct ?xs" using assms by (auto simp: fq_ok_def)
  have nth: "?ys ! j = (if j = ?a then p else fq_pipes f ! j)" if "j \<le> ?a" for j
    using that a by (auto simp: nth_array_swap nth_append)
  have d: "distinct ?ys" using a by simp
  show ok: "fq_ok (fq_attach p f)" and "length (fq_pipes (fq_attach p f)) = Suc (length (fq_pipes f))"
    using assms(1) a d by (auto simp: fq_ok_def acc split: if_splits)
  show "fq_live (fq_attach p f) = insert p (fq_live f)"
  proof (rule set_eqI)
    fix x
    have "x \<in> fq_live (fq_attach p f) \<longleftrightarrow> (\<exists>j \<le> ?a. ?ys ! j = x)"
      using fq_live_nth [OF ok] acc by (simp add: less_Suc_eq_le)
    also have "\<dots> \<longleftrightarrow> x \<in> insert p (fq_live f)"
      using nth fq_live_nth [OF assms(1), of x] by (auto simp: le_less)
    finally show "x \<in> fq_live (fq_attach p f) \<longleftrightarrow> x \<in> insert p (fq_live f)" .
  qed
  show "fq_rank (fq_attach p f) x \<le> Suc (fq_rank f x)" if x: "x \<in> fq_live f"
  proof -
    obtain j where j: "j < ?a" "fq_pipes f ! j = x" using x fq_live_nth [OF assms(1), of x] by auto
    have "?ys ! j = x" using nth [of j] j by simp
    then have "array_index ?ys x = j" "array_index (fq_pipes f) x = j"
      using array_index_nth [OF d, of j] array_index_nth [of "fq_pipes f" j] j a by auto
    then show ?thesis using acc by (auto simp: fq_rank_def)
  qed
qed

lemma array_erase_step:
  assumes "distinct xs" "x \<in> set xs"
  shows "distinct (array_erase x xs)" "length (array_erase x xs) = length xs - 1"
    "j < length xs - 1 \<Longrightarrow> array_erase x xs ! j = (if j = array_index xs x then last xs else xs ! j)"
proof -
  obtain ys l where xs: "xs = ys @ [l]" using assms(2) by (metis empty_iff list.set(1) rev_exhaust)
  have i: "array_index xs x < length xs" using assms(2) by (rule array_index_less)
  have e: "array_erase x xs = (if array_index xs x = length ys then ys else ys[array_index xs x := l])"
    using i by (auto simp: array_erase_def xs list_update_append)
  show "distinct (array_erase x xs)" "length (array_erase x xs) = length xs - 1"
    "j < length xs - 1 \<Longrightarrow> array_erase x xs ! j = (if j = array_index xs x then last xs else xs ! j)"
    using assms(1) i unfolding e by (auto simp: xs distinct_list_update nth_append nth_list_update)
qed

lemma fq_terminated_step:
  assumes "fq_ok f" "p \<in> set (fq_pipes f)"
  shows "fq_ok (fq_pipe_terminated p f)" "fq_live (fq_pipe_terminated p f) \<subseteq> fq_live f"
proof -
  let ?xs = "fq_pipes f" and ?a = "fq_active f"
  let ?i = "array_index ?xs p"
  let ?g = "if ?i < ?a then f\<lparr>fq_active := ?a - 1, fq_pipes := array_swap ?i (?a - 1) ?xs,
                   fq_current := (if fq_current f = ?a - 1 then 0 else fq_current f)\<rparr> else f"
  have i: "?i < length ?xs" "?xs ! ?i = p" using assms(2) by (simp_all add: array_index_less nth_array_index)
  have d: "distinct ?xs" "?a \<le> length ?xs" using assms(1) by (simp_all add: fq_ok_def)
  have g: "distinct (fq_pipes ?g)" "p \<in> set (fq_pipes ?g)" "length (fq_pipes ?g) = length ?xs"
    using d i assms(2) by auto
  have gi: "fq_active ?g \<le> array_index (fq_pipes ?g) p"
  proof (cases "?i < ?a")
    case True
    then have "fq_pipes ?g ! (?a - 1) = p" using i d by (simp add: nth_array_swap)
    then show ?thesis using array_index_nth [OF g(1), of "?a - 1"] True d g(3) by auto
  qed simp
  have gn: "fq_pipes ?g ! j \<in> fq_live f" if "j < fq_active ?g" for j
  proof -
    have live: "?xs ! k \<in> fq_live f" if "k < ?a" for k using that fq_live_nth [OF assms(1)] by blast
    show ?thesis using that i d live by (auto simp: nth_array_swap split: if_splits)
  qed
  have acc: "fq_pipes (fq_pipe_terminated p f) = array_erase p (fq_pipes ?g)"
    "fq_active (fq_pipe_terminated p f) = fq_active ?g" "fq_current (fq_pipe_terminated p f) = fq_current ?g"
    by (simp_all add: fq_pipe_terminated_def Let_def)
  have len: "fq_active ?g \<le> length ?xs - 1" using gi array_index_less [OF g(2)] g(3) by linarith
  show ok: "fq_ok (fq_pipe_terminated p f)"
    using array_erase_step(1,2) [OF g(1,2)] len g(3) assms(1) by (auto simp: fq_ok_def acc)
  show "fq_live (fq_pipe_terminated p f) \<subseteq> fq_live f"
  proof
    fix x
    assume "x \<in> fq_live (fq_pipe_terminated p f)"
    then obtain j where j: "j < fq_active ?g" "array_erase p (fq_pipes ?g) ! j = x"
      using fq_live_nth [OF ok] acc by auto
    then have "fq_pipes ?g ! j = x" using array_erase_step(3) [OF g(1,2), of j] gi len g(3) by simp
    then show "x \<in> fq_live f" using gn [OF j(1)] by simp
  qed
qed


text \<open>The invariant: the reading loops keep it, and so does every step.\<close>

lemma fq_inv_deactivate:
  assumes "fq_inv (f, ps)" "0 < fq_active f" "p = fq_pipes f ! fq_current f"
  shows "fq_inv (fq_deactivate f, ps(p := q))"
  using assms fq_deactivate_ok [of f] by (auto simp: fq_inv_def)

lemma fq_recv_loop_inv:
  assumes "fq_recv_loop n (f, ps) = (Inr r, s')" "n = fq_active f" "fq_inv (f, ps)"
  shows "fq_inv s'"
  using assms
proof (induction n arbitrary: f ps)
  case 0
  then show ?case by simp
next
  case (Suc n)
  let ?p = "fq_pipes f ! fq_current f"
  obtain r1 q where read: "pipe_read (ps ?p) = (r1, q)" by fastforce
  then have run: "onPipe ?p pipe_read (f, ps) = (r1, (f, ps(?p := q)))" by (rule onPipe_run)
  have a: "0 < fq_active f" using Suc.prems(2) by simp
  show ?case
  proof (cases "\<exists>msg. r1 = Inr (Some msg)")
    case True
    then obtain msg where m: "r1 = Inr (Some msg)" by blast
    let ?f = "f\<lparr>fq_more := zm_more msg\<rparr>"
    have "s' = (if zm_more msg then ?f else fq_advance ?p ?f, ps(?p := q))"
      using Suc.prems(1) run m by (cases "zm_more msg"; auto simp: Let_def bindX_def thenX_def fq_advance_def)
    moreover have "pp_in_active q" using returnsD [OF pipe_read_in_active] read m by auto
    moreover have "fq_ok ?f" "fq_live ?f = fq_live f" using Suc.prems(3) by (simp_all add: fq_inv_def fq_ok_def fq_live_def)
    ultimately show ?thesis
      using Suc.prems(3) fq_advance_ok [of ?f ?p] a by (auto simp: fq_inv_def)
  next
    case False
    then have "r1 = Inr None" "\<not> fq_more f"
      using Suc.prems(1) run by (cases r1; auto simp: Let_def bindX_def split: option.splits if_splits)+
    then have "fq_recv_loop n (fq_deactivate f, ps(?p := q)) = (Inr r, s')"
      using Suc.prems(1) run by (simp add: Let_def bindX_def thenX_def)
    from Suc.IH [OF this _ fq_inv_deactivate [OF Suc.prems(3) a refl]] show ?thesis
      using Suc.prems(2) by simp
  qed
qed

lemma fq_has_in_loop_inv:
  assumes "fq_has_in_loop n (f, ps) = (Inr b, s')" "n = fq_active f" "fq_inv (f, ps)"
  shows "fq_inv s'"
  using assms
proof (induction n arbitrary: f ps)
  case 0
  then show ?case by simp
next
  case (Suc n)
  let ?p = "fq_pipes f ! fq_current f"
  obtain r1 q where read: "pipe_check_read (ps ?p) = (r1, q)" by fastforce
  then have run: "onPipe ?p pipe_check_read (f, ps) = (r1, (f, ps(?p := q)))" by (rule onPipe_run)
  have a: "0 < fq_active f" using Suc.prems(2) by simp
  show ?case
  proof (cases "r1 = Inr True")
    case True
    then have "s' = (f, ps(?p := q))" "pp_in_active q"
      using Suc.prems(1) run returnsD [OF pipe_check_read_in_active] read by (auto simp: bindX_def)
    then show ?thesis using Suc.prems(3) by (auto simp: fq_inv_def)
  next
    case False
    then have "r1 = Inr False" using Suc.prems(1) run by (cases r1) (auto simp: bindX_def)
    then have "fq_has_in_loop n (fq_deactivate f, ps(?p := q)) = (Inr b, s')"
      using Suc.prems(1) run by (simp add: bindX_def thenX_def)
    from Suc.IH [OF this _ fq_inv_deactivate [OF Suc.prems(3) a refl]] show ?thesis
      using Suc.prems(2) by simp
  qed
qed

lemma fq_step_inv: "fq_step s e s' \<Longrightarrow> fq_inv s \<Longrightarrow> fq_inv s'"
proof (induction rule: fq_step.induct)
  case (Has_in s b s')
  then show ?case
    by (cases s) (auto simp: fq_has_in_def intro: fq_has_in_loop_inv split: if_splits)
next
  case (Wake p f ps b q)
  then have q: "q = (ps p)\<lparr>pp_in_active := pp_in_active (ps p) \<or> b\<rparr>" "b \<Longrightarrow> \<not> pp_in_active (ps p)" 
    by (auto simp: process_activate_read_def split: if_splits)
  show ?case
  proof (cases b)
    case True
    then have "p \<notin> fq_live f" using q(2) Wake.prems by (auto simp: fq_inv_def)
    then show ?thesis using Wake True q fq_activated_step(1,2) [of f p] by (auto simp: fq_inv_def)
  next
    case False
    then show ?thesis using Wake q by (auto simp: fq_inv_def)
  qed
next
  case (Attach p f q ps)
  then show ?case using fq_attach_step(1,2) [of f p] by (auto simp: fq_inv_def)
next
  case (Terminated p f ps)
  then show ?case using fq_terminated_step [of f p] by (auto simp: fq_inv_def)
qed (auto simp: fq_inv_def fq_recvpipe_def dest!: fq_recv_loop_inv [OF _ refl, unfolded fq_inv_def])

lemma fq_run_inv: "fq_run s es s' \<Longrightarrow> fq_inv s \<Longrightarrow> fq_inv s'"
  by (induction rule: fq_run.induct) (auto dest: fq_step_inv)

lemma fq_inv_new: "fq_inv (fq_new, ps)"
  by (simp add: fq_inv_def fq_ok_def fq_live_def fq_new_def)

text \<open>
  C39. In every state that the queue of a new socket can reach, the pipes are distinct, the active
  ones are the first ones, all of them are marked as readable, and the position from which the
  next message is read lies among them: the array is never read out of its range.
\<close>

theorem fq_well_formed:
  assumes "fq_run (fq_new, ps) es (f, ps')"
  shows "distinct (fq_pipes f) \<and> fq_active f \<le> length (fq_pipes f) \<and>
    (fq_active f = 0 \<or> fq_current f < fq_active f) \<and>
    (\<forall>p. p \<in> set (take (fq_active f) (fq_pipes f)) \<longrightarrow> pp_in_active (ps' p))"
proof -
  have "fq_inv (f, ps')" by (rule fq_run_inv [OF assms fq_inv_new])
  then show ?thesis by (auto simp: fq_inv_def fq_ok_def fq_live_def split: if_splits)
qed

text \<open>Two connections with a message each.\<close>

definition ex_inbound :: pipe where
  "ex_inbound =
     (let p = fst (pipepair 1000 1000) in
      p\<lparr>pp_in := snd (ypipe_flush (ypipe_write granularity (zmsg_of ''hello'') False (pp_in p)))\<rparr>)"

definition ex_fq :: fqs where
  "ex_fq = (fq_attach 1 (fq_attach 0 fq_new), \<lambda>_. ex_inbound)"

lemma ex_fq_run: "fq_run (fq_new, \<lambda>_. ex_inbound) [Quiet, Quiet] ex_fq"
proof -
  have q: "pp_in_active ex_inbound" by (simp add: ex_inbound_def pipepair_def pipe_new_def Let_def)
  have 1: "fq_step (fq_new, \<lambda>_. ex_inbound) Quiet (fq_attach 0 fq_new, \<lambda>_. ex_inbound)"
    using fq_step.Attach [of 0 fq_new ex_inbound "\<lambda>_. ex_inbound"] q by (simp add: fq_new_def fun_upd_idem)
  have 2: "fq_step (fq_attach 0 fq_new, \<lambda>_. ex_inbound) Quiet ex_fq"
    using fq_step.Attach [of 1 "fq_attach 0 fq_new" ex_inbound "\<lambda>_. ex_inbound"] q
    by (simp add: fq_new_def fq_attach_def ex_fq_def array_swap_def Let_def fun_upd_idem)
  show ?thesis
    using fq_run.Step [OF fq_run.Step [OF fq_run.Start 1] 2] by simp
qed

theorem fq_well_formed_witness:
  "distinct (fq_pipes (fst ex_fq)) \<and> fq_current (fst ex_fq) < fq_active (fst ex_fq)"
  using fq_well_formed [of "\<lambda>_. ex_inbound" "[Quiet, Quiet]" "fst ex_fq" "snd ex_fq"] ex_fq_run
  by (simp add: ex_fq_def fq_attach_def Let_def)

fun took :: "fq_event \<Rightarrow> nat list" where
  "took (Took p) = [p]"
| "took _ = []"

abbreviation served :: "fq_event list \<Rightarrow> nat list" where
  "served es \<equiv> concat (map took es)"

text \<open>
  A step of the others: the pipe has been served, or it is still active with its message and has
  come closer by the messages that were taken.
\<close>

lemma fq_step_fair:
  assumes "fq_step s e s'" "fq_inv s" "x \<in> fq_live (fst s)" "readable (snd s x)"
    and "\<forall>p. e \<noteq> Gone p" "e \<noteq> Polled"
  shows "e = Took x \<or> e = Part x \<or>
    x \<in> fq_live (fst s') \<and> readable (snd s' x) \<and>
    length (fq_pipes (fst s)) \<le> length (fq_pipes (fst s')) \<and>
    fq_rank (fst s') x + length (took e) + length (fq_pipes (fst s)) \<le> fq_rank (fst s) x + length (fq_pipes (fst s'))"
  using assms
proof (induction rule: fq_step.induct)
  case (Receive_last s m p s')
  then show ?case
    using fq_recv_loop_fair [of "fq_active (fst s)" "fst s" "snd s" "Some (m, p)" "fst s'" "snd s'" x]
    by (auto simp: fq_recvpipe_def fq_inv_def)
next
  case (Receive_part s m p s')
  then show ?case
    using fq_recv_loop_fair [of "fq_active (fst s)" "fst s" "snd s" "Some (m, p)" "fst s'" "snd s'" x]
    by (auto simp: fq_recvpipe_def fq_inv_def)
next
  case (Receive_none s s')
  then show ?case
    using fq_recv_loop_fair [of "fq_active (fst s)" "fst s" "snd s" None "fst s'" "snd s'" x]
    by (auto simp: fq_recvpipe_def fq_inv_def)
next
  case (Wake p f ps b q)
  have x: "pp_in_active (ps x)" using Wake.prems(1,2) by (simp add: fq_inv_def)
  show ?case
  proof (cases b)
    case True
    then have n: "\<not> pp_in_active (ps p)" using Wake.hyps(2) by (auto simp: process_activate_read_def split: if_splits)
    then have "p \<notin> fq_live f" "p \<noteq> x" using Wake.prems(1) x by (auto simp: fq_inv_def)
    then show ?thesis using Wake True fq_activated_step(1-3) [of f p] fq_activated_step(4) [of f p x] by (auto simp: fq_inv_def)
  next
    case False
    then have "q = ps p" using Wake.hyps(2) by (auto simp: process_activate_read_def split: if_splits)
    then show ?thesis using Wake False by simp
  qed
next
  case (Attach p f q ps)
  then have "p \<noteq> x" using fq_live_subset [of f] by auto
  then show ?case using Attach fq_attach_step(1-3) [of f p] fq_attach_step(4) [of f p x] by (auto simp: fq_inv_def)
qed auto


lemma fq_run_fair:
  assumes "fq_run s es s'" "fq_inv s" "x \<in> fq_live (fst s)" "readable (snd s x)"
    and "\<forall>e \<in> set es. e \<noteq> Polled \<and> (\<forall>p. e \<noteq> Gone p)"
  shows "Took x \<in> set es \<or> Part x \<in> set es \<or>
    x \<in> fq_live (fst s') \<and> readable (snd s' x) \<and>
    fq_rank (fst s') x + length (served es) + length (fq_pipes (fst s)) \<le> fq_rank (fst s) x + length (fq_pipes (fst s'))"
  using assms
proof (induction rule: fq_run.induct)
  case (Step s es t e u)
  have i: "fq_inv t" using fq_run_inv Step.hyps(1) Step.prems(1) by blast
  have e: "\<forall>p. e \<noteq> Gone p" "e \<noteq> Polled" using Step.prems(4) by auto
  show ?case
    using Step.IH Step.prems fq_step_fair [OF Step.hyps(2) i _ _ e, of x] by auto
qed simp

text \<open>
  C10. No pipe starves: a pipe that is active and has a message gets its turn before the socket has
  returned as many messages from other pipes as it has pipes, whichever pipes wake up, fill or are
  attached in the meantime.
\<close>

theorem fq_no_starvation:
  assumes "fq_run (fq_new, ps) before s" "x \<in> set (take (fq_active (fst s)) (fq_pipes (fst s)))" "readable (snd s x)"
    and "fq_run s es s'" "\<forall>e \<in> set es. e \<noteq> Polled \<and> (\<forall>p. e \<noteq> Gone p)"
    and "length (fq_pipes (fst s')) \<le> length (served es)"
  shows "Took x \<in> set es \<or> Part x \<in> set es"
proof (rule ccontr)
  assume no: "\<not> ?thesis"
  have inv: "fq_inv s" by (rule fq_run_inv [OF assms(1) fq_inv_new])
  have x: "x \<in> fq_live (fst s)" using assms(2) by (simp add: fq_live_def)
  have "fq_rank (fst s) x < length (fq_pipes (fst s))" using fq_rank_bound x inv by (simp add: fq_inv_def)
  with fq_run_fair [OF assms(4) inv x assms(3,5)] no assms(6) show False by auto
qed


lemma ex_fq_receives:
  "\<exists>m s m' s'. fq_recvpipe ex_fq = (Inr (Some (m, 0)), s) \<and> \<not> zm_more m \<and>
     fq_recvpipe s = (Inr (Some (m', 1)), s') \<and> \<not> zm_more m' \<and> length (fq_pipes (fst s')) = 2"
proof -
  have "case fq_recvpipe ex_fq of
      (Inr (Some (m, p)), s) \<Rightarrow> \<not> zm_more m \<and> p = 0 \<and>
        (case fq_recvpipe s of
           (Inr (Some (m', p')), s') \<Rightarrow> \<not> zm_more m' \<and> p' = 1 \<and> length (fq_pipes (fst s')) = 2
         | _ \<Rightarrow> False)
    | _ \<Rightarrow> False"
    by code_simp
  then show ?thesis by (auto split: prod.splits sum.splits option.splits)
qed

theorem fq_no_starvation_witness:
  "\<exists>es s. fq_run ex_fq es s \<and> length (served es) = 2 \<and> (Took 1 \<in> set es \<or> Part 1 \<in> set es)"
proof -
  obtain m s m' s' where r: "fq_recvpipe ex_fq = (Inr (Some (m, 0)), s)" "\<not> zm_more m"
      "fq_recvpipe s = (Inr (Some (m', 1)), s')" "\<not> zm_more m'" "length (fq_pipes (fst s')) = 2"
    using ex_fq_receives by blast
  have run: "fq_run ex_fq [Took 0, Took 1] s'"
    using fq_run.Step [OF fq_run.Step [OF fq_run.Start fq_step.Receive_last [OF r(1,2)]] fq_step.Receive_last [OF r(3,4)]]
    by simp
  have x: "1 \<in> set (take (fq_active (fst ex_fq)) (fq_pipes (fst ex_fq)))"
    by (simp add: ex_fq_def fq_attach_def fq_new_def array_swap_def Let_def)
  have "case fst (pipe_read ex_inbound) of Inr (Some m) \<Rightarrow> True | _ \<Rightarrow> False" by code_simp
  then have y: "readable (snd ex_fq 1)"
    by (cases "pipe_read ex_inbound") (auto simp: readable_def ex_fq_def split: sum.splits option.splits)
  have "Took 1 \<in> set [Took 0, Took 1] \<or> Part 1 \<in> set [Took 0, Took 1]"
    by (rule fq_no_starvation [OF ex_fq_run x y run]) (simp_all add: r(5))
  then show ?thesis using run by (intro exI [of _ "[Took 0, Took 1]"] exI [of _ s']) simp
qed

end
