(* ===== verification/ZmqExchange.thy ===== *)
theory ZmqExchange
  imports ZmqSocket PipeClose ZmqFair
begin

text \<open>
  The two socket classes together: a request of a REQ socket travels through the pipe to a REP
  socket and the reply travels back. Each end of the pipe is followed through the specification
  of its two channels, so that the code of the pipe is only looked at here.
\<close>

section \<open>The reply socket\<close>

lemma fq_recv_current:
  assumes "0 < fq_active f" "fq_pipes f ! fq_current f = p" "pipe_read (ps p) = (Inr (Some m), q)"
  shows "fq_recvpipe (f, ps) =
    (Inr (Some (m, p)), (if zm_more m then f\<lparr>fq_more := True\<rparr> else fq_advance p (f\<lparr>fq_more := False\<rparr>), ps(p := q)))"
proof -
  obtain n where n: "fq_active f = Suc n" using assms(1) by (cases "fq_active f") auto
  have "onPipe p pipe_read (f, ps) = (Inr (Some m), (f, ps(p := q)))" by (simp add: onPipe_def assms(3))
  then show ?thesis using assms(2) n
    by (cases "zm_more m"; auto simp: fq_recvpipe_def fq_advance_def Let_def bindX_def thenX_def)
qed

lemma router_recv_loop_run:
  "routerFq fq_recvpipe d = (Inr (Some (m, p)), d') \<Longrightarrow> \<not> zm_routing_id m \<Longrightarrow>
     loopX router_recv_loop d = (Inr (Some (m, p)), d')"
  by (simp add: loopX_def router_recv_loop.simps)

text \<open>A REP socket between two requests, about to read from a pipe.\<close>

definition rep_ready :: "rep \<Rightarrow> bool" where
  "rep_ready d \<longleftrightarrow>
     \<not> rp_sending_reply d \<and> rp_request_begins d \<and> \<not> rt_prefetched d \<and> \<not> rt_more_in d \<and>
     rt_current_in d = None \<and> rt_current_out d = None \<and> \<not> rt_more_out d \<and>
     \<not> rt_terminate_current_in d \<and> \<not> rt_raw_socket d \<and> \<not> rt_opt_raw_socket d \<and>
     0 < fq_active (rt_fq d)"

definition rep_knows :: "nat \<Rightarrow> rep \<Rightarrow> bool" where
  "rep_knows p d \<longleftrightarrow>
     pp_routing_id (rt_pipes d p) \<noteq> [] \<and>
     map_option fst (map_of (rt_out_pipes d) (pp_routing_id (rt_pipes d p))) = Some p"

definition rep_idle :: "nat \<Rightarrow> rep \<Rightarrow> bool" where
  "rep_idle p d \<longleftrightarrow> rep_ready d \<and> rep_knows p d \<and> fq_pipes (rt_fq d) ! fq_current (rt_fq d) = p"

lemmas rep_idle_defs = rep_idle_def rep_ready_def rep_knows_def

lemma router_read_current:
  assumes "0 < fq_active (rt_fq d)" "fq_pipes (rt_fq d) ! fq_current (rt_fq d) = p"
    and "pipe_read (rt_pipes d p) = (Inr (Some m), q)" "\<not> zm_routing_id m"
  shows "loopX router_recv_loop d = (Inr (Some (m, p)),
    d\<lparr>rt_fq := (if zm_more m then (rt_fq d)\<lparr>fq_more := True\<rparr> else fq_advance p ((rt_fq d)\<lparr>fq_more := False\<rparr>)),
      rt_pipes := (rt_pipes d)(p := q)\<rparr>)"
  using fq_recv_current [of "rt_fq d" p "rt_pipes d" m q] assms
  by (intro router_recv_loop_run assms(4)) (simp add: routerFq_def)

text \<open>The socket after the routing id, and after the empty part.\<close>

definition rep_addressed :: "nat \<Rightarrow> pipe \<Rightarrow> zmsg \<Rightarrow> rep \<Rightarrow> rep" where
  "rep_addressed p q b d =
     d\<lparr>rt_fq := (rt_fq d)\<lparr>fq_more := True\<rparr>, rt_pipes := (rt_pipes d)(p := q), rt_prefetched_msg := b,
       rt_prefetched := True, rt_current_in := Some p, rt_routing_id_sent := True, rt_more_out := True,
       rt_current_out := Some p\<rparr>"

lemma envelope_first:
  assumes "rep_idle p d" "pipe_read (rt_pipes d p) = (Inr (Some b), q)" "zm_more b" "\<not> zm_routing_id b"
    and "pp_routing_id q = pp_routing_id (rt_pipes d p)" "pipe_check_write q = (True, q)"
  shows "envelope_loop d = envelope_loop (rep_addressed p q b d)"
proof -
  let ?id = "with_more (zmsg_of (pp_routing_id (rt_pipes d p)))"
  let ?d = "d\<lparr>rt_fq := (rt_fq d)\<lparr>fq_more := True\<rparr>, rt_pipes := (rt_pipes d)(p := q), rt_prefetched_msg := b,
       rt_prefetched := True, rt_current_in := Some p, rt_routing_id_sent := True\<rparr>"
  note i = assms(1) [unfolded rep_idle_defs]
  have 1: "router_xrecv d = (Inr (Some ?id), ?d)"
    using i router_read_current [of d p b q] assms(2-5) by (simp add: router_xrecv_def routing_id_part_def)
  have 2: "router_xsend ?id ?d = (Inr None, rep_addressed p q b d)"
    using i assms(6)
    by (cases d) (auto simp: router_xsend_def router_address_def with_more_def zmsg_of_def rep_addressed_def)
  show ?thesis
    by (subst envelope_loop.simps) (use 1 2 i in \<open>simp add: with_more_def zmsg_of_def\<close>)
qed

lemma envelope_rest:
  assumes "rep_idle p d" "zm_more b" "zm_data b = []" "pipe_write b q = (Inr True, q')"
  shows "envelope_loop (rep_addressed p q b d) = Some (Inr True,
    (rep_addressed p q' b d)\<lparr>rt_prefetched := False, rt_more_in := True\<rparr>)"
proof -
  note i = assms(1) [unfolded rep_idle_defs]
  let ?d = "(rep_addressed p q b d)\<lparr>rt_prefetched := False, rt_more_in := True\<rparr>"
  have 1: "router_xrecv (rep_addressed p q b d) = (Inr (Some b), ?d)"
    using i assms(2) by (cases d) (simp add: router_xrecv_def end_of_part_def rep_addressed_def)
  have 2: "router_xsend b ?d = (Inr None, (rep_addressed p q' b d)\<lparr>rt_prefetched := False, rt_more_in := True\<rparr>)"
    using i assms by (cases d) (simp add: router_xsend_def rep_addressed_def routerPipe_def Let_def)
  show ?thesis
    by (subst envelope_loop.simps) (use 1 2 assms in simp)
qed

text \<open>The socket when the request has been read.\<close>

definition rep_answering :: "nat \<Rightarrow> pipe \<Rightarrow> zmsg \<Rightarrow> rep \<Rightarrow> rep" where
  "rep_answering p q b d =
     d\<lparr>rt_fq := fq_advance p ((rt_fq d)\<lparr>fq_more := False\<rparr>), rt_pipes := (rt_pipes d)(p := q), rt_prefetched_msg := b,
       rt_current_in := None, rt_routing_id_sent := True, rt_more_out := True, rt_current_out := Some p,
       rp_sending_reply := True\<rparr>"

lemma rep_xrecv_request:
  assumes "rep_idle p d" "pipe_read (rt_pipes d p) = (Inr (Some b), q)" "zm_more b" "zm_data b = []" "\<not> zm_routing_id b"
    and "pp_routing_id q = pp_routing_id (rt_pipes d p)" "pipe_check_write q = (True, q)"
    and "pipe_write b q = (Inr True, q')" "pipe_read q' = (Inr (Some m), q'')" "\<not> zm_more m" "\<not> zm_routing_id m"
  shows "rep_xrecv d = (Inr (Inr m), rep_answering p q'' b d)"
proof -
  note i = assms(1) [unfolded rep_idle_defs]
  let ?d = "(rep_addressed p q' b d)\<lparr>rt_prefetched := False, rt_more_in := True\<rparr>"
  let ?e = "?d\<lparr>rp_request_begins := False\<rparr>"
  have 1: "loopX envelope_loop d = (Inr True, ?d)"
    using envelope_first [OF assms(1-3,5-7)] envelope_rest [OF assms(1,3,4,8)] by (simp add: loopX_def)
  have 2: "loopX router_recv_loop ?e = (Inr (Some (m, p)),
      ?e\<lparr>rt_fq := fq_advance p ((rt_fq d)\<lparr>fq_more := False\<rparr>), rt_pipes := (rt_pipes d)(p := q'')\<rparr>)"
    using router_read_current [of ?e p m q''] i assms(9-11) by (simp add: rep_addressed_def)
  have 3: "router_xrecv ?e = (Inr (Some m),
      ?e\<lparr>rt_fq := fq_advance p ((rt_fq d)\<lparr>fq_more := False\<rparr>), rt_pipes := (rt_pipes d)(p := q''),
         rt_more_in := False, rt_current_in := None\<rparr>)"
    using 2 i assms(10) by (simp add: router_xrecv_def end_of_part_def rep_addressed_def)
  show ?thesis
    using 1 3 i assms(10) by (cases d) (simp add: rep_xrecv_def rep_answering_def rep_addressed_def)
qed

lemma rep_xsend_reply:
  assumes "rep_idle p d" "pipe_write r q = (Inr True, q')" "pipe_flush q' = (Inr (), q'')" "\<not> zm_more r"
  shows "rep_xsend r (rep_answering p q b d) =
    (Inr None, (rep_answering p q'' b d)\<lparr>rt_more_out := False, rt_current_out := None, rp_sending_reply := False\<rparr>)"
  using assms
  by (cases d) (simp add: rep_idle_defs rep_xsend_def router_xsend_def rep_answering_def routerPipe_def Let_def)


section \<open>One end of a pipe against the specification of its two channels\<close>

definition pipe_open :: "zmsg chan \<Rightarrow> zmsg chan \<Rightarrow> pipe \<Rightarrow> bool" where
  "pipe_open i o' q \<longleftrightarrow> pp_state q = Active \<and> pp_out_active q \<and> ypipe_rel granularity (pp_in q) i \<and>
     (\<exists>y. pp_out q = Some y \<and> ypipe_rel granularity y o')"

definition plain :: "zmsg \<Rightarrow> bool" where
  "plain m \<longleftrightarrow> \<not> zm_credential m \<and> \<not> zm_delimiter m \<and> \<not> zm_routing_id m"

lemma pipe_read_next:
  assumes "pipe_open i o' q" "pp_in_active q" "flushed i = m # ms" "plain m"
  shows "\<exists>q' i'. pipe_read q = (Inr (Some m), q') \<and> pipe_open i' o' q' \<and> flushed i' = ms \<and>
    ready i' = ready i \<and> partial i' = partial i \<and>
    pp_in_active q' \<and> pp_routing_id q' = pp_routing_id q \<and> check_hwm q' = check_hwm q"
proof -
  obtain y i' where y: "read_loop (pp_in q) = Some (Inr (Some m), y)" "ypipe_rel granularity y i'"
      "flushed i' = ms" "ready i' = ready i" "partial i' = partial i"
    using read_loop_result [of "pp_in q" i] assms by (auto simp: pipe_open_def plain_def)
  let ?q = "q\<lparr>pp_in := y, pp_msgs_read := (if zm_more m then pp_msgs_read q else pp_msgs_read q + 1)\<rparr>"
  define cs where "cs = (if 0 < pp_lwm q \<and> pp_msgs_read ?q mod word_of_int (pp_lwm q) = 0
     then [Activate_write (pp_msgs_read ?q)] else [])"
  have "pipe_read q = (Inr (Some m), ?q\<lparr>pp_sent := pp_sent q @ cs\<rparr>)"
    using assms y(1)
    by (cases q; cases "zm_more m"; auto simp: cs_def pipe_read_def can_read_def pipe_open_def plain_def send_command_def)
  then show ?thesis
    using assms y(2-) by (intro exI [of _ "?q\<lparr>pp_sent := pp_sent q @ cs\<rparr>"] exI [of _ i'])
      (auto simp: pipe_open_def check_hwm_def)
qed

lemma pipe_read_empty:
  assumes "pipe_open i o' q" "pp_in_active q" "flushed i = []"
  shows "\<exists>y. pipe_read q = (Inr None, q\<lparr>pp_in := y, pp_in_active := False\<rparr>) \<and>
    ypipe_rel granularity y (i\<lparr>asleep := True\<rparr>)"
proof -
  have r: "fst (ypipe_read granularity (pp_in q)) = None" "ypipe_rel granularity (snd (ypipe_read granularity (pp_in q))) (i\<lparr>asleep := True\<rparr>)"
    using ypipe_rel_read [of granularity "pp_in q" i] assms by (auto simp: pipe_open_def chan_read_def)
  then have "read_loop (pp_in q) = Some (Inr None, snd (ypipe_read granularity (pp_in q)))"
    by (subst read_loop.simps) (simp split: prod.split option.split add: prod_eq_iff)
  then show ?thesis using r(2) assms(1,2)
    by (intro exI [of _ "snd (ypipe_read granularity (pp_in q))"]) (auto simp: pipe_read_def can_read_def pipe_open_def)
qed

lemma pipe_check_write_open: "pipe_open i o' q \<Longrightarrow> check_hwm q \<Longrightarrow> pipe_check_write q = (True, q)"
  by (simp add: pipe_check_write_def pipe_open_def)

lemma pipe_write_part:
  assumes "pipe_open i o' q" "check_hwm q" "zm_more m"
  shows "\<exists>y. pipe_write m q = (Inr True, q\<lparr>pp_out := Some y\<rparr>) \<and> ypipe_rel granularity y (chan_write m True o')"
  using assms pipe_check_write_open [OF assms(1,2)] ypipe_rel_write [of granularity _ o' m True]
  by (auto simp: pipe_write_def pipe_open_def)

lemma pipe_write_last:
  assumes "pipe_open i o' q" "check_hwm q" "\<not> zm_more m" "\<not> zm_routing_id m"
  shows "\<exists>q' y. pipe_write m q = (Inr True, q') \<and>
    pipe_flush q' = (Inr (), q\<lparr>pp_out := Some y, pp_msgs_written := pp_msgs_written q + 1,
      pp_sent := pp_sent q @ (if asleep o' then [Activate_read] else [])\<rparr>) \<and>
    ypipe_rel granularity y (o'\<lparr>flushed := flushed o' @ ready o' @ partial o' @ [m], ready := [], partial := [], asleep := False\<rparr>)"
proof -
  obtain y where y: "pp_out q = Some y" "ypipe_rel granularity y o'" using assms(1) by (auto simp: pipe_open_def)
  let ?y = "ypipe_write granularity m False y"
  have w: "pipe_write m q = (Inr True, q\<lparr>pp_out := Some ?y, pp_msgs_written := pp_msgs_written q + 1\<rparr>)"
    using assms pipe_check_write_open [OF assms(1,2)] y by (simp add: pipe_write_def)
  have r: "ypipe_rel granularity ?y (chan_write m False o')" by (rule ypipe_rel_write [OF y(2)])
  obtain b z where f: "ypipe_flush ?y = (b, z)" by fastforce
  have z: "b \<longleftrightarrow> \<not> asleep o'" "ypipe_rel granularity z (o'\<lparr>flushed := flushed o' @ ready o' @ partial o' @ [m], ready := [], partial := [], asleep := False\<rparr>)"
    using ypipe_rel_flush [OF r] f by (cases o'; auto simp: chan_flush_def chan_write_def)+
  have "pipe_flush (q\<lparr>pp_out := Some ?y, pp_msgs_written := pp_msgs_written q + 1\<rparr>) =
    (Inr (), q\<lparr>pp_out := Some z, pp_msgs_written := pp_msgs_written q + 1,
      pp_sent := pp_sent q @ (if asleep o' then [Activate_read] else [])\<rparr>)"
    using f z(1) assms(1) by (cases q) (auto simp: pipe_flush_def pipe_open_def send_command_def)
  then show ?thesis using w z(2) by blast
qed


section \<open>The request socket\<close>

text \<open>A REQ socket with one connection, between two requests.\<close>

definition req_idle :: "nat \<Rightarrow> req \<Rightarrow> bool" where
  "req_idle p d \<longleftrightarrow>
     \<not> rq_receiving_reply d \<and> rq_message_begins d \<and> \<not> rq_request_id_frames_enabled d \<and>
     fq_pipes (dl_fq d) = [p] \<and> fq_current (dl_fq d) = 0 \<and> \<not> fq_more (dl_fq d) \<and>
     fq_active (dl_fq d) = 1 \<and>
     lb_pipes (dl_lb d) = [p] \<and> lb_current (dl_lb d) = 0 \<and> lb_active (dl_lb d) = 1 \<and>
     \<not> lb_more (dl_lb d) \<and> \<not> lb_dropping (dl_lb d)"

definition bottom :: zmsg where
  "bottom = with_more zmsg_init"

lemma lb_send_one:
  assumes "lb_pipes f = [p]" "lb_current f = 0" "lb_active f = 1" "\<not> lb_dropping f" "pipe_write m (ps p) = (Inr True, q)"
  shows "zm_more m \<Longrightarrow> lb_sendpipe m (f, ps) = (Inr (Sent (Some p)), (f\<lparr>lb_more := True\<rparr>, ps(p := q)))"
    and "\<not> zm_more m \<Longrightarrow> pipe_flush q = (Inr (), q') \<Longrightarrow>
      lb_sendpipe m (f, ps) = (Inr (Sent (Some p)), (f\<lparr>lb_more := False, lb_current := 0\<rparr>, ps(p := q')))"
  using assms by (auto simp: lb_sendpipe_def lb_finish_def onPipe_def Let_def bindX_def thenX_def)

lemma fq_recv_nothing:
  assumes "fq_pipes f = [p]" "fq_current f = 0" "\<not> fq_more f" "fq_active f = 1" "pipe_read (ps p) = (Inr None, q)"
  shows "fq_recvpipe (f, ps) = (Inr None, (fq_deactivate f, ps(p := q)))"
  using assms by (simp add: fq_recvpipe_def onPipe_def Let_def bindX_def thenX_def)

lemma req_xsend_request:
  assumes "req_idle p d" "pipe_write bottom (dl_pipes d p) = (Inr True, q1)" "pipe_read q1 = (Inr None, q2)"
    and "pipe_write m q2 = (Inr True, q3)" "pipe_flush q3 = (Inr (), q4)" "\<not> zm_more m"
  shows "req_xsend m d = (Inr None, d\<lparr>dl_fq := fq_deactivate (dl_fq d), dl_pipes := (dl_pipes d)(p := q4),
     rq_reply_pipe := Some p, rq_receiving_reply := True\<rparr>)"
proof -
  note i = assms(1) [unfolded req_idle_def]
  let ?d1 = "d\<lparr>dl_lb := (dl_lb d)\<lparr>lb_more := True\<rparr>, dl_pipes := (dl_pipes d)(p := q1), rq_reply_pipe := Some p\<rparr>"
  have 1: "req_sendpipe bottom (d\<lparr>rq_reply_pipe := None\<rparr>) = (Inr True, ?d1)"
    using i lb_send_one(1) [of "dl_lb d" p bottom "dl_pipes d" q1] assms(2)
    by (cases d) (simp add: req_sendpipe_def dealer_sendpipe_def onLb_def bottom_def with_more_def)
  let ?d2 = "?d1\<lparr>dl_fq := fq_deactivate (dl_fq d), dl_pipes := (dl_pipes d)(p := q2), rq_message_begins := False\<rparr>"
  have 2: "dealer_xrecv (?d1\<lparr>rq_message_begins := False\<rparr>) = (Inr None, ?d2)"
    using i fq_recv_nothing [of "dl_fq d" p "(dl_pipes d)(p := q1)" q2] assms(3)
    by (cases d) (simp add: dealer_xrecv_def dealer_recvpipe_def onFq_def bindX_def)
  have 3: "loopX drop_loop (?d1\<lparr>rq_message_begins := False\<rparr>) = (Inr (), ?d2)"
    by (simp add: loopX_def drop_loop.simps 2)
  have 4: "begin_request d = (Inr True, ?d2)"
    using i 1 3 by (simp add: begin_request_def bottom_def bindX_def thenX_def)
  have 5: "dealer_xsend m ?d2 = (Inr None, d\<lparr>dl_fq := fq_deactivate (dl_fq d), dl_pipes := (dl_pipes d)(p := q4),
     rq_reply_pipe := Some p, rq_message_begins := False\<rparr>)"
    using i lb_send_one(2) [of "(dl_lb d)\<lparr>lb_more := True\<rparr>" p m "(dl_pipes d)(p := q2)" q3 q4] assms(4-6)
    by (cases d; cases "dl_lb d") (simp add: dealer_xsend_def dealer_sendpipe_def onLb_def bindX_def send_error_def)
  show ?thesis
    using i 4 5 assms(6) by (cases d) (simp add: req_xsend_def bindX_def thenX_def)
qed


lemma req_wakes:
  assumes "fq_pipes f = [p]" "fq_current f = 0" "fq_active f = 1" "dl_fq d = fq_deactivate f"
    and "pp_state (dl_pipes d p) = Active" "\<not> pp_in_active (dl_pipes d p)"
  shows "process_command req_class (To_pipe p Activate_read) d =
    (Inr (), d\<lparr>dl_fq := f, dl_pipes := (dl_pipes d)(p := (dl_pipes d p)\<lparr>pp_in_active := True\<rparr>)\<rparr>)"
proof -
  have "fq_activated p (fq_deactivate f) = f"
    using assms(1-3) by (cases f) (simp add: fq_activated_def fq_deactivate_def array_swap_def array_index_def Let_def)
  then show ?thesis
    using assms(4-6)
    by (cases d) (simp add: process_command_def req_class_def sockPipe_def process_activate_read_def
        dealer_xread_activated_def bindX_def)
qed

lemma recv_reply_one:
  assumes "fq_pipes (dl_fq d) = [p]" "fq_current (dl_fq d) = 0" "fq_active (dl_fq d) = 1" "rq_reply_pipe d = Some p"
    and "pipe_read (dl_pipes d p) = (Inr (Some m), q)"
  shows "recv_reply_pipe d = (Inr (Some m),
    d\<lparr>dl_fq := (dl_fq d)\<lparr>fq_more := zm_more m, fq_last_in := (if zm_more m then fq_last_in (dl_fq d) else Some p)\<rparr>,
      dl_pipes := (dl_pipes d)(p := q)\<rparr>)"
proof -
  have "dealer_recvpipe d = (Inr (Some (m, p)),
    d\<lparr>dl_fq := (dl_fq d)\<lparr>fq_more := zm_more m, fq_last_in := (if zm_more m then fq_last_in (dl_fq d) else Some p)\<rparr>,
      dl_pipes := (dl_pipes d)(p := q)\<rparr>)"
    using fq_recv_current [of "dl_fq d" p "dl_pipes d" m q] assms
    by (cases d; cases "dl_fq d"; cases "zm_more m"; simp add: dealer_recvpipe_def onFq_def fq_advance_def)
  then show ?thesis
    using assms(4) by (simp add: recv_reply_pipe_def loopX_def recv_reply_pipe_loop.simps)
qed

lemma req_xrecv_reply:
  assumes "fq_pipes (dl_fq d) = [p]" "fq_current (dl_fq d) = 0" "fq_active (dl_fq d) = 1" "rq_reply_pipe d = Some p"
    and "rq_receiving_reply d" "rq_message_begins d" "\<not> rq_request_id_frames_enabled d"
    and "pipe_read (dl_pipes d p) = (Inr (Some b), q)" "zm_more b" "zm_data b = []"
    and "pipe_read q = (Inr (Some r), q')" "\<not> zm_more r"
  shows "req_xrecv d = (Inr (Inr r),
    d\<lparr>dl_fq := (dl_fq d)\<lparr>fq_more := False, fq_last_in := Some p\<rparr>, dl_pipes := (dl_pipes d)(p := q'),
      rq_receiving_reply := False\<rparr>)"
proof -
  let ?d1 = "d\<lparr>dl_fq := (dl_fq d)\<lparr>fq_more := True\<rparr>, dl_pipes := (dl_pipes d)(p := q)\<rparr>"
  have 1: "recv_reply_pipe d = (Inr (Some b), ?d1)"
    using recv_reply_one [OF assms(1-4,8)] assms(9) by (cases "dl_fq d") simp
  have 2: "reply_head_parts d = (Inr Reply_found, ?d1)"
    using 1 assms(7,9,10) by (simp add: reply_head_parts_def head_part_def bindX_def)
  have 3: "loopX reply_loop d = (Inr True, ?d1\<lparr>rq_message_begins := False\<rparr>)"
    unfolding loopX_def
    by (subst reply_loop.simps) (simp add: assms(6) 2 reply_loop.simps [of "?d1\<lparr>rq_message_begins := False\<rparr>"])
  have 4: "recv_reply_pipe (?d1\<lparr>rq_message_begins := False\<rparr>) = (Inr (Some r),
      d\<lparr>dl_fq := (dl_fq d)\<lparr>fq_more := False, fq_last_in := Some p\<rparr>, dl_pipes := (dl_pipes d)(p := q'),
        rq_message_begins := False\<rparr>)"
    using recv_reply_one [of "?d1\<lparr>rq_message_begins := False\<rparr>" p r q'] assms
    by (cases d; cases "dl_fq d") simp
  show ?thesis
    using 3 4 assms(5,6,12) by (cases d) (simp add: req_xrecv_def bindX_def thenX_def)
qed


section \<open>A request and its reply\<close>

definition empty_chan :: "'a chan \<Rightarrow> bool" where
  "empty_chan c \<longleftrightarrow> flushed c = [] \<and> ready c = [] \<and> partial c = []"

lemma plain_bottom [simp]: "plain bottom" "zm_more bottom" "zm_data bottom = []" "\<not> zm_routing_id bottom"
  by (simp_all add: plain_def bottom_def with_more_def zmsg_init_def)

text \<open>The end of the client while it sends a request.\<close>

lemma client_end_sends:
  assumes "pipe_open i o' x" "pp_in_active x" "check_hwm x" "empty_chan i" "empty_chan o'" "\<not> zm_more m" "plain m"
  shows "\<exists>x1 x2 x3 x4 c. pipe_write bottom x = (Inr True, x1) \<and> pipe_read x1 = (Inr None, x2) \<and>
    pipe_write m x2 = (Inr True, x3) \<and> pipe_flush x3 = (Inr (), x4) \<and>
    pipe_open (i\<lparr>asleep := True\<rparr>) c x4 \<and> flushed c = [bottom, m] \<and> ready c = [] \<and> partial c = [] \<and> \<not> pp_in_active x4"
proof -
  obtain y1 where w: "pipe_write bottom x = (Inr True, x\<lparr>pp_out := Some y1\<rparr>)" "ypipe_rel granularity y1 (chan_write bottom True o')"
    using pipe_write_part [OF assms(1,3), of bottom] by auto
  let ?x1 = "x\<lparr>pp_out := Some y1\<rparr>"
  have o1: "pipe_open i (chan_write bottom True o') ?x1" "pp_in_active ?x1" "flushed i = []"
    using assms w(2) by (auto simp: pipe_open_def empty_chan_def)
  from pipe_read_empty [OF this] obtain y2 where
    r: "pipe_read ?x1 = (Inr None, ?x1\<lparr>pp_in := y2, pp_in_active := False\<rparr>)" "ypipe_rel granularity y2 (i\<lparr>asleep := True\<rparr>)"
    by blast
  let ?x2 = "?x1\<lparr>pp_in := y2, pp_in_active := False\<rparr>"
  have o2: "pipe_open (i\<lparr>asleep := True\<rparr>) (chan_write bottom True o') ?x2" "check_hwm ?x2"
    using o1(1) r(2) assms(3) by (auto simp: pipe_open_def check_hwm_def)
  have "\<not> zm_routing_id m" using assms(7) by (simp add: plain_def)
  from pipe_write_last [OF o2 assms(6) this] obtain x3 y3 where
    l: "pipe_write m ?x2 = (Inr True, x3)"
      "pipe_flush x3 = (Inr (), ?x2\<lparr>pp_out := Some y3, pp_msgs_written := pp_msgs_written ?x2 + 1,
        pp_sent := pp_sent ?x2 @ (if asleep (chan_write bottom True o') then [Activate_read] else [])\<rparr>)"
      "ypipe_rel granularity y3 (o'\<lparr>flushed := [bottom, m], ready := [], partial := [], asleep := False\<rparr>)"
    using assms(5) by (auto simp: chan_write_def empty_chan_def)
  have "pipe_open (i\<lparr>asleep := True\<rparr>) (o'\<lparr>flushed := [bottom, m], ready := [], partial := [], asleep := False\<rparr>)
      (?x2\<lparr>pp_out := Some y3, pp_msgs_written := pp_msgs_written ?x2 + 1,
        pp_sent := pp_sent ?x2 @ (if asleep (chan_write bottom True o') then [Activate_read] else [])\<rparr>)"
    using o2(1) l(3) by (auto simp: pipe_open_def)
  with w(1) r(1) l(1,2) show ?thesis
    by (intro exI conjI) (assumption | simp)+
qed

text \<open>The end of the server while it takes the request and answers.\<close>

lemma server_end_answers:
  assumes "pipe_open i o' y" "pp_in_active y" "check_hwm y" "flushed i = [bottom, m]" "empty_chan o'" "asleep o'"
    and "\<not> zm_more m" "plain m" "\<not> zm_more r" "plain r"
  shows "\<exists>y1 y2 y3 y4 y5 i' c. pipe_read y = (Inr (Some bottom), y1) \<and> pp_routing_id y1 = pp_routing_id y \<and>
    pipe_check_write y1 = (True, y1) \<and> pipe_write bottom y1 = (Inr True, y2) \<and> pipe_read y2 = (Inr (Some m), y3) \<and>
    pipe_write r y3 = (Inr True, y4) \<and> pipe_flush y4 = (Inr (), y5) \<and>
    pipe_open i' c y5 \<and> flushed c = [bottom, r] \<and> Activate_read \<in> set (pp_sent y5) \<and>
    pp_routing_id y5 = pp_routing_id y"
proof -
  from pipe_read_next [OF assms(1,2,4) plain_bottom(1)] obtain y1 i1 where
    r1: "pipe_read y = (Inr (Some bottom), y1)" "pipe_open i1 o' y1" "flushed i1 = [m]" "pp_in_active y1"
      "pp_routing_id y1 = pp_routing_id y" "check_hwm y1" using assms(3) by blast
  obtain z where w1: "pipe_write bottom y1 = (Inr True, y1\<lparr>pp_out := Some z\<rparr>)" "ypipe_rel granularity z (chan_write bottom True o')"
    using pipe_write_part [OF r1(2,6), of bottom] by auto
  let ?y2 = "y1\<lparr>pp_out := Some z\<rparr>"
  have o2: "pipe_open i1 (chan_write bottom True o') ?y2" "pp_in_active ?y2" "check_hwm ?y2"
    using r1 w1(2) by (auto simp: pipe_open_def check_hwm_def)
  from pipe_read_next [OF o2(1,2) r1(3) assms(8)] obtain y3 i3 where
    r2: "pipe_read ?y2 = (Inr (Some m), y3)" "pipe_open i3 (chan_write bottom True o') y3" "check_hwm y3"
      "pp_routing_id y3 = pp_routing_id ?y2"
    using o2(3) by blast
  have "\<not> zm_routing_id r" using assms(10) by (simp add: plain_def)
  from pipe_write_last [OF r2(2,3) assms(9) this] obtain y4 z' where
    l: "pipe_write r y3 = (Inr True, y4)"
      "pipe_flush y4 = (Inr (), y3\<lparr>pp_out := Some z', pp_msgs_written := pp_msgs_written y3 + 1,
        pp_sent := pp_sent y3 @ [Activate_read]\<rparr>)"
      "ypipe_rel granularity z' (o'\<lparr>flushed := [bottom, r], ready := [], partial := [], asleep := False\<rparr>)"
    using assms(5,6) by (auto simp: chan_write_def empty_chan_def)
  have "pipe_open i3 (o'\<lparr>flushed := [bottom, r], ready := [], partial := [], asleep := False\<rparr>)
      (y3\<lparr>pp_out := Some z', pp_msgs_written := pp_msgs_written y3 + 1, pp_sent := pp_sent y3 @ [Activate_read]\<rparr>)"
    using r2(2) l(3) by (auto simp: pipe_open_def)
  moreover have "pp_routing_id y3 = pp_routing_id y" using r1(5) r2(4) by simp
  ultimately show ?thesis
    using r1 w1(1) r2(1) l(1,2) pipe_check_write_open [OF r1(2,6)]
    by (intro exI conjI) (assumption | simp)+
qed


lemma client_end_receives:
  assumes "pipe_open i o' x" "pp_in_active x" "flushed i = [bottom, r]" "plain r"
  shows "\<exists>x1 x2. pipe_read x = (Inr (Some bottom), x1) \<and> pipe_read x1 = (Inr (Some r), x2)"
proof -
  from pipe_read_next [OF assms(1-3) plain_bottom(1)] obtain x1 i1 where
    "pipe_read x = (Inr (Some bottom), x1)" "pipe_open i1 o' x1" "flushed i1 = [r]" "pp_in_active x1" by blast
  with pipe_read_next [of i1 o' x1 r "[]"] assms(4) show ?thesis by blast
qed

lemma rep_answers:
  assumes "rep_idle s e" "pipe_open i o' (rt_pipes e s)" "pp_in_active (rt_pipes e s)" "check_hwm (rt_pipes e s)"
    and "flushed i = [bottom, m]" "empty_chan o'" "asleep o'"
    and "\<not> zm_more m" "plain m" "\<not> zm_more r" "plain r"
  shows "\<exists>e1 e2 i' c. rep_xrecv e = (Inr (Inr m), e1) \<and> rep_xsend r e1 = (Inr None, e2) \<and>
    pipe_open i' c (rt_pipes e2 s) \<and> flushed c = [bottom, r] \<and>
    Activate_read \<in> set (pp_sent (rt_pipes e2 s)) \<and> rep_ready e2 \<and> rep_knows s e2 \<and>
    rt_fq e2 = fq_advance s ((rt_fq e)\<lparr>fq_more := False\<rparr>)"
proof -
  from server_end_answers [OF assms(2-)] obtain y1 y2 y3 y4 y5 i' c' where
    z: "pipe_read (rt_pipes e s) = (Inr (Some bottom), y1)" "pp_routing_id y1 = pp_routing_id (rt_pipes e s)"
      "pipe_check_write y1 = (True, y1)" "pipe_write bottom y1 = (Inr True, y2)" "pipe_read y2 = (Inr (Some m), y3)"
      "pipe_write r y3 = (Inr True, y4)" "pipe_flush y4 = (Inr (), y5)"
    and y5: "pipe_open i' c' y5" "flushed c' = [bottom, r]" "Activate_read \<in> set (pp_sent y5)"
      "pp_routing_id y5 = pp_routing_id (rt_pipes e s)" by blast
  have "\<not> zm_routing_id m" using assms(9) by (simp add: plain_def)
  note 1 = rep_xrecv_request [OF assms(1) z(1) plain_bottom(2-4) z(2-5) assms(8) this]
  note 2 = rep_xsend_reply [OF assms(1) z(6,7) assms(10), of bottom]
  let ?e = "(rep_answering s y5 bottom e)\<lparr>rt_more_out := False, rt_current_out := None, rp_sending_reply := False\<rparr>"
  have "rt_pipes ?e s = y5" "rt_fq ?e = fq_advance s ((rt_fq e)\<lparr>fq_more := False\<rparr>)"
    by (simp_all add: rep_answering_def)
  moreover have "rep_ready ?e" "rep_knows s ?e"
    using assms(1) y5(4) by (simp_all add: rep_idle_defs rep_answering_def fq_advance_def)
  ultimately show ?thesis
    using 1 2 y5(1-3) by (intro exI conjI) (assumption | simp)+
qed

lemma req_asks:
  assumes "req_idle p d" "pipe_open i o' (dl_pipes d p)" "pp_in_active (dl_pipes d p)" "check_hwm (dl_pipes d p)"
    and "empty_chan i" "empty_chan o'" "\<not> zm_more m" "plain m"
  shows "\<exists>x c. req_xsend m d = (Inr None, d\<lparr>dl_fq := fq_deactivate (dl_fq d), dl_pipes := (dl_pipes d)(p := x),
       rq_reply_pipe := Some p, rq_receiving_reply := True\<rparr>) \<and>
    pipe_open (i\<lparr>asleep := True\<rparr>) c x \<and> flushed c = [bottom, m] \<and> \<not> pp_in_active x"
  using client_end_sends [OF assms(2-)] req_xsend_request [OF assms(1)] assms(7) by blast

text \<open>The other socket sees the two directions as they are now.\<close>

definition to_server :: "nat \<Rightarrow> nat \<Rightarrow> req \<Rightarrow> rep \<Rightarrow> rep" where
  "to_server p s d e = e\<lparr>rt_pipes := (rt_pipes e)(s := share (dl_pipes d p) (rt_pipes e s))\<rparr>"

definition to_client :: "nat \<Rightarrow> nat \<Rightarrow> rep \<Rightarrow> req \<Rightarrow> req" where
  "to_client p s e d = d\<lparr>dl_pipes := (dl_pipes d)(p := share (rt_pipes e s) (dl_pipes d p))\<rparr>"

text \<open>
  C5. A request and its reply: a REQ socket and a REP socket are idle and connected by an open pipe whose
  two directions are empty and below their water marks, the server awake and next to read from it. Then a
  message of one part sent on the first is received on the second as it is, without the parts the sockets
  put around it; a reply of one part sent there wakes the first socket, which receives exactly the reply.
  Afterwards the first socket is idle as before; the second has reset its state of sending and receiving,
  still knows the peer, and its fair queue has gone on by one pipe.
\<close>

theorem request_reply:
  assumes "req_idle p d" "rep_idle s e"
    and "pipe_open i o' (dl_pipes d p)" "pp_in_active (dl_pipes d p)" "check_hwm (dl_pipes d p)"
    and "empty_chan i" "empty_chan o'"
    and "pp_state (rt_pipes e s) = Active" "pp_out_active (rt_pipes e s)" "pp_out (rt_pipes e s) \<noteq> None"
    and "pp_in_active (rt_pipes e s)" "check_hwm (rt_pipes e s)"
    and "plain m" "\<not> zm_more m" "plain r" "\<not> zm_more r"
  shows "\<exists>d1 e1 e2 d2 d3. req_xsend m d = (Inr None, d1) \<and>
    rep_xrecv (to_server p s d1 e) = (Inr (Inr m), e1) \<and> rep_xsend r e1 = (Inr None, e2) \<and>
    Activate_read \<in> set (pp_sent (rt_pipes e2 s)) \<and>
    process_command req_class (To_pipe p Activate_read) (to_client p s e2 d1) = (Inr (), d2) \<and>
    req_xrecv d2 = (Inr (Inr r), d3) \<and> req_idle p d3 \<and> rep_ready e2 \<and> rep_knows s e2 \<and>
    rt_fq e2 = fq_advance s ((rt_fq e)\<lparr>fq_more := False\<rparr>)"
proof -
  note ri = assms(1) [unfolded req_idle_def]
  from req_asks [OF assms(1,3-7,14,13)] obtain x c d1 where
    d1: "d1 = d\<lparr>dl_fq := fq_deactivate (dl_fq d), dl_pipes := (dl_pipes d)(p := x), rq_reply_pipe := Some p,
      rq_receiving_reply := True\<rparr>"
    and 1: "req_xsend m d = (Inr None, d1)"
    and x: "pipe_open (i\<lparr>asleep := True\<rparr>) c x" "flushed c = [bottom, m]" "\<not> pp_in_active x" by blast
  let ?e = "to_server p s d1 e"
  have e: "rt_pipes ?e s = share x (rt_pipes e s)" by (simp add: to_server_def d1)
  have y: "rep_idle s ?e" "pipe_open c (i\<lparr>asleep := True\<rparr>) (rt_pipes ?e s)" "pp_in_active (rt_pipes ?e s)"
      "check_hwm (rt_pipes ?e s)"
    using x(1) assms(2,8-12) unfolding e
    by (auto simp: share_def pipe_open_def check_hwm_def rep_idle_defs to_server_def d1)
  have "empty_chan (i\<lparr>asleep := True\<rparr>)" "asleep (i\<lparr>asleep := True\<rparr>)" using assms(6) by (simp_all add: empty_chan_def)
  from rep_answers [OF y x(2) this assms(14,13,16,15)] obtain e1 e2 i' c' where
    2: "rep_xrecv ?e = (Inr (Inr m), e1)" "rep_xsend r e1 = (Inr None, e2)" "Activate_read \<in> set (pp_sent (rt_pipes e2 s))"
      "rep_ready e2" "rep_knows s e2" "rt_fq e2 = fq_advance s ((rt_fq ?e)\<lparr>fq_more := False\<rparr>)"
    and e2: "pipe_open i' c' (rt_pipes e2 s)" "flushed c' = [bottom, r]" by blast
  let ?d = "to_client p s e2 d1"
  let ?x = "(dl_pipes ?d p)\<lparr>pp_in_active := True\<rparr>"
  let ?d2 = "?d\<lparr>dl_fq := dl_fq d, dl_pipes := (dl_pipes ?d)(p := ?x)\<rparr>"
  have o: "pipe_open c' i' ?x" "pp_in_active ?x" "pp_state (dl_pipes ?d p) = Active" "\<not> pp_in_active (dl_pipes ?d p)"
    using e2(1) x(1,3) by (auto simp: pipe_open_def share_def to_client_def d1)
  have 3: "process_command req_class (To_pipe p Activate_read) ?d = (Inr (), ?d2)"
    using req_wakes [of "dl_fq d" p ?d] ri o(3,4) by (simp add: to_client_def d1)
  from client_end_receives [OF o(1,2) e2(2) assms(15)] obtain u1 u2 where
    u: "pipe_read ?x = (Inr (Some bottom), u1)" "pipe_read u1 = (Inr (Some r), u2)" by blast
  have 4: "req_xrecv ?d2 = (Inr (Inr r),
    ?d2\<lparr>dl_fq := (dl_fq d)\<lparr>fq_more := False, fq_last_in := Some p\<rparr>, dl_pipes := (dl_pipes ?d2)(p := u2),
      rq_receiving_reply := False\<rparr>)" (is "_ = (_, ?d3)")
    using req_xrecv_reply [of ?d2 p bottom u1 r u2] ri u assms(16) by (simp add: to_client_def d1)
  have "req_idle p ?d3" using ri by (simp add: req_idle_def to_client_def d1)
  moreover have "rt_fq ?e = rt_fq e" by (simp add: to_server_def)
  ultimately show ?thesis using 1 2 3 4 by metis
qed

text \<open>Two sockets that have just been connected; the server has read the routing id of the peer.\<close>

definition ex_client :: req where
  "ex_client = snd (process_commands req_class [Attach 0 (fst (pipepair 1000 1000)) True] (req_new 5))"

definition ex_server :: rep where
  "ex_server =
     (let (a, b) = pipepair 1000 1000 in
      snd (process_commands rep_class [Attach 0 (share (snd (send_routing_id [] a)) b) False] (rep_new 7)))"

lemma ex_client_pipe: "dl_pipes ex_client 0 = fst (pipepair 1000 1000)"
  by (simp add: ex_client_def process_commands_def process_command_def req_class_def req_new_def dealer_new_def
      dealer_xattach_pipe_def dealer.defs bindX_def thenX_def)

theorem request_reply_witness:
  "\<exists>d1 e1 e2 d2 d3. req_xsend (zmsg_of ''ping'') ex_client = (Inr None, d1) \<and>
    rep_xrecv (to_server 0 0 d1 ex_server) = (Inr (Inr (zmsg_of ''ping'')), e1) \<and>
    rep_xsend (zmsg_of ''pong'') e1 = (Inr None, e2) \<and>
    process_command req_class (To_pipe 0 Activate_read) (to_client 0 0 e2 d1) = (Inr (), d2) \<and>
    req_xrecv d2 = (Inr (Inr (zmsg_of ''pong'')), d3) \<and> req_idle 0 d3 \<and> rep_idle 0 e2"
proof -
  have c: "pipe_open chan_new chan_new (dl_pipes ex_client 0)" "pp_in_active (dl_pipes ex_client 0)"
      "check_hwm (dl_pipes ex_client 0)"
    unfolding ex_client_pipe using ypipe_rel_new [OF granularity_pos]
    by (simp_all add: pipe_open_def pipepair_def pipe_new_def Let_def check_hwm_def)
  have n: "empty_chan chan_new" by (simp add: empty_chan_def chan_new_def)
  have p: "plain (zmsg_of b)" "\<not> zm_more (zmsg_of b)" for b
    by (simp_all add: plain_def zmsg_of_def zmsg_init_def)
  have "req_idle 0 ex_client" by code_simp
  moreover have "rep_idle 0 ex_server" by code_simp
  moreover have "pp_state (rt_pipes ex_server 0) = Active" by code_simp
  moreover have "pp_out_active (rt_pipes ex_server 0)" by code_simp
  moreover have "pp_out (rt_pipes ex_server 0) \<noteq> None"
  proof -
    have "case pp_out (rt_pipes ex_server 0) of None \<Rightarrow> False | Some _ \<Rightarrow> True" by code_simp
    then show ?thesis by (auto split: option.splits)
  qed
  moreover have "pp_in_active (rt_pipes ex_server 0)" by code_simp
  moreover have "check_hwm (rt_pipes ex_server 0)" by code_simp
  moreover have "fq_pipes (fq_advance 0 ((rt_fq ex_server)\<lparr>fq_more := False\<rparr>)) !
      fq_current (fq_advance 0 ((rt_fq ex_server)\<lparr>fq_more := False\<rparr>)) = 0" by code_simp
  ultimately show ?thesis
    using request_reply [of 0 ex_client 0 ex_server chan_new chan_new "zmsg_of ''ping''" "zmsg_of ''pong''"] c n p
    unfolding rep_idle_def by metis
qed

end
