(* ===== verification/Ipc.thy ===== *)
theory Ipc
  imports ZmqExchange
begin

text \<open>
  The two ends of the local connection: \<open>Apps/Server/Protocols/IPC.h\<close>, which polls a REP socket,
  and the client application (\<open>Apps/Client/IPC.h\<close>, \<open>Logs.cpp\<close>, \<open>ofApp.cpp\<close>), which sends requests
  on a REQ socket. Creating contexts and binding or connecting sockets is the network side of the
  library: whether it succeeds is an argument.
\<close>

section \<open>The server\<close>

text \<open>
  The handler is not called and nothing is answered. The buffer given to \<open>zmq_recv\<close> is the message
  object itself with length zero, so that nothing is written to it: \<open>zmq_msg_data\<close> then points to
  the bytes of an empty message, which nothing has initialised, and the string made from them for
  the log reads up to the first zero among them. The object is a member of the application object,
  whose memory is zero before its members are initialised.
\<close>

record IPCProtocol =
  ipc_uri :: string
  ipc_context :: bool
  ipc_responder :: "rep ticking option"
  ipc_lastSent :: ulonglong
  ipc_timeInterval :: ulonglong

definition IPC_new :: IPCProtocol where
  "IPC_new = \<lparr>ipc_uri = [], ipc_context = False, ipc_responder = None, ipc_lastSent = 0, ipc_timeInterval = 100\<rparr>"

definition IPC_init :: "rep \<Rightarrow> bool \<Rightarrow> string \<Rightarrow> (IPCProtocol, unit) cxx" where
  "IPC_init socket bound uri =
     thenX (modS (\<lambda>p. p\<lparr>ipc_uri := uri, ipc_context := True, ipc_responder := Some (0, socket)\<rparr>)) (
     if bound then ret () else throw AssertFailed)"

definition IPC_recv :: "sock_cmd list \<Rightarrow> sock_cmd list \<Rightarrow> nat \<Rightarrow> (IPCProtocol, (int \<times> string) option) cxx" where
  "IPC_recv early late len = (\<lambda>p.
     case ipc_responder p of
       None \<Rightarrow> (Inr None, p)
     | Some s \<Rightarrow>
         (case zmq_recv rep_class rep_xrecv early late len s of
            (r, s') \<Rightarrow> (r, p\<lparr>ipc_responder := Some s'\<rparr>)))"

definition IPC_update :: "ulonglong \<Rightarrow> sock_cmd list \<Rightarrow> sock_cmd list \<Rightarrow> (IPCProtocol, unit) cxx" where
  "IPC_update now early late =
     bindX (getS id) (\<lambda>p.
     if now - ipc_lastSent p < ipc_timeInterval p then ret () else
     bindX (IPC_recv early late 0) (\<lambda>rc.
     case rc of
       None \<Rightarrow> ret ()
     | Some _ \<Rightarrow>
         bindX (throw (UB UninitialisedRead)) (\<lambda>msgStr :: string.
         modS (\<lambda>p. p\<lparr>ipc_lastSent := now\<rparr>))))"

definition IPC_close :: "IPCProtocol \<Rightarrow> IPCProtocol" where
  "IPC_close p = p\<lparr>ipc_responder := None, ipc_context := False\<rparr>"

section \<open>The log of the client\<close>

record Logs =
  log_messages :: "string list"
  numberOfMessages :: uint

definition DEFAULT_NUMBER_OF_MESSAGES :: uint where
  "DEFAULT_NUMBER_OF_MESSAGES = 10"

definition Logs_new :: Logs where
  "Logs_new = \<lparr>log_messages = [], numberOfMessages = DEFAULT_NUMBER_OF_MESSAGES\<rparr>"

definition Logs_log :: "string \<Rightarrow> Logs \<Rightarrow> Logs" where
  "Logs_log message l =
     (let ms = log_messages l @ [message] in
      l\<lparr>log_messages := (if length ms > unat (numberOfMessages l) then tl ms else ms)\<rparr>)"

definition Logs_forEach :: "(string \<Rightarrow> ('s, unit) cxx) \<Rightarrow> Logs \<Rightarrow> ('s, unit) cxx" where
  "Logs_forEach callback l = forX (log_messages l) callback"

section \<open>The client\<close>

record IPC =
  cl_context :: bool
  cl_requester :: "req ticking option"
  cl_uri :: string
  cl_logs :: Logs
  cl_lastSent :: ulonglong
  cl_timeInterval :: ulonglong

text \<open>As in the server the members start as zero.\<close>

definition Ipc_new :: IPC where
  "Ipc_new = \<lparr>cl_context = False, cl_requester = None, cl_uri = [], cl_logs = Logs_new,
     cl_lastSent = 0, cl_timeInterval = 100\<rparr>"

definition Ipc_isConnected :: "IPC \<Rightarrow> bool" where
  "Ipc_isConnected c \<longleftrightarrow> cl_context c \<and> cl_requester c \<noteq> None"

definition Ipc_log :: "string \<Rightarrow> IPC \<Rightarrow> IPC" where
  "Ipc_log m c = c\<lparr>cl_logs := Logs_log m (cl_logs c)\<rparr>"

definition Ipc_close :: "bool \<Rightarrow> IPC \<Rightarrow> IPC" where
  "Ipc_close forceClose c =
     (if \<not> cl_context c \<and> \<not> forceClose then c
      else (Ipc_log ''Closing connection'' c)\<lparr>cl_requester := None, cl_context := False\<rparr>)"

text \<open>\<open>context\<close> and \<open>socket\<close> are what the library returns, none for a null pointer.\<close>

definition Ipc_connect :: "bool \<Rightarrow> req option \<Rightarrow> string \<Rightarrow> IPC \<Rightarrow> IPC" where
  "Ipc_connect context_ok socket uri c =
     (let c = (if Ipc_isConnected c then Ipc_close True c else c);
          c = Ipc_log (''Connecting IPC socket at '' @ uri) (c\<lparr>cl_uri := uri\<rparr>);
          c = c\<lparr>cl_context := context_ok, cl_requester := map_option (Pair 0) socket\<rparr> in
      Ipc_log (if Ipc_isConnected c then ''Connected'' else ''Connection failed'') c)"

text \<open>\<open>s_send\<close> of \<open>zhelpers.h\<close> sends the characters up to the first zero.\<close>

definition s_send :: "sock_cmd list \<Rightarrow> sock_cmd list list \<Rightarrow> string \<Rightarrow> (req, int) cxx" where
  "s_send cmds waiting str =
     zmq_send req_class req_xsend cmds waiting (takeWhile (\<lambda>c. of_char c \<noteq> (0 :: nat)) str)"

definition Ipc_send :: "(int \<Rightarrow> string) \<Rightarrow> sock_cmd list \<Rightarrow> sock_cmd list list \<Rightarrow> string \<Rightarrow> (IPC, unit) cxx" where
  "Ipc_send to_string cmds waiting message = (\<lambda>c.
     if \<not> Ipc_isConnected c then (Inr (), c) else
     let c = Ipc_log (''Attempt to send message: '' @ message) c in
     case cl_requester c of
       None \<Rightarrow> (Inr (), c)
     | Some d \<Rightarrow>
         (case onSock (s_send cmds waiting message) d of
            (Inl e, d') \<Rightarrow> (Inl e, c\<lparr>cl_requester := Some d'\<rparr>)
          | (Inr n, d') \<Rightarrow>
              (Inr (), Ipc_log (''Sent '' @ to_string n @ '' bytes'') (c\<lparr>cl_requester := Some d'\<rparr>))))"

text \<open>The polling of the client, which its application never calls; it reads the message as the server does.\<close>

definition Ipc_update :: "ulonglong \<Rightarrow> sock_cmd list \<Rightarrow> sock_cmd list \<Rightarrow> (IPC, unit) cxx" where
  "Ipc_update now early late = (\<lambda>c.
     if now - cl_lastSent c < cl_timeInterval c then (Inr (), c) else
     case cl_requester c of
       None \<Rightarrow> (Inr (), c)
     | Some d \<Rightarrow>
         (case zmq_recv req_class req_xrecv early late 0 d of
            (Inl e, d') \<Rightarrow> (Inl e, c\<lparr>cl_requester := Some d'\<rparr>)
          | (Inr None, d') \<Rightarrow> (Inr (), c\<lparr>cl_requester := Some d'\<rparr>)
          | (Inr (Some _), d') \<Rightarrow>
              bindX (throw (UB UninitialisedRead)) (\<lambda>msgStr :: string.
              modS (\<lambda>c. c\<lparr>cl_lastSent := now\<rparr>)) (c\<lparr>cl_requester := Some d'\<rparr>)))"

definition URI :: string where
  "URI = ''ipc:///tmp/arbutus-state''"

definition ipcEnabledChanged :: "bool \<Rightarrow> req option \<Rightarrow> bool \<Rightarrow> IPC \<Rightarrow> IPC" where
  "ipcEnabledChanged context_ok socket value c =
     (if value then Ipc_connect context_ok socket URI c else Ipc_close False c)"

text \<open>The button sends the request that asks for a pong.\<close>

definition handlePingButton :: "(int \<Rightarrow> string) \<Rightarrow> string \<Rightarrow> sock_cmd list \<Rightarrow> sock_cmd list list \<Rightarrow> (IPC, unit) cxx" where
  "handlePingButton to_string ping cmds waiting = Ipc_send to_string cmds waiting ping"

section \<open>The server takes one request\<close>

text \<open>A sequence of calls that receive, each with the commands in the mailbox.\<close>

definition rep_recvs :: "(sock_cmd list \<times> sock_cmd list) list \<Rightarrow> rep ticking \<Rightarrow> rep ticking" where
  "rep_recvs calls s = fold (\<lambda>(early, late) s. snd (socket_recv rep_class rep_xrecv early late s)) calls s"

lemma rep_recvs_sending: "rp_sending_reply (snd s) \<Longrightarrow> rp_sending_reply (snd (rep_recvs calls s))"
proof (induction calls arbitrary: s)
  case Nil
  then show ?case by (simp add: rep_recvs_def)
next
  case (Cons c calls)
  obtain early late where c: "c = (early, late)" by fastforce
  have "rp_sending_reply (snd (snd (socket_recv rep_class rep_xrecv early late s)))"
    using rep_recv_sending [of "snd s" early late "fst s"] Cons.prems by (auto split: prod.splits)
  from Cons.IH [OF this] show ?case by (simp add: rep_recvs_def c)
qed

text \<open>
  C18. What a poll of the server does when its interval is over. It passes on a failure of the
  commands it processes, returns when no message is there, and reads uninitialised memory when one
  is: no message is ever logged for sure. The message has then left the socket, and after the last
  part of a request no later call receives anything, whatever the peers send and however many of
  them connect, because nothing ever sends the reply.
\<close>

theorem ipc_one_request:
  assumes "ipc_responder p = Some (t, d)" "ipc_timeInterval p \<le> now - ipc_lastSent p"
    and "socket_recv rep_class rep_xrecv early late (t, d) = (r, (t', d'))"
  shows "IPC_update now early late p =
      (case r of Inl e \<Rightarrow> Inl e | Inr (Inl _) \<Rightarrow> Inr () | Inr (Inr _) \<Rightarrow> Inl (UB UninitialisedRead),
       p\<lparr>ipc_responder := Some (t', d')\<rparr>) \<and>
    (\<forall>m calls early late m'. r = Inr (Inr m) \<and> \<not> zm_more m \<longrightarrow>
      fst (socket_recv rep_class rep_xrecv early late (rep_recvs calls (t', d'))) \<noteq> Inr (Inr m'))"
proof (intro conjI allI impI)
  show "IPC_update now early late p =
      (case r of Inl e \<Rightarrow> Inl e | Inr (Inl _) \<Rightarrow> Inr () | Inr (Inr _) \<Rightarrow> Inl (UB UninitialisedRead),
       p\<lparr>ipc_responder := Some (t', d')\<rparr>)"
    using assms by (auto simp: IPC_update_def IPC_recv_def zmq_recv_def bindX_def split: sum.splits)
next
  fix m calls early' late' m'
  assume m: "r = Inr (Inr m) \<and> \<not> zm_more m"
  have "rp_sending_reply d'"
    using returnsD [OF rep_socket_recv_last_part, of early late "(t, d)" "Inr m" "(t', d')"] assms(3) m by simp
  then have "rp_sending_reply (snd (rep_recvs calls (t', d')))" by (intro rep_recvs_sending) simp
  from rep_recv_sending [OF this, of early' late' "fst (rep_recvs calls (t', d'))"]
  show "fst (socket_recv rep_class rep_xrecv early' late' (rep_recvs calls (t', d'))) \<noteq> Inr (Inr m')"
    by (auto split: prod.splits)
qed

text \<open>A connection on which a request has arrived.\<close>

definition ex_request_pipe :: "zmsg list \<Rightarrow> pipe" where
  "ex_request_pipe ms =
     (let p = fst (pipepair 1000 1000) in
      p\<lparr>pp_in := snd (ypipe_flush (fold (\<lambda>m q. ypipe_write granularity m (zm_more m) q) ms (pp_in p)))\<rparr>)"

definition ex_ping :: "zmsg list" where
  "ex_ping = [zmsg_init\<lparr>zm_routing_id := True\<rparr>, with_more zmsg_init, zmsg_of ''ping'']"

lemma ex_server_receives:
  "\<exists>m t d. socket_recv rep_class rep_xrecv [] [Attach 0 (ex_request_pipe ex_ping) False] (0, rep_new 7) =
     (Inr (Inr m), (t, d)) \<and> \<not> zm_more m"
proof -
  let ?r = "socket_recv rep_class rep_xrecv [] [Attach 0 (ex_request_pipe ex_ping) False] (0, rep_new 7)"
  have "case fst ?r of Inr (Inr m) \<Rightarrow> \<not> zm_more m | _ \<Rightarrow> False" by code_simp
  then show ?thesis by (cases ?r) (auto split: sum.splits)
qed

theorem ipc_one_request_witness:
  "let p = IPC_new\<lparr>ipc_responder := Some (0, rep_new 7)\<rparr>; request = Attach 0 (ex_request_pipe ex_ping) False in
   \<exists>p' s. IPC_update 100 [] [request] p = (Inl (UB UninitialisedRead), p') \<and> ipc_responder p' = Some s \<and>
     (\<forall>m. fst (socket_recv rep_class rep_xrecv [] [Attach 1 (ex_request_pipe ex_ping) False]
        (rep_recvs [([], []), ([], [])] s)) \<noteq> Inr (Inr m))"
proof -
  let ?p = "IPC_new\<lparr>ipc_responder := Some (0, rep_new 7)\<rparr>"
  obtain m t d where r: "socket_recv rep_class rep_xrecv [] [Attach 0 (ex_request_pipe ex_ping) False] (0, rep_new 7) =
     (Inr (Inr m), (t, d))" "\<not> zm_more m" using ex_server_receives by blast
  have "ipc_responder ?p = Some (0, rep_new 7)" "ipc_timeInterval ?p \<le> 100 - ipc_lastSent ?p"
    by (simp_all add: IPC_new_def)
  from ipc_one_request [OF this r(1)] r(2) show ?thesis by (auto simp: Let_def)
qed

section \<open>The client sends one request\<close>

text \<open>The part of the object that tells whether replies are waited for strictly is never written.\<close>

abbreviation strict :: "req \<Rightarrow> bool" where
  "strict \<equiv> rq_strict"

lemma preserves_onFq: "(\<And>d f ps. P (d\<lparr>dl_fq := f, dl_pipes := ps\<rparr>) = P d) \<Longrightarrow> preserves P (onFq m)"
  by (auto simp: preserves_def onFq_def split: prod.splits)

lemma preserves_onLb: "(\<And>d f ps. P (d\<lparr>dl_lb := f, dl_pipes := ps\<rparr>) = P d) \<Longrightarrow> preserves P (onLb m)"
  by (auto simp: preserves_def onLb_def split: prod.splits)

lemma keeps_strict_sendpipe: "preserves strict (dealer_sendpipe m)"
  unfolding dealer_sendpipe_def by (rule preserves_onLb) simp

lemma keeps_strict_recv: "preserves strict dealer_xrecv"
  unfolding dealer_xrecv_def dealer_recvpipe_def by (intro preserves_intros preserves_onFq) simp

lemma keeps_strict_drop_loop: "drop_loop d = Some x \<Longrightarrow> strict d \<longrightarrow> strict (snd x)"
  by (rule drop_loop.raw_induct [where P = "\<lambda>d x. strict d \<longrightarrow> strict (snd x)"])
    (auto split: prod.splits sum.splits option.splits dest: preservesD [OF keeps_strict_recv])

lemma keeps_strict_req_sendpipe: "preserves strict (req_sendpipe m)"
  unfolding req_sendpipe_def
  by (auto intro!: preserves_intros keeps_strict_sendpipe preserves_modS split: send_result.split option.split)

lemma keeps_strict_begin: "preserves strict begin_request"
proof -
  have d: "preserves strict (loopX drop_loop)"
    by (auto simp: preserves_def loopX_def split: option.splits dest!: keeps_strict_drop_loop)
  show ?thesis
    unfolding begin_request_def
    by (intro preserves_intros preserves_modS keeps_strict_req_sendpipe d) simp_all
qed

lemma req_xsend_waits:
  assumes "req_xsend msg d = (Inr None, d')" "strict d" "\<not> zm_more msg"
  shows "req_waits d'"
proof -
  have r: "returns (\<lambda>r d. r = None \<longrightarrow> rq_receiving_reply d) (req_xsend msg)"
    unfolding req_xsend_def using assms(3)
    by (simp only: if_False, intro returns_bindX returns_after_modS returns_thenX returns_if returns_ret) auto
  have s: "preserves strict (req_xsend msg)"
    unfolding req_xsend_def dealer_xsend_def
    by (intro preserves_intros preserves_modS keeps_strict_begin keeps_strict_sendpipe) simp_all
  show ?thesis
    using returnsD [OF r assms(1)] preservesD [OF s assms(2,1)] by (simp add: req_waits_def)
qed

lemma req_xsend_refused: "req_waits d \<Longrightarrow> req_xsend msg d = (Inr (Some EFSM), d)"
  by (simp add: req_xsend_def req_waits_def)

lemma s_send_refused:
  assumes "req_waits d" "process_commands req_class cmds d = (Inr (), d')"
  shows "s_send cmds waiting str d = (Inr (- 1), d')"
  using req_xsend_refused [OF waiting.after_commands [OF assms]] assms(2)
  by (simp add: s_send_def zmq_send_def socket_send_def Let_def)

lemma last_logged [simp]:
  "0 < numberOfMessages l \<Longrightarrow> last (log_messages (Logs_log m l)) = m"
  "numberOfMessages (Logs_log m l) = numberOfMessages l"
proof -
  assume "0 < numberOfMessages l"
  then have "0 < unat (numberOfMessages l)" by (simp add: unat_gt_0 word_gt_0)
  then show "last (log_messages (Logs_log m l)) = m"
    by (cases "log_messages l") (auto simp: Logs_log_def Let_def)
qed (simp add: Logs_log_def Let_def)

text \<open>A sequence of presses, each with the commands in the mailbox and those a blocked call waits for.\<close>

definition presses ::
  "(int \<Rightarrow> string) \<Rightarrow> string \<Rightarrow> (sock_cmd list \<times> sock_cmd list list) list \<Rightarrow> (IPC, unit) cxx" where
  "presses to_string ping calls = forX calls (\<lambda>(cmds, waiting). handlePingButton to_string ping cmds waiting)"

text \<open>The commands of the presses, processed one list after the other.\<close>

definition all_commands :: "(sock_cmd list \<times> sock_cmd list list) list \<Rightarrow> (req, unit) cxx" where
  "all_commands calls = forX calls (\<lambda>(cmds, waiting). process_commands req_class cmds)"

text \<open>What a press writes to the log when nothing was sent.\<close>

definition refused_log :: "(int \<Rightarrow> string) \<Rightarrow> string \<Rightarrow> Logs \<Rightarrow> Logs" where
  "refused_log to_string ping l =
     Logs_log (''Sent '' @ to_string (- 1) @ '' bytes'') (Logs_log (''Attempt to send message: '' @ ping) l)"

lemma press_waiting:
  assumes "cl_context c" "cl_requester c = Some (t, d)" "req_waits d"
    and "process_commands req_class cmds d = (Inr (), d')"
  shows "handlePingButton to_string ping cmds waiting c =
    (Inr (), c\<lparr>cl_requester := Some (t, d'), cl_logs := refused_log to_string ping (cl_logs c)\<rparr>)"
  using s_send_refused [OF assms(3,4)] assms(1,2)
  by (simp add: handlePingButton_def Ipc_send_def Ipc_isConnected_def Ipc_log_def onSock_def Let_def
      refused_log_def)

lemma presses_waiting:
  assumes "cl_context c" "cl_requester c = Some (t, d)" "req_waits d" "all_commands calls d = (Inr (), d')"
  shows "presses to_string ping calls c =
      (Inr (), c\<lparr>cl_requester := Some (t, d'),
         cl_logs := (refused_log to_string ping ^^ length calls) (cl_logs c)\<rparr>) \<and> req_waits d'"
  using assms
proof (induction calls arbitrary: c d)
  case Nil
  then show ?case by (cases c) (simp add: presses_def all_commands_def)
next
  case (Cons x calls)
  obtain cmds waiting where x: "x = (cmds, waiting)" by fastforce
  obtain d1 where d1: "process_commands req_class cmds d = (Inr (), d1)" "all_commands calls d1 = (Inr (), d')"
    using Cons.prems(4) by (auto simp: all_commands_def x thenX_eq_Inr)
  let ?c = "c\<lparr>cl_requester := Some (t, d1), cl_logs := refused_log to_string ping (cl_logs c)\<rparr>"
  have "req_waits d1" by (rule waiting.after_commands [OF Cons.prems(3) d1(1)])
  then have "presses to_string ping calls ?c =
      (Inr (), ?c\<lparr>cl_requester := Some (t, d'),
         cl_logs := (refused_log to_string ping ^^ length calls) (cl_logs ?c)\<rparr>) \<and> req_waits d'"
    using Cons.prems(1) d1(2) by (intro Cons.IH) simp_all
  with press_waiting [OF Cons.prems(1-3) d1(1)] show ?case
    by (simp add: presses_def x funpow_swap1)
qed

text \<open>
  C40. The client sends one request per connection: a request that has been sent leaves the socket
  waiting, and then any number of presses of the button, as long as the commands that arrive in
  between are processed without a failure, send nothing: each is logged as minus one bytes, and the
  socket refuses whatever is sent next. The client never receives, and a REQ socket does not send
  before it has got its reply.
\<close>

theorem client_one_ping:
  assumes "cl_context c" "cl_requester c = Some (t, d)"
    and "rq_strict d0" "\<not> zm_more first" "req_xsend first d0 = (Inr None, d)"
    and "all_commands calls d = (Inr (), d')"
  shows "presses to_string ping calls c =
      (Inr (), c\<lparr>cl_requester := Some (t, d'),
         cl_logs := (refused_log to_string ping ^^ length calls) (cl_logs c)\<rparr>) \<and>
    req_xsend msg d' = (Inr (Some EFSM), d')"
  using presses_waiting [OF assms(1,2) req_xsend_waits [OF assms(5,3,4)] assms(6)] req_xsend_refused by simp

lemma ex_client_sends: "\<exists>d. req_xsend (zmsg_of ''ping'') ex_client = (Inr None, d)"
proof -
  have "case fst (req_xsend (zmsg_of ''ping'') ex_client) of Inr None \<Rightarrow> True | _ \<Rightarrow> False" by code_simp
  then show ?thesis by (cases "req_xsend (zmsg_of ''ping'') ex_client") (auto split: sum.splits option.splits)
qed

theorem client_one_ping_witness:
  "\<exists>c c'. presses (\<lambda>n. if n < 0 then ''minus one'' else ''some'') ''ping''
       [([], []), ([Attach 5 (fst (pipepair 1000 1000)) False], []), ([], [])] c = (Inr (), c') \<and>
     log_messages (cl_logs c') = concat (replicate 3 [''Attempt to send message: ping'', ''Sent minus one bytes''])"
proof -
  obtain d where d: "req_xsend (zmsg_of ''ping'') ex_client = (Inr None, d)" using ex_client_sends by blast
  let ?calls = "[([], []), ([Attach 5 (fst (pipepair 1000 1000)) False], []), ([], [])]"
  let ?c = "Ipc_new\<lparr>cl_context := True, cl_requester := Some (0, d)\<rparr>"
  have "rq_strict ex_client" by code_simp
  moreover have "\<not> zm_more (zmsg_of ''ping'')" by (simp add: zmsg_of_def zmsg_init_def)
  moreover obtain d' where "all_commands ?calls d = (Inr (), d')"
  proof -
    have "case req_xsend (zmsg_of ''ping'') ex_client of
        (_, d) \<Rightarrow> (case fst (all_commands ?calls d) of Inr _ \<Rightarrow> True | _ \<Rightarrow> False)" by code_simp
    then show ?thesis using d that by (cases "all_commands ?calls d") (auto split: sum.splits)
  qed
  ultimately have "presses (\<lambda>n. if n < 0 then ''minus one'' else ''some'') ''ping'' ?calls ?c =
      (Inr (), ?c\<lparr>cl_requester := Some (0, d'),
         cl_logs := (refused_log (\<lambda>n. if n < 0 then ''minus one'' else ''some'') ''ping'' ^^ 3) (cl_logs ?c)\<rparr>)"
    using client_one_ping [of ?c 0 d ex_client "zmsg_of ''ping''" ?calls d'] d by (simp add: numeral_3_eq_3)
  moreover have "log_messages ((refused_log (\<lambda>n. if n < 0 then ''minus one'' else ''some'') ''ping'' ^^ 3) Logs_new) =
      concat (replicate 3 [''Attempt to send message: ping'', ''Sent minus one bytes''])" by code_simp
  moreover have "cl_logs ?c = Logs_new" by (simp add: Ipc_new_def)
  ultimately show ?thesis by - (rule exI [of _ ?c], simp)
qed

text \<open>
  The log of the client holds the last ten messages in their order.
\<close>

theorem logs_keep_last_ten:
  "log_messages (fold Logs_log ms Logs_new) = drop (length ms - 10) ms"
proof (induction ms rule: rev_induct)
  case Nil
  then show ?case by (simp add: Logs_new_def)
next
  case (snoc m ms)
  have n: "numberOfMessages (fold Logs_log ms Logs_new) = 10"
    by (induction ms rule: rev_induct) (simp_all add: Logs_new_def DEFAULT_NUMBER_OF_MESSAGES_def)
  have "tl (drop (length ms - 10) ms @ [m]) = drop (Suc (length ms) - 10) (ms @ [m])" if "10 \<le> length ms"
  proof -
    have "length ms - 9 = Suc (length ms - 10)" using that by simp
    then show ?thesis using that by (simp add: drop_Suc tl_drop)
  qed
  moreover have "log_messages (Logs_log m l) =
      (if 10 \<le> length (log_messages l) then tl (log_messages l @ [m]) else log_messages l @ [m])"
    if "numberOfMessages l = 10" for l
    using that by (auto simp: Logs_log_def Let_def)
  ultimately show ?case using snoc n by auto
qed

end
