(* ===== verification/ServerApp.thy ===== *)
theory ServerApp
  imports Messages TcpServer Ipc
begin

text \<open>
  The server application: \<open>Protocols/TCP.h\<close>, and \<open>Protocols/IPC.h\<close> of theory \<open>Ipc\<close>, are polled
  once per frame, and \<open>ofApp\<close> opens the first set and puts the frame together. The accepting thread of the TCP
  server runs between two polls.
\<close>

section \<open>The TCP server\<close>

record TCPProtocol =
  tcp_port :: sint32
  TCP :: ofxTCPServer
  tcp_delimiter :: string
  tcp_lastSent :: ulonglong
  tcp_timeInterval :: ulonglong

definition TCP_init :: "'o os_api \<Rightarrow> sint32 \<Rightarrow> (TCPProtocol \<times> 'o, unit) cxx" where
  "TCP_init K port =
     (\<lambda>(p, k).
        case Server_setup K (ofxTCPSettings_new [] port) (TCP p, k) of
          (Inl e, (v, k)) \<Rightarrow> (Inl e, (p\<lparr>tcp_port := port, TCP := v\<rparr>, k))
        | (Inr _, (v, k)) \<Rightarrow>
            (Inr (), (p\<lparr>tcp_port := port, TCP := setMessageDelimiter (tcp_delimiter p) v,
                        tcp_lastSent := 0\<rparr>, k)))"

text \<open>\<open>catch (std::exception &e)\<close>\<close>

definition catchStd :: "('s, 'a) cxx \<Rightarrow> (string \<Rightarrow> ('s, 'a) cxx) \<Rightarrow> ('s, 'a) cxx" where
  "catchStd m h = (\<lambda>s. case m s of (Inl (StdException w), s') \<Rightarrow> h w s' | r \<Rightarrow> r)"

definition failure_response :: "'j json_api \<Rightarrow> string \<Rightarrow> 'j" where
  "failure_response J w =
     j_obj J [(''success'', j_bool J False), (''message'', j_string J w), (''data'', j_braces J)]"

text \<open>The answer to one text; none for a value that is not an object (\<open>continue\<close>).\<close>

definition TCP_answer ::
  "'j json_api \<Rightarrow> ('j \<Rightarrow> ('s, 'j) cxx) \<Rightarrow> string \<Rightarrow> ('s, 'j option) cxx" where
  "TCP_answer J handler str =
     catchStd
       (bindX (liftR (j_parse J str)) (\<lambda>jsonRequest.
        if \<not> is_object J jsonRequest then ret None
        else bindX (handler jsonRequest) (\<lambda>r. ret (Some r))))
       (\<lambda>w. ret (Some (failure_response J w)))"

text \<open>A step on the network, and a step on what the handler works on.\<close>

definition onNet :: "('n, 'a) cxx \<Rightarrow> ('n \<times> 's, 'a) cxx" where
  "onNet m = (\<lambda>(n, s). case m n of (r, n') \<Rightarrow> (r, (n', s)))"

definition onApp :: "('s, 'a) cxx \<Rightarrow> ('n \<times> 's, 'a) cxx" where
  "onApp m = (\<lambda>(n, s). case m s of (r, s') \<Rightarrow> (r, (n, s')))"

lemma onNet_run [simp]: "m n = (r, n') \<Longrightarrow> onNet m (n, s) = (r, (n', s))"
  by (simp add: onNet_def)

lemma onApp_run [simp]: "m s = (r, s') \<Longrightarrow> onApp m (n, s) = (r, (n, s'))"
  by (simp add: onApp_def)

text \<open>The turn of one client.\<close>

definition TCP_client ::
  "'o os_api \<Rightarrow> 'j json_api \<Rightarrow> (int \<Rightarrow> string) \<Rightarrow> ('j \<Rightarrow> ('s, 'j) cxx) \<Rightarrow> int \<Rightarrow> ('o srv \<times> 's, unit) cxx" where
  "TCP_client K J toString handler i =
     bindX (onNet (isClientConnected K i)) (\<lambda>up.
     if \<not> up then ret () else
     bindX (onNet (Server_receive K toString i)) (\<lambda>str.
     if str = [] then ret () else
     bindX (onApp (TCP_answer J handler str)) (\<lambda>response.
     case response of
       None \<Rightarrow> ret ()
     | Some r \<Rightarrow> bindX (onNet (Server_send K i (j_dump J (- 1) r))) (\<lambda>_. ret ()))))"

definition TCP_update ::
  "'o os_api \<Rightarrow> 'j json_api \<Rightarrow> (int \<Rightarrow> string) \<Rightarrow> ulonglong \<Rightarrow> ('j \<Rightarrow> ('s, 'j) cxx) \<Rightarrow>
   ((TCPProtocol \<times> 'o) \<times> 's, unit) cxx" where
  "TCP_update K J toString now handler =
     (\<lambda>((p, k), s).
        if now - tcp_lastSent p < tcp_timeInterval p then (Inr (), ((p, k), s)) else
        case forX (map int [0..<nat (getLastID (TCP p))]) (TCP_client K J toString handler) ((TCP p, k), s) of
          (Inl e, ((v, k), s)) \<Rightarrow> (Inl e, ((p\<lparr>TCP := v\<rparr>, k), s))
        | (Inr (), ((v, k), s)) \<Rightarrow> (Inr (), ((p\<lparr>TCP := v, tcp_lastSent := now\<rparr>, k), s)))"

section \<open>The application\<close>

text \<open>\<open>catch (string &exception)\<close>: the exception is logged.\<close>

definition catchString :: "('s, unit) cxx \<Rightarrow> ('s, unit) cxx" where
  "catchString m = (\<lambda>s. case m s of (Inl (ThrowString w), s') \<Rightarrow> (Inr (), s') | r \<Rightarrow> r)"

definition play_request :: "'j json_api \<Rightarrow> sint32 \<Rightarrow> sint32 \<Rightarrow> 'j" where
  "play_request J layer column =
     j_obj J [(''layer'', j_int J layer), (''column'', j_int J column)]"

definition setupTestSet ::
  "of_api \<Rightarrow> 'j json_api \<Rightarrow> 'v player_api \<Rightarrow> ulonglong \<Rightarrow> string \<Rightarrow> ('v Store, unit) cxx" where
  "setupTestSet F J V now exeDir =
     thenX (catchString (dropX (Engine_openSet F J V (exeDir @ ''../Resources/set.json'')))) (
     thenX (Set_setCurrentScene F V now 0) (
     thenX (Engine_play F J V now (play_request J 0 0)) (
     Engine_play F J V now (play_request J 1 0))))"

definition initEngine ::
  "of_api \<Rightarrow> 'j json_api \<Rightarrow> 'v player_api \<Rightarrow> ulonglong \<Rightarrow> string \<Rightarrow> ('v Store, unit) cxx" where
  "initEngine F J V now exeDir = thenX (Engine_new F V) (setupTestSet F J V now exeDir)"

record ('v, 'o) App =
  app_tcp :: TCPProtocol
  app_ipc :: IPCProtocol
  app_store :: "'v Store"
  app_kernel :: 'o

definition App_update ::
  "of_api \<Rightarrow> 'j json_api \<Rightarrow> 'v player_api \<Rightarrow> 'o os_api \<Rightarrow> ulonglong \<Rightarrow>
   sock_cmd list \<Rightarrow> sock_cmd list \<Rightarrow> (('v, 'o) App, unit) cxx" where
  "App_update F J V K now early late =
     thenX (\<lambda>x. case TCP_update K J (ofToString_int F) now (handleJSONRequestForClient F J V)
                       ((app_tcp x, app_kernel x), app_store x) of
                (r, ((p, k), s)) \<Rightarrow> (r, x\<lparr>app_tcp := p, app_kernel := k, app_store := s\<rparr>)) (
     thenX (\<lambda>x. case IPC_update now early late (app_ipc x) of (r, p) \<Rightarrow> (r, x\<lparr>app_ipc := p\<rparr>)) (
     \<lambda>x. case bindX (getE (\<lambda>_. ())) (\<lambda>_. Engine_render F V now) (app_store x) of
            (r, s) \<Rightarrow> (r, x\<lparr>app_store := s\<rparr>)))"

section \<open>Properties\<close>

text \<open>
  C36. What becomes of the texts a client can send that are not one of the supported requests: a
  text that is not JSON and an object without a text as its action are answered with a failure
  that carries the message; a value that is not an object is passed over; an action that is not
  supported is thrown as a pointer, which the handler of the server does not catch. In all four
  cases the engine is as before.
\<close>

theorem bad_requests:
  assumes "json_doc J"
    and "known = {''ping'', ''getState'', ''setState'', ''getFullState'', ''setLayerControl'', ''updateState''}"
  shows "(j_parse J text = Inl (StdException w) \<longrightarrow>
      TCP_answer J (handleJSONRequestForClient F J V) text s = (Inr (Some (failure_response J w)), s)) \<and>
    (j_parse J text = Inr req \<and> \<not> is_object J req \<longrightarrow>
      TCP_answer J (handleJSONRequestForClient F J V) text s = (Inr None, s)) \<and>
    (j_parse J text = Inr req \<and> is_object J req \<and> j_at J req ''action'' = Inr a \<and> \<not> is_string J a \<longrightarrow>
      TCP_answer J (handleJSONRequestForClient F J V) text s =
        (Inr (Some (failure_response J ''No action defined'')), s)) \<and>
    (j_parse J text = Inr req \<and> is_object J req \<and> j_at J req ''action'' = Inr (j_string J act) \<and>
      str2int act \<notin> str2int ` known \<longrightarrow>
      TCP_answer J (handleJSONRequestForClient F J V) text s =
        (Inl (ThrowPointer ''Action not supported''), s))"
proof -
  have k: "str2int ` known = {str2int ''ping'', str2int ''getState'', str2int ''setState'',
      str2int ''getFullState'', str2int ''setLayerControl'', str2int ''updateState''}"
    unfolding assms(2) by simp
  show ?thesis
    unfolding k TCP_answer_def catchStd_def handleJSONRequestForClient_def
    using assms(1) by (auto simp: Let_def bindX_def)
qed

lemma quit_hash: "str2int ''quit'' = 2087960828"
  by (simp add: str2int.simps char_to_uint_def)

lemma quit_unknown:
  "str2int ''quit'' \<notin> str2int ` {''ping'', ''getState'', ''setState'', ''getFullState'', ''setLayerControl'', ''updateState''}"
  by (simp only: image_insert image_empty insert_iff empty_iff label_hash quit_hash) simp

theorem bad_requests_witness:
  "let J = ex_J\<lparr>j_parse := (\<lambda>t. Inr (JObj [(''action'', JStr t)]))\<rparr>; s = ex_layers 2 in
   TCP_answer J (handleJSONRequestForClient ex_F J ex_V) ''quit'' s =
     (Inl (ThrowPointer ''Action not supported''), s)"
proof -
  let ?J = "ex_J\<lparr>j_parse := (\<lambda>t. Inr (JObj [(''action'', JStr t)]))\<rparr>"
  have "json_doc ?J" by (simp add: json_doc_parse)
  from bad_requests [OF this refl, of "''quit''" _ ex_F ex_V "ex_layers 2" "JObj [(''action'', JStr ''quit'')]" _ "''quit''"]
  show ?thesis using quit_unknown by (simp add: Let_def)
qed

text \<open>
  C37. The server that finds no set file beside its executable does not start: the exception is a
  literal and the \<open>catch\<close> around the call is for a \<open>std::string\<close>.
\<close>

theorem missing_set_stops_startup:
  assumes "s_engine s = None" "\<not> loaded (s_set s)"
    and "s_files s (exeDir @ ''../Resources/set.json'') = None"
  shows "\<exists>s'. initEngine F J V now exeDir s = (Inl (ThrowLiteral ''File does not exist''), s') \<and>
    s_layers s' = [] \<and> s_engine s' \<noteq> None"
proof -
  note open_defs = setupTestSet_def catchString_def Engine_openSet_def Engine_destroyBuffer_def Engine_closeSet_def
    Set_openSet_def SetFile_load_def JsonLoad_load_def Layers_empty_def
  show ?thesis
    using assms by (simp add: initEngine_def Engine_new_run open_defs dropX_def bindX_def thenX_def)
qed

theorem missing_set_stops_startup_witness:
  "\<exists>s'. initEngine ex_F ex_J ex_V 0 ''/app/'' (Store_init :: ex_player Store) =
     (Inl (ThrowLiteral ''File does not exist''), s')"
  using missing_set_stops_startup [of "Store_init :: ex_player Store" "''/app/''" ex_F ex_J ex_V 0]
  by (auto simp: Store_init_def)

end
