(* ===== verification/Inputs.thy ===== *)
theory Inputs
  imports Prelude
begin

text \<open>
  \<open>Inputs/Midi\<close> and \<open>Inputs/Osc\<close>: the objects behind the MIDI and OSC ports, the two global
  pointers to them, and the functions of the engine that change a port (\<open>Engine.mm\<close>).

  The addons \<open>ofxMidi\<close> and \<open>ofxOsc\<close> are outside the repository. Of a MIDI message the record
  \<open>ofxMidiMessage\<close> has the members the code reads; opening a port is a function that tells
  whether it succeeds. A receiver of OSC messages and a message are type parameters with the
  functions of \<open>osc_api\<close>. Objects made with \<open>new\<close> have addresses, which are never used twice, so
  that a pointer to a deleted object is dangling.
\<close>

section \<open>Text made with sprintf\<close>

fun dec :: "nat \<Rightarrow> string" where
  "dec n = (if n < 10 then [char_of (48 + n)] else dec (n div 10) @ [char_of (48 + n mod 10)])"

declare dec.simps [simp del]

definition int_dec :: "sint32 \<Rightarrow> string" where
  "int_dec w = (if sint w < 0 then CHR ''-'' # dec (nat (- sint w)) else dec (nat (sint w)))"

text \<open>A \<open>std::string\<close> ends at its first zero when it is read through \<open>c_str\<close>.\<close>

definition c_str :: "string \<Rightarrow> string" where
  "c_str s = takeWhile (\<lambda>c. c \<noteq> CHR 0x00) s"

text \<open>\<open>sprintf\<close> writes the text and a zero behind it, without regard to the size of the array.\<close>

definition sprintf :: "nat \<Rightarrow> string \<Rightarrow> string res" where
  "sprintf n t = (if length t < n then Inr t else Inl (UB OutOfBounds))"

lemma dec_length: "0 < k \<Longrightarrow> n < 10 ^ k \<Longrightarrow> length (dec n) \<le> k"
proof (induction k arbitrary: n)
  case (Suc k)
  show ?case
  proof (cases "n < 10")
    case False
    with Suc.prems have "0 < k" "n div 10 < 10 ^ k"
      by (auto intro: gr0I)
    from Suc.IH [OF this] False show ?thesis
      by (subst dec.simps) simp
  qed (subst dec.simps, simp)
qed simp

lemma int_dec_length: "length (int_dec w) \<le> 11"
proof -
  have "- (2 ^ 31) \<le> sint w" "sint w < 2 ^ 31"
    using sint_greater_eq [of w] sint_less [of w] by simp_all
  then have "nat (- sint w) < 10 ^ 10" "nat (sint w) < 10 ^ 10"
    by simp_all
  then have "length (dec (nat (- sint w))) \<le> 10" "length (dec (nat (sint w))) \<le> 10"
    by (auto intro!: dec_length)
  then show ?thesis
    by (simp add: int_dec_def)
qed

section \<open>MIDI messages\<close>

record ofxMidiMessage =
  mm_status :: sint32
  mm_channel :: sint32
  mm_control :: sint32
  mm_bytes :: "8 word list"

definition keyNames :: "string list" where
  "keyNames = [
    ''C-2'', ''C#-2'', ''D-2'', ''D#-2'', ''E-2'', ''F-2'', ''F#-2'', ''G-2'', ''G#-2'', ''A-2'', ''A#-2'', ''B-2'',
    ''C-1'', ''C#-1'', ''D-1'', ''D#-1'', ''E-1'', ''F-1'', ''F#-1'', ''G-1'', ''G#-1'', ''A-1'', ''A#-1'', ''B-1'',
    ''C0'', ''C#0'', ''D0'', ''D#0'', ''E0'', ''F0'', ''F#0'', ''G0'', ''G#0'', ''A0'', ''A#0'', ''B0'',
    ''C1'', ''C#1'', ''D1'', ''D#1'', ''E1'', ''F1'', ''F#1'', ''G1'', ''G#1'', ''A1'', ''A#1'', ''B1'',
    ''C2'', ''C#2'', ''D2'', ''D#2'', ''E2'', ''F2'', ''F#2'', ''G2'', ''G#2'', ''A2'', ''A#2'', ''B2'',
    ''C3'', ''C#3'', ''D3'', ''D#3'', ''E3'', ''F3'', ''F#3'', ''G3'', ''G#3'', ''A3'', ''A#3'', ''B3'',
    ''C4'', ''C#4'', ''D4'', ''D#4'', ''E4'', ''F4'', ''F#4'', ''G4'', ''G#4'', ''A4'', ''A#4'', ''B4'',
    ''C5'', ''C#5'', ''D5'', ''D#5'', ''E5'', ''F5'', ''F#5'', ''G5'', ''G#5'', ''A5'', ''A#5'', ''B5'',
    ''C6'', ''C#6'', ''D6'', ''D#6'', ''E6'', ''F6'', ''F#6'', ''G6'', ''G#6'', ''A6'', ''A#6'', ''B6'',
    ''C7'', ''C#7'', ''D7'', ''D#7'', ''E7'', ''F7'', ''F#7'', ''G7'', ''G#7'', ''A7'', ''A#7'', ''B'',
    ''C8'', ''C#8'', ''D8'', ''D#8'', ''E8'', ''F8'', ''F#8'', ''G8'', ''G#8'', ''A8'', ''A#8'', ''B8'']"

text \<open>
  The object of class \<open>Midi\<close>: whether its input is open and calls it, its port, the last message
  and the name of the last control.
\<close>

record Midi =
  midiIn_open :: bool
  midiIn_listens :: bool
  midi_port :: sint32
  midi_message :: "ofxMidiMessage option"
  midi_val :: string

text \<open>
  \<open>print\<close> reads the second byte; what it writes to the console is not kept. Before the first
  message there is a message made by its default constructor, which \<open>print\<close> is never called on.
\<close>

definition Midi_print :: "(Midi, unit) cxx" where
  "Midi_print =
     bindX (getS midi_message) (\<lambda>m.
     case m of
       None \<Rightarrow> throw (UB UninitialisedRead)
     | Some msg \<Rightarrow> if length (mm_bytes msg) < 2 then throw (UB OutOfBounds) else ret ())"

definition newMidiMessage :: "ofxMidiMessage \<Rightarrow> (Midi, unit) cxx" where
  "newMidiMessage msg =
     thenX (modS (\<lambda>m. m\<lparr>midi_message := Some msg\<rparr>)) (
     thenX Midi_print (
     thenX (whenX (mm_status msg = 144)
              (case nth_opt (mm_bytes msg) 1 of
                 None \<Rightarrow> throw (UB OutOfBounds)
               | Some b \<Rightarrow>
                   (case nth_opt keyNames (unat b) of
                      None \<Rightarrow> throw (UB OutOfBounds)
                    | Some n \<Rightarrow> modS (\<lambda>m. m\<lparr>midi_val := n\<rparr>)))) (
     whenX (mm_status msg = 176)
       (modS (\<lambda>m. m\<lparr>midi_val := ''code '' @ int_dec (mm_control msg)\<rparr>)))))"

text \<open>
  \<open>keyName\<close> asserts that its argument is below the size of the table in bytes (132 strings of
  \<open>sizeof_string\<close> bytes each) and then calls itself.
\<close>

partial_function (option) keyName :: "nat \<Rightarrow> int \<Rightarrow> string res option" where
  "keyName sizeof_string val =
     (if val < 0 \<or> int (132 * sizeof_string) \<le> val then Some (Inl AssertFailed)
      else keyName sizeof_string val)"

section \<open>OSC\<close>

datatype OscArgType =
    OFXOSC_TYPE_INT32
  | OFXOSC_TYPE_FLOAT
  | OFXOSC_TYPE_STRING
  | OFXOSC_TYPE_other

text \<open>
  The functions of \<open>ofxOsc\<close>: a new receiver, \<open>setup\<close> on a port, which throws a
  \<open>std::runtime_error\<close> with a text or starts to listen, and the messages waiting.
\<close>

record ('r, 'm) osc_api =
  receiver_new :: 'r
  receiver_setup :: "'r \<Rightarrow> sint32 \<Rightarrow> string + 'r"
  hasWaitingMessages :: "'r \<Rightarrow> bool"
  getNextMessage :: "'r \<Rightarrow> 'm \<times> 'r"
  getAddress :: "'m \<Rightarrow> string"
  getNumArgs :: "'m \<Rightarrow> nat"
  getArgType :: "'m \<Rightarrow> nat \<Rightarrow> OscArgType"
  getArgTypeName :: "'m \<Rightarrow> nat \<Rightarrow> string"
  getArgAsInt32 :: "'m \<Rightarrow> nat \<Rightarrow> sint32 res"
  getArgAsFloat :: "'m \<Rightarrow> nat \<Rightarrow> real res"
  getArgAsString :: "'m \<Rightarrow> nat \<Rightarrow> string res"
  osc_ofToString_int :: "sint32 \<Rightarrow> string"
  osc_ofToString_float :: "real \<Rightarrow> string"

record Osc =
  oscReceiver :: addr
  osc_port :: sint32

text \<open>Both branches of \<open>checkVisualTrigger\<close> do nothing: the call behind the comparison is a comment.\<close>

definition checkVisualTrigger :: "('r, 'm) osc_api \<Rightarrow> 'm \<Rightarrow> unit" where
  "checkVisualTrigger A msg = (if getAddress A msg \<noteq> ''/trigger/visual'' then () else ())"

definition getVisualTriggerActionString :: "('r, 'm) osc_api \<Rightarrow> 'm \<Rightarrow> string res" where
  "getVisualTriggerActionString A msg =
     bindR (getArgAsInt32 A msg 0) (\<lambda>layer.
     bindR (getArgAsInt32 A msg 1) (\<lambda>column.
     sprintf 50 (c_str (getAddress A msg) @ ''/'' @ int_dec layer @ ''/'' @ int_dec column)))"

definition description_arg :: "('r, 'm) osc_api \<Rightarrow> 'm \<Rightarrow> nat \<Rightarrow> string res" where
  "description_arg A msg i =
     (case getArgType A msg i of
        OFXOSC_TYPE_INT32 \<Rightarrow> bindR (getArgAsInt32 A msg i) (\<lambda>x. Inr (osc_ofToString_int A x))
      | OFXOSC_TYPE_FLOAT \<Rightarrow> bindR (getArgAsFloat A msg i) (\<lambda>x. Inr (osc_ofToString_float A x))
      | OFXOSC_TYPE_STRING \<Rightarrow> getArgAsString A msg i
      | OFXOSC_TYPE_other \<Rightarrow> Inr ''unknown'')"

primrec description_loop :: "('r, 'm) osc_api \<Rightarrow> 'm \<Rightarrow> string \<Rightarrow> nat list \<Rightarrow> string res" where
  "description_loop A msg acc [] = Inr acc"
| "description_loop A msg acc (i # is) =
     bindR (description_arg A msg i) (\<lambda>t.
     description_loop A msg (acc @ getArgTypeName A msg i @ '':'' @ t) is)"

definition description :: "('r, 'm) osc_api \<Rightarrow> 'm \<Rightarrow> string res" where
  "description A msg =
     description_loop A msg (getAddress A msg @ '': '') [0..<getNumArgs A msg]"

partial_function (option) Osc_update_loop :: "('r, 'm) osc_api \<Rightarrow> 'r \<Rightarrow> 'r option" where
  "Osc_update_loop A r =
     (if hasWaitingMessages A r then
        (case getNextMessage A r of
           (msg, r') \<Rightarrow> (case checkVisualTrigger A msg of () \<Rightarrow> Osc_update_loop A r'))
      else Some r)"

section \<open>The objects and the two global pointers\<close>

text \<open>\<open>engine_osc\<close> is the member \<open>osc\<close> of the engine.\<close>

record 'r InStore =
  midis :: "addr \<rightharpoonup> Midi"
  midiInstance :: "addr option"
  oscs :: "addr \<rightharpoonup> Osc"
  oscInstance :: "addr option"
  receivers :: "addr \<rightharpoonup> 'r"
  engine_osc :: "addr option"
  in_next :: addr

definition InStore_new :: "'r InStore" where
  "InStore_new =
     \<lparr>midis = Map.empty, midiInstance = None, oscs = Map.empty, oscInstance = None,
      receivers = Map.empty, engine_osc = None, in_next = 0\<rparr>"

definition Midi_new :: "(sint32 \<Rightarrow> bool) \<Rightarrow> sint32 \<Rightarrow> ('r InStore, addr) cxx" where
  "Midi_new openPort port = (\<lambda>s.
     (Inr (in_next s),
      s\<lparr>midis := (midis s)(in_next s \<mapsto>
          \<lparr>midiIn_open = openPort port, midiIn_listens = True, midi_port = port,
           midi_message = None, midi_val = []\<rparr>),
        midiInstance := Some (in_next s), in_next := in_next s + 1\<rparr>))"

definition Midi_getInstance :: "(sint32 \<Rightarrow> bool) \<Rightarrow> sint32 \<Rightarrow> ('r InStore, addr) cxx" where
  "Midi_getInstance openPort port =
     bindX (getS midiInstance) (\<lambda>p. case p of None \<Rightarrow> Midi_new openPort port | Some a \<Rightarrow> ret a)"

definition Midi_delete :: "addr \<Rightarrow> ('r InStore, unit) cxx" where
  "Midi_delete a = (\<lambda>s.
     case midis s a of
       None \<Rightarrow> (Inl (UB DanglingDeref), s)
     | Some m \<Rightarrow> (Inr (), s\<lparr>midis := (midis s)(a := None), midiInstance := None\<rparr>))"

text \<open>A message for the object at an address, as the input calls its listener.\<close>

definition onMidi :: "addr \<Rightarrow> (Midi, 'a) cxx \<Rightarrow> ('r InStore, 'a) cxx" where
  "onMidi a f = (\<lambda>s.
     case midis s a of
       None \<Rightarrow> (Inl (UB DanglingDeref), s)
     | Some m \<Rightarrow> (case f m of (r, m') \<Rightarrow> (r, s\<lparr>midis := (midis s)(a \<mapsto> m')\<rparr>)))"

definition getActionString :: "ofxMidiMessage \<Rightarrow> 'r InStore \<Rightarrow> string res" where
  "getActionString msg s =
     (case midiInstance s of
        None \<Rightarrow> Inl (UB NullDeref)
      | Some a \<Rightarrow>
          (case midis s a of
             None \<Rightarrow> Inl (UB DanglingDeref)
           | Some m \<Rightarrow>
               sprintf 50 (int_dec (midi_port m) @ '' C'' @ int_dec (mm_channel msg) @ '' '' @
                 c_str (midi_val m))))"

text \<open>
  The constructor of \<open>Osc\<close> sets the global pointer before it opens the port. When \<open>setup\<close> throws,
  an Objective-C exception leaves the constructor: the memory of the object is released, the
  receiver and the global pointer stay.
\<close>

definition Osc_new :: "('r, 'm) osc_api \<Rightarrow> sint32 \<Rightarrow> ('r InStore, addr) cxx" where
  "Osc_new A port = (\<lambda>s.
     let a = in_next s; r = in_next s + 1;
         s1 = s\<lparr>oscInstance := Some a, receivers := (receivers s)(r \<mapsto> receiver_new A),
                in_next := in_next s + 2\<rparr>
     in case receiver_setup A (receiver_new A) port of
          Inl err \<Rightarrow> (Inl (ThrowPointer err), s1)
        | Inr x \<Rightarrow>
            (Inr a, s1\<lparr>receivers := (receivers s1)(r \<mapsto> x),
                       oscs := (oscs s1)(a \<mapsto> \<lparr>oscReceiver = r, osc_port = port\<rparr>)\<rparr>))"

definition Osc_getInstance :: "('r, 'm) osc_api \<Rightarrow> sint32 \<Rightarrow> ('r InStore, addr) cxx" where
  "Osc_getInstance A port =
     bindX (getS oscInstance) (\<lambda>p. case p of None \<Rightarrow> Osc_new A port | Some a \<Rightarrow> ret a)"

definition Osc_delete :: "addr \<Rightarrow> ('r InStore, unit) cxx" where
  "Osc_delete a = (\<lambda>s.
     case oscs s a of
       None \<Rightarrow> (Inl (UB DanglingDeref), s)
     | Some x \<Rightarrow>
         (case receivers s (oscReceiver x) of
            None \<Rightarrow> (Inl (UB DanglingDeref), s\<lparr>oscInstance := None\<rparr>)
          | Some r \<Rightarrow>
              (Inr (), s\<lparr>oscInstance := None,
                         receivers := (receivers s)(oscReceiver x := None),
                         oscs := (oscs s)(a := None)\<rparr>)))"

definition Osc_update :: "('r, 'm) osc_api \<Rightarrow> addr \<Rightarrow> ('r InStore, unit) cxx" where
  "Osc_update A a = (\<lambda>s.
     case oscs s a of
       None \<Rightarrow> (Inl (UB DanglingDeref), s)
     | Some x \<Rightarrow>
         (case receivers s (oscReceiver x) of
            None \<Rightarrow> (Inl (UB DanglingDeref), s)
          | Some r \<Rightarrow>
              (case Osc_update_loop A r of
                 None \<Rightarrow> (Inl NoReturn, s)
               | Some r' \<Rightarrow> (Inr (), s\<lparr>receivers := (receivers s)(oscReceiver x \<mapsto> r')\<rparr>))))"

section \<open>The engine\<close>

definition changeMidiPort :: "sint32 \<Rightarrow> ('r InStore, unit) cxx" where
  "changeMidiPort port =
     bindX (getS midiInstance) (\<lambda>p. case p of None \<Rightarrow> ret () | Some a \<Rightarrow> Midi_delete a)"

text \<open>The handler around \<open>new Osc\<close> catches an \<open>int\<close>, which nothing throws.\<close>

definition changeOscPort :: "('r, 'm) osc_api \<Rightarrow> sint32 \<Rightarrow> ('r InStore, unit) cxx" where
  "changeOscPort A port =
     bindX (getS oscInstance) (\<lambda>p.
     thenX (case p of None \<Rightarrow> ret () | Some a \<Rightarrow> Osc_delete a) (
     bindX (Osc_new A port) (\<lambda>a. modS (\<lambda>s. s\<lparr>engine_osc := Some a\<rparr>))))"

text \<open>The line of \<open>Engine::render\<close> that looks for OSC messages.\<close>

definition render_osc :: "('r, 'm) osc_api \<Rightarrow> ('r InStore, unit) cxx" where
  "render_osc A =
     bindX (getS engine_osc) (\<lambda>p. case p of None \<Rightarrow> ret () | Some a \<Rightarrow> Osc_update A a)"

section \<open>Names of keys and controls\<close>

definition pitches :: "string list" where
  "pitches = [''C'', ''C#'', ''D'', ''D#'', ''E'', ''F'', ''F#'', ''G'', ''G#'', ''A'', ''A#'', ''B'']"

definition octaves :: "string list" where
  "octaves = [''-2'', ''-1'', ''0'', ''1'', ''2'', ''3'', ''4'', ''5'', ''6'', ''7'', ''8'']"

text \<open>The table lists the pitches of eleven octaves; one entry has lost its octave.\<close>

theorem keyNames_octaves:
  "keyNames = (concat (map (\<lambda>oc. map (\<lambda>p. p @ oc) pitches) octaves))[119 := ''B'']"
  by (simp add: keyNames_def pitches_def octaves_def)

lemma keyNames_length [simp]: "length keyNames = 132"
  by (simp add: keyNames_def)

lemma keyNames_short: "\<forall>n \<in> set keyNames. length n \<le> 4"
  by (simp add: keyNames_def)

lemma keyNames_no_zero: "\<forall>n \<in> set keyNames. CHR 0x00 \<notin> set n"
  by (simp add: keyNames_def)

lemma c_str_id: "CHR 0x00 \<notin> set t \<Longrightarrow> c_str t = t"
  by (auto simp: c_str_def takeWhile_eq_all_conv)

lemma digit_not_zero: "n < 10 \<Longrightarrow> (char_of (48 + n :: nat) :: char) \<noteq> CHR 0x00"
proof
  assume "n < 10" and zero: "(char_of (48 + n) :: char) = CHR 0x00"
  from zero have "(of_char (char_of (48 + n) :: char) :: nat) = of_char (CHR 0x00)"
    by (rule arg_cong)
  then have "(48 + n) mod 256 = 0"
    by (simp del: char_of_eq_iff)
  with \<open>n < 10\<close> show False
    by simp
qed

lemma dec_no_zero: "CHR 0x00 \<notin> set (dec n)"
proof (induction n rule: dec.induct)
  case (1 n)
  then show ?case
    using digit_not_zero [of n] digit_not_zero [of "n mod 10"]
    by (subst dec.simps) (auto dest!: sym [of "CHR 0x00"])
qed

lemma int_dec_no_zero: "CHR 0x00 \<notin> set (int_dec w)"
  by (simp add: int_dec_def dec_no_zero)

text \<open>The name of the last control, given the name before.\<close>

definition control_name :: "ofxMidiMessage \<Rightarrow> string \<Rightarrow> string" where
  "control_name msg v =
     (if mm_status msg = 144 then keyNames ! unat (mm_bytes msg ! 1)
      else if mm_status msg = 176 then ''code '' @ int_dec (mm_control msg) else v)"

lemma newMidiMessage_outcome:
  "newMidiMessage msg m =
     (let m' = m\<lparr>midi_message := Some msg\<rparr> in
      if length (mm_bytes msg) < 2 \<or> mm_status msg = 144 \<and> 132 \<le> unat (mm_bytes msg ! 1)
      then (Inl (UB OutOfBounds), m')
      else (Inr (), m'\<lparr>midi_val := control_name msg (midi_val m)\<rparr>))"
  by (auto simp: newMidiMessage_def Midi_print_def control_name_def Let_def nth_opt_def bindX_def thenX_def)

definition val_ok :: "string \<Rightarrow> bool" where
  "val_ok v \<longleftrightarrow> length v \<le> 16 \<and> CHR 0x00 \<notin> set v"

lemma control_name_ok:
  assumes "val_ok v" "mm_status msg = 144 \<Longrightarrow> unat (mm_bytes msg ! 1) < 132"
  shows "val_ok (control_name msg v)"
proof -
  have "n \<in> set keyNames \<Longrightarrow> val_ok n" for n
    using keyNames_short keyNames_no_zero by (force simp: val_ok_def)
  then show ?thesis
    using assms int_dec_length [of "mm_control msg"] int_dec_no_zero [of "mm_control msg"]
    by (auto simp: control_name_def val_ok_def)
qed

text \<open>A message with a second byte that is a data byte, so that its highest bit is not set.\<close>

definition data_message :: "ofxMidiMessage \<Rightarrow> bool" where
  "data_message msg \<longleftrightarrow> 2 \<le> length (mm_bytes msg) \<and> unat (mm_bytes msg ! 1) < 128"

lemma midi_messages_run:
  assumes "midis s a = Some m" "val_ok (midi_val m)" "\<forall>msg \<in> set ms. data_message msg"
  shows "\<exists>m'. forX ms (\<lambda>msg. onMidi a (newMidiMessage msg)) s =
      (Inr (), s\<lparr>midis := (midis s)(a \<mapsto> m')\<rparr>) \<and> midi_port m' = midi_port m \<and>
      midi_val m' = fold control_name ms (midi_val m) \<and> val_ok (midi_val m')"
  using assms
proof (induction ms arbitrary: s m)
  case Nil
  then show ?case
    by (intro exI [of _ m]) (simp add: map_upd_triv)
next
  case (Cons msg ms)
  let ?m = "m\<lparr>midi_message := Some msg, midi_val := control_name msg (midi_val m)\<rparr>"
  let ?s = "s\<lparr>midis := (midis s)(a \<mapsto> ?m)\<rparr>"
  from Cons.prems have "data_message msg"
    by simp
  then have run: "onMidi a (newMidiMessage msg) s = (Inr (), ?s)"
    using Cons.prems(1) by (simp add: onMidi_def newMidiMessage_outcome data_message_def Let_def)
  have "val_ok (midi_val ?m)"
    using Cons.prems(2) \<open>data_message msg\<close>
    by (simp add: control_name_ok data_message_def)
  moreover have "midis ?s a = Some ?m" "\<forall>msg \<in> set ms. data_message msg"
    using Cons.prems(3) by simp_all
  ultimately obtain m' where m':
    "forX ms (\<lambda>msg. onMidi a (newMidiMessage msg)) ?s = (Inr (), ?s\<lparr>midis := (midis ?s)(a \<mapsto> m')\<rparr>)"
    "midi_port m' = midi_port ?m" "midi_val m' = fold control_name ms (midi_val ?m)"
    "val_ok (midi_val m')"
    using Cons.IH [of ?s ?m] by blast
  have "forX (msg # ms) (\<lambda>msg. onMidi a (newMidiMessage msg)) s =
      (Inr (), s\<lparr>midis := (midis s)(a \<mapsto> m')\<rparr>)"
    using m'(1) run by simp
  moreover have "midi_port m' = midi_port m" "midi_val m' = fold control_name (msg # ms) (midi_val m)"
    using m'(2,3) by simp_all
  ultimately show ?case
    using m'(4) by blast
qed

lemma action_string_fits:
  assumes "midiInstance s = Some a" "midis s a = Some m" "val_ok (midi_val m)"
  shows "getActionString msg s =
    Inr (int_dec (midi_port m) @ '' C'' @ int_dec (mm_channel msg) @ '' '' @ midi_val m)"
  using assms int_dec_length [of "midi_port m"] int_dec_length [of "mm_channel msg"]
  by (simp add: getActionString_def sprintf_def c_str_id val_ok_def)

section \<open>MIDI: what a run shows\<close>

text \<open>
  From the start of the program, after the MIDI input has been made and any messages with data bytes have
  come in, each of them has been handled without an access outside the table of names or the bytes of the
  message, and the text for an action is the port, the channel and the name of the last control: it
  always fits the 50 bytes it is written to.
\<close>

theorem midi_action_string:
  assumes "\<forall>msg \<in> set ms. data_message msg"
  shows "\<exists>a s1 s2. Midi_getInstance openPort port InStore_new = (Inr a, s1) \<and>
    forX ms (\<lambda>msg. onMidi a (newMidiMessage msg)) s1 = (Inr (), s2) \<and>
    getActionString msg' s2 =
      Inr (int_dec port @ '' C'' @ int_dec (mm_channel msg') @ '' '' @ fold control_name ms [])"
proof -
  define m where "m = \<lparr>midiIn_open = openPort port, midiIn_listens = True, midi_port = port,
    midi_message = None, midi_val = []\<rparr>"
  define s1 :: "'a InStore" where "s1 = InStore_new\<lparr>midis := [0 \<mapsto> m], midiInstance := Some 0, in_next := 1\<rparr>"
  have new: "Midi_getInstance openPort port InStore_new = (Inr 0, s1)"
    by (simp add: Midi_getInstance_def Midi_new_def InStore_new_def s1_def m_def)
  obtain m' where m': "forX ms (\<lambda>msg. onMidi 0 (newMidiMessage msg)) s1 =
      (Inr (), s1\<lparr>midis := (midis s1)(0 \<mapsto> m')\<rparr>)" "midi_port m' = port"
      "midi_val m' = fold control_name ms []" "val_ok (midi_val m')"
    using midi_messages_run [of s1 0 m ms] assms by (auto simp: s1_def m_def val_ok_def)
  have "getActionString msg' (s1\<lparr>midis := (midis s1)(0 \<mapsto> m')\<rparr>) =
      Inr (int_dec port @ '' C'' @ int_dec (mm_channel msg') @ '' '' @ fold control_name ms [])"
    using action_string_fits [of "s1\<lparr>midis := (midis s1)(0 \<mapsto> m')\<rparr>" 0 m' msg'] m'(2-4)
    by (simp add: s1_def)
  with new m'(1) show ?thesis
    by blast
qed

lemma changeMidiPort_closes:
  assumes "\<forall>a. midiInstance s = Some a \<longrightarrow> midis s a \<noteq> None"
  shows "\<exists>s'. changeMidiPort port s = (Inr (), s') \<and> midiInstance s' = None \<and>
    getActionString msg s' = Inl (UB NullDeref)"
  using assms
  by (cases "midiInstance s") (auto simp: changeMidiPort_def Midi_delete_def getActionString_def)

text \<open>A key name is never found: inside the bounds it asserts, the function calls itself for ever.\<close>

theorem keyName_never_returns:
  "keyName n val = (if val < 0 \<or> int (132 * n) \<le> val then Some (Inl AssertFailed) else None)"
proof -
  have "val < 0 \<or> int (132 * n) \<le> val" if "keyName n val = Some y" for y
    using that by (rule keyName.raw_induct [rotated]) (auto split: if_splits)
  then show ?thesis
    by (cases "keyName n val") (auto simp: keyName.simps)
qed

section \<open>OSC: pointers that stay behind\<close>

text \<open>
  What the code relies on of a receiver while no further message comes in: a message taken is not
  waiting any more. \<open>w\<close> is the number of waiting messages.
\<close>

definition osc_doc :: "('r, 'm) osc_api \<Rightarrow> ('r \<Rightarrow> nat) \<Rightarrow> bool" where
  "osc_doc A w \<longleftrightarrow>
     (\<forall>r. hasWaitingMessages A r \<longleftrightarrow> 0 < w r) \<and>
     (\<forall>r. 0 < w r \<longrightarrow> w (snd (getNextMessage A r)) < w r)"

text \<open>A receiver after \<open>k\<close> messages have been taken from it.\<close>

definition taken :: "('r, 'm) osc_api \<Rightarrow> nat \<Rightarrow> 'r \<Rightarrow> 'r" where
  "taken A k = (\<lambda>r. snd (getNextMessage A r)) ^^ k"

lemma Osc_update_loop_returns:
  assumes "osc_doc A w"
  shows "\<exists>k. Osc_update_loop A r = Some (taken A k r) \<and> \<not> hasWaitingMessages A (taken A k r) \<and>
    (\<forall>i<k. hasWaitingMessages A (taken A i r))"
proof (induction r rule: measure_induct_rule [of w])
  case (less r)
  show ?case
  proof (cases "hasWaitingMessages A r")
    case True
    let ?r = "snd (getNextMessage A r)"
    have "w ?r < w r" using True assms by (simp add: osc_doc_def)
    from less [OF this] obtain k where k: "Osc_update_loop A ?r = Some (taken A k ?r)"
      "\<not> hasWaitingMessages A (taken A k ?r)" "\<forall>i<k. hasWaitingMessages A (taken A i ?r)" by blast
    have t: "taken A (Suc n) r = taken A n ?r" "taken A 0 r = r" for n
      by (simp_all add: taken_def funpow_Suc_right del: funpow.simps(2))
    from k(3) True have "\<forall>i<Suc k. hasWaitingMessages A (taken A i r)"
      by (auto simp: less_Suc_eq_0_disj t)
    with k True show ?thesis
      by (subst Osc_update_loop.simps) (auto simp: t intro!: exI [of _ "Suc k"] split: prod.split unit.split)
  qed (auto simp: Osc_update_loop.simps taken_def intro!: exI [of _ 0])
qed

text \<open>
  The invariant: the global pointer is null or points to a live object with a live receiver, the
  pointer of the engine is null or the same, and addresses to come are not in use.
\<close>

definition osc_ok :: "'r InStore \<Rightarrow> bool" where
  "osc_ok s \<longleftrightarrow>
     (case oscInstance s of
        None \<Rightarrow> True
      | Some p \<Rightarrow> (case oscs s p of None \<Rightarrow> False | Some x \<Rightarrow> receivers s (oscReceiver x) \<noteq> None)) \<and>
     (engine_osc s = None \<or> engine_osc s = oscInstance s) \<and>
     (\<forall>a \<ge> in_next s. oscs s a = None)"

inductive osc_reach :: "('r, 'm) osc_api \<Rightarrow> 'r InStore \<Rightarrow> bool" for A where
  start: "osc_reach A InStore_new"
| change: "osc_reach A s \<Longrightarrow> changeOscPort A port s = (Inr (), s') \<Longrightarrow> osc_reach A s'"
| frame: "osc_reach A s \<Longrightarrow> render_osc A s = (Inr (), s') \<Longrightarrow> osc_reach A s'"
| instance_osc: "osc_reach A s \<Longrightarrow> Osc_getInstance A port s = (Inr a, s') \<Longrightarrow> osc_reach A s'"
| instance_midi: "osc_reach A s \<Longrightarrow> Midi_getInstance op port s = (Inr a, s') \<Longrightarrow> osc_reach A s'"
| change_midi: "osc_reach A s \<Longrightarrow> changeMidiPort port s = (Inr (), s') \<Longrightarrow> osc_reach A s'"

lemma Osc_new_run:
  "Osc_new A port s =
     (case receiver_setup A (receiver_new A) port of
        Inl err \<Rightarrow>
          (Inl (ThrowPointer err),
           s\<lparr>oscInstance := Some (in_next s), in_next := in_next s + 2,
             receivers := (receivers s)(in_next s + 1 \<mapsto> receiver_new A)\<rparr>)
      | Inr x \<Rightarrow>
          (Inr (in_next s),
           s\<lparr>oscInstance := Some (in_next s), in_next := in_next s + 2,
             receivers := (receivers s)(in_next s + 1 \<mapsto> x),
             oscs := (oscs s)(in_next s \<mapsto> \<lparr>oscReceiver = in_next s + 1, osc_port = port\<rparr>)\<rparr>))"
  by (simp add: Osc_new_def Let_def split: sum.split)

text \<open>Deleting what the global pointer points to succeeds and leaves no pointer but the engine's.\<close>

definition osc_cleared :: "'r InStore \<Rightarrow> 'r InStore" where
  "osc_cleared s =
     (case oscInstance s of
        None \<Rightarrow> s
      | Some p \<Rightarrow>
          s\<lparr>oscInstance := None,
            receivers := (case oscs s p of None \<Rightarrow> receivers s
                          | Some x \<Rightarrow> (receivers s)(oscReceiver x := None)),
            oscs := (oscs s)(p := None)\<rparr>)"

lemma changeOscPort_run:
  "osc_ok s \<Longrightarrow> changeOscPort A port s =
     bindX (Osc_new A port) (\<lambda>a. modS (\<lambda>s. s\<lparr>engine_osc := Some a\<rparr>)) (osc_cleared s)"
  by (auto simp: changeOscPort_def osc_ok_def osc_cleared_def Osc_delete_def split: option.splits)

lemma osc_cleared_simps [simp]:
  "in_next (osc_cleared s) = in_next s" "engine_osc (osc_cleared s) = engine_osc s"
  by (simp_all add: osc_cleared_def split: option.split)

lemma osc_cleared_dead:
  "osc_ok s \<Longrightarrow> in_next s \<le> a \<Longrightarrow> oscs (osc_cleared s) a = None"
  "osc_ok s \<Longrightarrow> engine_osc s = Some a \<Longrightarrow> oscs (osc_cleared s) a = None"
  by (auto simp: osc_ok_def osc_cleared_def split: option.splits)

lemma changeOscPort_opens:
  assumes "osc_ok s" "receiver_setup A (receiver_new A) port = Inr x"
  shows "changeOscPort A port s =
    (Inr (), (osc_cleared s)\<lparr>oscInstance := Some (in_next s), in_next := in_next s + 2,
       receivers := (receivers (osc_cleared s))(in_next s + 1 \<mapsto> x),
       oscs := (oscs (osc_cleared s))(in_next s \<mapsto> \<lparr>oscReceiver = in_next s + 1, osc_port = port\<rparr>),
       engine_osc := Some (in_next s)\<rparr>)"
  using assms(2) by (simp add: changeOscPort_run [OF assms(1)] Osc_new_run)

lemma changeOscPort_throws:
  assumes "osc_ok s" "receiver_setup A (receiver_new A) port = Inl err"
  shows "changeOscPort A port s =
    (Inl (ThrowPointer err), (osc_cleared s)\<lparr>oscInstance := Some (in_next s), in_next := in_next s + 2,
       receivers := (receivers (osc_cleared s))(in_next s + 1 \<mapsto> receiver_new A)\<rparr>)"
  using assms(2) by (simp add: changeOscPort_run [OF assms(1)] Osc_new_run)

lemma osc_ok_change:
  assumes "osc_ok s" "changeOscPort A port s = (Inr (), s')"
  shows "osc_ok s'"
proof (cases "receiver_setup A (receiver_new A) port")
  case (Inl err)
  with changeOscPort_throws [OF assms(1) this] assms(2) show ?thesis
    by simp
next
  case (Inr x)
  with changeOscPort_opens [OF assms(1) this] assms(2) osc_cleared_dead(1) [OF assms(1)]
  show ?thesis
    by (auto simp: osc_ok_def)
qed

lemma osc_ok_frame: "osc_ok s \<Longrightarrow> render_osc A s = (Inr (), s') \<Longrightarrow> osc_ok s'"
  by (auto simp: render_osc_def Osc_update_def osc_ok_def split: option.splits)

lemma osc_ok_instance: "osc_ok s \<Longrightarrow> Osc_getInstance A port s = (Inr a, s') \<Longrightarrow> osc_ok s'"
  by (auto simp: Osc_getInstance_def Osc_new_run osc_ok_def split: option.splits sum.splits)

lemma osc_ok_midi:
  "osc_ok s \<Longrightarrow> Midi_getInstance op port s = (Inr a, s') \<Longrightarrow> osc_ok s'"
  "osc_ok s \<Longrightarrow> changeMidiPort port s = (Inr (), s') \<Longrightarrow> osc_ok s'"
  by (auto simp: Midi_getInstance_def Midi_new_def changeMidiPort_def Midi_delete_def osc_ok_def
      split: option.splits)

lemma osc_reach_ok: "osc_reach A s \<Longrightarrow> osc_ok s"
proof (induction rule: osc_reach.induct)
  case start
  show ?case
    by (simp add: osc_ok_def InStore_new_def)
qed (blast intro: osc_ok_change osc_ok_frame osc_ok_instance osc_ok_midi)+

lemma render_osc_run:
  assumes "osc_ok s" "osc_doc A w"
  shows "case engine_osc s of
      None \<Rightarrow> render_osc A s = (Inr (), s)
    | Some p \<Rightarrow> (\<exists>x r k. oscs s p = Some x \<and> receivers s (oscReceiver x) = Some r \<and>
        render_osc A s = (Inr (), s\<lparr>receivers := (receivers s)(oscReceiver x \<mapsto> taken A k r)\<rparr>) \<and>
        \<not> hasWaitingMessages A (taken A k r) \<and> (\<forall>i<k. hasWaitingMessages A (taken A i r)))"
proof (cases "engine_osc s")
  case (Some p)
  with assms(1) obtain x r where "oscs s p = Some x" "receivers s (oscReceiver x) = Some r"
    by (auto simp: osc_ok_def split: option.splits)
  with Some Osc_update_loop_returns [OF assms(2), of r] show ?thesis
    by (auto simp: render_osc_def Osc_update_def)
qed (simp add: render_osc_def)

lemma changeOscPort_fails:
  assumes "osc_ok s" "receiver_setup A (receiver_new A) port = Inl err"
  shows "\<exists>s'. changeOscPort A port s = (Inl (ThrowPointer err), s') \<and>
    fst (changeOscPort A port' s') = Inl (UB DanglingDeref) \<and>
    (engine_osc s \<noteq> None \<longrightarrow> fst (render_osc A s') = Inl (UB DanglingDeref))"
proof (intro exI conjI)
  let ?s = "(osc_cleared s)\<lparr>oscInstance := Some (in_next s), in_next := in_next s + 2,
       receivers := (receivers (osc_cleared s))(in_next s + 1 \<mapsto> receiver_new A)\<rparr>"
  show "changeOscPort A port s = (Inl (ThrowPointer err), ?s)"
    by (rule changeOscPort_throws [OF assms])
  show "fst (changeOscPort A port' ?s) = Inl (UB DanglingDeref)"
    using osc_cleared_dead(1) [OF assms(1), of "in_next s"]
    by (simp add: changeOscPort_def Osc_delete_def)
  show "engine_osc s \<noteq> None \<longrightarrow> fst (render_osc A ?s) = Inl (UB DanglingDeref)"
    using osc_cleared_dead(2) [OF assms(1)]
    by (auto simp: render_osc_def Osc_update_def)
qed

text \<open>An addon for the witnesses: ports below 1024 are refused, two messages wait on a new receiver.\<close>

definition demo_osc :: "(nat, nat) osc_api" where
  "demo_osc =
     \<lparr>receiver_new = 0, receiver_setup = (\<lambda>r p. if p < 1024 then Inl ''in use'' else Inr 2),
      hasWaitingMessages = (\<lambda>r. 0 < r), getNextMessage = (\<lambda>r. (r, r - 1)),
      getAddress = (\<lambda>m. ''/trigger/visual''), getNumArgs = (\<lambda>m. 2),
      getArgType = (\<lambda>m i. OFXOSC_TYPE_INT32), getArgTypeName = (\<lambda>m i. ''int32''),
      getArgAsInt32 = (\<lambda>m i. Inr (of_nat (m + i))), getArgAsFloat = (\<lambda>m i. Inr 0),
      getArgAsString = (\<lambda>m i. Inr []), osc_ofToString_int = int_dec,
      osc_ofToString_float = (\<lambda>x. ''0'')\<rparr>"

lemma demo_osc_doc: "osc_doc demo_osc (\<lambda>r. r)"
  by (simp add: osc_doc_def demo_osc_def)


definition demo_osc_state :: "nat InStore" where
  "demo_osc_state = snd (changeOscPort demo_osc 1234 InStore_new)"


section \<open>OSC: the text of a trigger\<close>

text \<open>
  The text for a message fits its 50 bytes unless the address is too long; for the address of a
  trigger it always does. Nothing but the length of the address a peer sends decides: a longer one is written past the
  end of the array.
\<close>

theorem visual_trigger_string:
  assumes "getArgAsInt32 A msg 0 = Inr layer" "getArgAsInt32 A msg 1 = Inr column"
  shows "(length (c_str (getAddress A msg)) < 26 \<longrightarrow> getVisualTriggerActionString A msg =
      Inr (c_str (getAddress A msg) @ ''/'' @ int_dec layer @ ''/'' @ int_dec column)) \<and>
    (48 \<le> length (c_str (getAddress A msg)) \<longrightarrow>
      getVisualTriggerActionString A msg = Inl (UB OutOfBounds)) \<and>
    (getAddress A msg = ''/trigger/visual'' \<longrightarrow> getVisualTriggerActionString A msg =
      Inr (''/trigger/visual/'' @ int_dec layer @ ''/'' @ int_dec column))"
  using assms int_dec_length [of layer] int_dec_length [of column]
  by (simp add: getVisualTriggerActionString_def sprintf_def) (simp add: c_str_def)

end
