(* ===== verification/Outputs.thy ===== *)
theory Outputs
  imports EnginePlay
begin

text \<open>
  \<open>Outputs/SyphonOutputManager\<close> with the lines of \<open>Engine::render\<close> that call it, \<open>Main/Screen\<close>, and
  the thread of \<open>FileManager\<close> that cleans up the current scene.

  A Syphon server belongs to the addon \<open>ofxSyphon\<close>: it is a type parameter with the functions of
  \<open>syphon_api\<close>. A texture is its address.
\<close>

section \<open>Syphon outputs\<close>

record 'y syphon_api =
  syphon_new :: 'y
  syphon_setName :: "string \<Rightarrow> 'y \<Rightarrow> 'y"
  syphon_getName :: "'y \<Rightarrow> string"
  publishScreen :: "'y \<Rightarrow> 'y"
  publishTexture :: "addr \<Rightarrow> 'y \<Rightarrow> 'y"

definition N_SYPHON_CHANNEL_OUTPUTS :: nat where
  "N_SYPHON_CHANNEL_OUTPUTS = 4"

text \<open>
  The last member is declared \<open>bool channelOutputActive[0]\<close>: it has no element of its own, and its
  entries are the bytes that follow \<open>mainOutputActive\<close>. \<open>channelOutputActive\<close> is the list of those that
  still belong to the object, which are as many as the compiler adds to align it; an entry behind
  them is outside the object.
\<close>

record 'y SyphonOutputManager =
  mainOutput :: 'y
  channelsOutput :: "'y list"
  mainOutputActive :: bool
  channelOutputActive :: "bool list"

definition write_flag :: "nat \<Rightarrow> bool \<Rightarrow> ('y SyphonOutputManager, unit) cxx" where
  "write_flag f b = (\<lambda>m.
     if f < length (channelOutputActive m)
     then (Inr (), m\<lparr>channelOutputActive := (channelOutputActive m)[f := b]\<rparr>)
     else (Inl (UB OutOfBounds), m))"

definition read_flag :: "nat \<Rightarrow> ('y SyphonOutputManager, bool) cxx" where
  "read_flag f = (\<lambda>m.
     (case nth_opt (channelOutputActive m) f of None \<Rightarrow> Inl (UB OutOfBounds) | Some b \<Rightarrow> Inr b, m))"

text \<open>The constructor, on the memory of the object: \<open>tail\<close> is what is in the bytes at its end.\<close>

definition SyphonOutputManager_new ::
  "'y syphon_api \<Rightarrow> bool list \<Rightarrow> unit res \<times> 'y SyphonOutputManager" where
  "SyphonOutputManager_new Y tail =
     forX [0..<N_SYPHON_CHANNEL_OUTPUTS] (\<lambda>f. write_flag f False)
       \<lparr>mainOutput = syphon_new Y,
        channelsOutput = replicate N_SYPHON_CHANNEL_OUTPUTS (syphon_new Y),
        mainOutputActive = False, channelOutputActive = tail\<rparr>"

definition setSyphonMainOutput ::
  "'y syphon_api \<Rightarrow> string \<Rightarrow> 'y SyphonOutputManager \<Rightarrow> 'y SyphonOutputManager" where
  "setSyphonMainOutput Y nm m = m\<lparr>mainOutput := syphon_setName Y nm (mainOutput m)\<rparr>"

definition getSyphonMainOutput :: "'y syphon_api \<Rightarrow> 'y SyphonOutputManager \<Rightarrow> string" where
  "getSyphonMainOutput Y m = syphon_getName Y (mainOutput m)"

definition publishMainOutputScreen ::
  "'y syphon_api \<Rightarrow> addr option \<Rightarrow> 'y SyphonOutputManager \<Rightarrow> 'y SyphonOutputManager" where
  "publishMainOutputScreen Y inputTexture m =
     (if \<not> mainOutputActive m then m else
      case inputTexture of
        None \<Rightarrow> m\<lparr>mainOutput := publishScreen Y (mainOutput m)\<rparr>
      | Some t \<Rightarrow> m\<lparr>mainOutput := publishTexture Y t (mainOutput m)\<rparr>)"

text \<open>A channel is an \<open>unsigned short\<close>; the four servers are an array of that size.\<close>

definition setSyphonChannelOutput ::
  "'y syphon_api \<Rightarrow> 16 word \<Rightarrow> string \<Rightarrow> 'y SyphonOutputManager \<Rightarrow> 'y SyphonOutputManager" where
  "setSyphonChannelOutput Y channel nm m =
     (if N_SYPHON_CHANNEL_OUTPUTS \<le> unat channel then m else
      m\<lparr>channelsOutput := (channelsOutput m)[unat channel :=
          syphon_setName Y nm (channelsOutput m ! unat channel)]\<rparr>)"

definition getSyphonChannelOutput ::
  "'y syphon_api \<Rightarrow> 16 word \<Rightarrow> 'y SyphonOutputManager \<Rightarrow> string" where
  "getSyphonChannelOutput Y channel m =
     (if N_SYPHON_CHANNEL_OUTPUTS \<le> unat channel then [] else
      syphon_getName Y (channelsOutput m ! unat channel))"

definition publishChannelOutputScreen ::
  "'y syphon_api \<Rightarrow> 16 word \<Rightarrow> addr option \<Rightarrow> ('y SyphonOutputManager, unit) cxx" where
  "publishChannelOutputScreen Y channel inputTexture =
     (if N_SYPHON_CHANNEL_OUTPUTS \<le> unat channel then ret () else
      bindX (read_flag (unat channel)) (\<lambda>b.
      if \<not> b then ret () else
      case inputTexture of
        None \<Rightarrow> ret ()
      | Some t \<Rightarrow>
          modS (\<lambda>m. m\<lparr>channelsOutput := (channelsOutput m)[unat channel :=
            publishTexture Y t (channelsOutput m ! unat channel)]\<rparr>)))"

definition setMainOutputActive :: "bool \<Rightarrow> 'y SyphonOutputManager \<Rightarrow> 'y SyphonOutputManager" where
  "setMainOutputActive a m = m\<lparr>mainOutputActive := a\<rparr>"

definition setChannelOutputActive :: "16 word \<Rightarrow> bool \<Rightarrow> ('y SyphonOutputManager, unit) cxx" where
  "setChannelOutputActive channel a =
     (if N_SYPHON_CHANNEL_OUTPUTS \<le> unat channel then ret () else write_flag (unat channel) a)"

text \<open>The function of the same name with one argument tells whether a channel is active.\<close>

definition isChannelOutputActive :: "16 word \<Rightarrow> ('y SyphonOutputManager, bool) cxx" where
  "isChannelOutputActive channel =
     (if N_SYPHON_CHANNEL_OUTPUTS \<le> unat channel then ret False else read_flag (unat channel))"

text \<open>
  The loop of \<open>Engine::render\<close> over the textures of the layers, from the layer with number
  \<open>layerCount\<close> on, and the output of the whole picture behind it. The number of a layer that is
  published is below four, so that its conversion to a channel keeps it.
\<close>

primrec publish_layers ::
  "'y syphon_api \<Rightarrow> uint \<Rightarrow> addr option list \<Rightarrow> ('y SyphonOutputManager, unit) cxx" where
  "publish_layers Y layerCount [] = ret ()"
| "publish_layers Y layerCount (t # ts) =
     thenX (whenX (unat layerCount < N_SYPHON_CHANNEL_OUTPUTS)
              (publishChannelOutputScreen Y (ucast layerCount) t)) (
     publish_layers Y (layerCount + 1) ts)"

definition render_publish ::
  "'y syphon_api \<Rightarrow> addr option list \<Rightarrow> addr \<Rightarrow> ('y SyphonOutputManager, unit) cxx" where
  "render_publish Y textures picture =
     thenX (publish_layers Y 0 textures) (modS (publishMainOutputScreen Y (Some picture)))"

section \<open>Screens\<close>

record Screen =
  screen_x :: uint
  screen_y :: uint
  screen_width :: uint
  screen_height :: uint
  primaryScreen :: bool

definition Screen_new :: Screen where
  "Screen_new = \<lparr>screen_x = 0, screen_y = 0, screen_width = 0, screen_height = 0, primaryScreen = False\<rparr>"

definition setLocation :: "uint \<Rightarrow> uint \<Rightarrow> Screen \<Rightarrow> Screen" where
  "setLocation x y c = c\<lparr>screen_x := x, screen_y := y\<rparr>"

definition setDimension :: "uint \<Rightarrow> uint \<Rightarrow> Screen \<Rightarrow> Screen" where
  "setDimension w h c = c\<lparr>screen_width := w, screen_height := h\<rparr>"

definition setPrimaryScreen :: "bool \<Rightarrow> Screen \<Rightarrow> Screen" where
  "setPrimaryScreen b c = c\<lparr>primaryScreen := b\<rparr>"

section \<open>The file manager\<close>

text \<open>
  \<open>threadedFunction\<close>, for the answers it gets in each round: whether the thread is still running,
  whether the lock was taken, and the time. The list is what has happened so far; the thread ends
  in the first round in which it is not running.
\<close>

primrec FileManager_run ::
  "'v player_api \<Rightarrow> (bool \<times> bool \<times> ulonglong) list \<Rightarrow> ('v Store, unit) cxx" where
  "FileManager_run V [] = ret ()"
| "FileManager_run V (r # rs) =
     (case r of (running, locked, now) \<Rightarrow>
        if \<not> running then ret ()
        else if locked then
          bindX (getS has_engine) (\<lambda>e.
          thenX (whenX e (Engine_cleanup V now)) (FileManager_run V rs))
        else FileManager_run V rs)"

section \<open>The flags of the channels\<close>

lemma write_flags_run:
  "k \<le> length (channelOutputActive m) \<Longrightarrow> forX [0..<k] (\<lambda>f. write_flag f False) m =
     (Inr (), m\<lparr>channelOutputActive := replicate k False @ drop k (channelOutputActive m)\<rparr>)"
proof (induction k)
  case (Suc k)
  then have k: "k < length (channelOutputActive m)"
    by simp
  then have "(replicate k False @ drop k (channelOutputActive m))[k := False] =
      replicate (Suc k) False @ drop (Suc k) (channelOutputActive m)"
    by (simp add: list_update_append replicate_append_same [symmetric] Cons_nth_drop_Suc [symmetric])
  with Suc k show ?case
    by (simp add: forX_append write_flag_def)
qed simp

lemma write_flags_outside:
  "length (channelOutputActive m) < k \<Longrightarrow>
     fst (forX [0..<k] (\<lambda>f. write_flag f False) m) = Inl (UB OutOfBounds)"
proof -
  let ?n = "length (channelOutputActive m)"
  assume "?n < k"
  then have "[0..<k] = [0..<?n] @ ?n # [Suc ?n..<k]"
    using upt_add_eq_append [of 0 ?n "k - ?n"] by (simp add: upt_conv_Cons)
  then show ?thesis
    using write_flags_run [of ?n m] by (simp add: forX_append write_flag_def)
qed

definition manager_ok :: "'y SyphonOutputManager \<Rightarrow> bool" where
  "manager_ok m \<longleftrightarrow> length (channelsOutput m) = 4 \<and> 4 \<le> length (channelOutputActive m)"

theorem syphon_new_outcome:
  "(case SyphonOutputManager_new Y tail of
      (r, m) \<Rightarrow>
        if length tail < 4 then r = Inl (UB OutOfBounds)
        else r = Inr () \<and> manager_ok m \<and> \<not> mainOutputActive m \<and>
          (\<forall>c. fst (isChannelOutputActive c m) = Inr False))"
proof (cases "length tail < 4")
  case True
  then show ?thesis
    using write_flags_outside [of "\<lparr>mainOutput = syphon_new Y, channelsOutput = replicate 4 (syphon_new Y),
        mainOutputActive = False, channelOutputActive = tail\<rparr>" 4]
    by (auto simp del: upt_rec_numeral simp: SyphonOutputManager_new_def N_SYPHON_CHANNEL_OUTPUTS_def
        split: prod.split)
next
  case False
  then have "SyphonOutputManager_new Y tail =
      (Inr (), \<lparr>mainOutput = syphon_new Y, channelsOutput = replicate 4 (syphon_new Y),
        mainOutputActive = False, channelOutputActive = replicate 4 False @ drop 4 tail\<rparr>)"
    unfolding SyphonOutputManager_new_def N_SYPHON_CHANNEL_OUTPUTS_def
    by (subst write_flags_run) simp_all
  with False show ?thesis
    by (simp add: manager_ok_def isChannelOutputActive_def read_flag_def nth_opt_def nth_append
        N_SYPHON_CHANNEL_OUTPUTS_def)
qed

theorem syphon_flags:
  assumes "manager_ok m"
  shows "\<exists>m'. setChannelOutputActive c b m = (Inr (), m') \<and> manager_ok m' \<and>
    fst (isChannelOutputActive c' m') =
      (if c' = c \<and> unat c < 4 then Inr b else fst (isChannelOutputActive c' m))"
  using assms
  by (auto simp: manager_ok_def setChannelOutputActive_def isChannelOutputActive_def write_flag_def
      read_flag_def nth_opt_def N_SYPHON_CHANNEL_OUTPUTS_def nth_list_update word_unat_eq_iff)

section \<open>What a frame publishes\<close>

definition shown :: "'y syphon_api \<Rightarrow> bool \<Rightarrow> addr option \<Rightarrow> 'y \<Rightarrow> 'y" where
  "shown Y b t y = (case t of None \<Rightarrow> y | Some x \<Rightarrow> if b then publishTexture Y x y else y)"

lemma publishChannel_run:
  assumes "manager_ok m" "n < 4"
  shows "publishChannelOutputScreen Y (of_nat n) t m =
    (Inr (), m\<lparr>channelsOutput := (channelsOutput m)[n :=
       shown Y (channelOutputActive m ! n) t (channelsOutput m ! n)]\<rparr>)"
proof -
  have "unat (of_nat n :: 16 word) = n"
    using assms(2) by (simp add: unat_of_nat)
  with assms show ?thesis
    by (auto simp: publishChannelOutputScreen_def read_flag_def nth_opt_def shown_def manager_ok_def
        N_SYPHON_CHANNEL_OUTPUTS_def split: option.split)
qed

lemma publish_layers_run:
  assumes "manager_ok m" "n + length ts < 2 ^ 32"
  shows "\<exists>cs. publish_layers Y (of_nat n) ts m = (Inr (), m\<lparr>channelsOutput := cs\<rparr>) \<and> length cs = 4 \<and>
    (\<forall>i < 4. cs ! i =
       (if n \<le> i \<and> i - n < length ts
        then shown Y (channelOutputActive m ! i) (ts ! (i - n)) (channelsOutput m ! i)
        else channelsOutput m ! i))"
  using assms
proof (induction ts arbitrary: m n)
  case Nil
  then show ?case
    by (intro exI [of _ "channelsOutput m"]) (simp add: manager_ok_def)
next
  case (Cons t ts)
  have n: "unat (of_nat n :: uint) = n"
    using Cons.prems(2) by (simp add: unat_of_nat)
  show ?case
  proof (cases "n < 4")
    case True
    let ?m = "m\<lparr>channelsOutput := (channelsOutput m)[n :=
       shown Y (channelOutputActive m ! n) t (channelsOutput m ! n)]\<rparr>"
    have "manager_ok ?m"
      using Cons.prems(1) by (simp add: manager_ok_def)
    then obtain cs where cs: "publish_layers Y (of_nat (Suc n)) ts ?m = (Inr (), ?m\<lparr>channelsOutput := cs\<rparr>)"
      "length cs = 4"
      "\<forall>i < 4. cs ! i =
         (if Suc n \<le> i \<and> i - Suc n < length ts
          then shown Y (channelOutputActive ?m ! i) (ts ! (i - Suc n)) (channelsOutput ?m ! i)
          else channelsOutput ?m ! i)"
      using Cons.IH [of ?m "Suc n"] Cons.prems(2) by auto
    have "ucast (of_nat n :: uint) = (of_nat n :: 16 word)"
      using True by (simp add: unsigned_of_nat take_bit_nat_eq_self)
    then have "publish_layers Y (of_nat n) (t # ts) m = (Inr (), m\<lparr>channelsOutput := cs\<rparr>)"
      using cs(1) n True publishChannel_run [OF Cons.prems(1) True, of Y t]
      by (simp add: N_SYPHON_CHANNEL_OUTPUTS_def add.commute)
    moreover have "cs ! i =
       (if n \<le> i \<and> i - n < length (t # ts)
        then shown Y (channelOutputActive m ! i) ((t # ts) ! (i - n)) (channelsOutput m ! i)
        else channelsOutput m ! i)" if "i < 4" for i
      using cs(3) that Cons.prems(1)
      by (auto simp: manager_ok_def nth_list_update nth_Cons' less_Suc_eq_le not_less_eq_eq
          Suc_diff_le)
    ultimately show ?thesis
      using cs(2) by blast
  next
    case False
    with n Cons.IH [of m "Suc n"] Cons.prems show ?thesis
      by (auto simp: N_SYPHON_CHANNEL_OUTPUTS_def add.commute)
  qed
qed

text \<open>
  A frame publishes on each channel that is active and has a layer with a texture this texture, on
  no other channel anything, and the picture on the main output when it is active.
\<close>

theorem syphon_frame:
  assumes "manager_ok m" "length textures < 2 ^ 32"
  shows "\<exists>m'. render_publish Y textures picture m = (Inr (), m') \<and>
    (\<forall>i < 4. channelsOutput m' ! i =
       (if i < length textures
        then shown Y (channelOutputActive m ! i) (textures ! i) (channelsOutput m ! i)
        else channelsOutput m ! i)) \<and>
    mainOutput m' = shown Y (mainOutputActive m) (Some picture) (mainOutput m) \<and>
    channelOutputActive m' = channelOutputActive m"
proof -
  obtain cs where "publish_layers Y 0 textures m = (Inr (), m\<lparr>channelsOutput := cs\<rparr>)"
    "\<forall>i < 4. cs ! i =
       (if i < length textures
        then shown Y (channelOutputActive m ! i) (textures ! i) (channelsOutput m ! i)
        else channelsOutput m ! i)"
    using publish_layers_run [of m 0 textures Y] assms by auto
  then show ?thesis
    by (simp add: render_publish_def publishMainOutputScreen_def shown_def)
qed

section \<open>What the file manager keeps\<close>

text \<open>
  However often the thread cleans up, and whatever throws on the way, every scene keeps a well-formed table with the
  same instances in the same slots.
\<close>

lemma Engine_cleanup_frame: "frame slots (Engine_cleanup V now)"
  unfolding Engine_cleanup_def Set_cleanup_def Scene_cleanup_def
  by (auto intro!: frame_rules frame_intros split: option.split)

theorem file_manager_keeps_tables:
  assumes "table_ok sc s"
  shows "table_ok sc (snd (FileManager_run V rs s)) \<and> slots (snd (FileManager_run V rs s)) = slots s"
proof -
  have "preserves (table_ok sc) (Engine_cleanup V now)" for now
    unfolding Engine_cleanup_def Set_cleanup_def Scene_cleanup_def
    by (auto intro!: preserves_intros instances_keep_table split: option.split)
  then have "preserves (table_ok sc) (FileManager_run V rs)"
    by (induction rs) (auto intro!: preserves_intros split: prod.split)
  moreover have "frame slots (FileManager_run V rs)"
  proof (induction rs)
    case Nil
    show ?case
      by (simp add: frame_def)
  next
    case (Cons r rs)
    then show ?case
      unfolding FileManager_run.simps
      by (cases r) (auto intro!: frame_rules Engine_cleanup_frame)
  qed
  ultimately show ?thesis
    using assms by (simp add: preserves_snd frame_def)
qed

end
