(* ===== verification/ZmqEncoder.thy ===== *)
theory ZmqEncoder
  imports ZmqWire
begin

text \<open>
  The side of \<open>libzmq\<close> that turns messages into a stream of bytes: \<open>encoder.hpp\<close> with the classes
  derived from it, \<open>v1_encoder.cpp\<close>, \<open>v2_encoder.cpp\<close>, \<open>v3_1_encoder.cpp\<close> and \<open>raw_encoder.cpp\<close>.
  What the engine writes on a connection is made here. A message is its byte of flags and its data.
\<close>

unbundle bit_operations_syntax

section \<open>Messages\<close>

record msg =
  m_flags :: "8 word"
  m_data :: string

definition flag_more :: "8 word" where "flag_more = 1"
definition flag_command :: "8 word" where "flag_command = 2"
definition flag_ping :: "8 word" where "flag_ping = 4"
definition flag_pong :: "8 word" where "flag_pong = 8"
definition flag_subscribe :: "8 word" where "flag_subscribe = 12"
definition flag_cancel :: "8 word" where "flag_cancel = 16"
definition flag_credential :: "8 word" where "flag_credential = 32"
definition flag_routing_id :: "8 word" where "flag_routing_id = 64"

definition CMD_TYPE_MASK :: "8 word" where "CMD_TYPE_MASK = 0x1c"

definition msg_init :: msg where "msg_init = \<lparr>m_flags = 0, m_data = []\<rparr>"

definition has_flag :: "msg \<Rightarrow> 8 word \<Rightarrow> bool" where
  "has_flag m f \<longleftrightarrow> m_flags m AND f \<noteq> 0"

definition set_flags :: "8 word \<Rightarrow> msg \<Rightarrow> msg" where
  "set_flags f m = m\<lparr>m_flags := m_flags m OR f\<rparr>"

definition is_subscribe :: "msg \<Rightarrow> bool" where
  "is_subscribe m \<longleftrightarrow> m_flags m AND CMD_TYPE_MASK = flag_subscribe"

definition is_cancel :: "msg \<Rightarrow> bool" where
  "is_cancel m \<longleftrightarrow> m_flags m AND CMD_TYPE_MASK = flag_cancel"

definition is_ping :: "msg \<Rightarrow> bool" where
  "is_ping m \<longleftrightarrow> m_flags m AND CMD_TYPE_MASK = flag_ping"

definition is_pong :: "msg \<Rightarrow> bool" where
  "is_pong m \<longleftrightarrow> m_flags m AND CMD_TYPE_MASK = flag_pong"

definition sub_cmd_name :: string where
  "sub_cmd_name = CHR 0x09 # ''SUBSCRIBE''"

definition cancel_cmd_name :: string where
  "cancel_cmd_name = CHR 0x06 # ''CANCEL''"

section \<open>The state machine that fills a buffer\<close>

text \<open>
  \<open>en_write\<close> holds the bytes between \<open>_write_pos\<close> and the end of what is to be written. The member
  functions that \<open>_next\<close> can point to are the two constructors; a class derived from the encoder
  says what each of them hands to \<open>next_step\<close> for the message in progress.
\<close>

datatype enc_step = Enc_message_ready | Enc_size_ready

type_synonym enc_class = "enc_step \<Rightarrow> msg \<Rightarrow> string \<times> enc_step \<times> bool"

record encoder =
  en_write :: string
  en_next :: enc_step
  en_new_msg :: bool
  en_buf_size :: nat
  en_in_progress :: "msg option"

definition enc_next_step :: "string \<times> enc_step \<times> bool \<Rightarrow> encoder \<Rightarrow> encoder" where
  "enc_next_step = (\<lambda>(b, n, fresh) e. e\<lparr>en_write := b, en_next := n, en_new_msg := fresh\<rparr>)"

text \<open>The constructor of the base class, followed by the one \<open>next_step\<close> of a derived class.\<close>

definition encoder_new :: "nat \<Rightarrow> encoder" where
  "encoder_new bufsize =
     \<lparr>en_write = [], en_next = Enc_message_ready, en_new_msg = True, en_buf_size = bufsize,
      en_in_progress = None\<rparr>"

definition run_next :: "enc_class \<Rightarrow> msg \<Rightarrow> encoder \<Rightarrow> encoder" where
  "run_next C m e = enc_next_step (C (en_next e) m) e"

definition load_msg :: "enc_class \<Rightarrow> msg \<Rightarrow> encoder \<Rightarrow> encoder res" where
  "load_msg C m e =
     (if en_in_progress e \<noteq> None then Inl AssertFailed
      else Inr (run_next C m (e\<lparr>en_in_progress := Some m\<rparr>)))"

text \<open>
  The loop of \<open>encode\<close>: \<open>own\<close> says that the caller has given no buffer, \<open>limit\<close> is the size of the
  buffer that is filled and \<open>out\<close> what is in it. When the bytes to write fill the buffer of the
  encoder on their own they are returned in place.
\<close>

partial_function (option) encode_loop ::
  "enc_class \<Rightarrow> bool \<Rightarrow> nat \<Rightarrow> msg \<Rightarrow> string \<Rightarrow> encoder \<Rightarrow> (string \<times> encoder) option" where
  "encode_loop C own limit m out e =
     (if \<not> length out < limit then Some (out, e)
      else if en_write e = [] \<and> en_new_msg e then Some (out, e\<lparr>en_in_progress := None\<rparr>)
      else let e = (if en_write e = [] then run_next C m e else e) in
        if out = [] \<and> own \<and> limit \<le> length (en_write e)
        then Some (en_write e, e\<lparr>en_write := []\<rparr>)
        else let n = min (length (en_write e)) (limit - length out) in
          encode_loop C own limit m (out @ take n (en_write e)) (e\<lparr>en_write := drop n (en_write e)\<rparr>))"

definition encode :: "enc_class \<Rightarrow> nat option \<Rightarrow> encoder \<Rightarrow> (string \<times> encoder) option" where
  "encode C buf e =
     (case en_in_progress e of
        None \<Rightarrow> Some ([], e)
      | Some m \<Rightarrow> encode_loop C (buf = None) (case buf of None \<Rightarrow> en_buf_size e | Some n \<Rightarrow> n) m [] e)"

section \<open>The protocols\<close>

definition UCHAR_MAX :: nat where "UCHAR_MAX = 255"

definition byte :: "nat \<Rightarrow> char" where
  "byte n = char_of n"

definition more_flag :: "8 word" where "more_flag = 1"
definition large_flag :: "8 word" where "large_flag = 2"
definition command_flag :: "8 word" where "command_flag = 4"

text \<open>Version 2: flags, size and, in a subscription, a byte that says what it is.\<close>

definition v2_message_ready :: "msg \<Rightarrow> string \<times> enc_step \<times> bool" where
  "v2_message_ready m =
     (let size = length (m_data m);
          flags = (if has_flag m flag_more then more_flag else 0) OR
                  (if size > UCHAR_MAX then large_flag else 0) OR
                  (if has_flag m flag_command then command_flag else 0);
          size = (if is_subscribe m \<or> is_cancel m then size + 1 else size);
          sz = (if size > UCHAR_MAX then put_uint64 (of_nat size) else [byte size]);
          sub = (if is_subscribe m then [byte 1] else if is_cancel m then [byte 0] else [])
      in (put_uint8 flags @ sz @ sub, Enc_size_ready, False))"

definition v2_size_ready :: "msg \<Rightarrow> string \<times> enc_step \<times> bool" where
  "v2_size_ready m = (m_data m, Enc_message_ready, True)"

definition v2_encoder :: enc_class where
  "v2_encoder s = (case s of Enc_message_ready \<Rightarrow> v2_message_ready | Enc_size_ready \<Rightarrow> v2_size_ready)"

text \<open>Version 3.1: a subscription is a command with a name.\<close>

definition v3_1_message_ready :: "msg \<Rightarrow> string \<times> enc_step \<times> bool" where
  "v3_1_message_ready m =
     (let size = length (m_data m);
          command = has_flag m flag_command \<or> is_subscribe m \<or> is_cancel m;
          flags = (if has_flag m flag_more then more_flag else 0) OR
                  (if size > UCHAR_MAX then large_flag else 0) OR
                  (if command then command_flag else 0);
          sub = (if is_subscribe m then sub_cmd_name else if is_cancel m then cancel_cmd_name else []);
          size = size + length sub;
          sz = (if size > UCHAR_MAX then put_uint64 (of_nat size) else [byte size])
      in (put_uint8 flags @ sz @ sub, Enc_size_ready, False))"

definition v3_1_size_ready :: "msg \<Rightarrow> string \<times> enc_step \<times> bool" where
  "v3_1_size_ready m = (m_data m, Enc_message_ready, True)"

definition v3_1_encoder :: enc_class where
  "v3_1_encoder s =
     (case s of Enc_message_ready \<Rightarrow> v3_1_message_ready | Enc_size_ready \<Rightarrow> v3_1_size_ready)"

text \<open>Version 1: size, counting the byte of flags, and flags.\<close>

definition v1_message_ready :: "msg \<Rightarrow> string \<times> enc_step \<times> bool" where
  "v1_message_ready m =
     (let size = length (m_data m) + 1;
          size = (if is_subscribe m \<or> is_cancel m then size + 1 else size);
          flags = put_uint8 (m_flags m AND flag_more);
          hdr = (if size < UCHAR_MAX then [byte size] @ flags
                 else [byte UCHAR_MAX] @ put_uint64 (of_nat size) @ flags);
          sub = (if is_subscribe m then [byte 1] else if is_cancel m then [byte 0] else [])
      in (hdr @ sub, Enc_size_ready, False))"

definition v1_size_ready :: "msg \<Rightarrow> string \<times> enc_step \<times> bool" where
  "v1_size_ready m = (m_data m, Enc_message_ready, True)"

definition v1_encoder :: enc_class where
  "v1_encoder s = (case s of Enc_message_ready \<Rightarrow> v1_message_ready | Enc_size_ready \<Rightarrow> v1_size_ready)"

text \<open>Without a protocol the data is the stream. The one step is \<open>raw_message_ready\<close>.\<close>

definition raw_message_ready :: "msg \<Rightarrow> string \<times> enc_step \<times> bool" where
  "raw_message_ready m = (m_data m, Enc_message_ready, True)"

definition raw_encoder :: enc_class where
  "raw_encoder s = raw_message_ready"

section \<open>The stream of a message\<close>

text \<open>
  What is still to be written of a message, and the two states an encoder can be in: before the
  data of the message, or with nothing to come after the bytes at hand.
\<close>

definition pending :: "msg \<Rightarrow> encoder \<Rightarrow> string" where
  "pending m e = en_write e @ (if en_next e = Enc_size_ready then m_data m else [])"

definition enc_inv :: "encoder \<Rightarrow> bool" where
  "enc_inv e \<longleftrightarrow> en_new_msg e = (en_next e = Enc_message_ready) \<and>
     (en_in_progress e = None \<longrightarrow> en_write e = [] \<and> en_new_msg e)"

lemma enc_inv_new: "enc_inv (encoder_new n)"
  by (simp add: enc_inv_def encoder_new_def)

text \<open>
  A class of encoders writes \<open>frame m\<close> for a message: either a header and then the data, or all of
  it at once.
\<close>

locale frame_writer =
  fixes C :: enc_class
    and frame :: "msg \<Rightarrow> string"
  assumes at_start:
      "(\<exists>h. C Enc_message_ready m = (h, Enc_size_ready, False) \<and> frame m = h @ m_data m) \<or>
       C Enc_message_ready m = (frame m, Enc_message_ready, True)"
    and at_size: "C Enc_size_ready m = (m_data m, Enc_message_ready, True)"
begin

lemma load_msg_ok:
  assumes "enc_inv e" "en_in_progress e = None"
  obtains e' where "load_msg C m e = Inr e'" "enc_inv e'" "en_in_progress e' = Some m"
    "pending m e' = frame m" "en_buf_size e' = en_buf_size e"
  using assms at_start [of m]
  by (auto simp: load_msg_def run_next_def enc_next_step_def enc_inv_def pending_def split: prod.splits)

text \<open>The step that is taken when there is nothing at hand brings up the data of the message.\<close>

definition advance :: "msg \<Rightarrow> encoder \<Rightarrow> encoder" where
  "advance m e = (if en_write e = [] then run_next C m e else e)"

definition left :: "msg \<Rightarrow> encoder \<Rightarrow> nat" where
  "left m e = length (en_write e) + (if en_next e = Enc_size_ready then 1 + length (m_data m) else 0)"

lemma advance_ok:
  assumes "enc_inv e" "en_in_progress e = Some m" "\<not> (en_write e = [] \<and> en_new_msg e)"
  shows "pending m (advance m e) = pending m e"
    and "enc_inv ((advance m e)\<lparr>en_write := b\<rparr>)"
    and "en_in_progress (advance m e) = Some m"
    and "en_buf_size (advance m e) = en_buf_size e"
    and "en_write e \<noteq> [] \<longrightarrow> 0 < n \<Longrightarrow>
         left m ((advance m e)\<lparr>en_write := drop n (en_write (advance m e))\<rparr>) < left m e"
    and "en_write e = [] \<Longrightarrow> pending m e = en_write (advance m e)"
proof -
  have "en_write e \<noteq> [] \<or> en_next e = Enc_size_ready"
    using assms enc_step.exhaust [of "en_next e"] by (auto simp: enc_inv_def)
  then show "pending m (advance m e) = pending m e" "enc_inv ((advance m e)\<lparr>en_write := b\<rparr>)"
    "en_in_progress (advance m e) = Some m" "en_buf_size (advance m e) = en_buf_size e"
    "en_write e \<noteq> [] \<longrightarrow> 0 < n \<Longrightarrow>
       left m ((advance m e)\<lparr>en_write := drop n (en_write (advance m e))\<rparr>) < left m e"
    "en_write e = [] \<Longrightarrow> pending m e = en_write (advance m e)"
    using assms(1,2)
    by (auto simp: advance_def run_next_def enc_next_step_def at_size pending_def enc_inv_def left_def)
qed

text \<open>
  The loop comes back. What it has put into the buffer and what is still pending are together what
  was pending before; it stops with a full buffer or at the end of the message, and unless nothing
  was pending it has written something.
\<close>

lemma encode_loop_ok:
  assumes "enc_inv e" "en_in_progress e = Some m"
  shows "\<exists>w e'. encode_loop C own limit m out e = Some (out @ w, e') \<and> enc_inv e' \<and>
     en_buf_size e' = en_buf_size e \<and> w @ pending m e' = pending m e \<and>
     (en_in_progress e' = None \<and> pending m e' = [] \<or>
      en_in_progress e' = Some m \<and> limit \<le> length (out @ w)) \<and>
     (length out < limit \<and> pending m e \<noteq> [] \<longrightarrow> w \<noteq> [])"
  using assms
proof (induction "left m e" arbitrary: e out rule: less_induct)
  case less
  let ?a = "advance m e"
  let ?n = "min (length (en_write ?a)) (limit - length out)"
  let ?e = "?a\<lparr>en_write := drop ?n (en_write ?a)\<rparr>"
  consider "\<not> length out < limit" | "length out < limit" "en_write e = []" "en_new_msg e"
    | "length out < limit" "\<not> (en_write e = [] \<and> en_new_msg e)"
    by blast
  then show ?case
  proof cases
    case 1
    then show ?thesis using less.prems by (subst encode_loop.simps) auto
  next
    case 2
    then show ?thesis using less.prems
      by (subst encode_loop.simps) (auto simp: enc_inv_def pending_def)
  next
    case 3
    note adv = advance_ok [OF less.prems 3(2)]
    have step: "encode_loop C own limit m out e =
        (if out = [] \<and> own \<and> limit \<le> length (en_write ?a) then Some (en_write ?a, ?a\<lparr>en_write := []\<rparr>)
         else encode_loop C own limit m (out @ take ?n (en_write ?a)) ?e)"
      using 3 by (subst encode_loop.simps) (auto simp: Let_def advance_def)
    show ?thesis
    proof (cases "out = [] \<and> own \<and> limit \<le> length (en_write ?a)")
      case True
      have "en_write ?a @ pending m (?a\<lparr>en_write := []\<rparr>) = pending m e"
        using adv(1) by (simp add: pending_def)
      moreover have "encode_loop C own limit m out e = Some (out @ en_write ?a, ?a\<lparr>en_write := []\<rparr>)"
        using step True by simp
      ultimately show ?thesis using True 3 adv(2) [of "[]"] adv(3,4)
        by (intro exI [of _ "en_write ?a"] exI [of _ "?a\<lparr>en_write := []\<rparr>"]) auto
    next
      case False
      have "en_write e \<noteq> [] \<longrightarrow> 0 < ?n" using 3 by (auto simp: advance_def)
      from less.hyps [OF adv(5) [OF this] adv(2), of "out @ take ?n (en_write ?a)"] adv(3)
      obtain w e' where w: "encode_loop C own limit m (out @ take ?n (en_write ?a)) ?e =
            Some ((out @ take ?n (en_write ?a)) @ w, e')"
          "enc_inv e'" "en_buf_size e' = en_buf_size ?a" "w @ pending m e' = pending m ?e"
          "en_in_progress e' = None \<and> pending m e' = [] \<or>
           en_in_progress e' = Some m \<and> limit \<le> length ((out @ take ?n (en_write ?a)) @ w)"
        by auto
      have split: "take ?n (en_write ?a) @ pending m ?e = pending m e"
        using adv(1) by (simp add: pending_def)
      have "take ?n (en_write ?a) @ w \<noteq> []" if "pending m e \<noteq> []"
        using that 3 adv(6) by (cases "en_write e = []") (auto simp: advance_def)
      with w split adv(4) False show ?thesis
        by (auto simp: step intro!: exI [of _ "take ?n (en_write ?a) @ w"])
    qed
  qed
qed

text \<open>A call of \<open>encode\<close>, with or without a buffer of the caller.\<close>

lemma encode_ok:
  assumes "enc_inv e" "en_in_progress e = Some m"
  obtains w e' where "encode C buf e = Some (w, e')" "enc_inv e'" "en_buf_size e' = en_buf_size e"
    "w @ pending m e' = pending m e"
    "en_in_progress e' = None \<and> pending m e' = [] \<or> en_in_progress e' = Some m \<and>
       (case buf of None \<Rightarrow> en_buf_size e | Some n \<Rightarrow> n) \<le> length w"
    "0 < (case buf of None \<Rightarrow> en_buf_size e | Some n \<Rightarrow> n) \<and> pending m e \<noteq> [] \<longrightarrow> w \<noteq> []"
  using encode_loop_ok [OF assms, of "buf = None" "case buf of None \<Rightarrow> en_buf_size e | Some n \<Rightarrow> n" "[]"]
    assms(2) by (auto simp: encode_def)

end

text \<open>What each class writes for a message.\<close>

definition enc_frame :: "enc_class \<Rightarrow> msg \<Rightarrow> string" where
  "enc_frame C m = (case C Enc_message_ready m of (h, s, fresh) \<Rightarrow> h @ (if fresh then [] else m_data m))"

lemmas writer_defs = enc_frame_def Let_def v1_encoder_def v1_message_ready_def v1_size_ready_def
  v2_encoder_def v2_message_ready_def v2_size_ready_def v3_1_encoder_def v3_1_message_ready_def
  v3_1_size_ready_def raw_encoder_def raw_message_ready_def

interpretation v1w: frame_writer v1_encoder "enc_frame v1_encoder"
  by unfold_locales (simp_all add: writer_defs)

interpretation v2w: frame_writer v2_encoder "enc_frame v2_encoder"
  by unfold_locales (simp_all add: writer_defs)

interpretation v3_1w: frame_writer v3_1_encoder "enc_frame v3_1_encoder"
  by unfold_locales (simp_all add: writer_defs)

interpretation raww: frame_writer raw_encoder "enc_frame raw_encoder"
  by unfold_locales (simp_all add: writer_defs)

end
