(* ===== verification/ZmqDecoder.thy ===== *)
theory ZmqDecoder
  imports ZmqEncoder
begin

text \<open>
  The side of \<open>libzmq\<close> that takes messages out of a stream of bytes: \<open>decoder.hpp\<close> with the classes
  derived from it, \<open>v1_decoder.cpp\<close> and \<open>v2_decoder.cpp\<close>, and \<open>raw_decoder.cpp\<close>. A decoder is given
  the bytes in pieces of any size; a message may end inside a piece and start in an earlier one.
\<close>

unbundle bit_operations_syntax

section \<open>The state machine that takes a buffer apart\<close>

text \<open>
  \<open>_read_pos\<close> is inside the small buffer for sizes and flags, inside the data of the message in
  progress, or inside the buffer the bytes have come in, when the message is made in place.
  \<open>de_contents\<close> counts the messages that have been made in place in the current buffer; the
  allocator has room for the control blocks of \<open>max_counters\<close> of them. Of a message in progress
  \<open>de_size\<close> is the size, and its data is kept as far as it has been written.
\<close>

datatype dec_step = Flags_ready | One_byte_size_ready | Eight_byte_size_ready | Dec_message_ready

datatype read_pos = In_tmpbuf nat | In_msg nat | In_buffer

datatype dec_errno = EMSGSIZE | EPROTO | ENOMEM

datatype dec_rc = Rc_more | Rc_msg | Rc_error dec_errno

record decoder =
  de_next :: dec_step
  de_read_pos :: read_pos
  de_to_read :: nat
  de_buf_size :: nat
  de_contents :: nat
  de_tmpbuf :: string
  de_msg_flags :: "8 word"
  de_size :: nat
  de_in_progress :: msg
  de_zero_copy :: bool
  de_max_msg_size :: ulonglong

text \<open>
  What a derived class does at a step. The argument is the bytes that follow in the buffer, none
  when the bytes have come in elsewhere.
\<close>

type_synonym dec_class = "dec_step \<Rightarrow> string option \<Rightarrow> decoder \<Rightarrow> dec_rc res \<times> decoder"

definition max_vsm_size :: nat where "max_vsm_size = 33"

definition max_counters :: "nat \<Rightarrow> nat" where
  "max_counters n = (n + max_vsm_size - 1) div max_vsm_size"

definition dec_next_step :: "read_pos \<Rightarrow> nat \<Rightarrow> dec_step \<Rightarrow> decoder \<Rightarrow> decoder" where
  "dec_next_step p n s d = d\<lparr>de_read_pos := p, de_to_read := n, de_next := s\<rparr>"

text \<open>
  \<open>get_buffer\<close>: the number of bytes that may be read, and whether they go straight to where the
  decoder wants them.
\<close>

definition get_buffer :: "decoder \<Rightarrow> (bool \<times> nat) \<times> decoder" where
  "get_buffer d =
     (let d = d\<lparr>de_contents := 0\<rparr> in
      if de_buf_size d \<le> de_to_read d then ((True, de_to_read d), d) else ((False, de_buf_size d), d))"

definition overwrite :: "nat \<Rightarrow> string \<Rightarrow> string \<Rightarrow> string" where
  "overwrite k b s = take k s @ b @ drop (k + length b) s"

text \<open>Bytes that arrive at \<open>_read_pos\<close>.\<close>

definition put_bytes :: "string \<Rightarrow> decoder \<Rightarrow> decoder" where
  "put_bytes b d =
     (let d = d\<lparr>de_to_read := de_to_read d - length b\<rparr> in
      case de_read_pos d of
        In_tmpbuf k \<Rightarrow> d\<lparr>de_tmpbuf := overwrite k b (de_tmpbuf d), de_read_pos := In_tmpbuf (k + length b)\<rparr>
      | In_msg k \<Rightarrow> d\<lparr>de_in_progress := (de_in_progress d)\<lparr>m_data := overwrite k b (m_data (de_in_progress d))\<rparr>,
                      de_read_pos := In_msg (k + length b)\<rparr>
      | In_buffer \<Rightarrow> d)"

partial_function (option) run_steps ::
  "dec_class \<Rightarrow> string option \<Rightarrow> decoder \<Rightarrow> (dec_rc res \<times> decoder) option" where
  "run_steps C avail d =
     (if de_to_read d \<noteq> 0 then Some (Inr Rc_more, d)
      else case C (de_next d) avail d of
             (Inr Rc_more, d') \<Rightarrow> run_steps C avail d'
           | (r, d') \<Rightarrow> Some (r, d'))"

text \<open>
  \<open>decode\<close> in its two variants. The bytes it has not used are returned: the caller goes on with
  them.
\<close>

definition decode_direct ::
  "dec_class \<Rightarrow> string \<Rightarrow> decoder \<Rightarrow> (dec_rc res \<times> string \<times> decoder) option" where
  "decode_direct C data d =
     (if \<not> length data \<le> de_to_read d then Some (Inl AssertFailed, data, d)
      else map_option (\<lambda>(r, d'). (r, [], d')) (run_steps C None (put_bytes data d)))"

partial_function (option) decode_loop ::
  "dec_class \<Rightarrow> string \<Rightarrow> decoder \<Rightarrow> (dec_rc res \<times> string \<times> decoder) option" where
  "decode_loop C data d =
     (if data = [] then Some (Inr Rc_more, [], d)
      else let n = min (de_to_read d) (length data); rest = drop n data in
        case run_steps C (Some rest) (put_bytes (take n data) d) of
          None \<Rightarrow> None
        | Some (Inr Rc_more, d') \<Rightarrow> decode_loop C rest d'
        | Some (r, d') \<Rightarrow> Some (r, rest, d'))"

definition decode ::
  "dec_class \<Rightarrow> bool \<Rightarrow> string \<Rightarrow> decoder \<Rightarrow> (dec_rc res \<times> string \<times> decoder) option" where
  "decode C direct data d = (if direct then decode_direct C data d else decode_loop C data d)"

section \<open>Version 2\<close>

definition decoder_new :: "dec_step \<Rightarrow> nat \<Rightarrow> ulonglong \<Rightarrow> bool \<Rightarrow> decoder" where
  "decoder_new s bufsize maxmsgsize zero_copy =
     \<lparr>de_next = s, de_read_pos = In_tmpbuf 0, de_to_read = 1, de_buf_size = bufsize, de_contents = 0,
      de_tmpbuf = [], de_msg_flags = 0, de_size = 0, de_in_progress = msg_init,
      de_zero_copy = zero_copy, de_max_msg_size = maxmsgsize\<rparr>"

definition v2_decoder_new :: "nat \<Rightarrow> ulonglong \<Rightarrow> bool \<Rightarrow> decoder" where
  "v2_decoder_new = decoder_new Flags_ready"

definition v2_flags_ready :: "decoder \<Rightarrow> dec_rc res \<times> decoder" where
  "v2_flags_ready d =
     (let f = get_uint8 (de_tmpbuf d);
          d = d\<lparr>de_msg_flags := (if f AND more_flag \<noteq> 0 then flag_more else 0) OR
                               (if f AND command_flag \<noteq> 0 then flag_command else 0)\<rparr>
      in (Inr Rc_more,
          if f AND large_flag \<noteq> 0 then dec_next_step (In_tmpbuf 0) 8 Eight_byte_size_ready d
          else dec_next_step (In_tmpbuf 0) 1 One_byte_size_ready d))"

text \<open>
  \<open>init_size\<close> allocates memory for what does not fit into the message itself; \<open>mem n\<close> tells whether
  that succeeds.
\<close>

definition init_size_ok :: "(nat \<Rightarrow> bool) \<Rightarrow> nat \<Rightarrow> bool" where
  "init_size_ok mem n \<longleftrightarrow> n \<le> max_vsm_size \<or> mem n"

text \<open>
  \<open>too_large\<close>: a limit that is negative as a signed number is no limit. The size is taken as a
  \<open>size_t\<close> of 64 bits, so that the conversion loses nothing.
\<close>

definition too_large :: "ulonglong \<Rightarrow> decoder \<Rightarrow> bool" where
  "too_large n d \<longleftrightarrow> 0 \<le> sint (de_max_msg_size d) \<and> de_max_msg_size d < n"

definition new_message :: "read_pos \<Rightarrow> nat \<Rightarrow> string \<Rightarrow> decoder \<Rightarrow> decoder" where
  "new_message p n b d =
     dec_next_step p n Dec_message_ready
       (d\<lparr>de_in_progress := \<lparr>m_flags = de_msg_flags d, m_data = b\<rparr>, de_size := n\<rparr>)"

definition v2_size_ready_dec ::
  "(nat \<Rightarrow> bool) \<Rightarrow> ulonglong \<Rightarrow> string option \<Rightarrow> decoder \<Rightarrow> dec_rc res \<times> decoder" where
  "v2_size_ready_dec mem n avail d =
     (let k = unat n in
      if too_large n d then (Inr (Rc_error EMSGSIZE), d)
      else if de_zero_copy d \<and> avail = None then (Inl (UB OutOfBounds), d)
      else if \<not> de_zero_copy d \<or> length (the avail) < k then
        (if init_size_ok mem k then (Inr Rc_more, new_message (In_msg 0) k [] d)
         else (Inr (Rc_error ENOMEM), d\<lparr>de_in_progress := msg_init, de_size := 0\<rparr>))
      else if k < max_vsm_size then (Inr Rc_more, new_message (In_msg 0) k (take k (the avail)) d)
      else if \<not> de_contents d < max_counters (de_buf_size d) then (Inl (UB OutOfBounds), d)
      else (Inr Rc_more,
            new_message In_buffer k (take k (the avail)) (d\<lparr>de_contents := de_contents d + 1\<rparr>)))"

definition v2_message_ready_dec :: "decoder \<Rightarrow> dec_rc res \<times> decoder" where
  "v2_message_ready_dec d = (Inr Rc_msg, dec_next_step (In_tmpbuf 0) 1 Flags_ready d)"

definition v2_decoder :: "(nat \<Rightarrow> bool) \<Rightarrow> dec_class" where
  "v2_decoder mem s avail d =
     (case s of
        Flags_ready \<Rightarrow> v2_flags_ready d
      | One_byte_size_ready \<Rightarrow> v2_size_ready_dec mem (ucast (get_uint8 (de_tmpbuf d))) avail d
      | Eight_byte_size_ready \<Rightarrow> v2_size_ready_dec mem (get_uint64 (de_tmpbuf d)) avail d
      | Dec_message_ready \<Rightarrow> v2_message_ready_dec d)"

section \<open>Version 1\<close>

definition v1_decoder_new :: "nat \<Rightarrow> ulonglong \<Rightarrow> decoder" where
  "v1_decoder_new bufsize maxmsgsize = decoder_new One_byte_size_ready bufsize maxmsgsize False"

text \<open>The size of the message is known, its flags come next.\<close>

definition v1_init_size :: "(nat \<Rightarrow> bool) \<Rightarrow> nat \<Rightarrow> decoder \<Rightarrow> dec_rc res \<times> decoder" where
  "v1_init_size mem k d =
     (if init_size_ok mem k
      then (Inr Rc_more, dec_next_step (In_tmpbuf 0) 1 Flags_ready (d\<lparr>de_in_progress := msg_init, de_size := k\<rparr>))
      else (Inr (Rc_error ENOMEM), d\<lparr>de_in_progress := msg_init, de_size := 0\<rparr>))"

definition v1_one_byte_size_ready :: "(nat \<Rightarrow> bool) \<Rightarrow> decoder \<Rightarrow> dec_rc res \<times> decoder" where
  "v1_one_byte_size_ready mem d =
     (let b = get_uint8 (de_tmpbuf d) in
      if b = 0xff then (Inr Rc_more, dec_next_step (In_tmpbuf 0) 8 Eight_byte_size_ready d)
      else if b = 0 then (Inr (Rc_error EPROTO), d)
      else if 0 \<le> sint (de_max_msg_size d) \<and> sint (de_max_msg_size d) < uint b - 1
      then (Inr (Rc_error EMSGSIZE), d)
      else v1_init_size mem (unat b - 1) d)"

definition v1_eight_byte_size_ready :: "(nat \<Rightarrow> bool) \<Rightarrow> decoder \<Rightarrow> dec_rc res \<times> decoder" where
  "v1_eight_byte_size_ready mem d =
     (let n = get_uint64 (de_tmpbuf d) in
      if n = 0 then (Inr (Rc_error EPROTO), d)
      else if too_large (n - 1) d then (Inr (Rc_error EMSGSIZE), d)
      else v1_init_size mem (unat (n - 1)) d)"

definition v1_flags_ready :: "decoder \<Rightarrow> dec_rc res \<times> decoder" where
  "v1_flags_ready d =
     (Inr Rc_more,
      dec_next_step (In_msg 0) (de_size d) Dec_message_ready
        (d\<lparr>de_in_progress := set_flags (get_uint8 (de_tmpbuf d) AND flag_more) (de_in_progress d)\<rparr>))"

definition v1_message_ready_dec :: "decoder \<Rightarrow> dec_rc res \<times> decoder" where
  "v1_message_ready_dec d = (Inr Rc_msg, dec_next_step (In_tmpbuf 0) 1 One_byte_size_ready d)"

definition v1_decoder :: "(nat \<Rightarrow> bool) \<Rightarrow> dec_class" where
  "v1_decoder mem s avail d =
     (case s of
        One_byte_size_ready \<Rightarrow> v1_one_byte_size_ready mem d
      | Eight_byte_size_ready \<Rightarrow> v1_eight_byte_size_ready mem d
      | Flags_ready \<Rightarrow> v1_flags_ready d
      | Dec_message_ready \<Rightarrow> v1_message_ready_dec d)"

section \<open>No protocol\<close>

text \<open>Each piece that arrives is a message, in place when it is large enough.\<close>

definition raw_decode :: "string \<Rightarrow> decoder \<Rightarrow> dec_rc res \<times> string \<times> decoder" where
  "raw_decode data d = (Inr Rc_msg, [], d\<lparr>de_in_progress := \<lparr>m_flags = 0, m_data = data\<rparr>\<rparr>)"

section \<open>The steps as equations to compute with\<close>

declare encode_loop.simps [code] run_steps.simps [code] decode_loop.simps [code]

section \<open>Frames of version 2\<close>

text \<open>The flags that are carried by a frame.\<close>

definition plain :: "msg \<Rightarrow> bool" where
  "plain m \<longleftrightarrow> m_flags m \<in> {0, 1, 2, 3}"

definition v2_flags :: "msg \<Rightarrow> string" where
  "v2_flags m = put_uint8 ((if has_flag m flag_more then more_flag else 0) OR
     (if length (m_data m) > UCHAR_MAX then large_flag else 0) OR
     (if has_flag m flag_command then command_flag else 0))"

definition v2_size :: "msg \<Rightarrow> string" where
  "v2_size m = (if length (m_data m) > UCHAR_MAX then put_uint64 (of_nat (length (m_data m)))
     else [byte (length (m_data m))])"

definition v2_frame :: "msg \<Rightarrow> string" where
  "v2_frame m = v2_flags m @ v2_size m @ m_data m"

text \<open>A message the decoder accepts: within the limit, and there is memory for it.\<close>

definition fits :: "(nat \<Rightarrow> bool) \<Rightarrow> decoder \<Rightarrow> msg \<Rightarrow> bool" where
  "fits mem d m \<longleftrightarrow> length (m_data m) < 2 ^ 64 \<and> \<not> too_large (of_nat (length (m_data m))) d \<and>
     init_size_ok mem (length (m_data m))"

definition same_conf :: "decoder \<Rightarrow> decoder \<Rightarrow> bool" where
  "same_conf d d' \<longleftrightarrow> de_buf_size d' = de_buf_size d \<and> de_zero_copy d' = de_zero_copy d \<and>
     de_max_msg_size d' = de_max_msg_size d"

text \<open>Messages made in place are no shorter than \<open>max_vsm_size\<close>, so their control blocks suffice.\<close>

definition buf_ok :: "decoder \<Rightarrow> string \<Rightarrow> bool" where
  "buf_ok d data \<longleftrightarrow> de_contents d * max_vsm_size + length data \<le> de_buf_size d"

definition flags_phase :: "decoder \<Rightarrow> bool" where
  "flags_phase d \<longleftrightarrow> de_next d = Flags_ready \<and> de_read_pos d = In_tmpbuf 0 \<and> de_to_read d = 1"

definition size_phase :: "decoder \<Rightarrow> msg \<Rightarrow> string \<Rightarrow> bool" where
  "size_phase d m p \<longleftrightarrow>
     de_next d = (if length (m_data m) > UCHAR_MAX then Eight_byte_size_ready else One_byte_size_ready) \<and>
     de_read_pos d = In_tmpbuf (length p) \<and> de_to_read d = length (v2_size m) - length p \<and>
     take (length p) (de_tmpbuf d) = p \<and> de_msg_flags d = m_flags m"

definition body_phase :: "decoder \<Rightarrow> msg \<Rightarrow> nat \<Rightarrow> bool" where
  "body_phase d m j \<longleftrightarrow> de_next d = Dec_message_ready \<and> de_read_pos d = In_msg j \<and>
     j \<le> length (m_data m) \<and>
     de_to_read d = length (m_data m) - j \<and> m_flags (de_in_progress d) = m_flags m \<and>
     take j (m_data (de_in_progress d)) = take j (m_data m) \<and>
     length (m_data (de_in_progress d)) \<le> length (m_data m)"

definition in_place :: "decoder \<Rightarrow> msg \<Rightarrow> bool" where
  "in_place d m \<longleftrightarrow> de_next d = Dec_message_ready \<and> de_read_pos d = In_buffer \<and>
     de_to_read d = length (m_data m) \<and> de_in_progress d = m"

lemma same_conf_refl [simp]: "same_conf d d"
  by (simp add: same_conf_def)

lemma same_conf_trans: "same_conf d d' \<Longrightarrow> same_conf d' d'' \<Longrightarrow> same_conf d d''"
  by (simp add: same_conf_def)

lemma fits_conf: "same_conf d d' \<Longrightarrow> fits mem d' m = fits mem d m"
  by (simp add: same_conf_def fits_def too_large_def)

lemmas frame_defs = more_flag_def large_flag_def command_flag_def flag_more_def flag_command_def

lemma v2_flags_byte:
  assumes "plain m"
  obtains c where "v2_flags m = [c]"
    "(get_uint8 [c] AND large_flag \<noteq> 0) = (length (m_data m) > UCHAR_MAX)"
    "(if get_uint8 [c] AND more_flag \<noteq> 0 then flag_more else 0) OR
     (if get_uint8 [c] AND command_flag \<noteq> 0 then flag_command else 0) = m_flags m"
proof -
  define f where "f = (if has_flag m flag_more then more_flag else 0) OR
     (if length (m_data m) > UCHAR_MAX then large_flag else 0) OR
     (if has_flag m flag_command then command_flag else (0 :: 8 word))"
  obtain c where c: "v2_flags m = [c]" "get_uint8 [c] = f"
    using get_put_uint8 [of f] by (simp add: v2_flags_def f_def put_uint8_def)
  have "(f AND large_flag \<noteq> 0) = (length (m_data m) > UCHAR_MAX)"
    "(if f AND more_flag \<noteq> 0 then flag_more else 0) OR
     (if f AND command_flag \<noteq> 0 then flag_command else 0) = m_flags m"
    using assms unfolding f_def
    by (cases "length (m_data m) > UCHAR_MAX"; auto simp: plain_def has_flag_def frame_defs)+
  with c show thesis by (intro that [of c]) simp_all
qed

lemma length_v2_size: "length (v2_size m) = (if length (m_data m) > UCHAR_MAX then 8 else 1)"
  by (simp add: v2_size_def put_uint64_def)

lemma get_uint64_append: "length s = 8 \<Longrightarrow> get_uint64 (s @ t) = get_uint64 s"
  by (simp add: get_uint64_def nth_append)

lemma get_uint8_append: "s \<noteq> [] \<Longrightarrow> get_uint8 (s @ t) = get_uint8 s"
  by (simp add: get_uint8_def nth_append)

text \<open>The size that the decoder reads is the size of the message.\<close>

lemma v2_size_read:
  assumes "length (m_data m) < 2 ^ 64"
  shows "length (m_data m) > UCHAR_MAX \<Longrightarrow> get_uint64 (v2_size m @ t) = of_nat (length (m_data m))"
    and "\<not> length (m_data m) > UCHAR_MAX \<Longrightarrow>
         ucast (get_uint8 (v2_size m @ t)) = (of_nat (length (m_data m)) :: ulonglong)"
proof -
  show "length (m_data m) > UCHAR_MAX \<Longrightarrow> get_uint64 (v2_size m @ t) = of_nat (length (m_data m))"
    by (simp add: get_uint64_append length_v2_size) (simp add: v2_size_def get_put_uint64)
  assume n: "\<not> length (m_data m) > UCHAR_MAX"
  then have "unat (of_nat (length (m_data m)) :: 8 word) = length (m_data m)"
    "unat (of_nat (length (m_data m)) :: ulonglong) = length (m_data m)"
    by (simp_all add: unat_of_nat UCHAR_MAX_def)
  with n show "ucast (get_uint8 (v2_size m @ t)) = (of_nat (length (m_data m)) :: ulonglong)"
    by (intro iffD2 [OF word_unat_eq_iff]) (simp add: v2_size_def get_uint8_def byte_def UCHAR_MAX_def unsigned_ucast_eq
      take_bit_nat_eq_self)
qed

section \<open>The decoder at work\<close>

lemma decode_loop_Nil [simp]: "decode_loop C [] d = Some (Inr Rc_more, [], d)"
  by (simp add: decode_loop.simps)

lemma run_steps_wait: "de_to_read d \<noteq> 0 \<Longrightarrow> run_steps C avail d = Some (Inr Rc_more, d)"
  by (simp add: run_steps.simps)

lemma run_steps_go:
  "de_to_read d = 0 \<Longrightarrow> C (de_next d) avail d = (Inr Rc_more, d') \<Longrightarrow>
   run_steps C avail d = run_steps C avail d'"
  "de_to_read d = 0 \<Longrightarrow> C (de_next d) avail d = (Inr Rc_msg, d') \<Longrightarrow>
   run_steps C avail d = Some (Inr Rc_msg, d')"
  by (simp_all add: run_steps.simps [of C avail d])

text \<open>A piece that does not reach the end of the phase, and one that does.\<close>

lemma decode_loop_short:
  assumes "data \<noteq> []" "length data < de_to_read d"
  shows "decode_loop C data d = Some (Inr Rc_more, [], put_bytes data d)"
proof -
  have "de_to_read (put_bytes data d) = de_to_read d - length data"
    by (simp add: put_bytes_def Let_def split: read_pos.split)
  with assms show ?thesis
    by (simp add: decode_loop.simps [of C data d] run_steps_wait min_def)
qed

lemma decode_loop_phase:
  assumes "de_to_read d = length b" "b \<noteq> []"
  shows "run_steps C (Some rest) (put_bytes b d) = Some (Inr Rc_more, d') \<Longrightarrow>
         decode_loop C (b @ rest) d = decode_loop C rest d'"
    and "run_steps C (Some rest) (put_bytes b d) = Some (Inr Rc_msg, d') \<Longrightarrow>
         decode_loop C (b @ rest) d = Some (Inr Rc_msg, rest, d')"
  using assms by (simp_all add: decode_loop.simps [of C "b @ rest" d] Let_def)

lemma put_bytes_conf [simp]:
  "same_conf d (put_bytes b d') = same_conf d d'" "same_conf (put_bytes b d) d' = same_conf d d'"
  "de_contents (put_bytes b d) = de_contents d" "de_buf_size (put_bytes b d) = de_buf_size d"
  "de_zero_copy (put_bytes b d) = de_zero_copy d"
  "de_next (put_bytes b d) = de_next d" "de_msg_flags (put_bytes b d) = de_msg_flags d"
  "de_to_read (put_bytes b d) = de_to_read d - length b"
  by (simp_all add: put_bytes_def Let_def same_conf_def split: read_pos.split)

lemma dec_next_step_conf [simp]:
  "same_conf d (dec_next_step p n s d') = same_conf d d'"
  "same_conf d (d'\<lparr>de_msg_flags := f\<rparr>) = same_conf d d'"
  "same_conf d (d'\<lparr>de_in_progress := q, de_size := k\<rparr>) = same_conf d d'"
  "same_conf d (d'\<lparr>de_contents := k\<rparr>) = same_conf d d'"
  "de_buf_size (dec_next_step p n s d) = de_buf_size d"
  "de_contents (dec_next_step p n s d) = de_contents d" "de_in_progress (dec_next_step p n s d) = de_in_progress d"
  "de_next (dec_next_step p n s d) = s" "de_read_pos (dec_next_step p n s d) = p"
  "de_to_read (dec_next_step p n s d) = n" "de_msg_flags (dec_next_step p n s d) = de_msg_flags d"
  "de_tmpbuf (dec_next_step p n s d) = de_tmpbuf d"
  by (simp_all add: dec_next_step_def same_conf_def)

text \<open>The flags.\<close>

lemma flags_stage:
  assumes "flags_phase d" "plain m"
  obtains d1 where "\<And>data. decode_loop (v2_decoder mem) (v2_flags m @ data) d = decode_loop (v2_decoder mem) data d1"
    "size_phase d1 m []" "same_conf d d1" "de_contents d1 = de_contents d"
proof -
  from assms(2) obtain c where c: "v2_flags m = [c]"
    "(get_uint8 [c] AND large_flag \<noteq> 0) = (length (m_data m) > UCHAR_MAX)"
    "(if get_uint8 [c] AND more_flag \<noteq> 0 then flag_more else 0) OR
     (if get_uint8 [c] AND command_flag \<noteq> 0 then flag_command else 0) = m_flags m"
    by (rule v2_flags_byte)
  let ?d = "put_bytes [c] d"
  have t: "get_uint8 (de_tmpbuf ?d) = get_uint8 [c]"
    using assms(1) get_uint8_append [of "[c]"] by (simp add: put_bytes_def flags_phase_def overwrite_def)
  define d1 where "d1 = snd (v2_flags_ready ?d)"
  have d1: "d1 = dec_next_step (In_tmpbuf 0) (length (v2_size m))
      (if length (m_data m) > UCHAR_MAX then Eight_byte_size_ready else One_byte_size_ready)
      (?d\<lparr>de_msg_flags := m_flags m\<rparr>)"
    using c(2,3) by (simp add: d1_def v2_flags_ready_def t Let_def length_v2_size)
  have step: "v2_decoder mem (de_next ?d) avail ?d = (Inr Rc_more, d1)" for avail
    using assms(1) by (simp add: d1_def v2_decoder_def flags_phase_def v2_flags_ready_def Let_def)
  have "de_to_read ?d = 0" "de_to_read d1 \<noteq> 0"
    using assms(1) by (simp_all add: flags_phase_def d1 length_v2_size)
  then have "run_steps (v2_decoder mem) avail ?d = Some (Inr Rc_more, d1)" for avail
    by (simp add: run_steps_go(1) [of ?d "v2_decoder mem", OF _ step] run_steps_wait)
  then have "decode_loop (v2_decoder mem) (v2_flags m @ data) d = decode_loop (v2_decoder mem) data d1" for data
    unfolding c(1) using assms(1) by (intro decode_loop_phase) (simp_all add: flags_phase_def)
  moreover have "same_conf d d1"
    by (simp add: d1)
  ultimately show thesis by (intro that [of d1]) (auto simp: d1 size_phase_def)
qed

text \<open>The data: a message that is complete is handed out and the decoder starts over.\<close>

lemma done_stage:
  assumes "de_to_read d = 0" "de_next d = Dec_message_ready"
  obtains d1 where "run_steps (v2_decoder mem) avail d = Some (Inr Rc_msg, d1)" "flags_phase d1"
    "de_in_progress d1 = de_in_progress d" "same_conf d d1" "de_contents d1 = de_contents d"
proof (rule that [of "dec_next_step (In_tmpbuf 0) 1 Flags_ready d"])
  show "run_steps (v2_decoder mem) avail d = Some (Inr Rc_msg, dec_next_step (In_tmpbuf 0) 1 Flags_ready d)"
    using assms by (intro run_steps_go(2)) (simp_all add: v2_decoder_def v2_message_ready_dec_def)
qed (simp_all add: flags_phase_def)

lemma put_body:
  assumes "body_phase d m j" "drop j (m_data m) = b @ t"
  shows "body_phase (put_bytes b d) m (j + length b)"
    and "t = [] \<Longrightarrow> de_in_progress (put_bytes b d) = m"
proof -
  let ?q = "de_in_progress d"
  define a where "a = take j (m_data m)"
  have m: "m_data m = a @ b @ t" unfolding a_def assms(2) [symmetric] by simp
  have a: "length a = j" "take j (m_data ?q) = a" using assms(1) by (simp_all add: a_def body_phase_def)
  have q: "de_in_progress (put_bytes b d) = ?q\<lparr>m_data := a @ b @ drop (j + length b) (m_data ?q)\<rparr>"
    using assms(1) a by (simp add: put_bytes_def Let_def body_phase_def overwrite_def)
  have le: "length (m_data ?q) \<le> j + length b + length t" using assms(1) a by (simp add: body_phase_def m)
  have r: "de_read_pos (put_bytes b d) = In_msg (j + length b)"
    using assms(1) by (simp add: body_phase_def put_bytes_def Let_def)
  show "body_phase (put_bytes b d) m (j + length b)"
    using assms(1) a le by (simp add: body_phase_def q r m)
  show "de_in_progress (put_bytes b d) = m" if "t = []"
    using that assms(1) le m by (simp add: q body_phase_def)
qed

lemma body_stage:
  assumes "body_phase d m j" "j < length (m_data m)" "data \<noteq> []"
  shows "drop j (m_data m) = data @ t \<Longrightarrow> t \<noteq> [] \<Longrightarrow>
       \<exists>d1. decode_loop (v2_decoder mem) data d = Some (Inr Rc_more, [], d1) \<and>
         body_phase d1 m (j + length data) \<and> same_conf d d1"
    and "data = drop j (m_data m) @ x \<Longrightarrow>
       \<exists>d1. decode_loop (v2_decoder mem) data d = Some (Inr Rc_msg, x, d1) \<and> flags_phase d1 \<and>
         de_in_progress d1 = m \<and> same_conf d d1 \<and> de_contents d1 = de_contents d"
proof -
  assume t: "drop j (m_data m) = data @ t" "t \<noteq> []"
  have "length data < de_to_read d"
    using assms(1) arg_cong [OF t(1), of length] t(2) by (simp add: body_phase_def)
  with assms(3) put_body(1) [OF assms(1) t(1)]
  show "\<exists>d1. decode_loop (v2_decoder mem) data d = Some (Inr Rc_more, [], d1) \<and>
      body_phase d1 m (j + length data) \<and> same_conf d d1"
    by (auto simp: decode_loop_short)
next
  let ?b = "drop j (m_data m)"
  assume x: "data = ?b @ x"
  note put = put_body [OF assms(1), of ?b "[]", simplified]
  have d: "de_to_read (put_bytes ?b d) = 0" "de_next (put_bytes ?b d) = Dec_message_ready"
    using assms(1) by (simp_all add: body_phase_def)
  from d obtain d1 where d1: "run_steps (v2_decoder mem) (Some x) (put_bytes ?b d) = Some (Inr Rc_msg, d1)"
      "flags_phase d1" "de_in_progress d1 = m" "same_conf d d1" "de_contents d1 = de_contents d"
    by (rule done_stage [of _ mem "Some x"]) (simp add: put(2))
  have "de_to_read d = length ?b" "?b \<noteq> []" using assms by (simp_all add: body_phase_def)
  with d1 show "\<exists>d1. decode_loop (v2_decoder mem) data d = Some (Inr Rc_msg, x, d1) \<and> flags_phase d1 \<and>
      de_in_progress d1 = m \<and> same_conf d d1 \<and> de_contents d1 = de_contents d"
    unfolding x by (auto simp: decode_loop_phase(2) [OF _ _ d1(1)])
qed

text \<open>
  The size: the message is made, in its own memory or, when all of it has arrived, in the buffer.
\<close>

lemma new_message_conf [simp]:
  "same_conf d (new_message p n b d') = same_conf d d'" "de_contents (new_message p n b d) = de_contents d"
  "de_buf_size (new_message p n b d) = de_buf_size d"
  by (simp_all add: new_message_def)

lemma new_message_phase:
  assumes "de_msg_flags d = m_flags m"
  shows "n = length (m_data m) \<Longrightarrow> length b \<le> n \<Longrightarrow> body_phase (new_message (In_msg 0) n b d) m 0"
    and "n = length (m_data m) \<Longrightarrow> b = m_data m \<Longrightarrow> in_place (new_message In_buffer n b d) m"
  using assms by (simp_all add: new_message_def body_phase_def in_place_def)

lemma room_for_contents:
  assumes "c * max_vsm_size + n \<le> s" "max_vsm_size \<le> n"
  shows "c < max_counters s"
proof -
  have "Suc c * max_vsm_size \<le> s + max_vsm_size - 1" using assms by (simp add: max_vsm_size_def)
  then have "Suc c \<le> max_counters s"
    unfolding max_counters_def by (simp add: less_eq_div_iff_mult_less_eq max_vsm_size_def)
  then show ?thesis by simp
qed

lemma size_step:
  assumes "size_phase d m p" "v2_size m = p @ b" "fits mem d m" "buf_ok d rest"
    and rest: "(\<exists>x. rest = m_data m @ x) \<or> length rest < length (m_data m)"
  obtains d1 where "v2_decoder mem (de_next d) (Some rest) (put_bytes b d) = (Inr Rc_more, d1)"
    "body_phase d1 m 0 \<or> in_place d1 m \<and> (\<exists>x. rest = m_data m @ x)" "same_conf d d1"
    "\<And>x. rest = m_data m @ x \<Longrightarrow> buf_ok d1 x"
proof -
  let ?d = "put_bytes b d" and ?n = "length (m_data m)"
  have n: "unat (of_nat ?n :: ulonglong) = ?n" using assms(3) by (simp add: fits_def unat_of_nat)
  have tmp: "de_tmpbuf ?d = v2_size m @ drop (length (v2_size m)) (de_tmpbuf d)"
    using assms(1,2) by (simp add: put_bytes_def Let_def size_phase_def overwrite_def)
  have step: "v2_decoder mem (de_next d) (Some rest) ?d = v2_size_ready_dec mem (of_nat ?n) (Some rest) ?d"
    using assms(1,3) by (simp add: v2_decoder_def size_phase_def tmp v2_size_read fits_def)
  have flags: "de_msg_flags ?d = m_flags m" using assms(1) by (simp add: size_phase_def)
  have "fits mem ?d m" using assms(3) fits_conf [of d ?d] by simp
  then have fit: "\<not> too_large (of_nat ?n) ?d" "init_size_ok mem ?n" by (simp_all add: fits_def)
  consider "\<not> de_zero_copy d \<or> length rest < ?n"
    | x where "de_zero_copy d" "rest = m_data m @ x" "?n < max_vsm_size"
    | x where "de_zero_copy d" "rest = m_data m @ x" "max_vsm_size \<le> ?n"
    using rest not_less by blast
  then show thesis
  proof cases
    case 1
    with fit step show thesis
      by (intro that [of "new_message (In_msg 0) ?n [] ?d"])
        (use assms(4) in \<open>auto simp: v2_size_ready_dec_def n new_message_phase(1) [OF flags] buf_ok_def\<close>)
  next
    case (2 x)
    with fit step show thesis
      by (intro that [of "new_message (In_msg 0) ?n (take ?n rest) ?d"])
        (use assms(4) in \<open>auto simp: v2_size_ready_dec_def n new_message_phase(1) [OF flags] buf_ok_def\<close>)
  next
    case (3 x)
    have c: "de_contents d < max_counters (de_buf_size d)"
      using assms(4) 3 by (intro room_for_contents [of _ ?n]) (simp_all add: buf_ok_def)
    let ?e = "?d\<lparr>de_contents := de_contents ?d + 1\<rparr>"
    have "in_place (new_message In_buffer ?n (take ?n rest) ?e) m"
      using flags 3 by (intro new_message_phase) simp_all
    moreover have "buf_ok (new_message In_buffer ?n (take ?n rest) ?e) y" if "rest = m_data m @ y" for y
      using that 3 assms(4) by (simp add: buf_ok_def)
    ultimately show thesis using 3 fit step c
      by (intro that [of "new_message In_buffer ?n (take ?n rest) ?e"]) (auto simp: v2_size_ready_dec_def n)
  qed
qed

text \<open>A message that has arrived completely behind its size.\<close>

lemma complete_stage:
  assumes "body_phase d m 0 \<or> in_place d m"
  obtains d1 where
    "m_data m = [] \<longrightarrow> run_steps (v2_decoder mem) (Some x) d = Some (Inr Rc_msg, d1)"
    "m_data m \<noteq> [] \<longrightarrow> decode_loop (v2_decoder mem) (m_data m @ x) d = Some (Inr Rc_msg, x, d1)"
    "flags_phase d1" "de_in_progress d1 = m" "same_conf d d1" "de_contents d1 = de_contents d"
proof -
  let ?d = "put_bytes (m_data m) d"
  have d: "de_to_read ?d = 0" "de_next ?d = Dec_message_ready" "de_to_read d = length (m_data m)"
    using assms by (auto simp: body_phase_def in_place_def)
  have q: "de_in_progress ?d = m"
    using assms put_body(2) [of d m 0 "m_data m" "[]"]
    by (auto simp: in_place_def put_bytes_def Let_def)
  from d(1,2) obtain d1 where d1: "run_steps (v2_decoder mem) (Some x) ?d = Some (Inr Rc_msg, d1)"
      "flags_phase d1" "de_in_progress d1 = m" "same_conf d d1" "de_contents d1 = de_contents d"
    by (rule done_stage [of _ mem "Some x"]) (simp add: q)
  have "?d = d" if "m_data m = []"
    using that assms by (cases d) (auto simp: put_bytes_def overwrite_def body_phase_def in_place_def)
  moreover have "decode_loop (v2_decoder mem) (m_data m @ x) d = Some (Inr Rc_msg, x, d1)" if "m_data m \<noteq> []"
    using d(3) that d1(1) by (rule decode_loop_phase)
  ultimately show thesis using d1 by (intro that [of d1]) auto
qed

lemma size_stage:
  assumes "size_phase d m p" "v2_size m = p @ b" "b \<noteq> []" "fits mem d m" "buf_ok d rest"
  shows "m_data m = rest @ t \<Longrightarrow> t \<noteq> [] \<Longrightarrow>
       \<exists>d1. decode_loop (v2_decoder mem) (b @ rest) d = Some (Inr Rc_more, [], d1) \<and>
         body_phase d1 m (length rest) \<and> same_conf d d1"
    and "rest = m_data m @ x \<Longrightarrow>
       \<exists>d1. decode_loop (v2_decoder mem) (b @ rest) d = Some (Inr Rc_msg, x, d1) \<and> flags_phase d1 \<and>
         de_in_progress d1 = m \<and> same_conf d d1 \<and> buf_ok d1 x"
proof -
  let ?C = "v2_decoder mem" and ?d = "put_bytes b d"
  have r: "de_to_read d = length b" "de_to_read ?d = 0" "de_next ?d = de_next d"
    using assms(1,2) by (simp_all add: size_phase_def)
  note go = run_steps_go(1) [of ?d ?C, OF r(2), unfolded r(3)]
  {
    assume t: "m_data m = rest @ t" "t \<noteq> []"
    obtain d1 where d1: "?C (de_next d) (Some rest) ?d = (Inr Rc_more, d1)"
        "body_phase d1 m 0" "same_conf d d1"
      by (rule size_step [OF assms(1,2,4,5)]) (use t in auto)
    have "run_steps ?C (Some rest) ?d = Some (Inr Rc_more, d1)"
      using go [OF d1(1)] d1(2) t by (simp add: run_steps_wait body_phase_def)
    then have e: "decode_loop ?C (b @ rest) d = decode_loop ?C rest d1"
      using r assms(3) by (intro decode_loop_phase) simp_all
    show "\<exists>d1. decode_loop ?C (b @ rest) d = Some (Inr Rc_more, [], d1) \<and>
        body_phase d1 m (length rest) \<and> same_conf d d1"
    proof (cases "rest = []")
      case False
      with body_stage(1) [OF d1(2) _ False, of t mem] t d1(3) show ?thesis
        by (auto simp: e intro: same_conf_trans)
    qed (use d1 e in auto)
  next
    assume x: "rest = m_data m @ x"
    obtain d1 where d1: "?C (de_next d) (Some rest) ?d = (Inr Rc_more, d1)"
        "body_phase d1 m 0 \<or> in_place d1 m" "same_conf d d1" "buf_ok d1 x"
      by (rule size_step [OF assms(1,2,4,5)]) (use x in auto)
    from d1(2) obtain d2 where d2:
        "m_data m = [] \<longrightarrow> run_steps ?C (Some x) d1 = Some (Inr Rc_msg, d2)"
        "m_data m \<noteq> [] \<longrightarrow> decode_loop ?C (m_data m @ x) d1 = Some (Inr Rc_msg, x, d2)"
        "flags_phase d2" "de_in_progress d2 = m" "same_conf d1 d2" "de_contents d2 = de_contents d1"
      by (rule complete_stage [of _ _ mem x])
    have "decode_loop ?C (b @ rest) d = Some (Inr Rc_msg, x, d2)"
    proof (cases "m_data m = []")
      case True
      then have "run_steps ?C (Some rest) ?d = Some (Inr Rc_msg, d2)"
        using go [OF d1(1)] d2(1) x by simp
      then show ?thesis using r assms(3) x True by (simp add: decode_loop_phase(2))
    next
      case False
      then have "run_steps ?C (Some rest) ?d = Some (Inr Rc_more, d1)"
        using go [OF d1(1)] d1(2) by (auto simp: run_steps_wait body_phase_def in_place_def)
      then show ?thesis using r assms(3) x d2(2) False by (simp add: decode_loop_phase(1))
    qed
    with d2 d1(3,4) show "\<exists>d1. decode_loop ?C (b @ rest) d = Some (Inr Rc_msg, x, d1) \<and> flags_phase d1 \<and>
        de_in_progress d1 = m \<and> same_conf d d1 \<and> buf_ok d1 x"
      by (auto simp: buf_ok_def same_conf_def)
  }
qed

text \<open>
  The state of a decoder that has consumed the beginning \<open>pre\<close> of the frame of a message, and what
  one call makes of it.
\<close>

definition v2_at :: "(nat \<Rightarrow> bool) \<Rightarrow> decoder \<Rightarrow> msg \<Rightarrow> string \<Rightarrow> bool" where
  "v2_at mem d m pre \<longleftrightarrow> plain m \<and> fits mem d m \<and>
     (pre = [] \<and> flags_phase d \<or>
      (\<exists>p b. pre = v2_flags m @ p \<and> v2_size m = p @ b \<and> b \<noteq> [] \<and> size_phase d m p) \<or>
      (\<exists>j < length (m_data m). pre = v2_flags m @ v2_size m @ take j (m_data m) \<and> body_phase d m j))"

lemma v2_size_short:
  assumes "size_phase d m p" "v2_size m = p @ b" "b = data @ t" "data \<noteq> []" "t \<noteq> []"
  shows "\<exists>d1. decode_loop C data d = Some (Inr Rc_more, [], d1) \<and> size_phase d1 m (p @ data) \<and> same_conf d d1"
proof -
  have "length data < de_to_read d" using assms by (simp add: size_phase_def)
  then have "decode_loop C data d = Some (Inr Rc_more, [], put_bytes data d)"
    using assms(4) by (rule decode_loop_short [rotated])
  moreover have "size_phase (put_bytes data d) m (p @ data)"
    using assms(1) by (simp add: size_phase_def put_bytes_def Let_def overwrite_def)
  ultimately show ?thesis by simp
qed

lemma v2_from_size:
  assumes "plain m" "fits mem d m" "size_phase d m p" "v2_size m = p @ b" "b \<noteq> []" "buf_ok d data"
  shows "b @ m_data m = data @ t \<Longrightarrow> t \<noteq> [] \<Longrightarrow>
       \<exists>d1. decode_loop (v2_decoder mem) data d = Some (Inr Rc_more, [], d1) \<and>
         v2_at mem d1 m (v2_flags m @ p @ data) \<and> same_conf d d1"
    and "data = b @ m_data m @ x \<Longrightarrow>
       \<exists>d1. decode_loop (v2_decoder mem) data d = Some (Inr Rc_msg, x, d1) \<and> flags_phase d1 \<and>
         de_in_progress d1 = m \<and> same_conf d d1 \<and> buf_ok d1 x"
proof -
  assume t: "b @ m_data m = data @ t" "t \<noteq> []"
  consider "data = []" | u where "b = data @ u" "u \<noteq> []" "data \<noteq> []"
    | u where "data = b @ u" "m_data m = u @ t"
    using t(1) by (cases "data = []", simp, auto simp: append_eq_append_conv2, blast)
  then show "\<exists>d1. decode_loop (v2_decoder mem) data d = Some (Inr Rc_more, [], d1) \<and>
      v2_at mem d1 m (v2_flags m @ p @ data) \<and> same_conf d d1"
  proof cases
    case 1
    then show ?thesis using assms by (auto simp: v2_at_def)
  next
    case (2 u)
    with v2_size_short [OF assms(3,4) 2(1,3,2), of "v2_decoder mem"] assms(1,2,4) show ?thesis
      by (auto simp: v2_at_def fits_conf)
  next
    case (3 u)
    have "buf_ok d u" using assms(6) 3 by (simp add: buf_ok_def)
    from size_stage(1) [OF assms(3-5,2) this 3(2) t(2)] 3 assms t(2) show ?thesis
      by (auto simp: v2_at_def fits_conf intro!: exI [of _ "length u"])
  qed
next
  assume x: "data = b @ m_data m @ x"
  then have "buf_ok d (m_data m @ x)" using assms(6) by (simp add: buf_ok_def)
  from size_stage(2) [OF assms(3-5,2) this refl] show "\<exists>d1. decode_loop (v2_decoder mem) data d =
      Some (Inr Rc_msg, x, d1) \<and> flags_phase d1 \<and> de_in_progress d1 = m \<and> same_conf d d1 \<and> buf_ok d1 x"
    by (simp add: x)
qed

lemma v2_flags_front:
  assumes "v2_flags m @ r = data @ t" "plain m"
  shows "data = [] \<or> (\<exists>u. data = v2_flags m @ u \<and> r = u @ t)"
proof -
  from assms(2) obtain c where "v2_flags m = [c]" by (rule v2_flags_byte)
  with assms(1) show ?thesis by (cases data) auto
qed

lemma drop_from_take: "xs = take j xs @ r \<Longrightarrow> drop j xs = r"
  by (metis append_take_drop_id same_append_eq)

lemma v2_decode_part:
  assumes "v2_at mem d m pre" "buf_ok d data" "v2_frame m = pre @ data @ t" "t \<noteq> []"
  shows "\<exists>d1. decode_loop (v2_decoder mem) data d = Some (Inr Rc_more, [], d1) \<and>
           v2_at mem d1 m (pre @ data) \<and> same_conf d d1"
proof -
  have m: "plain m" "fits mem d m" using assms(1) by (simp_all add: v2_at_def)
  consider "pre = []" "flags_phase d"
    | p b where "pre = v2_flags m @ p" "v2_size m = p @ b" "b \<noteq> []" "size_phase d m p"
    | j where "j < length (m_data m)" "pre = v2_flags m @ v2_size m @ take j (m_data m)" "body_phase d m j"
    using assms(1) by (auto simp: v2_at_def)
  then show ?thesis
  proof cases
    case 1
    then consider "data = []" | u where "data = v2_flags m @ u" "v2_size m @ m_data m = u @ t"
      using v2_flags_front [of m "v2_size m @ m_data m"] assms(3) m(1) by (auto simp: v2_frame_def)
    then show ?thesis
    proof cases
      case (2 u)
      from 1(2) m(1) obtain d1 where
        d1: "decode_loop (v2_decoder mem) (v2_flags m @ u) d = decode_loop (v2_decoder mem) u d1"
          "size_phase d1 m []" "same_conf d d1" "de_contents d1 = de_contents d"
        by (rule flags_stage) blast
      have "buf_ok d1 u" "fits mem d1 m" "v2_size m \<noteq> []"
        using assms(2) d1(3,4) 2(1) m(2) length_v2_size [of m] fits_conf [OF d1(3)]
        by (auto simp: buf_ok_def same_conf_def split: if_splits)
      with v2_from_size(1) [OF m(1), of mem d1 "[]" "v2_size m" u t] d1 2 assms(4) 1(1) show ?thesis
        by (auto intro: same_conf_trans)
    qed (use assms(1) in auto)
  next
    case (2 p b)
    with v2_from_size(1) [OF m 2(4,2,3) assms(2), of t] assms(3,4) show ?thesis
      by (auto simp: v2_frame_def)
  next
    case (3 j)
    have t: "drop j (m_data m) = data @ t"
      by (rule drop_from_take [OF assms(3) [unfolded 3(2) v2_frame_def append_assoc same_append_eq]])
    show ?thesis
    proof (cases "data = []")
      case False
      have "j + length data < length (m_data m)"
        using arg_cong [OF t, of length] assms(4) 3(1) by (cases t) auto
      moreover have "take (j + length data) (m_data m) = take j (m_data m) @ data"
        by (simp add: take_add t)
      ultimately show ?thesis
        using body_stage(1) [OF 3(3,1) False t assms(4), of mem] m 3(2) by (fastforce simp: v2_at_def fits_conf)
    qed (use assms(1) in auto)
  qed
qed

lemma v2_decode_whole:
  assumes "v2_at mem d m pre" "buf_ok d data" "v2_frame m = pre @ t" "data = t @ x" "t \<noteq> []"
  shows "\<exists>d1. decode_loop (v2_decoder mem) data d = Some (Inr Rc_msg, x, d1) \<and> flags_phase d1 \<and>
           de_in_progress d1 = m \<and> same_conf d d1 \<and> buf_ok d1 x"
proof -
  have m: "plain m" "fits mem d m" using assms(1) by (simp_all add: v2_at_def)
  consider "pre = []" "flags_phase d"
    | p b where "pre = v2_flags m @ p" "v2_size m = p @ b" "b \<noteq> []" "size_phase d m p"
    | j where "j < length (m_data m)" "pre = v2_flags m @ v2_size m @ take j (m_data m)" "body_phase d m j"
    using assms(1) by (auto simp: v2_at_def)
  then show ?thesis
  proof cases
    case 1
    let ?u = "v2_size m @ m_data m @ x"
    from 1(2) m(1) obtain d1 where
      d1: "decode_loop (v2_decoder mem) (v2_flags m @ ?u) d = decode_loop (v2_decoder mem) ?u d1"
        "size_phase d1 m []" "same_conf d d1" "de_contents d1 = de_contents d"
      by (rule flags_stage) blast
    have data: "data = v2_flags m @ ?u" using assms(3,4) 1(1) by (simp add: v2_frame_def)
    then have "buf_ok d1 ?u" "fits mem d1 m" "v2_size m \<noteq> []"
      using assms(2) d1(3,4) m(2) length_v2_size [of m] fits_conf [OF d1(3)]
      by (auto simp: buf_ok_def same_conf_def split: if_splits)
    with v2_from_size(2) [OF m(1), of mem d1 "[]" "v2_size m" ?u x] d1 data show ?thesis
      by (auto intro: same_conf_trans)
  next
    case (2 p b)
    with v2_from_size(2) [OF m 2(4,2,3) assms(2), of x] assms(3,4) show ?thesis
      by (auto simp: v2_frame_def)
  next
    case (3 j)
    have t: "drop j (m_data m) = t"
      by (rule drop_from_take [OF assms(3) [unfolded 3(2) v2_frame_def append_assoc same_append_eq]])
    have "data \<noteq> []" using assms(4,5) by simp
    with body_stage(2) [OF 3(3,1) this, of x mem] assms(2,4) t show ?thesis
      by (auto simp: buf_ok_def same_conf_def)
  qed
qed

text \<open>Bytes that have been read straight into the data of the message.\<close>

lemma direct_body:
  assumes "v2_at mem d m pre" "8 < de_to_read d"
  obtains j where "j < length (m_data m)" "pre = v2_flags m @ v2_size m @ take j (m_data m)" "body_phase d m j"
proof -
  have "\<not> flags_phase d" using assms(2) by (simp add: flags_phase_def)
  moreover have "\<not> size_phase d m p" for p
    using assms(2) length_v2_size [of m] by (auto simp: size_phase_def split: if_splits)
  ultimately show thesis using assms(1) that by (auto simp: v2_at_def)
qed

lemma v2_direct_part:
  assumes "v2_at mem d m pre" "8 < de_to_read d" "v2_frame m = pre @ data @ t" "t \<noteq> []"
  shows "\<exists>d1. decode_direct (v2_decoder mem) data d = Some (Inr Rc_more, [], d1) \<and>
           v2_at mem d1 m (pre @ data) \<and> same_conf d d1"
proof -
  have m: "plain m" "fits mem d m" using assms(1) by (simp_all add: v2_at_def)
  from assms(1,2) obtain j where
    j: "j < length (m_data m)" "pre = v2_flags m @ v2_size m @ take j (m_data m)" "body_phase d m j"
    by (rule direct_body)
  have t: "drop j (m_data m) = data @ t"
    by (rule drop_from_take [OF assms(3) [unfolded j(2) v2_frame_def append_assoc same_append_eq]])
  have len: "j + length data < length (m_data m)"
    using arg_cong [OF t, of length] assms(4) j(1) by (cases t) auto
  then have "length data < de_to_read d" using j(3) by (simp add: body_phase_def)
  then have "decode_direct (v2_decoder mem) data d = Some (Inr Rc_more, [], put_bytes data d)"
    by (simp add: decode_direct_def run_steps_wait)
  moreover have "take (j + length data) (m_data m) = take j (m_data m) @ data" by (simp add: take_add t)
  then have "v2_at mem (put_bytes data d) m (pre @ data)"
    using put_body(1) [OF j(3) t] len m fits_conf [of d "put_bytes data d"] j(2)
    by (auto simp: v2_at_def intro!: exI [of _ "j + length data"])
  ultimately show ?thesis by simp
qed

lemma v2_direct_whole:
  assumes "v2_at mem d m pre" "8 < de_to_read d" "v2_frame m = pre @ t"
  shows "length t = de_to_read d"
    and "\<exists>d1. decode_direct (v2_decoder mem) t d = Some (Inr Rc_msg, [], d1) \<and> flags_phase d1 \<and>
           de_in_progress d1 = m \<and> same_conf d d1"
proof -
  from assms(1,2) obtain j where
    j: "j < length (m_data m)" "pre = v2_flags m @ v2_size m @ take j (m_data m)" "body_phase d m j"
    by (rule direct_body)
  have t: "drop j (m_data m) = t"
    by (rule drop_from_take [OF assms(3) [unfolded j(2) v2_frame_def append_assoc same_append_eq]])
  show len: "length t = de_to_read d" using j(3) arg_cong [OF t, of length] by (simp add: body_phase_def)
  have q: "de_in_progress (put_bytes t d) = m" using put_body(2) [OF j(3), of t "[]"] t by simp
  have "de_to_read (put_bytes t d) = 0" "de_next (put_bytes t d) = Dec_message_ready"
    using len j(3) by (simp_all add: body_phase_def)
  then obtain d1 where "run_steps (v2_decoder mem) None (put_bytes t d) = Some (Inr Rc_msg, d1)"
      "flags_phase d1" "de_in_progress d1 = m" "same_conf d d1"
    by (rule done_stage [of _ mem None]) (simp add: q)
  then show "\<exists>d1. decode_direct (v2_decoder mem) t d = Some (Inr Rc_msg, [], d1) \<and> flags_phase d1 \<and>
      de_in_progress d1 = m \<and> same_conf d d1"
    using len by (simp add: decode_direct_def)
qed

section \<open>A decoder that reads frames\<close>

text \<open>
  The contract of a protocol: from the state \<open>mid d m pre\<close>, in which the beginning \<open>pre\<close> of the frame
  of \<open>m\<close> has been consumed, a piece that does not reach the end of the frame is taken in whole, and
  one that does gives the message and leaves what comes behind it. \<open>readable\<close> says that the piece
  is in the buffer, or that it was read straight to its place.
\<close>

definition readable :: "decoder \<Rightarrow> bool \<Rightarrow> string \<Rightarrow> bool" where
  "readable d direct data \<longleftrightarrow>
     (if direct then 8 < de_buf_size d \<and> de_buf_size d \<le> de_to_read d \<and> length data \<le> de_to_read d
      else buf_ok d data)"

locale frame_reader =
  fixes D :: dec_class
    and frame :: "msg \<Rightarrow> string"
    and idle :: "decoder \<Rightarrow> bool"
    and mid :: "decoder \<Rightarrow> msg \<Rightarrow> string \<Rightarrow> bool"
    and ok :: "decoder \<Rightarrow> msg \<Rightarrow> bool"
  assumes start: "idle d \<Longrightarrow> ok d m \<Longrightarrow> mid d m []"
    and unfinished: "mid d m pre \<Longrightarrow> \<exists>t. frame m = pre @ t \<and> t \<noteq> []"
    and ok_conf: "same_conf d d' \<Longrightarrow> ok d' m = ok d m"
    and reset: "idle d \<Longrightarrow> idle (d\<lparr>de_contents := 0\<rparr>)" "idle d \<Longrightarrow> idle (d\<lparr>de_in_progress := q\<rparr>)"
      "mid d m pre \<Longrightarrow> mid (d\<lparr>de_contents := 0\<rparr>) m pre"
    and idle_start: "idle d \<Longrightarrow> mid d m pre \<Longrightarrow> pre = []"
    and part: "mid d m pre \<Longrightarrow> readable d direct data \<Longrightarrow> frame m = pre @ data @ t \<Longrightarrow> t \<noteq> [] \<Longrightarrow>
      \<exists>d1. decode D direct data d = Some (Inr Rc_more, [], d1) \<and> mid d1 m (pre @ data) \<and> same_conf d d1"
    and whole: "mid d m pre \<Longrightarrow> readable d direct (t @ x) \<Longrightarrow> frame m = pre @ t \<Longrightarrow>
      \<exists>d1. decode D direct (t @ x) d = Some (Inr Rc_msg, x, d1) \<and> idle d1 \<and> de_in_progress d1 = m \<and>
        same_conf d d1 \<and> (x \<noteq> [] \<longrightarrow> readable d1 direct x)"
begin

text \<open>
  The messages that a stream of frames still holds: the decoder is somewhere in the first of them.
\<close>

definition ready :: "decoder \<Rightarrow> msg list \<Rightarrow> string \<Rightarrow> bool" where
  "ready d ms pre \<longleftrightarrow> (\<forall>m \<in> set ms. ok d m) \<and>
     (case ms of [] \<Rightarrow> idle d \<and> pre = [] | m # _ \<Rightarrow> mid d m pre)"

lemma ready_idle: "idle d \<Longrightarrow> \<forall>m \<in> set ms. ok d m \<Longrightarrow> ready d ms []"
  by (cases ms) (auto simp: ready_def start)

lemma ready_more: "ready d ms pre \<Longrightarrow> ok d m \<Longrightarrow> ready d (ms @ [m]) pre"
  by (cases ms) (auto simp: ready_def start)

lemma ready_reset: "ready d ms pre \<Longrightarrow> ready (d\<lparr>de_contents := 0\<rparr>) ms pre"
  using ok_conf [of d "d\<lparr>de_contents := 0\<rparr>"] by (auto simp: ready_def reset split: list.splits)

lemma ready_start: "idle d \<Longrightarrow> ready d ms pre \<Longrightarrow> pre = []"
  by (cases ms) (auto simp: ready_def dest: idle_start)

lemma ready_taken: "idle d \<Longrightarrow> ready d ms [] \<Longrightarrow> ready (d\<lparr>de_in_progress := q\<rparr>) ms []"
  using ok_conf [of d "d\<lparr>de_in_progress := q\<rparr>"]
  by (intro ready_idle) (auto simp: reset ready_def same_conf_def)

lemma decode_stream:
  assumes "ready d ms pre" "readable d direct data" "data \<noteq> []" "concat (map frame ms) = pre @ data @ z"
  shows "(\<exists>d1. decode D direct data d = Some (Inr Rc_more, [], d1) \<and> ready d1 ms (pre @ data) \<and> same_conf d d1) \<or>
    (\<exists>m ms' x d1. decode D direct data d = Some (Inr Rc_msg, x, d1) \<and> ms = m # ms' \<and> de_in_progress d1 = m \<and>
       idle d1 \<and> same_conf d d1 \<and> ready d1 ms' [] \<and> concat (map frame ms') = x @ z \<and>
       (x \<noteq> [] \<longrightarrow> readable d1 direct x) \<and> length x < length data)"
proof (cases ms)
  case Nil
  then show ?thesis using assms(3,4) by simp
next
  case (Cons m ms')
  then have at: "mid d m pre" and oks: "ok d m" "\<forall>k \<in> set ms'. ok d k" using assms(1) by (auto simp: ready_def)
  have eq: "frame m @ concat (map frame ms') = pre @ data @ z" using assms(4) Cons by simp
  consider t where "frame m = pre @ data @ t" "t \<noteq> []" | t x where "frame m = pre @ t" "data = t @ x" "t \<noteq> []"
      "concat (map frame ms') = x @ z"
  proof -
    from unfinished [OF at] obtain u where u: "frame m = pre @ u" "u \<noteq> []" by blast
    with eq have "u @ concat (map frame ms') = data @ z" by simp
    then consider us where "u = data @ us" "z = us @ concat (map frame ms')"
      | us where "data = u @ us" "concat (map frame ms') = us @ z"
      by (auto simp: append_eq_append_conv2)
    then show thesis
    proof cases
      case (1 us)
      with u that(1) that(2) [of data "[]"] assms(3) show thesis by (cases "us = []") auto
    qed (use u that in auto)
  qed
  then show ?thesis
  proof cases
    case (1 t)
    from part [OF at assms(2) this] show ?thesis
      using oks ok_conf Cons by (auto simp: ready_def)
  next
    case (2 t x)
    obtain d1 where d1: "decode D direct (t @ x) d = Some (Inr Rc_msg, x, d1)" "idle d1" "de_in_progress d1 = m"
        "same_conf d d1" "x \<noteq> [] \<longrightarrow> readable d1 direct x"
      using whole [OF at assms(2) [unfolded 2(2)] 2(1)] by blast
    then show ?thesis using 2 oks ok_conf [OF d1(4)] Cons ready_idle [OF d1(2), of ms'] by auto
  qed
qed

end

definition v2_ok :: "(nat \<Rightarrow> bool) \<Rightarrow> decoder \<Rightarrow> msg \<Rightarrow> bool" where
  "v2_ok mem d m \<longleftrightarrow> plain m \<and> fits mem d m"

lemma v2_at_unfinished:
  assumes "v2_at mem d m pre"
  shows "\<exists>t. v2_frame m = pre @ t \<and> t \<noteq> []"
proof -
  have "v2_flags m \<noteq> []" by (simp add: v2_flags_def put_uint8_def)
  consider "pre = []" | p b where "pre = v2_flags m @ p" "v2_size m = p @ b" "b \<noteq> []"
    | j where "j < length (m_data m)" "pre = v2_flags m @ v2_size m @ take j (m_data m)"
    using assms by (auto simp: v2_at_def)
  then show ?thesis
  proof cases
    case (3 j)
    then have "v2_frame m = pre @ drop j (m_data m)" "drop j (m_data m) \<noteq> []" by (simp_all add: v2_frame_def)
    then show ?thesis by blast
  qed (use \<open>v2_flags m \<noteq> []\<close> in \<open>auto simp: v2_frame_def\<close>)
qed

lemma v2_at_reset:
  "flags_phase d \<Longrightarrow> flags_phase (d\<lparr>de_contents := 0\<rparr>)"
  "flags_phase d \<Longrightarrow> flags_phase (d\<lparr>de_in_progress := q\<rparr>)"
  "v2_at mem d m pre \<Longrightarrow> v2_at mem (d\<lparr>de_contents := 0\<rparr>) m pre"
  by (auto simp: v2_at_def flags_phase_def size_phase_def body_phase_def fits_def too_large_def)

interpretation v2r: frame_reader "v2_decoder mem" v2_frame flags_phase "v2_at mem" "v2_ok mem" for mem
proof unfold_locales
  fix d d' m pre data t x direct
  show "flags_phase d \<Longrightarrow> v2_ok mem d m \<Longrightarrow> v2_at mem d m []"
    by (simp add: v2_ok_def v2_at_def)
  show "same_conf d d' \<Longrightarrow> v2_ok mem d' m = v2_ok mem d m"
    by (simp add: v2_ok_def fits_conf [of d d'])
  show "flags_phase d \<Longrightarrow> v2_at mem d m pre \<Longrightarrow> pre = []"
    by (auto simp: v2_at_def flags_phase_def size_phase_def body_phase_def split: if_splits)
  show "v2_at mem d m pre \<Longrightarrow> readable d direct data \<Longrightarrow> v2_frame m = pre @ data @ t \<Longrightarrow> t \<noteq> [] \<Longrightarrow>
      \<exists>d1. decode (v2_decoder mem) direct data d = Some (Inr Rc_more, [], d1) \<and> v2_at mem d1 m (pre @ data) \<and>
        same_conf d d1"
    using v2_decode_part [of mem d m pre data t] v2_direct_part [of mem d m pre data t]
    by (auto simp: decode_def readable_def split: if_splits)
  assume at: "v2_at mem d m pre" and r: "readable d direct (t @ x)" and f: "v2_frame m = pre @ t"
  have "t \<noteq> []" using v2_at_unfinished [OF at] f by auto
  moreover have "x = []" if direct using that at r f v2_direct_whole(1) [OF at _ f] by (simp add: readable_def)
  ultimately show "\<exists>d1. decode (v2_decoder mem) direct (t @ x) d = Some (Inr Rc_msg, x, d1) \<and> flags_phase d1 \<and>
      de_in_progress d1 = m \<and> same_conf d d1 \<and> (x \<noteq> [] \<longrightarrow> readable d1 direct x)"
    using v2_decode_whole [OF at _ f refl, of x] v2_direct_whole(2) [OF at _ f] r
    by (cases direct) (auto simp: decode_def readable_def)
qed (auto intro: v2_at_unfinished v2_at_reset)

end
