(* ===== verification/ZmqStream.thy ===== *)
theory ZmqStream
  imports ZmqDecoder
begin

text \<open>
  \<open>libzmq/stream_engine_base.cpp\<close>: the engine between the session of a socket and a connection, after
  the handshake. It encodes the messages the session has and writes them to the connection, and
  decodes what it reads and pushes it to the session, which may ask it to wait.
\<close>

unbundle bit_operations_syntax

section \<open>The engine\<close>

text \<open>
  What the engine calls: reading at most so many bytes from the connection and writing bytes to it,
  and the two member functions \<open>_next_msg\<close> and \<open>_process_msg\<close>, which take a message from the session
  and give one to it. The session and the connection are the state \<open>'w\<close>.
\<close>

datatype read_rc = Read_data string | Read_again | Read_error

datatype push_rc = Push_ok | Push_again | Push_error

record 'w engine_env =
  ev_read :: "nat \<Rightarrow> 'w \<Rightarrow> read_rc \<times> 'w"
  ev_write :: "string \<Rightarrow> 'w \<Rightarrow> nat option \<times> 'w"
  ev_next_msg :: "'w \<Rightarrow> msg option \<times> 'w"
  ev_process_msg :: "msg \<Rightarrow> 'w \<Rightarrow> push_rc \<times> 'w"

record engine =
  se_in :: string
  se_direct :: bool
  se_decoder :: decoder
  se_out :: string
  se_encoder :: encoder
  se_out_batch :: nat
  se_input_stopped :: bool
  se_output_stopped :: bool
  se_io_error :: bool
  se_pollin :: bool
  se_pollout :: bool

datatype error_reason = Protocol_error | Connection_error

datatype event_rc = Ev_ok | Ev_error error_reason

definition engine_new :: "nat \<Rightarrow> encoder \<Rightarrow> decoder \<Rightarrow> engine" where
  "engine_new batch en de =
     \<lparr>se_in = [], se_direct = False, se_decoder = de, se_out = [], se_encoder = en, se_out_batch = batch,
      se_input_stopped = False, se_output_stopped = False, se_io_error = False, se_pollin = True,
      se_pollout = True\<rparr>"

section \<open>Input\<close>

text \<open>The loop over the bytes at hand: decode a message, give it to the session.\<close>

datatype loop_rc = Loop_done | Loop_again | Loop_failed

partial_function (option) in_loop ::
  "'w engine_env \<Rightarrow> dec_class \<Rightarrow> engine \<Rightarrow> 'w \<Rightarrow> (loop_rc res \<times> engine \<times> 'w) option" where
  "in_loop W D e w =
     (if se_in e = [] then Some (Inr Loop_done, e, w)
      else case decode D (se_direct e) (se_in e) (se_decoder e) of
          None \<Rightarrow> None
        | Some (Inl x, rest, d) \<Rightarrow> Some (Inl x, e\<lparr>se_in := rest, se_decoder := d\<rparr>, w)
        | Some (Inr rc, rest, d) \<Rightarrow>
            (case rc of
               Rc_more \<Rightarrow> Some (Inr Loop_done, e\<lparr>se_in := rest, se_decoder := d\<rparr>, w)
             | Rc_error _ \<Rightarrow> Some (Inr Loop_failed, e\<lparr>se_in := rest, se_decoder := d\<rparr>, w)
             | Rc_msg \<Rightarrow>
                 (case ev_process_msg W (de_in_progress d) w of
                    (Push_ok, w') \<Rightarrow>
                      in_loop W D (e\<lparr>se_in := rest, se_decoder := d\<lparr>de_in_progress := msg_init\<rparr>\<rparr>) w'
                  | (Push_again, w') \<Rightarrow> Some (Inr Loop_again, e\<lparr>se_in := rest, se_decoder := d\<rparr>, w')
                  | (Push_error, w') \<Rightarrow> Some (Inr Loop_failed, e\<lparr>se_in := rest, se_decoder := d\<rparr>, w'))))"

definition in_event_internal ::
  "'w engine_env \<Rightarrow> dec_class \<Rightarrow> engine \<Rightarrow> 'w \<Rightarrow> (event_rc res \<times> engine \<times> 'w) option" where
  "in_event_internal W D e w =
     (let process = (\<lambda>e w.
        case in_loop W D e w of
          None \<Rightarrow> None
        | Some (Inl x, e, w) \<Rightarrow> Some (Inl x, e, w)
        | Some (Inr Loop_done, e, w) \<Rightarrow> Some (Inr Ev_ok, e, w)
        | Some (Inr Loop_again, e, w) \<Rightarrow>
            Some (Inr Ev_ok, e\<lparr>se_input_stopped := True, se_pollin := False\<rparr>, w)
        | Some (Inr Loop_failed, e, w) \<Rightarrow> Some (Inr (Ev_error Protocol_error), e, w)) in
      if se_io_error e then Some (Inl AssertFailed, e, w)
      else if se_input_stopped e then Some (Inr Ev_ok, e\<lparr>se_io_error := True\<rparr>, w)
      else if se_in e = [] then
        (let ((direct, n), d) = get_buffer (se_decoder e); (r, w) = ev_read W n w;
             e = e\<lparr>se_decoder := d\<rparr> in
         case r of
           Read_error \<Rightarrow> Some (Inr (Ev_error Connection_error), e, w)
         | Read_again \<Rightarrow> Some (Inr Ev_ok, e, w)
         | Read_data b \<Rightarrow> process (e\<lparr>se_in := b, se_direct := direct\<rparr>) w)
      else process e w)"

text \<open>The session has room again: the message in hand first, then the bytes at hand.\<close>

definition restart_input ::
  "'w engine_env \<Rightarrow> dec_class \<Rightarrow> engine \<Rightarrow> 'w \<Rightarrow> (event_rc res \<times> engine \<times> 'w) option" where
  "restart_input W D e w =
     (if \<not> se_input_stopped e then Some (Inl AssertFailed, e, w)
      else case ev_process_msg W (de_in_progress (se_decoder e)) w of
          (Push_error, w) \<Rightarrow> Some (Inr (Ev_error Protocol_error), e, w)
        | (Push_again, w) \<Rightarrow> Some (Inr Ev_ok, e, w)
        | (Push_ok, w) \<Rightarrow>
            (case in_loop W D (e\<lparr>se_decoder := (se_decoder e)\<lparr>de_in_progress := msg_init\<rparr>\<rparr>) w of
               None \<Rightarrow> None
             | Some (Inl x, e, w) \<Rightarrow> Some (Inl x, e, w)
             | Some (Inr Loop_again, e, w) \<Rightarrow> Some (Inr Ev_ok, e, w)
             | Some (Inr rc, e, w) \<Rightarrow>
                 (if se_io_error e then Some (Inr (Ev_error Connection_error), e, w)
                  else if rc = Loop_failed then Some (Inr (Ev_error Protocol_error), e, w)
                  else in_event_internal W D (e\<lparr>se_input_stopped := False, se_pollin := True\<rparr>) w)))"

section \<open>Output\<close>

text \<open>
  The loop that fills the buffer. \<open>null\<close> says that \<open>_outpos\<close> is still null, so that the encoder uses
  its own buffer.
\<close>

partial_function (option) out_loop ::
  "'w engine_env \<Rightarrow> enc_class \<Rightarrow> bool \<Rightarrow> engine \<Rightarrow> 'w \<Rightarrow> (unit res \<times> engine \<times> 'w) option" where
  "out_loop W C null e w =
     (if \<not> length (se_out e) < se_out_batch e then Some (Inr (), e, w)
      else case ev_next_msg W w of
          (None, w') \<Rightarrow> Some (Inr (), e, w')
        | (Some m, w') \<Rightarrow>
            (case load_msg C m (se_encoder e) of
               Inl x \<Rightarrow> Some (Inl x, e, w')
             | Inr en \<Rightarrow>
                 (case encode C (if null then None else Some (se_out_batch e - length (se_out e))) en of
                    None \<Rightarrow> None
                  | Some (b, en) \<Rightarrow>
                      if b = [] then Some (Inl AssertFailed, e\<lparr>se_encoder := en\<rparr>, w')
                      else out_loop W C False (e\<lparr>se_encoder := en, se_out := se_out e @ b\<rparr>) w')))"

text \<open>Filling the buffer when it is empty, and writing what the connection takes of it.\<close>

definition refill ::
  "'w engine_env \<Rightarrow> enc_class \<Rightarrow> engine \<Rightarrow> 'w \<Rightarrow> (unit res \<times> engine \<times> 'w) option" where
  "refill W C e w =
     (if se_out e \<noteq> [] then Some (Inr (), e, w)
      else case encode C None (se_encoder e) of
          None \<Rightarrow> None
        | Some (b, en) \<Rightarrow>
            out_loop W C (en_in_progress (se_encoder e) = None) (e\<lparr>se_encoder := en, se_out := b\<rparr>) w)"

definition out_event ::
  "'w engine_env \<Rightarrow> enc_class \<Rightarrow> engine \<Rightarrow> 'w \<Rightarrow> (unit res \<times> engine \<times> 'w) option" where
  "out_event W C e w =
     (if se_io_error e then Some (Inl AssertFailed, e, w)
      else case refill W C e w of
          None \<Rightarrow> None
        | Some (Inl x, e, w) \<Rightarrow> Some (Inl x, e, w)
        | Some (Inr _, e, w) \<Rightarrow>
            if se_out e = [] then Some (Inr (), e\<lparr>se_output_stopped := True, se_pollout := False\<rparr>, w)
            else case ev_write W (se_out e) w of
                (None, w) \<Rightarrow> Some (Inr (), e\<lparr>se_pollout := False\<rparr>, w)
              | (Some n, w) \<Rightarrow> Some (Inr (), e\<lparr>se_out := drop n (se_out e)\<rparr>, w))"

definition restart_output ::
  "'w engine_env \<Rightarrow> enc_class \<Rightarrow> engine \<Rightarrow> 'w \<Rightarrow> (unit res \<times> engine \<times> 'w) option" where
  "restart_output W C e w =
     (if se_io_error e then Some (Inr (), e, w)
      else out_event W C (if se_output_stopped e
                          then e\<lparr>se_pollout := True, se_output_stopped := False\<rparr> else e) w)"

declare in_loop.simps [code] out_loop.simps [code]

end
