(* ===== verification/ZmqLink.thy ===== *)
theory ZmqLink
  imports ZmqStream
begin

text \<open>
  Two engines of \<open>libzmq\<close> at the two ends of a connection: what one session sends is what the other
  gets, however the bytes are split on the way.
\<close>

unbundle bit_operations_syntax

section \<open>A connection\<close>

text \<open>
  Messages from one socket to another: the messages its session has, the bytes on the connection,
  the messages the other session has got and how many more it takes. The number \<open>k\<close> limits the
  bytes that the connection takes or gives at once.
\<close>

record wire =
  wi_queue :: "msg list"
  wi_net :: string
  wi_got :: "msg list"
  wi_room :: nat

definition wire_env :: "nat \<Rightarrow> wire engine_env" where
  "wire_env k =
     \<lparr>ev_read = (\<lambda>n w. if n = 0 \<or> k = 0 \<or> wi_net w = [] then (Read_again, w)
                      else (Read_data (take (min n k) (wi_net w)), w\<lparr>wi_net := drop (min n k) (wi_net w)\<rparr>)),
      ev_write = (\<lambda>b w. (Some (min k (length b)), w\<lparr>wi_net := wi_net w @ take k b\<rparr>)),
      ev_next_msg = (\<lambda>w. case wi_queue w of [] \<Rightarrow> (None, w) | m # q \<Rightarrow> (Some m, w\<lparr>wi_queue := q\<rparr>)),
      ev_process_msg = (\<lambda>m w. case wi_room w of 0 \<Rightarrow> (Push_again, w)
                               | Suc r \<Rightarrow> (Push_ok, w\<lparr>wi_got := wi_got w @ [m], wi_room := r\<rparr>))\<rparr>"

lemma wire_env_simps [simp]:
  "ev_process_msg (wire_env k) m w = (case wi_room w of 0 \<Rightarrow> (Push_again, w)
     | Suc r \<Rightarrow> (Push_ok, w\<lparr>wi_got := wi_got w @ [m], wi_room := r\<rparr>))"
  "ev_next_msg (wire_env k) w = (case wi_queue w of [] \<Rightarrow> (None, w) | m # q \<Rightarrow> (Some m, w\<lparr>wi_queue := q\<rparr>))"
  "ev_write (wire_env k) b w = (Some (min k (length b)), w\<lparr>wi_net := wi_net w @ take k b\<rparr>)"
  "ev_read (wire_env k) n w = (if n = 0 \<or> k = 0 \<or> wi_net w = [] then (Read_again, w)
     else (Read_data (take (min n k) (wi_net w)), w\<lparr>wi_net := drop (min n k) (wi_net w)\<rparr>))"
  by (simp_all add: wire_env_def)

text \<open>
  The two engines of a connection and what happens to it: the first socket sends a message, which
  wakes its engine; the connection can be written to; bytes can be read from it; the other socket
  makes room for messages, which wakes its engine when it has stopped reading.
\<close>

record link =
  lk_from :: engine
  lk_to :: engine
  lk_wire :: wire

datatype link_event = Send_msg msg nat | Writable nat | Readable nat | Make_room nat nat

definition from_result :: "link \<Rightarrow> (unit res \<times> engine \<times> wire) option \<Rightarrow> (event_rc res \<times> link) option" where
  "from_result l = map_option (\<lambda>(r, e, w). (map_sum id (\<lambda>_. Ev_ok) r, l\<lparr>lk_from := e, lk_wire := w\<rparr>))"

definition to_result :: "link \<Rightarrow> (event_rc res \<times> engine \<times> wire) option \<Rightarrow> (event_rc res \<times> link) option" where
  "to_result l = map_option (\<lambda>(r, e, w). (r, l\<lparr>lk_to := e, lk_wire := w\<rparr>))"

fun link_step :: "enc_class \<Rightarrow> dec_class \<Rightarrow> link_event \<Rightarrow> link \<Rightarrow> (event_rc res \<times> link) option" where
  "link_step C D (Send_msg m k) l =
     from_result l (restart_output (wire_env k) C (lk_from l)
       ((lk_wire l)\<lparr>wi_queue := wi_queue (lk_wire l) @ [m]\<rparr>))"
| "link_step C D (Writable k) l =
     (if se_pollout (lk_from l) then from_result l (out_event (wire_env k) C (lk_from l) (lk_wire l))
      else Some (Inr Ev_ok, l))"
| "link_step C D (Readable k) l =
     (if se_pollin (lk_to l) then to_result l (in_event_internal (wire_env k) D (lk_to l) (lk_wire l))
      else Some (Inr Ev_ok, l))"
| "link_step C D (Make_room n k) l =
     (let w = (lk_wire l)\<lparr>wi_room := wi_room (lk_wire l) + n\<rparr> in
      if se_input_stopped (lk_to l) then to_result l (restart_input (wire_env k) D (lk_to l) w)
      else Some (Inr Ev_ok, l\<lparr>lk_wire := w\<rparr>))"

fun link_run :: "enc_class \<Rightarrow> dec_class \<Rightarrow> link_event list \<Rightarrow> link \<Rightarrow> (event_rc res \<times> link) option" where
  "link_run C D [] l = Some (Inr Ev_ok, l)"
| "link_run C D (v # vs) l =
     (case link_step C D v l of
        Some (Inr Ev_ok, l') \<Rightarrow> link_run C D vs l'
      | r \<Rightarrow> r)"

definition link_new :: "nat \<Rightarrow> decoder \<Rightarrow> nat \<Rightarrow> link" where
  "link_new batch d room =
     \<lparr>lk_from = engine_new batch (encoder_new batch) d, lk_to = engine_new batch (encoder_new batch) d,
      lk_wire = \<lparr>wi_queue = [], wi_net = [], wi_got = [], wi_room = room\<rparr>\<rparr>"

primrec sent_by :: "link_event \<Rightarrow> msg list" where
  "sent_by (Send_msg m k) = [m]"
| "sent_by (Writable k) = []"
| "sent_by (Readable k) = []"
| "sent_by (Make_room n k) = []"

definition sent :: "link_event list \<Rightarrow> msg list" where
  "sent vs = concat (map sent_by vs)"

text \<open>
  The two sides of a connection speak the same protocol: the frame one writes for a message is
  the frame the other reads as the message \<open>seen m\<close>.
\<close>

locale framed_link = frame_writer C wframe + frame_reader D frame idle mid ok
  for C wframe D frame idle mid ok +
  fixes seen :: "msg \<Rightarrow> msg"
    and valid :: "decoder \<Rightarrow> msg \<Rightarrow> bool"
  assumes frames: "valid d m \<Longrightarrow> wframe m = frame (seen m)" "valid d m \<Longrightarrow> ok d (seen m)"
    and frame_nonempty: "valid d m \<Longrightarrow> wframe m \<noteq> []"
begin

text \<open>The receiver, with the messages \<open>ms\<close> to come and the bytes \<open>z\<close> behind those at hand.\<close>

definition rx :: "engine \<Rightarrow> msg list \<Rightarrow> string \<Rightarrow> bool" where
  "rx e ms z \<longleftrightarrow> (\<exists>pre. ready (se_decoder e) ms pre \<and> concat (map frame ms) = pre @ se_in e @ z \<and>
     (se_in e \<noteq> [] \<longrightarrow> readable (se_decoder e) (se_direct e) (se_in e)))"

definition rx_keeps :: "engine \<Rightarrow> engine \<Rightarrow> bool" where
  "rx_keeps e e' \<longleftrightarrow> same_conf (se_decoder e) (se_decoder e') \<and>
     e' = e\<lparr>se_in := se_in e', se_decoder := se_decoder e'\<rparr>"

text \<open>The loop hands the messages at hand to the session, as many as it takes.\<close>

definition in_post :: "engine \<Rightarrow> wire \<Rightarrow> msg list \<Rightarrow> string \<Rightarrow> (loop_rc res \<times> engine \<times> wire) option \<Rightarrow> bool" where
  "in_post e w ms z res \<longleftrightarrow> (\<exists>rc e' w' out ms'. res = Some (Inr rc, e', w') \<and> ms = out @ ms' \<and>
     rx e' ms' z \<and> rx_keeps e e' \<and>
     (rc = Loop_done \<and> se_in e' = [] \<and> (\<exists>r. w' = w\<lparr>wi_got := wi_got w @ out, wi_room := r\<rparr>) \<or>
      rc = Loop_again \<and> idle (se_decoder e') \<and>
      (\<exists>got. out = got @ [de_in_progress (se_decoder e')] \<and> w' = w\<lparr>wi_got := wi_got w @ got, wi_room := 0\<rparr>)))"

lemma in_loop_ok:
  assumes "rx e ms z"
  shows "in_post e w ms z (in_loop (wire_env k) D e w)"
  using assms
proof (induction "length (se_in e)" arbitrary: e ms w rule: less_induct)
  case less
  show ?case
  proof (cases "se_in e = []")
    case True
    then show ?thesis using less.prems unfolding in_post_def
      by (intro exI [of _ Loop_done] exI [of _ e] exI [of _ w] exI [of _ "[]"] exI [of _ ms])
        (auto simp: in_loop.simps rx_keeps_def intro!: exI [of _ "wi_room w"])
  next
    case False
    obtain pre where pre: "ready (se_decoder e) ms pre" "concat (map frame ms) = pre @ se_in e @ z"
        "readable (se_decoder e) (se_direct e) (se_in e)"
      using less.prems False by (auto simp: rx_def)
    from decode_stream [OF pre(1,3) False pre(2)] show ?thesis
    proof (elim disjE exE conjE)
      fix d1
      assume d1: "decode D (se_direct e) (se_in e) (se_decoder e) = Some (Inr Rc_more, [], d1)"
        "ready d1 ms (pre @ se_in e)" "same_conf (se_decoder e) d1"
      let ?e = "e\<lparr>se_in := [], se_decoder := d1\<rparr>"
      have "rx ?e ms z" using d1(2) pre(2) by (auto simp: rx_def)
      then show ?thesis using d1 False unfolding in_post_def
        by (intro exI [of _ Loop_done] exI [of _ ?e] exI [of _ w] exI [of _ "[]"] exI [of _ ms])
          (auto simp: in_loop.simps [of _ _ e] rx_keeps_def intro!: exI [of _ "wi_room w"])
    next
      fix m ms' x d1
      assume d1: "decode D (se_direct e) (se_in e) (se_decoder e) = Some (Inr Rc_msg, x, d1)" "ms = m # ms'"
        "de_in_progress d1 = m" "idle d1" "same_conf (se_decoder e) d1" "ready d1 ms' []"
        "concat (map frame ms') = x @ z" "x \<noteq> [] \<longrightarrow> readable d1 (se_direct e) x" "length x < length (se_in e)"
      show ?thesis
      proof (cases "wi_room w")
        case 0
        let ?e = "e\<lparr>se_in := x, se_decoder := d1\<rparr>"
        have "rx ?e ms' z" using d1 by (auto simp: rx_def)
        then show ?thesis using d1 False 0 unfolding in_post_def
          by (intro exI [of _ Loop_again] exI [of _ ?e] exI [of _ w] exI [of _ "[m]"] exI [of _ ms'])
            (auto simp: in_loop.simps [of _ _ e] rx_keeps_def)
      next
        case (Suc r)
        let ?e = "e\<lparr>se_in := x, se_decoder := d1\<lparr>de_in_progress := msg_init\<rparr>\<rparr>"
        let ?w = "w\<lparr>wi_got := wi_got w @ [m], wi_room := r\<rparr>"
        have rx: "rx ?e ms' z" using d1 ready_taken [OF d1(4,6)]
          by (auto simp: rx_def readable_def buf_ok_def)
        have step: "in_loop (wire_env k) D e w = in_loop (wire_env k) D ?e ?w"
          using d1 False Suc by (simp add: in_loop.simps [of _ _ e])
        have conf: "rx_keeps e e'" if "rx_keeps ?e e'" for e'
          using that d1(5) by (cases e; cases e') (auto simp: rx_keeps_def same_conf_def)
        have "in_post ?e ?w ms' z (in_loop (wire_env k) D ?e ?w)"
          using rx d1(9) by (intro less.hyps) simp_all
        then obtain rc e' w' out ms'' where
          r: "in_loop (wire_env k) D ?e ?w = Some (Inr rc, e', w')" "ms' = out @ ms''" "rx e' ms'' z" "rx_keeps ?e e'"
          "rc = Loop_done \<and> se_in e' = [] \<and> (\<exists>r. w' = ?w\<lparr>wi_got := wi_got ?w @ out, wi_room := r\<rparr>) \<or>
           rc = Loop_again \<and> idle (se_decoder e') \<and>
           (\<exists>got. out = got @ [de_in_progress (se_decoder e')] \<and> w' = ?w\<lparr>wi_got := wi_got ?w @ got, wi_room := 0\<rparr>)"
          unfolding in_post_def by blast
        then show ?thesis using conf [OF r(4)] d1(2) unfolding in_post_def
          by (intro exI [of _ rc] exI [of _ e'] exI [of _ w'] exI [of _ "m # out"] exI [of _ ms''])
            (auto simp: step)
      qed
    qed
  qed
qed

text \<open>The receiver when bytes arrive, and when the session has room again.\<close>

definition to_ok :: "engine \<Rightarrow> msg list \<Rightarrow> string \<Rightarrow> bool" where
  "to_ok e ms z \<longleftrightarrow> rx e ms z \<and> \<not> se_io_error e \<and> 8 < de_buf_size (se_decoder e) \<and>
     se_pollin e = (\<not> se_input_stopped e) \<and> (if se_input_stopped e then idle (se_decoder e) else se_in e = [])"

definition in_hand :: "engine \<Rightarrow> msg list" where
  "in_hand e = (if se_input_stopped e then [de_in_progress (se_decoder e)] else [])"

lemma rx_read:
  assumes "rx e ms (b @ z)" "se_in e = []" "8 < de_buf_size (se_decoder e)"
    and "get_buffer (se_decoder e) = ((direct, n), d)" "length b \<le> n"
  shows "rx (e\<lparr>se_decoder := d, se_in := b, se_direct := direct\<rparr>) ms z" "same_conf (se_decoder e) d"
proof -
  have d: "d = (se_decoder e)\<lparr>de_contents := 0\<rparr>"
    using assms(4) by (auto simp: get_buffer_def Let_def split: if_splits)
  show "same_conf (se_decoder e) d" by (simp add: d)
  have "readable d direct b"
    using assms(3-5) by (auto simp: get_buffer_def Let_def readable_def buf_ok_def split: if_splits)
  then show "rx (e\<lparr>se_decoder := d, se_in := b, se_direct := direct\<rparr>) ms z"
    using assms(1,2) ready_reset by (auto simp: rx_def d)
qed

definition to_post :: "engine \<Rightarrow> wire \<Rightarrow> msg list \<Rightarrow> string \<Rightarrow> (event_rc res \<times> engine \<times> wire) option \<Rightarrow> bool" where
  "to_post e w ms z res \<longleftrightarrow> (\<exists>e' w' out ms'. res = Some (Inr Ev_ok, e', w') \<and> ms = out @ ms' \<and>
     to_ok e' ms' (wi_net w' @ z) \<and> wi_got w' @ in_hand e' = wi_got w @ in_hand e @ out \<and>
     wi_queue w' = wi_queue w \<and> same_conf (se_decoder e) (se_decoder e') \<and>
     length (wi_net w') \<le> length (wi_net w) \<and>
     (se_input_stopped e' \<and> out = [] \<longrightarrow> se_input_stopped e \<and> wi_room w = 0))"

lemma process_ok:
  assumes "rx e ms (wi_net w @ z)" "\<not> se_io_error e" "8 < de_buf_size (se_decoder e)" "se_pollin e"
    "\<not> se_input_stopped e"
  shows "to_post e w ms z (case in_loop (wire_env k) D e w of
          None \<Rightarrow> None
        | Some (Inl x, e, w) \<Rightarrow> Some (Inl x, e, w)
        | Some (Inr Loop_done, e, w) \<Rightarrow> Some (Inr Ev_ok, e, w)
        | Some (Inr Loop_again, e, w) \<Rightarrow>
            Some (Inr Ev_ok, e\<lparr>se_input_stopped := True, se_pollin := False\<rparr>, w)
        | Some (Inr Loop_failed, e, w) \<Rightarrow> Some (Inr (Ev_error Protocol_error), e, w))"
proof -
  obtain rc e' w' out ms' where r: "in_loop (wire_env k) D e w = Some (Inr rc, e', w')" "ms = out @ ms'"
      "rx e' ms' (wi_net w @ z)" "rx_keeps e e'"
      "rc = Loop_done \<and> se_in e' = [] \<and> (\<exists>r. w' = w\<lparr>wi_got := wi_got w @ out, wi_room := r\<rparr>) \<or>
       rc = Loop_again \<and> idle (se_decoder e') \<and>
       (\<exists>got. out = got @ [de_in_progress (se_decoder e')] \<and> w' = w\<lparr>wi_got := wi_got w @ got, wi_room := 0\<rparr>)"
    using in_loop_ok [OF assms(1), of w k] unfolding in_post_def by blast
  have k: "same_conf (se_decoder e) (se_decoder e')" "se_io_error e' = se_io_error e" "se_pollin e' = se_pollin e"
      "se_input_stopped e' = se_input_stopped e"
    using r(4) by (cases e; cases e'; simp add: rx_keeps_def)+
  have rx: "rx (e'\<lparr>se_input_stopped := True, se_pollin := False\<rparr>) ms' (wi_net w @ z)"
    using r(3) by (simp add: rx_def)
  from r(5) show ?thesis
  proof (elim disjE exE conjE)
    fix r' assume "rc = Loop_done" "se_in e' = []" "w' = w\<lparr>wi_got := wi_got w @ out, wi_room := r'\<rparr>"
    then show ?thesis using r(1-3) k assms
      by (auto simp: to_post_def to_ok_def in_hand_def same_conf_def)
  next
    fix got assume "rc = Loop_again" "idle (se_decoder e')" "out = got @ [de_in_progress (se_decoder e')]"
      "w' = w\<lparr>wi_got := wi_got w @ got, wi_room := 0\<rparr>"
    then show ?thesis using r(1,2) rx k assms
      by (auto simp: to_post_def to_ok_def in_hand_def same_conf_def)
  qed
qed

lemma in_event_ok:
  assumes "to_ok e ms (wi_net w @ z)" "\<not> se_input_stopped e"
  shows "to_post e w ms z (in_event_internal (wire_env k) D e w)"
    and "0 < k \<Longrightarrow> wi_net w \<noteq> [] \<Longrightarrow> in_event_internal (wire_env k) D e w = Some (r, e', w') \<Longrightarrow>
         length (wi_net w') < length (wi_net w)"
proof -
  have e: "rx e ms (wi_net w @ z)" "\<not> se_io_error e" "8 < de_buf_size (se_decoder e)" "se_pollin e" "se_in e = []"
    using assms by (simp_all add: to_ok_def)
  obtain direct n d where g: "get_buffer (se_decoder e) = ((direct, n), d)" by (metis surj_pair)
  have d: "d = (se_decoder e)\<lparr>de_contents := 0\<rparr>"
    using g by (auto simp: get_buffer_def Let_def split: if_splits)
  have n: "0 < n" using g e(3) by (auto simp: get_buffer_def Let_def split: if_splits)
  let ?b = "take (min n k) (wi_net w)" and ?w = "w\<lparr>wi_net := drop (min n k) (wi_net w)\<rparr>"
  let ?e = "e\<lparr>se_decoder := d, se_in := ?b, se_direct := direct\<rparr>"
  have "rx e ms (?b @ wi_net ?w @ z)" using e(1) by simp
  from rx_read [OF this e(5,3) g] have rx: "rx ?e ms (wi_net ?w @ z)" by simp
  have read: "to_post ?e ?w ms z (in_event_internal (wire_env k) D e w)" if "0 < k" "wi_net w \<noteq> []"
    using process_ok [OF rx, of k] that n e assms(2)
    by (simp add: in_event_internal_def Let_def g d cong: option.case_cong)
  show "length (wi_net w') < length (wi_net w)"
    if "0 < k" "wi_net w \<noteq> []" "in_event_internal (wire_env k) D e w = Some (r, e', w')"
  proof -
    have "length (wi_net ?w) < length (wi_net w)" using that n by simp
    then show ?thesis using read [OF that(1,2)] that(3) by (auto simp: to_post_def)
  qed
  show "to_post e w ms z (in_event_internal (wire_env k) D e w)"
  proof (cases "k = 0 \<or> wi_net w = []")
    case True
    have "rx (e\<lparr>se_decoder := d\<rparr>) ms (wi_net w @ z)" using e ready_reset by (auto simp: rx_def d)
    with True e assms(2) n show ?thesis
      by (auto simp: in_event_internal_def Let_def g to_post_def to_ok_def in_hand_def d)
  next
    case False
    then have "to_post ?e ?w ms z (in_event_internal (wire_env k) D e w)" by (intro read) simp_all
    then obtain e' w' out ms' where "in_event_internal (wire_env k) D e w = Some (Inr Ev_ok, e', w')" "ms = out @ ms'"
        "to_ok e' ms' (wi_net w' @ z)" "wi_got w' @ in_hand e' = wi_got w @ out" "wi_queue w' = wi_queue w"
        "same_conf (se_decoder e) (se_decoder e')" "length (wi_net w') \<le> length (wi_net ?w)"
        "se_input_stopped e' \<and> out = [] \<longrightarrow> False"
      unfolding to_post_def using assms(2) by (elim exE conjE) (auto simp: in_hand_def d same_conf_def)
    moreover have "length (wi_net ?w) \<le> length (wi_net w)" by simp
    ultimately show ?thesis using assms(2) unfolding to_post_def
      by (intro exI [of _ e'] exI [of _ w'] exI [of _ out] exI [of _ ms']) (auto simp: in_hand_def)
  qed
qed

lemma restart_input_ok:
  assumes "to_ok e ms (wi_net w @ z)" "se_input_stopped e"
  shows "to_post e w ms z (restart_input (wire_env k) D e w)"
proof (cases "wi_room w")
  case 0
  then show ?thesis using assms by (auto simp: restart_input_def to_post_def intro!: exI [of _ "[]"])
next
  case (Suc r)
  let ?d = "(se_decoder e)\<lparr>de_in_progress := msg_init\<rparr>" and ?m = "de_in_progress (se_decoder e)"
  let ?e = "e\<lparr>se_decoder := ?d\<rparr>" and ?w = "w\<lparr>wi_got := wi_got w @ [?m], wi_room := r\<rparr>"
  have e: "rx e ms (wi_net w @ z)" "idle (se_decoder e)" "\<not> se_io_error e" "8 < de_buf_size (se_decoder e)"
    using assms by (simp_all add: to_ok_def)
  obtain pre where pre: "ready (se_decoder e) ms pre" "concat (map frame ms) = pre @ se_in e @ wi_net w @ z"
      "se_in e \<noteq> [] \<longrightarrow> readable (se_decoder e) (se_direct e) (se_in e)"
    using e(1) by (auto simp: rx_def)
  have "rx ?e ms (wi_net w @ z)"
    using pre ready_start [OF e(2) pre(1)] ready_taken [OF e(2)] by (auto simp: rx_def readable_def buf_ok_def)
  from in_loop_ok [OF this, of ?w k] obtain rc e' w' out ms' where
    r: "in_loop (wire_env k) D ?e ?w = Some (Inr rc, e', w')" "ms = out @ ms'"
      "rx e' ms' (wi_net w @ z)" "rx_keeps ?e e'"
      "rc = Loop_done \<and> se_in e' = [] \<and> (\<exists>r. w' = ?w\<lparr>wi_got := wi_got ?w @ out, wi_room := r\<rparr>) \<or>
       rc = Loop_again \<and> idle (se_decoder e') \<and>
       (\<exists>got. out = got @ [de_in_progress (se_decoder e')] \<and> w' = ?w\<lparr>wi_got := wi_got ?w @ got, wi_room := 0\<rparr>)"
    unfolding in_post_def by blast
  have k: "same_conf (se_decoder e) (se_decoder e')" "se_io_error e' = se_io_error e" "se_pollin e' = se_pollin e"
      "se_input_stopped e' = se_input_stopped e"
    using r(4) by (cases e; cases e'; simp add: rx_keeps_def same_conf_def)+
  from r(5) show ?thesis
  proof (elim disjE exE conjE)
    fix r' assume rc: "rc = Loop_done" "se_in e' = []" "w' = ?w\<lparr>wi_got := wi_got ?w @ out, wi_room := r'\<rparr>"
    let ?f = "e'\<lparr>se_input_stopped := False, se_pollin := True\<rparr>"
    have "to_ok ?f ms' (wi_net w' @ z)" using r(3) k e rc by (simp add: to_ok_def rx_def same_conf_def)
    from in_event_ok(1) [OF this] have "to_post ?f w' ms' z (in_event_internal (wire_env k) D ?f w')" by simp
    moreover have "restart_input (wire_env k) D e w = in_event_internal (wire_env k) D ?f w'"
      using Suc assms(2) r(1) k e(3) by (simp add: restart_input_def rc(1))
    ultimately show ?thesis using k(1) r(2) assms(2) rc(3)
      by (fastforce simp: to_post_def in_hand_def same_conf_def)
  next
    fix got assume rc: "rc = Loop_again" "idle (se_decoder e')" "out = got @ [de_in_progress (se_decoder e')]"
      "w' = ?w\<lparr>wi_got := wi_got ?w @ got, wi_room := 0\<rparr>"
    have "restart_input (wire_env k) D e w = Some (Inr Ev_ok, e', w')"
      using Suc assms(2) r(1) by (simp add: restart_input_def rc(1))
    then show ?thesis using k r(2,3) e assms rc
      by (auto simp: to_post_def to_ok_def in_hand_def same_conf_def)
  qed
qed

text \<open>The sender: what its buffer holds and what the encoder has still to write.\<close>

definition unwritten :: "engine \<Rightarrow> string" where
  "unwritten e = se_out e @
     (case en_in_progress (se_encoder e) of None \<Rightarrow> [] | Some m \<Rightarrow> pending m (se_encoder e))"

definition tx :: "engine \<Rightarrow> bool" where
  "tx e \<longleftrightarrow> enc_inv (se_encoder e) \<and> en_buf_size (se_encoder e) = se_out_batch e \<and> 0 < se_out_batch e \<and>
     \<not> se_io_error e"

definition tx_keeps :: "engine \<Rightarrow> engine \<Rightarrow> bool" where
  "tx_keeps e e' \<longleftrightarrow> se_pollout e' = se_pollout e \<and> se_output_stopped e' = se_output_stopped e"

definition out_post :: "engine \<Rightarrow> wire \<Rightarrow> (unit res \<times> engine \<times> wire) option \<Rightarrow> bool" where
  "out_post e w res \<longleftrightarrow> (\<exists>e' w' ms. res = Some (Inr (), e', w') \<and> tx e' \<and> wi_queue w = ms @ wi_queue w' \<and>
     w' = w\<lparr>wi_queue := wi_queue w'\<rparr> \<and> tx_keeps e e' \<and>
     unwritten e' = unwritten e @ concat (map wframe ms) \<and>
     (se_out e' = [] \<longrightarrow> unwritten e' = [] \<and> wi_queue w' = []))"

lemma out_loop_full:
  "\<not> length (se_out e) < se_out_batch e \<Longrightarrow> tx e \<Longrightarrow> out_post e w (out_loop W C null e w)"
  by (auto simp: out_loop.simps [of _ _ _ e] out_post_def tx_def tx_keeps_def)

lemma out_loop_ok:
  assumes "tx e" "en_in_progress (se_encoder e) = None" "null \<longrightarrow> se_out e = []"
    and "\<forall>m \<in> set (wi_queue w). wframe m \<noteq> []"
  shows "out_post e w (out_loop (wire_env k) C null e w)"
  using assms
proof (induction "wi_queue w" arbitrary: null e w)
  case Nil
  then have "out_loop (wire_env k) C null e w = Some (Inr (), e, w)"
    by (subst out_loop.simps) (simp split: list.splits)
  with Nil show ?case by (auto simp: out_post_def unwritten_def tx_keeps_def intro!: exI [of _ e] exI [of _ w])
next
  case (Cons m q)
  let ?w = "w\<lparr>wi_queue := q\<rparr>"
  have inv: "enc_inv (se_encoder e)" using Cons.prems(1) by (simp add: tx_def)
  show ?case
  proof (cases "length (se_out e) < se_out_batch e")
    case False
    then show ?thesis using Cons.prems(1) by (rule out_loop_full)
  next
    case room: True
    obtain en where en: "load_msg C m (se_encoder e) = Inr en" "enc_inv en" "en_in_progress en = Some m"
        "pending m en = wframe m" "en_buf_size en = en_buf_size (se_encoder e)"
      using inv Cons.prems(2) by (rule load_msg_ok)
    let ?buf = "if null then None else Some (se_out_batch e - length (se_out e))"
    have lim: "(case ?buf of None \<Rightarrow> en_buf_size en | Some n \<Rightarrow> n) = se_out_batch e - length (se_out e)"
      using Cons.prems(1,3) en(5) by (auto simp: tx_def)
    obtain b en' where b: "encode C ?buf en = Some (b, en')" "enc_inv en'" "en_buf_size en' = en_buf_size en"
        "b @ pending m en' = wframe m"
        "en_in_progress en' = None \<and> pending m en' = [] \<or> en_in_progress en' = Some m \<and>
           se_out_batch e - length (se_out e) \<le> length b" "b \<noteq> []"
      by (rule encode_ok [OF en(2,3), of ?buf])
        (use lim en(4) room Cons.prems(4) Cons.hyps(2) [symmetric] in auto)
    let ?e = "e\<lparr>se_encoder := en', se_out := se_out e @ b\<rparr>"
    have step: "out_loop (wire_env k) C null e w = out_loop (wire_env k) C False ?e ?w"
      using room en(1) b(1,6) Cons.hyps(2) [symmetric]
      by (simp add: out_loop.simps [of _ _ null e w])
    have tx: "tx ?e" using b en(5) Cons.prems(1) by (simp add: tx_def)
    have un: "unwritten ?e = unwritten e @ wframe m"
      using b(4,5) Cons.prems(2) by (auto simp: unwritten_def)
    have "out_post ?e ?w (out_loop (wire_env k) C False ?e ?w)"
    proof (cases "en_in_progress en' = None")
      case True
      show ?thesis by (rule Cons.hyps(1)) (use tx True Cons.prems(4) Cons.hyps(2) [symmetric] in auto)
    next
      case False
      then show ?thesis using b(5) room tx by (intro out_loop_full) auto
    qed
    then obtain e' w' ms where r: "out_loop (wire_env k) C False ?e ?w = Some (Inr (), e', w')" "tx e'"
        "q = ms @ wi_queue w'" "w' = ?w\<lparr>wi_queue := wi_queue w'\<rparr>"
        "tx_keeps ?e e'"
        "unwritten e' = unwritten ?e @ concat (map wframe ms)"
        "se_out e' = [] \<longrightarrow> unwritten e' = [] \<and> wi_queue w' = []"
      unfolding out_post_def by (elim exE conjE) simp
    have "w' = w\<lparr>wi_queue := wi_queue w'\<rparr>" using r(4) by (cases w; cases w') simp
    moreover have "tx_keeps e e'" using r(5) by (simp add: tx_keeps_def)
    ultimately show ?thesis using r un Cons.hyps(2) [symmetric]
      by (auto simp: step out_post_def intro!: exI [of _ "m # ms"])
  qed
qed

lemma out_post_from:
  assumes "out_post e1 w res" "tx_keeps e e1" "unwritten e1 = unwritten e"
  shows "out_post e w res"
  using assms unfolding out_post_def tx_keeps_def by simp

lemma refill_ok:
  assumes "tx e" "\<forall>m \<in> set (wi_queue w). wframe m \<noteq> []"
  shows "out_post e w (refill (wire_env k) C e w)"
proof (cases "se_out e = []")
  case False
  then show ?thesis using assms(1) by (auto simp: refill_def out_post_def tx_keeps_def)
next
  case empty: True
  show ?thesis
  proof (cases "en_in_progress (se_encoder e)")
    case None
    have "refill (wire_env k) C e w = out_loop (wire_env k) C True e w"
      using empty None by (cases e) (simp add: refill_def encode_def)
    then show ?thesis using out_loop_ok [OF assms(1) None, of True w k] empty assms(2) by simp
  next
    case (Some m)
    have inv: "enc_inv (se_encoder e)" "en_buf_size (se_encoder e) = se_out_batch e" using assms(1) by (simp_all add: tx_def)
    obtain b en where b: "encode C None (se_encoder e) = Some (b, en)"
        "enc_inv en" "en_buf_size en = se_out_batch e" "b @ pending m en = pending m (se_encoder e)"
        "en_in_progress en = None \<and> pending m en = [] \<or> en_in_progress en = Some m \<and> se_out_batch e \<le> length b"
      by (rule encode_ok [OF inv(1) Some, of None]) (simp add: inv(2))
    let ?e = "e\<lparr>se_encoder := en, se_out := b\<rparr>"
    have tx: "tx ?e" and un: "unwritten ?e = unwritten e"
      using assms(1) b Some empty by (auto simp: tx_def unwritten_def)
    have "out_post ?e w (out_loop (wire_env k) C False ?e w)"
    proof (cases "en_in_progress en = None")
      case True
      then show ?thesis using tx assms(2) by (intro out_loop_ok) auto
    next
      case False
      then show ?thesis using b(5) tx by (intro out_loop_full) auto
    qed
    then have "out_post e w (out_loop (wire_env k) C False ?e w)" by (rule out_post_from) (use un in \<open>simp_all add: tx_keeps_def\<close>)
    then show ?thesis using b(1) Some empty by (simp add: refill_def)
  qed
qed

definition from_ok :: "engine \<Rightarrow> wire \<Rightarrow> bool" where
  "from_ok e w \<longleftrightarrow> tx e \<and> se_pollout e = (\<not> se_output_stopped e) \<and>
     (se_output_stopped e \<longrightarrow> unwritten e = [] \<and> wi_queue w = [])"

definition from_post :: "engine \<Rightarrow> wire \<Rightarrow> nat \<Rightarrow> (unit res \<times> engine \<times> wire) option \<Rightarrow> bool" where
  "from_post e w k res \<longleftrightarrow> (\<exists>e' w' ms. res = Some (Inr (), e', w') \<and> from_ok e' w' \<and> wi_queue w = ms @ wi_queue w' \<and>
     w' = w\<lparr>wi_queue := wi_queue w', wi_net := wi_net w'\<rparr> \<and>
     wi_net w' @ unwritten e' = wi_net w @ unwritten e @ concat (map wframe ms) \<and>
     (0 < k \<and> \<not> (unwritten e = [] \<and> wi_queue w = []) \<longrightarrow> length (wi_net w) < length (wi_net w')))"

lemma out_event_ok:
  assumes "tx e" "se_pollout e" "\<not> se_output_stopped e" "\<forall>m \<in> set (wi_queue w). wframe m \<noteq> []"
  shows "from_post e w k (out_event (wire_env k) C e w)"
proof -
  obtain e1 w1 ms where r: "refill (wire_env k) C e w = Some (Inr (), e1, w1)" "tx e1" "wi_queue w = ms @ wi_queue w1"
      "w1 = w\<lparr>wi_queue := wi_queue w1\<rparr>" "tx_keeps e e1"
      "unwritten e1 = unwritten e @ concat (map wframe ms)" "se_out e1 = [] \<longrightarrow> unwritten e1 = [] \<and> wi_queue w1 = []"
    using refill_ok [OF assms(1,4), of k] unfolding out_post_def by blast
  have io: "\<not> se_io_error e" "se_pollout e1" "\<not> se_output_stopped e1"
    using assms(1-3) r(5) by (simp_all add: tx_def tx_keeps_def)
  have net: "wi_net w1 = wi_net w" using r(4) by (cases w; cases w1) simp
  show ?thesis
  proof (cases "se_out e1 = []")
    case True
    let ?e = "e1\<lparr>se_output_stopped := True, se_pollout := False\<rparr>"
    have "unwritten ?e = unwritten e1" "tx ?e" using r(2) by (simp_all add: unwritten_def tx_def split: option.split)
    with True r io net assms(4) show ?thesis
      by (cases "wi_queue w") (auto simp: from_post_def out_event_def from_ok_def intro!: exI [of _ w1] exI [of _ ms])
  next
    case False
    let ?e = "e1\<lparr>se_out := drop (min k (length (se_out e1))) (se_out e1)\<rparr>"
    let ?w = "w1\<lparr>wi_net := wi_net w1 @ take k (se_out e1)\<rparr>"
    have "tx ?e" using r(2) by (simp add: tx_def)
    moreover have "take k (se_out e1) @ unwritten ?e = unwritten e1"
      by (cases "k \<le> length (se_out e1)") (simp_all add: unwritten_def min_def split: option.split)
    ultimately show ?thesis using r io net False
      by (auto simp: from_post_def out_event_def from_ok_def intro!: exI [of _ ?e] exI [of _ ?w] exI [of _ ms])
  qed
qed

lemma restart_output_ok:
  assumes "from_ok e w" "\<forall>m \<in> set (wi_queue w @ q). wframe m \<noteq> []"
  shows "from_post e (w\<lparr>wi_queue := wi_queue w @ q\<rparr>) k
    (restart_output (wire_env k) C e (w\<lparr>wi_queue := wi_queue w @ q\<rparr>))"
proof -
  let ?e = "if se_output_stopped e then e\<lparr>se_pollout := True, se_output_stopped := False\<rparr> else e"
  have "tx ?e" "se_pollout ?e" "\<not> se_output_stopped ?e" "\<not> se_io_error e" "unwritten ?e = unwritten e"
    using assms(1) by (auto simp: from_ok_def tx_def unwritten_def split: option.splits)
  with out_event_ok [of ?e "w\<lparr>wi_queue := wi_queue w @ q\<rparr>" k] assms(2) show ?thesis
    by (simp add: restart_output_def from_post_def)
qed

text \<open>
  Where the messages sent so far are: got, in the hand of the receiver, on their way (\<open>U\<close>), or still
  in the session of the sender.
\<close>

definition link_inv :: "decoder \<Rightarrow> link \<Rightarrow> msg list \<Rightarrow> bool" where
  "link_inv d l ms \<longleftrightarrow> same_conf d (se_decoder (lk_to l)) \<and> (\<forall>m \<in> set ms. valid d m) \<and> (\<exists>U. from_ok (lk_from l) (lk_wire l) \<and>
     to_ok (lk_to l) (map seen U) (wi_net (lk_wire l) @ unwritten (lk_from l)) \<and>
     map seen ms = wi_got (lk_wire l) @ in_hand (lk_to l) @ map seen (U @ wi_queue (lk_wire l)) \<and>
     set (U @ wi_queue (lk_wire l)) \<subseteq> set ms)"

lemma to_ok_more:
  assumes "to_ok e ms z" "\<forall>m \<in> set ms'. ok (se_decoder e) m"
  shows "to_ok e (ms @ ms') (z @ concat (map frame ms'))"
proof -
  have "ready (se_decoder e) (ms @ ms') pre" if "ready (se_decoder e) ms pre" for pre
    using assms(2) that
  proof (induction ms' arbitrary: ms)
    case (Cons m ms')
    then show ?case using ready_more [of _ ms pre m] Cons.IH [of "ms @ [m]"] by simp
  qed simp
  then show ?thesis using assms(1) by (auto simp: to_ok_def rx_def)
qed

lemma from_step:
  assumes "link_inv d l ms" "\<forall>m \<in> set q. valid d m"
    and post: "from_post (lk_from l) ((lk_wire l)\<lparr>wi_queue := wi_queue (lk_wire l) @ q\<rparr>) k res"
  shows "\<exists>l'. from_result l res = Some (Inr Ev_ok, l') \<and> link_inv d l' (ms @ q)"
proof -
  let ?w = "lk_wire l"
  obtain U where U: "from_ok (lk_from l) ?w" "to_ok (lk_to l) (map seen U) (wi_net ?w @ unwritten (lk_from l))"
      "map seen ms = wi_got ?w @ in_hand (lk_to l) @ map seen (U @ wi_queue ?w)" "set (U @ wi_queue ?w) \<subseteq> set ms"
      "\<forall>m \<in> set ms. valid d m" "same_conf d (se_decoder (lk_to l))"
    using assms(1) by (auto simp: link_inv_def)
  obtain e' w' p where r: "res = Some (Inr (), e', w')" "from_ok e' w'" "wi_queue ?w @ q = p @ wi_queue w'"
      "w' = ?w\<lparr>wi_queue := wi_queue w', wi_net := wi_net w'\<rparr>"
      "wi_net w' @ unwritten e' = wi_net ?w @ unwritten (lk_from l) @ concat (map wframe p)"
    using post by (auto simp: from_post_def)
  have sub: "set p \<union> set (wi_queue w') \<subseteq> set ms \<union> set q"
    using arg_cong [OF r(3), of set] U(4) by auto
  have v: "\<forall>m \<in> set ms \<union> set q. valid d m" using U(5) assms(2) by blast
  have fr: "map wframe p = map frame (map seen p)" using v sub frames(1) by auto
  have "\<forall>m \<in> set (map seen p). ok (se_decoder (lk_to l)) m"
    using v sub frames(2) ok_conf [OF U(6)] by auto
  from to_ok_more [OF U(2) this]
  have to: "to_ok (lk_to l) (map seen (U @ p)) (wi_net w' @ unwritten e')" by (simp add: r(5) fr)
  have got: "wi_got w' = wi_got ?w" using r(4) by (cases "lk_wire l"; cases w') simp
  have "map seen (ms @ q) = wi_got w' @ in_hand (lk_to l) @ map seen ((U @ p) @ wi_queue w')"
    using U(3) arg_cong [OF r(3), of "map seen"] got by simp
  with r(1,2) to v sub U(4,6) show ?thesis
    by (auto simp: from_result_def link_inv_def intro!: exI [of _ "U @ p"])
qed

lemma to_step:
  assumes "link_inv d l ms" and post: "\<And>us z. to_ok (lk_to l) us (wi_net (lk_wire l) @ z) \<Longrightarrow> to_post (lk_to l) w us z res"
    and "wi_got w = wi_got (lk_wire l)" "wi_queue w = wi_queue (lk_wire l)"
  shows "\<exists>l'. to_result l res = Some (Inr Ev_ok, l') \<and> link_inv d l' ms"
proof -
  let ?w = "lk_wire l"
  obtain U where U: "from_ok (lk_from l) ?w" "to_ok (lk_to l) (map seen U) (wi_net ?w @ unwritten (lk_from l))"
      "map seen ms = wi_got ?w @ in_hand (lk_to l) @ map seen (U @ wi_queue ?w)" "set (U @ wi_queue ?w) \<subseteq> set ms"
      "\<forall>m \<in> set ms. valid d m" "same_conf d (se_decoder (lk_to l))"
    using assms(1) by (auto simp: link_inv_def)
  from post [OF U(2)] obtain e' w' out us where r: "res = Some (Inr Ev_ok, e', w')" "map seen U = out @ us"
      "to_ok e' us (wi_net w' @ unwritten (lk_from l))" "wi_got w' @ in_hand e' = wi_got ?w @ in_hand (lk_to l) @ out"
      "wi_queue w' = wi_queue ?w" "same_conf (se_decoder (lk_to l)) (se_decoder e')"
    using assms(3,4) by (auto simp: to_post_def)
  from r(2) obtain U1 U2 where s: "U = U1 @ U2" "out = map seen U1" "us = map seen U2"
    by (auto simp: map_eq_append_conv)
  have "from_ok (lk_from l) w'" using U(1) r(5) by (simp add: from_ok_def)
  moreover have "map seen ms = (wi_got w' @ in_hand e') @ map seen (U2 @ wi_queue w')"
    unfolding r(4) using U(3) s r(5) by simp
  ultimately show ?thesis using r s U(4,5) same_conf_trans [OF U(6) r(6)]
    by (auto simp: to_result_def link_inv_def intro!: exI [of _ U2])
qed

lemma link_nonempty:
  assumes "link_inv d l ms" "\<forall>m \<in> set q. valid d m"
  shows "\<forall>m \<in> set (wi_queue (lk_wire l) @ q). wframe m \<noteq> []"
proof -
  have "set (wi_queue (lk_wire l) @ q) \<subseteq> set ms \<union> set q" "\<forall>m \<in> set ms. valid d m"
    using assms(1) by (auto simp: link_inv_def)
  then show ?thesis using assms(2) frame_nonempty by blast
qed

text \<open>No event fails, and each keeps the messages where they belong.\<close>

lemma link_step_ok:
  assumes "link_inv d l ms" "\<forall>m \<in> set (sent_by v). valid d m"
  shows "\<exists>l'. link_step C D v l = Some (Inr Ev_ok, l') \<and> link_inv d l' (ms @ sent_by v)"
proof (cases v)
  case (Send_msg m k)
  have "from_ok (lk_from l) (lk_wire l)" using assms(1) by (auto simp: link_inv_def)
  from from_step [OF assms(1) _ restart_output_ok [OF this link_nonempty [OF assms(1)]], of "[m]" k]
  show ?thesis using assms(2) Send_msg by simp
next
  case (Writable k)
  show ?thesis
  proof (cases "se_pollout (lk_from l)")
    case True
    then have "from_post (lk_from l) (lk_wire l) k (out_event (wire_env k) C (lk_from l) (lk_wire l))"
      using assms(1) link_nonempty [OF assms(1), of "[]"]
      by (intro out_event_ok) (auto simp: link_inv_def from_ok_def)
    with from_step [OF assms(1), of "[]" k] show ?thesis using Writable True by simp
  qed (use assms(1) Writable in auto)
next
  case (Readable k)
  show ?thesis
  proof (cases "se_pollin (lk_to l)")
    case True
    then have "\<not> se_input_stopped (lk_to l)" using assms(1) by (auto simp: link_inv_def to_ok_def)
    from to_step [OF assms(1) in_event_ok(1) [OF _ this]] show ?thesis using Readable True by simp
  qed (use assms(1) Readable in auto)
next
  case (Make_room n k)
  let ?w = "(lk_wire l)\<lparr>wi_room := wi_room (lk_wire l) + n\<rparr>"
  show ?thesis
  proof (cases "se_input_stopped (lk_to l)")
    case True
    from to_step [OF assms(1) restart_input_ok [OF _ this, of _ ?w]] show ?thesis using Make_room True by simp
  next
    case False
    have "link_inv d (l\<lparr>lk_wire := ?w\<rparr>) ms" using assms(1) by (auto simp: link_inv_def from_ok_def)
    then show ?thesis using Make_room False by (simp add: Let_def)
  qed
qed

lemma link_run_ok:
  assumes "link_inv d l ms" "\<forall>m \<in> set (sent vs). valid d m"
  shows "\<exists>l'. link_run C D vs l = Some (Inr Ev_ok, l') \<and> link_inv d l' (ms @ sent vs)"
  using assms
proof (induction vs arbitrary: l ms)
  case (Cons v vs)
  then obtain l1 where l1: "link_step C D v l = Some (Inr Ev_ok, l1)" "link_inv d l1 (ms @ sent_by v)"
    using link_step_ok [OF Cons.prems(1), of v] by (auto simp: sent_def)
  then show ?case using Cons.IH [OF l1(2)] Cons.prems(2) by (auto simp: sent_def)
qed (simp add: sent_def)

text \<open>What is left to do: bytes to write, bytes to read, messages to hand over.\<close>

definition work :: "link \<Rightarrow> msg list \<Rightarrow> nat" where
  "work l ms =
     2 * (length (unwritten (lk_from l)) + length (concat (map wframe (wi_queue (lk_wire l))))) +
     length (wi_net (lk_wire l)) + (length ms - length (wi_got (lk_wire l)))"

lemma link_got: "link_inv d l ms \<Longrightarrow> \<exists>rest. map seen ms = wi_got (lk_wire l) @ rest"
  by (auto simp: link_inv_def)

lemma link_got_le: "link_inv d l ms \<Longrightarrow> length (wi_got (lk_wire l)) \<le> length ms"
  using link_got [of d l ms] by (metis le_add1 length_append length_map)

lemma progress_stopped:
  assumes "link_inv d l ms" "se_input_stopped (lk_to l)" "link_step C D (Make_room 1 1) l = Some (Inr Ev_ok, l')"
    "link_inv d l' ms"
  shows "work l' ms < work l ms"
proof -
  let ?w = "(lk_wire l)\<lparr>wi_room := wi_room (lk_wire l) + 1\<rparr>"
  obtain us z where "to_ok (lk_to l) us (wi_net ?w @ z)" using assms(1) by (auto simp: link_inv_def)
  from restart_input_ok [OF this assms(2), of 1] obtain e' w' out us' where
    r: "restart_input (wire_env 1) D (lk_to l) ?w = Some (Inr Ev_ok, e', w')"
      "wi_got w' @ in_hand e' = wi_got ?w @ in_hand (lk_to l) @ out" "wi_queue w' = wi_queue ?w"
      "length (wi_net w') \<le> length (wi_net ?w)" "se_input_stopped e' \<and> out = [] \<longrightarrow> wi_room ?w = 0"
    unfolding to_post_def by blast
  have l': "l' = l\<lparr>lk_to := e', lk_wire := w'\<rparr>" using assms(2,3) r(1) by (simp add: to_result_def)
  have "length (wi_got w') > length (wi_got (lk_wire l))"
    using arg_cong [OF r(2), of length] r(5) assms(2)
    by (cases "se_input_stopped e'") (auto simp: in_hand_def neq_Nil_conv)
  then show ?thesis using r(3,4) link_got_le [OF assms(4)] by (simp add: work_def l')
qed

lemma progress_read:
  assumes "link_inv d l ms" "\<not> se_input_stopped (lk_to l)" "wi_net (lk_wire l) \<noteq> []"
    "link_step C D (Readable 1) l = Some (Inr Ev_ok, l')" "link_inv d l' ms"
  shows "work l' ms < work l ms"
proof -
  let ?w = "lk_wire l"
  obtain us z where u: "to_ok (lk_to l) us (wi_net ?w @ z)" using assms(1) by (auto simp: link_inv_def)
  from in_event_ok(1) [OF u assms(2), of 1] obtain e' w' out us' where
    r: "in_event_internal (wire_env 1) D (lk_to l) ?w = Some (Inr Ev_ok, e', w')"
      "wi_got w' @ in_hand e' = wi_got ?w @ in_hand (lk_to l) @ out" "wi_queue w' = wi_queue ?w"
      "se_input_stopped e' \<and> out = [] \<longrightarrow> se_input_stopped (lk_to l)"
    unfolding to_post_def by blast
  have "se_pollin (lk_to l)" using u assms(2) by (simp add: to_ok_def)
  then have l': "l' = l\<lparr>lk_to := e', lk_wire := w'\<rparr>" using assms(4) r(1) by (simp add: to_result_def)
  have "length (wi_net w') < length (wi_net ?w)" using in_event_ok(2) [OF u assms(2) _ assms(3) r(1)] by simp
  moreover have "length (wi_got ?w) \<le> length (wi_got w')"
    using arg_cong [OF r(2), of length] r(4) assms(2)
    by (cases "se_input_stopped e'") (auto simp: in_hand_def neq_Nil_conv)
  ultimately show ?thesis using r(3) by (simp add: work_def l')
qed

lemma progress_write:
  assumes "link_inv d l ms" "\<not> (unwritten (lk_from l) = [] \<and> wi_queue (lk_wire l) = [])"
    "link_step C D (Writable 1) l = Some (Inr Ev_ok, l')"
  shows "work l' ms < work l ms"
proof -
  let ?w = "lk_wire l"
  have p: "tx (lk_from l)" "se_pollout (lk_from l)" "\<not> se_output_stopped (lk_from l)"
    using assms(1,2) by (auto simp: link_inv_def from_ok_def)
  obtain e' w' ms' where r: "out_event (wire_env 1) C (lk_from l) ?w = Some (Inr (), e', w')"
      "wi_queue ?w = ms' @ wi_queue w'" "w' = ?w\<lparr>wi_queue := wi_queue w', wi_net := wi_net w'\<rparr>"
      "wi_net w' @ unwritten e' = wi_net ?w @ unwritten (lk_from l) @ concat (map wframe ms')"
      "length (wi_net ?w) < length (wi_net w')"
    using out_event_ok [OF p, of ?w 1] link_nonempty [OF assms(1), of "[]"] assms(2) by (auto simp: from_post_def)
  have l': "l' = l\<lparr>lk_from := e', lk_wire := w'\<rparr>" using assms(3) r(1) p(2) by (simp add: from_result_def)
  have "wi_got w' = wi_got ?w" using r(3) by (cases "lk_wire l"; cases w') simp
  moreover have "length (wi_net w') + length (unwritten e') + length (concat (map wframe (wi_queue w'))) =
      length (wi_net ?w) + length (unwritten (lk_from l)) + length (concat (map wframe (wi_queue ?w)))"
    using arg_cong [OF r(4), of length] r(2) by simp
  ultimately show ?thesis using r(5) by (simp add: work_def l')
qed

lemma link_drained:
  assumes "link_inv d l ms" "\<not> se_input_stopped (lk_to l)" "wi_net (lk_wire l) = []"
    "unwritten (lk_from l) = []" "wi_queue (lk_wire l) = []"
  shows "wi_got (lk_wire l) = map seen ms"
proof -
  obtain U where U: "to_ok (lk_to l) (map seen U) []" "map seen ms = wi_got (lk_wire l) @ map seen U"
    using assms by (auto simp: link_inv_def in_hand_def)
  define pre where "pre = concat (map frame (map seen U))"
  have pre: "ready (se_decoder (lk_to l)) (map seen U) pre"
    using U(1) assms(2) by (auto simp: to_ok_def rx_def pre_def)
  have "U = []"
  proof (cases U)
    case (Cons m U')
    then obtain t where "frame (seen m) = pre @ t" "t \<noteq> []"
      using pre unfinished [of "se_decoder (lk_to l)" "seen m" pre] by (auto simp: ready_def)
    then show ?thesis using Cons by (simp add: pre_def)
  qed
  then show ?thesis using U(2) by simp
qed

text \<open>From every state there is a way to deliver all that was sent.\<close>

lemma link_delivers:
  assumes "link_inv d l ms"
  shows "\<exists>vs l'. sent vs = [] \<and> link_run C D vs l = Some (Inr Ev_ok, l') \<and> wi_got (lk_wire l') = map seen ms"
  using assms
proof (induction "work l ms" arbitrary: l rule: less_induct)
  case less
  have step: ?case if a: "sent_by v = []" and b: "\<And>l'. link_step C D v l = Some (Inr Ev_ok, l') \<Longrightarrow> link_inv d l' ms \<Longrightarrow>
      work l' ms < work l ms" for v
  proof -
    obtain l1 where l1: "link_step C D v l = Some (Inr Ev_ok, l1)" "link_inv d l1 ms"
      using link_step_ok [OF less.prems, of v] a by auto
    from less.hyps [OF b [OF l1] l1(2)] obtain vs l' where "sent vs = []"
        "link_run C D vs l1 = Some (Inr Ev_ok, l')" "wi_got (lk_wire l') = map seen ms" by blast
    then show ?thesis using l1(1) a
      by (intro exI [of _ "v # vs"] exI [of _ l']) (simp add: sent_def)
  qed
  consider "se_input_stopped (lk_to l)" | "\<not> se_input_stopped (lk_to l)" "wi_net (lk_wire l) \<noteq> []"
    | "\<not> (unwritten (lk_from l) = [] \<and> wi_queue (lk_wire l) = [])"
    | "wi_got (lk_wire l) = map seen ms"
    using link_drained [OF less.prems] by blast
  then show ?case
  proof cases
    case 1
    show ?thesis by (rule step [of "Make_room 1 1"]) (simp, rule progress_stopped [OF less.prems 1])
  next
    case 2
    show ?thesis by (rule step [of "Readable 1"]) (simp, rule progress_read [OF less.prems 2])
  next
    case 3
    show ?thesis by (rule step [of "Writable 1"]) (simp, rule progress_write [OF less.prems 3])
  next
    case 4
    then show ?thesis by (intro exI [of _ "[]"] exI [of _ l]) (simp add: sent_def)
  qed
qed

lemma link_new_inv:
  assumes "0 < batch" "8 < de_buf_size d" "idle d"
  shows "link_inv d (link_new batch d room) []"
proof -
  have "rx (engine_new batch (encoder_new batch) d) [] []"
    using assms(3) ready_idle [of d "[]"] by (auto simp: rx_def engine_new_def)
  moreover have "tx (engine_new batch (encoder_new batch) d)"
    using assms(1) enc_inv_new by (simp add: tx_def engine_new_def encoder_new_def)
  ultimately show ?thesis using assms
    by (simp add: link_inv_def link_new_def to_ok_def from_ok_def in_hand_def)
      (simp add: engine_new_def unwritten_def encoder_new_def)
qed

end

section \<open>The protocols of the library\<close>

text \<open>
  What arrives of a message: the flags that a frame carries, and in front of the data of a
  subscription what the encoder puts there. The size is announced as large by looking at the data
  alone, so the message has to be on the same side of the limit with and without that addition.
\<close>

definition sub_byte :: "msg \<Rightarrow> string" where
  "sub_byte m = (if is_subscribe m then [byte 1] else if is_cancel m then [byte 0] else [])"

definition sub_name :: "msg \<Rightarrow> string" where
  "sub_name m = (if is_subscribe m then sub_cmd_name else if is_cancel m then cancel_cmd_name else [])"

definition v2_seen :: "msg \<Rightarrow> msg" where
  "v2_seen m = \<lparr>m_flags = m_flags m AND 3, m_data = sub_byte m @ m_data m\<rparr>"

definition v3_1_seen :: "msg \<Rightarrow> msg" where
  "v3_1_seen m = \<lparr>m_flags = (m_flags m AND 3) OR (if is_subscribe m \<or> is_cancel m then flag_command else 0),
     m_data = sub_name m @ m_data m\<rparr>"

definition same_side :: "msg \<Rightarrow> msg \<Rightarrow> bool" where
  "same_side m m' \<longleftrightarrow> (length (m_data m) > UCHAR_MAX) = (length (m_data m') > UCHAR_MAX)"

definition acceptable :: "(nat \<Rightarrow> bool) \<Rightarrow> (msg \<Rightarrow> msg) \<Rightarrow> decoder \<Rightarrow> msg \<Rightarrow> bool" where
  "acceptable mem seen d m \<longleftrightarrow> fits mem d (seen m) \<and> same_side m (seen m)"

lemma and_3: "(x :: 8 word) AND 3 \<in> {0, 1, 2, 3}"
proof -
  have "unat (x AND 3) \<le> 3" using word_and_le1 [of x 3] by (simp add: word_le_nat_alt)
  then obtain n where "x AND 3 = of_nat n" "n \<in> {0, 1, 2, 3}"
    using that [of "unat (x AND 3)"] by (auto simp: le_Suc_eq numeral_eq_Suc)
  then show ?thesis by auto
qed

lemma plain_seen: "plain (v2_seen m)" "plain (v3_1_seen m)"
  using and_3 [of "m_flags m"] by (auto simp: plain_def v2_seen_def v3_1_seen_def flag_command_def)

text \<open>An ordinary message arrives as it is.\<close>

lemma seen_plain:
  assumes "plain m"
  shows "v2_seen m = m" "v3_1_seen m = m"
proof -
  have "\<not> is_subscribe m" "\<not> is_cancel m" "m_flags m AND 3 = m_flags m"
    using assms by (auto simp: plain_def is_subscribe_def is_cancel_def CMD_TYPE_MASK_def
        flag_subscribe_def flag_cancel_def)
  then show "v2_seen m = m" "v3_1_seen m = m"
    by (simp_all add: v2_seen_def v3_1_seen_def sub_byte_def sub_name_def)
qed

lemma has_flag_seen:
  "has_flag (v2_seen m) flag_more = has_flag m flag_more"
  "has_flag (v2_seen m) flag_command = has_flag m flag_command"
  "has_flag (v3_1_seen m) flag_more = has_flag m flag_more"
  "has_flag (v3_1_seen m) flag_command = (has_flag m flag_command \<or> is_subscribe m \<or> is_cancel m)"
  by (simp_all add: has_flag_def v2_seen_def v3_1_seen_def flag_more_def flag_command_def and.assoc
      bit.conj_disj_distrib2)

lemma v2_frame_seen:
  assumes "same_side m (v2_seen m)"
  shows "enc_frame v2_encoder m = v2_frame (v2_seen m)"
proof -
  have size: "(if is_subscribe m \<or> is_cancel m then length (m_data m) + 1 else length (m_data m)) =
      length (m_data (v2_seen m))"
    by (simp add: v2_seen_def sub_byte_def)
  have "v2_flags (v2_seen m) = put_uint8 ((if has_flag m flag_more then more_flag else 0) OR
      (if length (m_data m) > UCHAR_MAX then large_flag else 0) OR
      (if has_flag m flag_command then command_flag else 0))"
    using assms by (simp only: v2_flags_def has_flag_seen same_side_def)
  then have "enc_frame v2_encoder m = v2_flags (v2_seen m) @ v2_size (v2_seen m) @ sub_byte m @ m_data m"
    unfolding writer_defs enc_step.case prod.case if_False size v2_size_def sub_byte_def append_assoc by simp
  then show ?thesis by (simp add: v2_frame_def v2_seen_def)
qed

lemma v3_1_frame_seen:
  assumes "same_side m (v3_1_seen m)"
  shows "enc_frame v3_1_encoder m = v2_frame (v3_1_seen m)"
proof -
  have size: "length (m_data m) + length (sub_name m) = length (m_data (v3_1_seen m))"
    by (simp add: v3_1_seen_def)
  have "v2_flags (v3_1_seen m) = put_uint8 ((if has_flag m flag_more then more_flag else 0) OR
      (if length (m_data m) > UCHAR_MAX then large_flag else 0) OR
      (if has_flag m flag_command \<or> is_subscribe m \<or> is_cancel m then command_flag else 0))"
    using assms by (simp only: v2_flags_def has_flag_seen same_side_def)
  then have "enc_frame v3_1_encoder m = v2_flags (v3_1_seen m) @ v2_size (v3_1_seen m) @ sub_name m @ m_data m"
    unfolding writer_defs enc_step.case prod.case if_False sub_name_def [symmetric] size v2_size_def append_assoc
    by simp
  then show ?thesis by (simp add: v2_frame_def v3_1_seen_def)
qed

lemma v2_frame_nonempty: "v2_frame m \<noteq> []"
  by (simp add: v2_frame_def v2_flags_def put_uint8_def)

interpretation v2l: framed_link v2_encoder "enc_frame v2_encoder" "v2_decoder mem" v2_frame flags_phase
  "v2_at mem" "v2_ok mem" v2_seen "acceptable mem v2_seen" for mem
  by unfold_locales
    (auto simp: acceptable_def v2_ok_def plain_seen v2_frame_seen v2_frame_nonempty fits_def)

interpretation v3_1l: framed_link v3_1_encoder "enc_frame v3_1_encoder" "v2_decoder mem" v2_frame flags_phase
  "v2_at mem" "v2_ok mem" v3_1_seen "acceptable mem v3_1_seen" for mem
  by unfold_locales
    (auto simp: acceptable_def v2_ok_def plain_seen v3_1_frame_seen v2_frame_nonempty fits_def)

lemma decoder_new_ok: "flags_phase (v2_decoder_new n mx zc)" "de_buf_size (v2_decoder_new n mx zc) = n"
  "de_contents (v2_decoder_new n mx zc) = 0"
  by (simp_all add: flags_phase_def v2_decoder_new_def decoder_new_def)

text \<open>
  The end of a subscription that is just below the limit: its size takes eight bytes, the first of
  which is zero.
\<close>

lemma put_uint64_small:
  assumes "n < 2 ^ 56"
  obtains r where "put_uint64 (of_nat n) = byte 0 # r" "length r = 7"
proof -
  have "unat (of_nat n :: ulonglong) = n" using assms by (simp add: unat_of_nat)
  then have "unat (drop_bit 56 (of_nat n :: ulonglong)) = 0"
    using assms unfolding unsigned_drop_bit_eq by (simp add: drop_bit_eq_div take_bit_nat_eq_self)
  then have "drop_bit 56 (of_nat n :: ulonglong) = 0" by (simp add: unat_eq_zero)
  then show thesis
    by (intro that [of "drop 1 (put_uint64 (of_nat n))"]) (simp_all add: put_uint64_def byte_def)
qed

section \<open>Properties\<close>

text \<open>
  C6. A connection with version 3.1 of the protocol delivers every message that is acceptable: the size
  it has on the way is within the limit of the receiver and there is memory for it, and a
  subscription or cancellation is above 255 bytes with the name of its command exactly when it is
  without. Whatever the order in which such messages are sent, the connection takes or gives any number
  of bytes and the receiver makes room, no event fails, and the messages that have arrived are the first
  of those sent; and from every such state all messages sent arrive when the connection is used and room
  is made. A message arrives as it was sent, except that only its flags for more parts and for a command
  survive, and that a subscription or cancellation arrives as a command with its name in front of the data.
\<close>

theorem stream_delivers:
  assumes "0 < batch" "8 < bufsize"
    and "\<forall>m \<in> set (sent vs). acceptable mem v3_1_seen (v2_decoder_new bufsize maxsize zero_copy) m"
  shows "\<exists>l. link_run v3_1_encoder (v2_decoder mem) vs
      (link_new batch (v2_decoder_new bufsize maxsize zero_copy) room) = Some (Inr Ev_ok, l) \<and>
    (\<exists>rest. map v3_1_seen (sent vs) = wi_got (lk_wire l) @ rest) \<and>
    (\<exists>vs' l'. sent vs' = [] \<and> link_run v3_1_encoder (v2_decoder mem) vs' l = Some (Inr Ev_ok, l') \<and>
       wi_got (lk_wire l') = map v3_1_seen (sent vs))"
proof -
  let ?d = "v2_decoder_new bufsize maxsize zero_copy"
  have "v3_1l.link_inv mem ?d (link_new batch ?d room) []"
    using assms(1,2) by (intro v3_1l.link_new_inv) (simp_all add: decoder_new_ok)
  from v3_1l.link_run_ok [OF this assms(3)] obtain l where
    l: "link_run v3_1_encoder (v2_decoder mem) vs (link_new batch ?d room) = Some (Inr Ev_ok, l)"
      "v3_1l.link_inv mem ?d l (sent vs)" by auto
  then show ?thesis using v3_1l.link_got [OF l(2)] v3_1l.link_delivers [OF l(2)] by blast
qed

definition ex_msg1 :: msg where "ex_msg1 = \<lparr>m_flags = 1, m_data = ''first part''\<rparr>"
definition ex_msg2 :: msg where "ex_msg2 = \<lparr>m_flags = 0, m_data = ''and the rest''\<rparr>"

theorem stream_delivers_witness:
  "\<exists>l. link_run v3_1_encoder (v2_decoder (\<lambda>_. True)) [Send_msg ex_msg1 3, Readable 2, Send_msg ex_msg2 9, Readable 5]
      (link_new 16 (v2_decoder_new 16 100 True) 1) = Some (Inr Ev_ok, l) \<and>
    (\<exists>rest. [ex_msg1, ex_msg2] = wi_got (lk_wire l) @ rest)"
proof -
  let ?vs = "[Send_msg ex_msg1 3, Readable 2, Send_msg ex_msg2 9, Readable 5]"
  have p: "plain ex_msg1" "plain ex_msg2" by (simp_all add: plain_def ex_msg1_def ex_msg2_def)
  have s: "sent ?vs = [ex_msg1, ex_msg2]" by (simp add: sent_def)
  have "\<forall>m \<in> set (sent ?vs). acceptable (\<lambda>_. True) v3_1_seen (v2_decoder_new 16 100 True) m"
    using p by (simp add: s acceptable_def seen_plain same_side_def fits_def)
      (simp add: too_large_def v2_decoder_new_def decoder_new_def init_size_ok_def ex_msg1_def ex_msg2_def)
  from stream_delivers [OF _ _ this, of 16 1] show ?thesis using p by (simp only: s) (auto simp: seen_plain)
qed

text \<open>
  C35. A subscription of 246 to 255 bytes is misread: with its name it needs a size of eight bytes,
  but the flag that announces one depends on the bare data. The decoder takes the first of the
  eight bytes, a zero, for the whole size, returns an empty command and goes on in the middle of
  the size.
\<close>

theorem subscription_misread:
  assumes "is_subscribe m" "246 \<le> length (m_data m)" "length (m_data m) \<le> 255" "274 \<le> bufsize"
  shows "\<exists>d rest. decode_loop (v2_decoder mem) (enc_frame v3_1_encoder m)
        (v2_decoder_new bufsize maxsize zero_copy) = Some (Inr Rc_msg, rest, d) \<and>
      m_data (de_in_progress d) = [] \<and> rest = drop 2 (enc_frame v3_1_encoder m) \<and>
      length rest = length (m_data m) + 17"
proof -
  let ?d = "v2_decoder_new bufsize maxsize zero_copy"
  let ?n = "length (m_data m) + length sub_cmd_name"
  let ?m0 = "\<lparr>m_flags = (m_flags m AND 1) OR 2, m_data = []\<rparr>"
  obtain r where r: "put_uint64 (of_nat ?n) = byte 0 # r" "length r = 7"
    by (rule put_uint64_small [of ?n]) (use assms(3) in \<open>simp_all add: sub_cmd_name_def\<close>)
  have "?n > UCHAR_MAX" "\<not> length (m_data m) > UCHAR_MAX"
    using assms(2,3) by (simp_all add: UCHAR_MAX_def sub_cmd_name_def)
  then have e: "enc_frame v3_1_encoder m = put_uint8 ((if has_flag m flag_more then more_flag else 0) OR command_flag) @
      (byte 0 # r) @ sub_cmd_name @ m_data m"
    using assms(1) r(1) by (simp add: writer_defs)
  let ?h = "put_uint8 ((if has_flag m flag_more then more_flag else 0) OR command_flag) @ [byte 0]"
  have "m_flags m AND 1 = (m_flags m AND 3) AND 1" by (simp add: and.assoc)
  then consider "m_flags m AND 1 = 0" | "m_flags m AND 1 = 1" using and_3 [of "m_flags m"] by auto
  then have m0: "plain ?m0" "v2_frame ?m0 = ?h"
    by (cases; simp add: plain_def v2_frame_def v2_flags_def v2_size_def has_flag_def frame_defs UCHAR_MAX_def)+
  have "v2_at mem ?d ?m0 []"
    using m0(1) by (simp add: v2_at_def decoder_new_ok fits_def too_large_def init_size_ok_def)
  moreover have "length (enc_frame v3_1_encoder m) = length (m_data m) + 19"
    using r(2) by (simp add: e put_uint8_def sub_cmd_name_def)
  then have "buf_ok ?d (enc_frame v3_1_encoder m)" "length (r @ sub_cmd_name @ m_data m) = length (m_data m) + 17"
    using assms(3,4) r(2) by (simp_all add: buf_ok_def decoder_new_ok sub_cmd_name_def)
  moreover have "enc_frame v3_1_encoder m = ?h @ r @ sub_cmd_name @ m_data m" by (simp add: e)
  ultimately show ?thesis
    using v2_decode_whole [of mem ?d ?m0 "[]" "enc_frame v3_1_encoder m" ?h "r @ sub_cmd_name @ m_data m"] m0(2)
    by (auto simp: put_uint8_def)
qed

definition ex_sub :: msg where "ex_sub = \<lparr>m_flags = 12, m_data = replicate 250 (CHR ''a'')\<rparr>"

theorem subscription_misread_witness:
  "\<exists>d rest. decode_loop (v2_decoder (\<lambda>_. True)) (enc_frame v3_1_encoder ex_sub) (v2_decoder_new 8192 0 True) =
      Some (Inr Rc_msg, rest, d) \<and> m_data (de_in_progress d) = [] \<and> length rest = 267"
  using subscription_misread [of ex_sub 8192 "\<lambda>_. True" 0 True]
  by (auto simp: ex_sub_def is_subscribe_def CMD_TYPE_MASK_def flag_subscribe_def)

end
