(* ===== verification/ZmqMechanism.thy ===== *)
theory ZmqMechanism
  imports ZmqEncoder "HOL-Library.Sublist"
begin

text \<open>
  \<open>libzmq\<close>: what the two ends of a connection tell each other before messages flow.
  \<open>mechanism.cpp\<close> writes and reads the properties of a socket, \<open>mechanism_base.cpp\<close> and
  \<open>zap_client.cpp\<close> ask an authentication handler in the same process, and \<open>null_mechanism.cpp\<close>
  exchanges the properties without more ado. The library is the one of \<open>cmake-make/platform.hpp\<close>,
  without the draft sockets and without GSSAPI.
\<close>

unbundle bit_operations_syntax

section \<open>Options of a socket\<close>

text \<open>Every assignment to \<open>options.mechanism\<close> in \<open>options.cpp\<close> is one of these four.\<close>

datatype mechanism = ZMQ_NULL | ZMQ_PLAIN | ZMQ_CURVE | ZMQ_GSSAPI

definition ZMQ_PAIR :: int where "ZMQ_PAIR = 0"
definition ZMQ_PUB :: int where "ZMQ_PUB = 1"
definition ZMQ_SUB :: int where "ZMQ_SUB = 2"
definition ZMQ_REQ :: int where "ZMQ_REQ = 3"
definition ZMQ_REP :: int where "ZMQ_REP = 4"
definition ZMQ_DEALER :: int where "ZMQ_DEALER = 5"
definition ZMQ_ROUTER :: int where "ZMQ_ROUTER = 6"
definition ZMQ_PULL :: int where "ZMQ_PULL = 7"
definition ZMQ_PUSH :: int where "ZMQ_PUSH = 8"
definition ZMQ_XPUB :: int where "ZMQ_XPUB = 9"
definition ZMQ_XSUB :: int where "ZMQ_XSUB = 10"
definition ZMQ_STREAM :: int where "ZMQ_STREAM = 11"
definition ZMQ_SERVER :: int where "ZMQ_SERVER = 12"

lemmas socket_types = ZMQ_PAIR_def ZMQ_PUB_def ZMQ_SUB_def ZMQ_REQ_def ZMQ_REP_def ZMQ_DEALER_def
  ZMQ_ROUTER_def ZMQ_PULL_def ZMQ_PUSH_def ZMQ_XPUB_def ZMQ_XSUB_def ZMQ_STREAM_def ZMQ_SERVER_def

text \<open>The options the handshake depends on. The metadata is in the order of the \<open>std::map\<close>.\<close>

record zmtp_options =
  zo_type :: int
  zo_routing_id :: string
  zo_recv_routing_id :: bool
  zo_app_metadata :: "(string \<times> string) list"
  zo_mechanism :: mechanism
  zo_as_server :: bool
  zo_zap_domain :: string
  zo_zap_enforce_domain :: bool
  zo_plain_username :: string
  zo_plain_password :: string
  zo_in_batch :: nat
  zo_out_batch :: nat
  zo_maxmsgsize :: ulonglong
  zo_zero_copy :: bool

section \<open>State of a mechanism\<close>

datatype mech_errno = M_EAGAIN | M_EPROTO | M_EINVAL | M_ECONNREFUSED | M_ENOTCONN | M_EFSM | M_EFAULT

text \<open>What is told to the monitors of the socket when the handshake fails.\<close>

datatype protocol_problem =
    ZMTP_UNSPECIFIED | ZMTP_UNEXPECTED_COMMAND | ZMTP_MALFORMED_COMMAND_UNSPECIFIED
  | ZMTP_MALFORMED_COMMAND_HELLO | ZMTP_MALFORMED_COMMAND_ERROR | ZMTP_MALFORMED_COMMAND_WELCOME
  | ZMTP_INVALID_METADATA | ZMTP_MECHANISM_MISMATCH | ZAP_MALFORMED_REPLY | ZAP_UNSPECIFIED
  | ZAP_BAD_VERSION | ZAP_BAD_REQUEST_ID | ZAP_INVALID_STATUS_CODE | ZAP_INVALID_METADATA

datatype mech_event =
    Handshake_failed_protocol protocol_problem
  | Handshake_failed_auth int
  | Handshake_failed_no_detail mech_errno

text \<open>
  The handler that is bound to \<open>inproc://zeromq.zap.01\<close>, if there is one: the type of its socket and
  whether it wants a routing id. The pipe to it is there once the session has connected;
  \<open>mc_zap_out\<close> is what has been written to it, \<open>mc_zap_in\<close> the frames that can be read from it.
\<close>

record zap_handler =
  zh_type :: int
  zh_recv_routing_id :: bool

record mech =
  mc_options :: zmtp_options
  mc_peer_address :: string
  mc_routing_id :: string
  mc_user_id :: string
  mc_zmtp_properties :: "string \<rightharpoonup> string"
  mc_zap_properties :: "string \<rightharpoonup> string"
  mc_status_code :: string
  mc_events :: "mech_event list"
  mc_handler :: "zap_handler option"
  mc_pipe :: bool
  mc_zap_out :: "msg list"
  mc_zap_in :: "msg list"

datatype mech_status = Handshaking | Ready | Mech_error

definition mech_new :: "zmtp_options \<Rightarrow> string \<Rightarrow> zap_handler option \<Rightarrow> mech" where
  "mech_new opt addr h =
     \<lparr>mc_options = opt, mc_peer_address = addr, mc_routing_id = [], mc_user_id = [],
      mc_zmtp_properties = Map.empty, mc_zap_properties = Map.empty, mc_status_code = [], mc_events = [],
      mc_handler = h, mc_pipe = False, mc_zap_out = [], mc_zap_in = []\<rparr>"

definition emit :: "mech_event \<Rightarrow> ('a mech_scheme, unit) cxx" where
  "emit v = modS (\<lambda>s. s\<lparr>mc_events := mc_events s @ [v]\<rparr>)"

text \<open>An error that is reported to the monitors and returned as \<open>errno\<close>.\<close>

definition protocol_failure :: "protocol_problem \<Rightarrow> ('a mech_scheme, mech_errno option) cxx" where
  "protocol_failure p = thenX (emit (Handshake_failed_protocol p)) (ret (Some M_EPROTO))"

section \<open>Properties of a socket\<close>

definition set_peer_routing_id :: "string \<Rightarrow> ('a mech_scheme, unit) cxx" where
  "set_peer_routing_id b = modS (\<lambda>s. s\<lparr>mc_routing_id := b\<rparr>)"

definition mech_peer_routing_id :: "'a mech_scheme \<Rightarrow> msg" where
  "mech_peer_routing_id s = set_flags flag_routing_id \<lparr>m_flags = 0, m_data = mc_routing_id s\<rparr>"

text \<open>\<open>emplace\<close> keeps a value that is there already.\<close>

definition emplace :: "string \<Rightarrow> string \<Rightarrow> (string \<rightharpoonup> string) \<Rightarrow> (string \<rightharpoonup> string)" where
  "emplace k v m = (case m k of None \<Rightarrow> m(k \<mapsto> v) | Some _ \<Rightarrow> m)"

definition set_user_id :: "string \<Rightarrow> ('a mech_scheme, unit) cxx" where
  "set_user_id u =
     modS (\<lambda>s. s\<lparr>mc_user_id := u, mc_zap_properties := emplace ''User-Id'' u (mc_zap_properties s)\<rparr>)"

definition socket_type_names :: "string list" where
  "socket_type_names =
     [''PAIR'', ''PUB'', ''SUB'', ''REQ'', ''REP'', ''DEALER'', ''ROUTER'', ''PULL'', ''PUSH'', ''XPUB'',
      ''XSUB'', ''STREAM'']"

definition socket_type_string :: "int \<Rightarrow> string res" where
  "socket_type_string t =
     (if 0 \<le> t \<and> t < int (length socket_type_names) then Inr (socket_type_names ! nat t) else Inl AssertFailed)"

definition c_str :: "string \<Rightarrow> string" where
  "c_str s = takeWhile (\<lambda>c. c \<noteq> CHR 0x00) s"

definition name_len :: "string \<Rightarrow> nat res" where
  "name_len name = (if length name \<le> UCHAR_MAX then Inr (length name) else Inl AssertFailed)"

definition property_len :: "string \<Rightarrow> nat \<Rightarrow> nat res" where
  "property_len name vlen = bindR (name_len name) (\<lambda>n. Inr (1 + n + 4 + vlen))"

text \<open>The bytes of a property; \<open>cap\<close> is the room for them.\<close>

definition add_property :: "nat \<Rightarrow> string \<Rightarrow> string \<Rightarrow> string res" where
  "add_property cap name val =
     bindR (property_len name (length val)) (\<lambda>total.
       if \<not> total \<le> cap then Inl AssertFailed
       else if \<not> length val \<le> 0x7FFFFFFF then Inl AssertFailed
       else Inr ([byte (length name)] @ name @ put_uint32 (of_nat (length val)) @ val))"

fun add_properties :: "nat \<Rightarrow> (string \<times> string) list \<Rightarrow> string res" where
  "add_properties cap [] = Inr []"
| "add_properties cap ((k, v) # ps) =
     bindR (add_property cap (c_str k) (c_str v)) (\<lambda>b.
       bindR (add_properties (cap - length b) ps) (\<lambda>r. Inr (b @ r)))"

definition has_identity :: "int \<Rightarrow> bool" where
  "has_identity t \<longleftrightarrow> t = ZMQ_REQ \<or> t = ZMQ_DEALER \<or> t = ZMQ_ROUTER"

definition add_basic_properties :: "nat \<Rightarrow> zmtp_options \<Rightarrow> string res" where
  "add_basic_properties cap opt =
     bindR (socket_type_string (zo_type opt)) (\<lambda>ty.
     bindR (add_property cap ''Socket-Type'' ty) (\<lambda>a.
     bindR (if has_identity (zo_type opt) then add_property (cap - length a) ''Identity'' (zo_routing_id opt)
            else Inr []) (\<lambda>b.
     bindR (add_properties (cap - length (a @ b)) (zo_app_metadata opt)) (\<lambda>c. Inr (a @ b @ c)))))"

fun meta_len :: "(string \<times> string) list \<Rightarrow> nat res" where
  "meta_len [] = Inr 0"
| "meta_len ((k, v) # ps) =
     bindR (property_len (c_str k) (length (c_str v))) (\<lambda>n. bindR (meta_len ps) (\<lambda>m. Inr (n + m)))"

definition basic_properties_len :: "zmtp_options \<Rightarrow> nat res" where
  "basic_properties_len opt =
     bindR (socket_type_string (zo_type opt)) (\<lambda>ty.
     bindR (meta_len (zo_app_metadata opt)) (\<lambda>m.
     bindR (property_len ''Socket-Type'' (length ty)) (\<lambda>a.
     bindR (if has_identity (zo_type opt) then property_len ''Identity'' (length (zo_routing_id opt)) else Inr 0)
       (\<lambda>b. Inr (a + m + b)))))"

definition make_command_with_basic_properties :: "string \<Rightarrow> zmtp_options \<Rightarrow> msg res" where
  "make_command_with_basic_properties pfx opt =
     bindR (basic_properties_len opt) (\<lambda>n.
     bindR (add_basic_properties n opt) (\<lambda>b. Inr \<lparr>m_flags = 0, m_data = pfx @ b\<rparr>))"

definition check_socket_type :: "int \<Rightarrow> string \<Rightarrow> bool" where
  "check_socket_type t ty \<longleftrightarrow>
     (if t = ZMQ_REQ then ty = ''REP'' \<or> ty = ''ROUTER''
      else if t = ZMQ_REP then ty = ''REQ'' \<or> ty = ''DEALER''
      else if t = ZMQ_DEALER then ty = ''REP'' \<or> ty = ''DEALER'' \<or> ty = ''ROUTER''
      else if t = ZMQ_ROUTER then ty = ''REQ'' \<or> ty = ''DEALER'' \<or> ty = ''ROUTER''
      else if t = ZMQ_PUSH then ty = ''PULL''
      else if t = ZMQ_PULL then ty = ''PUSH''
      else if t = ZMQ_PUB then ty = ''SUB'' \<or> ty = ''XSUB''
      else if t = ZMQ_SUB then ty = ''PUB'' \<or> ty = ''XPUB''
      else if t = ZMQ_XPUB then ty = ''SUB'' \<or> ty = ''XSUB''
      else if t = ZMQ_XSUB then ty = ''PUB'' \<or> ty = ''XPUB''
      else if t = ZMQ_PAIR then ty = ''PAIR''
      else False)"

text \<open>One property: what it means to the mechanism. The default \<open>property\<close> accepts everything.\<close>

definition use_property :: "string \<Rightarrow> string \<Rightarrow> ('a mech_scheme, mech_errno option) cxx" where
  "use_property name val =
     bindX (getS mc_options) (\<lambda>opt.
       if name = ''Identity'' \<and> zo_recv_routing_id opt then thenX (set_peer_routing_id val) (ret None)
       else if name = ''Socket-Type'' then
         ret (if check_socket_type (zo_type opt) val then None else Some M_EINVAL)
       else ret None)"

definition store_property :: "bool \<Rightarrow> string \<Rightarrow> string \<Rightarrow> ('a mech_scheme, unit) cxx" where
  "store_property zap name val =
     modS (\<lambda>s. if zap then s\<lparr>mc_zap_properties := emplace name val (mc_zap_properties s)\<rparr>
               else s\<lparr>mc_zmtp_properties := emplace name val (mc_zmtp_properties s)\<rparr>)"

text \<open>
  The loop leaves whenever the bytes at hand are too few; what is returned then depends on whether
  any byte is left.
\<close>

definition metadata_end :: "string \<Rightarrow> mech_errno option" where
  "metadata_end b = (if b = [] then None else Some M_EPROTO)"

fun parse_metadata :: "bool \<Rightarrow> string \<Rightarrow> ('a mech_scheme, mech_errno option) cxx" where
  "parse_metadata zap p =
     (if length p \<le> 1 then ret (metadata_end p)
      else let n = of_char (hd p); p1 = tl p in
        if length p1 < n then ret (metadata_end p1)
        else let p2 = drop n p1 in
          if length p2 < 4 then ret (metadata_end p2)
          else let k = unat (get_uint32 p2); p3 = drop 4 p2 in
            if length p3 < k then ret (metadata_end p3)
            else let name = take n p1; val = take k p3 in
              bindX (use_property name val) (\<lambda>r. case r of
                  Some e \<Rightarrow> ret (Some e)
                | None \<Rightarrow> thenX (store_property zap name val) (parse_metadata zap (drop k p3))))"

declare parse_metadata.simps [simp del]

section \<open>What the mechanisms share\<close>

definition check_basic_command_structure :: "msg \<Rightarrow> ('a mech_scheme, mech_errno option) cxx" where
  "check_basic_command_structure m =
     (if length (m_data m) \<le> 1 \<or> length (m_data m) \<le> of_char (m_data m ! 0)
      then protocol_failure ZMTP_MALFORMED_COMMAND_UNSPECIFIED else ret None)"

definition handle_error_reason :: "string \<Rightarrow> ('a mech_scheme, unit) cxx" where
  "handle_error_reason r =
     (if length r = 3 \<and> r ! 1 = CHR ''0'' \<and> r ! 2 = CHR ''0'' \<and>
         of_char CHR ''3'' \<le> (of_char (r ! 0) :: nat) \<and> of_char (r ! 0) \<le> (of_char CHR ''5'' :: nat)
      then emit (Handshake_failed_auth ((of_char (r ! 0) - of_char CHR ''0'') * 100)) else ret ())"

definition zap_required :: "zmtp_options \<Rightarrow> bool" where
  "zap_required opt \<longleftrightarrow> zo_zap_domain opt \<noteq> []"

section \<open>The session's pipe to the handler\<close>

definition zap_connect :: "('a mech_scheme, mech_errno option) cxx" where
  "zap_connect = (\<lambda>s.
     if mc_pipe s then (Inr None, s)
     else case mc_handler s of
         None \<Rightarrow> (Inr (Some M_ECONNREFUSED), s)
       | Some h \<Rightarrow>
           if \<not> (zh_type h = ZMQ_REP \<or> zh_type h = ZMQ_ROUTER \<or> zh_type h = ZMQ_SERVER) then (Inl AssertFailed, s)
           else (Inr None, s\<lparr>mc_pipe := True,
                   mc_zap_out := mc_zap_out s @
                     (if zh_recv_routing_id h then [set_flags flag_routing_id msg_init] else [])\<rparr>))"

definition zap_enabled :: "zmtp_options \<Rightarrow> bool" where
  "zap_enabled opt \<longleftrightarrow> zo_mechanism opt \<noteq> ZMQ_NULL \<or> zo_zap_domain opt \<noteq> []"

definition write_zap_msg :: "msg \<Rightarrow> ('a mech_scheme, mech_errno option) cxx" where
  "write_zap_msg m = (\<lambda>s.
     if \<not> mc_pipe s then (Inr (Some M_ENOTCONN), s) else (Inr None, s\<lparr>mc_zap_out := mc_zap_out s @ [m]\<rparr>))"

definition read_zap_msg :: "('a mech_scheme, mech_errno + msg) cxx" where
  "read_zap_msg = (\<lambda>s.
     if \<not> mc_pipe s then (Inr (Inl M_ENOTCONN), s)
     else case mc_zap_in s of
         [] \<Rightarrow> (Inr (Inl M_EAGAIN), s)
       | m # q \<Rightarrow> (Inr (Inr m), s\<lparr>mc_zap_in := q\<rparr>))"

definition errno_assert :: "('s, mech_errno option) cxx \<Rightarrow> ('s, unit) cxx" where
  "errno_assert f = bindX f (\<lambda>r. if r = None then ret () else throw AssertFailed)"

section \<open>Asking the handler\<close>

definition zap_frame :: "bool \<Rightarrow> string \<Rightarrow> msg" where
  "zap_frame cont b = \<lparr>m_flags = (if cont then flag_more else 0), m_data = b\<rparr>"

fun credential_frames :: "string list \<Rightarrow> msg list" where
  "credential_frames [] = []"
| "credential_frames (c # cs) = zap_frame (cs \<noteq> []) c # credential_frames cs"

definition zap_request :: "zmtp_options \<Rightarrow> string \<Rightarrow> string \<Rightarrow> string list \<Rightarrow> msg list" where
  "zap_request opt addr mechanism credentials =
     map (zap_frame True) [[], ''1.0'', ''1'', zo_zap_domain opt, addr, zo_routing_id opt] @
     [zap_frame (credentials \<noteq> []) mechanism] @ credential_frames credentials"

definition send_zap_request :: "string \<Rightarrow> string list \<Rightarrow> ('a mech_scheme, unit) cxx" where
  "send_zap_request mechanism credentials =
     bindX (getS (\<lambda>s. zap_request (mc_options s) (mc_peer_address s) mechanism credentials)) (\<lambda>fs.
       forX fs (\<lambda>m. errno_assert (write_zap_msg m)))"

text \<open>
  The frames of a reply: of seven all but the last announce another one. A reply that is not there
  yet is told from one that is wrong.
\<close>

datatype zap_rc = Zap_ok | Zap_again | Zap_error mech_errno

fun read_zap_frames :: "nat \<Rightarrow> ('a mech_scheme, zap_rc \<times> msg list) cxx" where
  "read_zap_frames 0 = ret (Zap_ok, [])"
| "read_zap_frames (Suc n) =
     bindX read_zap_msg (\<lambda>r. case r of
         Inl M_EAGAIN \<Rightarrow> ret (Zap_again, [])
       | Inl e \<Rightarrow> ret (Zap_error e, [])
       | Inr m \<Rightarrow>
           if has_flag m flag_more \<noteq> (n \<noteq> 0)
           then bindX (protocol_failure ZAP_MALFORMED_REPLY) (\<lambda>_. ret (Zap_error M_EPROTO, []))
           else bindX (read_zap_frames n) (\<lambda>(rc, ms). ret (rc, m # ms)))"

definition valid_status_code :: "string \<Rightarrow> bool" where
  "valid_status_code c \<longleftrightarrow> length c = 3 \<and> \<not> (of_char (c ! 0) :: nat) < of_char CHR ''2'' \<and>
     \<not> (of_char CHR ''5'' :: nat) < of_char (c ! 0) \<and> c ! 1 = CHR ''0'' \<and> c ! 2 = CHR ''0''"

definition zap_failure :: "protocol_problem \<Rightarrow> ('a mech_scheme, zap_rc) cxx" where
  "zap_failure p = bindX (protocol_failure p) (\<lambda>_. ret (Zap_error M_EPROTO))"

text \<open>The virtual function \<open>handle_zap_status_code\<close> is the argument.\<close>

definition receive_and_process_zap_reply :: "('a mech_scheme, unit) cxx \<Rightarrow> ('a mech_scheme, zap_rc) cxx" where
  "receive_and_process_zap_reply handle =
     bindX (read_zap_frames 7) (\<lambda>(rc, ms).
       if rc \<noteq> Zap_ok then ret rc
       else if m_data (ms ! 0) \<noteq> [] then zap_failure ZAP_UNSPECIFIED
       else if m_data (ms ! 1) \<noteq> ''1.0'' then zap_failure ZAP_BAD_VERSION
       else if m_data (ms ! 2) \<noteq> ''1'' then zap_failure ZAP_BAD_REQUEST_ID
       else if \<not> valid_status_code (m_data (ms ! 3)) then zap_failure ZAP_INVALID_STATUS_CODE
       else
         thenX (modS (\<lambda>s. s\<lparr>mc_status_code := m_data (ms ! 3)\<rparr>)) (
         thenX (set_user_id (m_data (ms ! 5))) (
         bindX (parse_metadata True (m_data (ms ! 6))) (\<lambda>r.
           if r \<noteq> None then zap_failure ZAP_INVALID_METADATA
           else thenX handle (ret Zap_ok)))))"

definition handle_zap_status_code :: "('a mech_scheme, unit) cxx" where
  "handle_zap_status_code =
     bindX (getS mc_status_code) (\<lambda>c.
       let d = c ! 0 in
       if d = CHR ''2'' then ret ()
       else emit (Handshake_failed_auth
              (if d = CHR ''3'' then 300 else if d = CHR ''4'' then 400 else if d = CHR ''5'' then 500 else 0)))"

section \<open>The mechanism without security\<close>

record null_mechanism = mech +
  nm_ready_command_sent :: bool
  nm_error_command_sent :: bool
  nm_ready_command_received :: bool
  nm_error_command_received :: bool
  nm_zap_request_sent :: bool
  nm_zap_reply_received :: bool

definition error_command_name :: string where "error_command_name = CHR 0x05 # ''ERROR''"
definition ready_command_name :: string where "ready_command_name = CHR 0x05 # ''READY''"

definition null_mechanism_new :: "zmtp_options \<Rightarrow> string \<Rightarrow> zap_handler option \<Rightarrow> null_mechanism" where
  "null_mechanism_new opt addr h =
     mech.extend (mech_new opt addr h)
       (null_mechanism.fields False False False False False False)"

text \<open>A command that is produced, or \<open>errno\<close>.\<close>

type_synonym 's produced = "('s, mech_errno + msg) cxx"

text \<open>The request to the handler, when one is needed: \<open>None\<close> when the handshake goes on.\<close>

definition null_ask_handler :: "(null_mechanism, mech_errno option) cxx" where
  "null_ask_handler = (\<lambda>s.
     if \<not> (zap_required (mc_options s) \<and> \<not> nm_zap_reply_received s) then (Inr None, s)
     else if nm_zap_request_sent s then (Inr (Some M_EAGAIN), s)
     else bindX zap_connect (\<lambda>rc.
       bindX (getS mc_options) (\<lambda>opt.
       case rc of
         Some e \<Rightarrow>
           if zo_zap_enforce_domain opt
           then thenX (emit (Handshake_failed_no_detail M_EFAULT)) (ret (Some e)) else ret None
       | None \<Rightarrow>
           thenX (send_zap_request ''NULL'' []) (
           thenX (modS (\<lambda>s. s\<lparr>nm_zap_request_sent := True\<rparr>)) (
           bindX (receive_and_process_zap_reply handle_zap_status_code) (\<lambda>r. case r of
               Zap_again \<Rightarrow> ret (Some M_EAGAIN)
             | Zap_error e \<Rightarrow> ret (Some e)
             | Zap_ok \<Rightarrow> thenX (modS (\<lambda>s. s\<lparr>nm_zap_reply_received := True\<rparr>)) (ret None)))))) s)"

definition null_next_handshake_command :: "null_mechanism produced" where
  "null_next_handshake_command =
     bindX (getS (\<lambda>s. nm_ready_command_sent s \<or> nm_error_command_sent s)) (\<lambda>sent.
       if sent then ret (Inl M_EAGAIN)
       else bindX null_ask_handler (\<lambda>r. case r of
           Some e \<Rightarrow> ret (Inl e)
         | None \<Rightarrow>
             bindX (getS (\<lambda>s. s)) (\<lambda>s.
               if nm_zap_reply_received s \<and> mc_status_code s \<noteq> ''200'' then
                 thenX (modS (\<lambda>s. s\<lparr>nm_error_command_sent := True\<rparr>))
                   (if mc_status_code s \<noteq> ''300''
                    then ret (Inr \<lparr>m_flags = 0, m_data = error_command_name @ [byte 3] @ take 3 (mc_status_code s)\<rparr>)
                    else ret (Inl M_EAGAIN))
               else
                 bindX (liftR (make_command_with_basic_properties ready_command_name (mc_options s))) (\<lambda>m.
                 thenX (modS (\<lambda>s. s\<lparr>nm_ready_command_sent := True\<rparr>)) (ret (Inr m))))))"

definition null_process_ready_command :: "string \<Rightarrow> (null_mechanism, mech_errno option) cxx" where
  "null_process_ready_command d =
     thenX (modS (\<lambda>s. s\<lparr>nm_ready_command_received := True\<rparr>))
       (parse_metadata False (drop (length ready_command_name) d))"

text \<open>The error command of any mechanism: a length and the reason.\<close>

definition process_error_reason :: "string \<Rightarrow> ('a mech_scheme, mech_errno option) cxx" where
  "process_error_reason d =
     (let k = length error_command_name in
      if length d < k + 1 then protocol_failure ZMTP_MALFORMED_COMMAND_ERROR
      else let n = of_char (d ! k) in
        if length d - (k + 1) < n then protocol_failure ZMTP_MALFORMED_COMMAND_ERROR
        else thenX (handle_error_reason (take n (drop (k + 1) d))) (ret None))"

definition null_process_error_command :: "string \<Rightarrow> (null_mechanism, mech_errno option) cxx" where
  "null_process_error_command d =
     bindX (process_error_reason d) (\<lambda>r.
       if r = None then thenX (modS (\<lambda>s. s\<lparr>nm_error_command_received := True\<rparr>)) (ret None) else ret r)"

definition null_process_handshake_command :: "msg \<Rightarrow> (null_mechanism, mech_errno option) cxx" where
  "null_process_handshake_command m =
     bindX (getS (\<lambda>s. nm_ready_command_received s \<or> nm_error_command_received s)) (\<lambda>got.
       if got then protocol_failure ZMTP_UNEXPECTED_COMMAND
       else let d = m_data m in
         if length d \<ge> length ready_command_name \<and> take (length ready_command_name) d = ready_command_name
         then null_process_ready_command d
         else if length d \<ge> length error_command_name \<and> take (length error_command_name) d = error_command_name
         then null_process_error_command d
         else protocol_failure ZMTP_UNEXPECTED_COMMAND)"

definition null_zap_msg_available :: "(null_mechanism, mech_errno option) cxx" where
  "null_zap_msg_available =
     bindX (getS nm_zap_reply_received) (\<lambda>got.
       if got then ret (Some M_EFSM)
       else bindX (receive_and_process_zap_reply handle_zap_status_code) (\<lambda>r. case r of
           Zap_ok \<Rightarrow> thenX (modS (\<lambda>s. s\<lparr>nm_zap_reply_received := True\<rparr>)) (ret None)
         | Zap_again \<Rightarrow> ret None
         | Zap_error e \<Rightarrow> ret (Some e)))"

definition null_status :: "null_mechanism \<Rightarrow> mech_status" where
  "null_status s =
     (if nm_ready_command_sent s \<and> nm_ready_command_received s then Ready
      else if (nm_ready_command_sent s \<or> nm_error_command_sent s) \<and>
              (nm_ready_command_received s \<or> nm_error_command_received s) then Mech_error
      else Handshaking)"

section \<open>Metadata\<close>

lemma bindX_getS [simp]: "bindX (getS f) g s = g (f s) s"
  by (simp add: bindX_def)

text \<open>A property as it is written, and what reading a list of properties does.\<close>

definition property_bytes :: "string \<times> string \<Rightarrow> string" where
  "property_bytes = (\<lambda>(k, v). [byte (length k)] @ k @ put_uint32 (of_nat (length v)) @ v)"

definition property_ok :: "string \<times> string \<Rightarrow> bool" where
  "property_ok = (\<lambda>(k, v). length k \<le> 255 \<and> length v < 2 ^ 32)"

fun use_properties :: "bool \<Rightarrow> (string \<times> string) list \<Rightarrow> ('a mech_scheme, mech_errno option) cxx" where
  "use_properties zap [] = ret None"
| "use_properties zap ((k, v) # ps) =
     bindX (use_property k v) (\<lambda>r. case r of
         Some e \<Rightarrow> ret (Some e)
       | None \<Rightarrow> thenX (store_property zap k v) (use_properties zap ps))"

text \<open>A property that ends right behind its name, or right behind the length of its value.\<close>

definition cut_property :: "string \<Rightarrow> bool" where
  "cut_property t \<longleftrightarrow>
     (\<exists>k. k \<noteq> [] \<and> length k \<le> 255 \<and> t = byte (length k) # k) \<or>
     (\<exists>k n. length k \<le> 255 \<and> 0 < n \<and> t = byte (length k) # k @ put_uint32 n)"

lemma of_char_byte_id: "n \<le> 255 \<Longrightarrow> of_char (byte n) = n"
  by (simp add: byte_def)

lemma byte_of_char [simp]: "byte (of_char c) = c"
  by (simp add: byte_def)

lemma of_char_le [simp]: "(of_char (c :: char) :: nat) \<le> 255"
  by (cases c) (auto simp: of_char_def horner_sum_simps of_bool_def)

lemma length_put_uint32 [simp]: "length (put_uint32 n) = 4"
  by (simp add: put_uint32_def)

lemma get_uint32_append: "4 \<le> length p \<Longrightarrow> get_uint32 (p @ q) = get_uint32 p"
  by (auto simp: get_uint32_def nth_append)

lemma byte_word: "take_bit 8 (of_nat (of_char (c :: char))) = (of_nat (of_char c) :: 'a :: len word)"
proof -
  have "take_bit 8 (of_char c :: nat) = of_char c"
    by (rule take_bit_nat_eq_self) (use of_char_le [of c] in simp)
  then show ?thesis by (metis of_nat_take_bit)
qed

lemma split_bytes:
  fixes w x y z :: "32 word"
  assumes "take_bit 8 w = w" "take_bit 8 x = x" "take_bit 8 y = y" "take_bit 8 z = z"
  defines "v \<equiv> push_bit 24 w OR push_bit 16 x OR push_bit 8 y OR z"
  shows "take_bit 8 (drop_bit 24 v) = w" "take_bit 8 (drop_bit 16 v) = x" "take_bit 8 (drop_bit 8 v) = y"
    "take_bit 8 v = z"
proof -
  have b: "\<not> bit u n" if "take_bit 8 u = u" "\<not> n < 8" for u :: "32 word" and n
    using that by (metis bit_take_bit_iff)
  note c = b [OF assms(1)] b [OF assms(2)] b [OF assms(3)] b [OF assms(4)]
  show "take_bit 8 (drop_bit 24 v) = w" "take_bit 8 (drop_bit 16 v) = x" "take_bit 8 (drop_bit 8 v) = y"
      "take_bit 8 v = z"
    by (rule bit_word_eqI, simp add: v_def bit_simps, rename_tac n, case_tac "n < 8", simp add: c, simp add: c)+
qed

lemma put_get_uint32:
  assumes "length p = 4"
  shows "put_uint32 (get_uint32 p) = p"
proof -
  obtain a b c d where p: "p = [a, b, c, d]" using assms
    by (auto simp: numeral_eq_Suc length_Suc_conv)
  have inv: "char_of (unat (of_nat (of_char c) :: 32 word)) = c" for c :: char
  proof -
    have "of_char c mod 2 ^ 32 = (of_char c :: nat)" by (intro mod_less le_less_trans [OF of_char_le]) simp
    then show ?thesis by (simp add: unat_of_nat)
  qed
  have "get_uint32 p = push_bit 24 (of_nat (of_char a)) OR push_bit 16 (of_nat (of_char b)) OR
      push_bit 8 (of_nat (of_char c)) OR of_nat (of_char d)"
    by (simp add: p get_uint32_def)
  then show ?thesis
    unfolding put_uint32_def by (simp only: list.map byte_take_bit drop_bit_0 id_apply split_bytes byte_word inv p)
qed

lemma parse_property:
  assumes "property_ok (k, v)"
  shows "parse_metadata zap (property_bytes (k, v) @ r) =
    bindX (use_property k v) (\<lambda>x. case x of
         Some e \<Rightarrow> ret (Some e)
       | None \<Rightarrow> thenX (store_property zap k v) (parse_metadata zap r))"
  using assms
  by (subst parse_metadata.simps)
    (simp add: property_bytes_def property_ok_def of_char_byte_id Let_def get_put_uint32 get_uint32_append
      unat_of_nat)

lemma parse_properties:
  assumes "\<forall>q \<in> set ps. property_ok q"
  shows "(parse_metadata zap (concat (map property_bytes ps) @ t) :: ('a mech_scheme, mech_errno option) cxx) =
    bindX (use_properties zap ps) (\<lambda>r. if r = None then parse_metadata zap t else ret r)"
  using assms
proof (induction ps)
  case (Cons q ps)
  obtain k v where q: "q = (k, v)" by force
  have prems: "\<forall>q \<in> set ps. property_ok q" using Cons.prems by simp
  have "(parse_metadata zap (concat (map property_bytes (q # ps)) @ t) :: ('a mech_scheme, mech_errno option) cxx) =
      bindX (use_property k v) (\<lambda>x. case x of Some e \<Rightarrow> ret (Some e)
        | None \<Rightarrow> thenX (store_property zap k v)
            (bindX (use_properties zap ps) (\<lambda>r. if r = None then parse_metadata zap t else ret r)))"
    using Cons.prems unfolding Cons.IH [OF prems, symmetric] by (simp add: q parse_property)
  also have "\<dots> = bindX (use_properties zap (q # ps)) (\<lambda>r. if r = None then parse_metadata zap t else ret r)"
    by (intro ext) (auto simp: q bindX_def thenX_def split: prod.splits sum.splits option.splits)
  finally show ?case .
qed simp

text \<open>Any bytes are properties followed by something that is not a whole property.\<close>

definition starts_property :: "string \<Rightarrow> bool" where
  "starts_property t \<longleftrightarrow> (\<exists>q r. property_ok q \<and> t = property_bytes q @ r)"

lemma properties_and_rest:
  "\<exists>ps t. p = concat (map property_bytes ps) @ t \<and> (\<forall>q \<in> set ps. property_ok q) \<and> \<not> starts_property t"
proof (induction "length p" arbitrary: p rule: less_induct)
  case less
  show ?case
  proof (cases "starts_property p")
    case True
    then obtain q r where q: "property_ok q" "p = property_bytes q @ r" by (auto simp: starts_property_def)
    then have "length r < length p" by (auto simp: property_bytes_def split: prod.splits)
    from less [OF this] obtain ps t where
      "r = concat (map property_bytes ps) @ t" "\<forall>q \<in> set ps. property_ok q" "\<not> starts_property t" by blast
    with q show ?thesis by (intro exI [of _ "q # ps"] exI [of _ t]) simp
  next
    case False
    then show ?thesis by (intro exI [of _ "[]"] exI [of _ p]) simp
  qed
qed

text \<open>What is not a whole property ends the loop.\<close>

lemma parse_rest:
  assumes "\<not> starts_property t"
  shows "parse_metadata zap t = ret (if t = [] \<or> cut_property t then None else Some M_EPROTO)"
proof (cases t)
  case Nil
  then show ?thesis by (simp add: parse_metadata.simps metadata_end_def)
next
  case (Cons c p1)
  let ?n = "of_char c :: nat"
  let ?k = "take ?n p1" and ?p2 = "drop ?n p1"
  have cut: "cut_property t \<longleftrightarrow> ?n \<le> length p1 \<and> (p1 \<noteq> [] \<and> ?p2 = [] \<or> (\<exists>m>0. ?p2 = put_uint32 m))"
  proof
    assume "cut_property t"
    then show "?n \<le> length p1 \<and> (p1 \<noteq> [] \<and> ?p2 = [] \<or> (\<exists>m>0. ?p2 = put_uint32 m))"
      by (auto simp: cut_property_def Cons of_char_byte_id)
  next
    assume r: "?n \<le> length p1 \<and> (p1 \<noteq> [] \<and> ?p2 = [] \<or> (\<exists>m>0. ?p2 = put_uint32 m))"
    then have k: "p1 = ?k @ ?p2" "length ?k = ?n" by simp_all
    show "cut_property t"
    proof (cases "?p2 = []")
      case True
      then have "p1 = ?k" "p1 \<noteq> []" using r k by (auto dest: arg_cong [where f = length])
      then show ?thesis using k(2) by (auto simp: cut_property_def Cons)
    next
      case False
      then obtain m where "0 < m" "?p2 = put_uint32 m" using r by blast
      with k have "0 < m \<and> t = byte (length ?k) # ?k @ put_uint32 m \<and> length ?k \<le> 255" by (simp add: Cons)
      then show ?thesis unfolding cut_property_def by blast
    qed
  qed
  show ?thesis
  proof (cases "4 \<le> length ?p2")
    case False
    have "\<not> (\<exists>m>0. ?p2 = put_uint32 m)" using False by (metis length_put_uint32 order_refl)
    with False show ?thesis using cut
      by (subst parse_metadata.simps) (auto simp: Cons Let_def metadata_end_def)
  next
    case True
    define m where "m = get_uint32 ?p2"
    define k where "k = ?k"
    define r where "r = drop 4 ?p2"
    have "get_uint32 (take 4 ?p2) = m" using get_uint32_append [of "take 4 ?p2" r] True
      by (simp add: m_def r_def del: drop_drop)
    then have "take 4 ?p2 = put_uint32 m" using put_get_uint32 [of "take 4 ?p2"] True by simp
    then have p2: "?p2 = put_uint32 m @ r" unfolding r_def by (metis append_take_drop_id)
    then have p1: "p1 = k @ put_uint32 m @ r" unfolding k_def by (metis append_take_drop_id)
    have n: "?n = length k" "length k \<le> 255" using True of_char_le [of c] by (simp_all add: k_def)
    have "length r < unat m"
    proof (rule ccontr)
      assume "\<not> length r < unat m"
      then have "t = property_bytes (k, take (unat m) r) @ drop (unat m) r"
        by (simp add: Cons p1 property_bytes_def flip: n(1))
      moreover have "property_ok (k, take (unat m) r)"
        using unsigned_less [of m, where 'a = nat] n by (simp add: property_ok_def min.strict_coboundedI2)
      ultimately show False using assms by (auto simp: starts_property_def)
    qed
    moreover from this have "(\<exists>m>0. ?p2 = put_uint32 m) \<longleftrightarrow> r = []"
    proof -
      have "r = []" if "put_uint32 m @ r = put_uint32 m'" for m' using arg_cong [OF that, of length] by simp
      moreover have "0 < m" if "length r < unat m" using that by (simp add: word_gt_0 unat_gt_0 [symmetric])
      ultimately show ?thesis using \<open>length r < unat m\<close> unfolding p2 by auto
    qed
    ultimately show ?thesis using cut
      by (subst parse_metadata.simps)
        (simp add: Cons n p1 Let_def metadata_end_def get_put_uint32 get_uint32_append)
  qed
qed

text \<open>
  C33. The bytes after the name of a command are taken apart into properties, which are used one after
  the other until one is refused. What remains is accepted when nothing remains, and also when a
  property is cut off right behind its name or right behind the length of its value; every other
  remainder is a protocol error.
\<close>

theorem parse_metadata_outcome:
  "\<exists>ps t. p = concat (map property_bytes ps) @ t \<and> list_all property_ok ps \<and> \<not> starts_property t \<and>
     (parse_metadata zap p :: ('a mech_scheme, mech_errno option) cxx) = bindX (use_properties zap ps) (\<lambda>r.
       ret (if r \<noteq> None then r else if t = [] \<or> cut_property t then None else Some M_EPROTO))"
proof -
  obtain ps t where p: "p = concat (map property_bytes ps) @ t" "\<forall>q \<in> set ps. property_ok q" "\<not> starts_property t"
    using properties_and_rest [of p] by blast
  have "(parse_metadata zap p :: ('a mech_scheme, mech_errno option) cxx) = bindX (use_properties zap ps) (\<lambda>r.
       ret (if r \<noteq> None then r else if t = [] \<or> cut_property t then None else Some M_EPROTO))"
    unfolding p(1) parse_properties [OF p(2)] parse_rest [OF p(3)]
    by (intro arg_cong [where f = "bindX _"] ext) simp
  with p show ?thesis unfolding list_all_iff by blast
qed

section \<open>Commands with properties\<close>

text \<open>Options as the socket interface leaves them: names of metadata start with \<open>X-\<close>.\<close>

definition app_property_ok :: "string \<times> string \<Rightarrow> bool" where
  "app_property_ok = (\<lambda>(k, v). take 2 k = ''X-'' \<and> length k \<le> 255 \<and> length v \<le> 0x7FFFFFFF)"

definition options_ok :: "zmtp_options \<Rightarrow> bool" where
  "options_ok opt \<longleftrightarrow> 0 \<le> zo_type opt \<and> zo_type opt < 12 \<and> length (zo_routing_id opt) \<le> 255 \<and>
     list_all app_property_ok (zo_app_metadata opt)"

definition type_name :: "zmtp_options \<Rightarrow> string" where
  "type_name opt = socket_type_names ! nat (zo_type opt)"

definition basic_properties :: "zmtp_options \<Rightarrow> (string \<times> string) list" where
  "basic_properties opt = (''Socket-Type'', type_name opt) #
     (if has_identity (zo_type opt) then [(''Identity'', zo_routing_id opt)] else []) @
     map (\<lambda>(k, v). (c_str k, c_str v)) (zo_app_metadata opt)"

lemma length_c_str: "length (c_str s) \<le> length s"
  by (simp add: c_str_def length_takeWhile_le)

lemma length_property_bytes: "length (property_bytes (k, v)) = 5 + length k + length v"
  by (simp add: property_bytes_def)

lemma property_len_ok: "length k \<le> 255 \<Longrightarrow> property_len k n = Inr (5 + length k + n)"
  by (simp add: property_len_def name_len_def UCHAR_MAX_def)

lemma add_property_ok:
  "length k \<le> 255 \<Longrightarrow> length v \<le> 0x7FFFFFFF \<Longrightarrow> 5 + length k + length v \<le> cap \<Longrightarrow>
   add_property cap k v = Inr (property_bytes (k, v))"
  by (simp add: add_property_def property_len_ok property_bytes_def)

lemma app_property_bounds:
  assumes "app_property_ok (k, v)"
  shows "length (c_str k) \<le> 255" "length (c_str v) \<le> 0x7FFFFFFF"
  using assms length_c_str [of k] length_c_str [of v] by (auto simp: app_property_ok_def)

lemma metadata_written:
  assumes "list_all app_property_ok ps"
  defines "b \<equiv> concat (map property_bytes (map (\<lambda>(k, v). (c_str k, c_str v)) ps))"
  shows "meta_len ps = Inr (length b)" "length b \<le> cap \<Longrightarrow> add_properties cap ps = Inr b"
  using assms(1) unfolding b_def
proof (induction ps arbitrary: cap)
  case (Cons q ps)
  obtain k v where q: "q = (k, v)" by force
  note bd = app_property_bounds [of k v]
  case 1
  then show ?case using Cons.IH(1) bd by (simp add: q property_len_ok length_property_bytes)
  case 2
  then show ?case using Cons.IH(2) bd by (simp add: q add_property_ok length_property_bytes)
qed simp_all

lemma type_name_ok: "options_ok opt \<Longrightarrow> socket_type_string (zo_type opt) = Inr (type_name opt)"
  by (simp add: options_ok_def socket_type_string_def type_name_def socket_type_names_def)

lemma length_socket_type_names: "length socket_type_names = 12"
  by (simp add: socket_type_names_def)

lemma length_type_name: "options_ok opt \<Longrightarrow> length (type_name opt) \<le> 6"
proof -
  assume "options_ok opt"
  then have "type_name opt \<in> set socket_type_names"
    unfolding type_name_def by (intro nth_mem) (auto simp: options_ok_def length_socket_type_names)
  then show ?thesis by (auto simp: socket_type_names_def)
qed

text \<open>The room that is computed for the properties is the room they take: no assertion fails.\<close>

lemma make_command_ok:
  assumes "options_ok opt"
  shows "make_command_with_basic_properties pfx opt =
    Inr \<lparr>m_flags = 0, m_data = pfx @ concat (map property_bytes (basic_properties opt))\<rparr>"
proof -
  have ps: "list_all app_property_ok (zo_app_metadata opt)" "length (zo_routing_id opt) \<le> 255"
    using assms by (simp_all add: options_ok_def)
  note ty = type_name_ok [OF assms] length_type_name [OF assms]
  show ?thesis using ps(2) ty(2)
    by (simp add: make_command_with_basic_properties_def basic_properties_len_def add_basic_properties_def
        basic_properties_def ty(1) metadata_written [OF ps(1)] property_len_ok add_property_ok length_property_bytes)
qed

lemma basic_properties_ok: "options_ok opt \<Longrightarrow> \<forall>q \<in> set (basic_properties opt). property_ok q"
  using length_type_name [of opt] app_property_bounds
  by (fastforce simp: basic_properties_def property_ok_def options_ok_def list_all_iff)

section \<open>Both ends\<close>

text \<open>Whether two types of sockets can talk to each other does not depend on who is asked.\<close>

lemma socket_types_12:
  "0 \<le> t \<Longrightarrow> t < 12 \<Longrightarrow> t = 0 \<or> t = 1 \<or> t = 2 \<or> t = 3 \<or> t = 4 \<or> t = 5 \<or> t = 6 \<or> t = 7 \<or> t = 8 \<or> t = 9 \<or>
   t = 10 \<or> t = (11 :: int)"
  by presburger

lemma check_symmetric:
  assumes "options_ok oa" "options_ok ob"
  shows "check_socket_type (zo_type oa) (type_name ob) = check_socket_type (zo_type ob) (type_name oa)"
proof -
  have "0 \<le> zo_type oa" "zo_type oa < 12" "0 \<le> zo_type ob" "zo_type ob < 12"
    using assms by (simp_all add: options_ok_def)
  from socket_types_12 [OF this(1,2)] socket_types_12 [OF this(3,4)] show ?thesis
    by (elim disjE) (simp_all add: check_socket_type_def type_name_def socket_type_names_def socket_types)
qed

text \<open>Using the properties of a peer.\<close>

definition properties_of :: "zmtp_options \<Rightarrow> (string \<rightharpoonup> string)" where
  "properties_of opt = fold (\<lambda>(k, v). emplace k v) (basic_properties opt) Map.empty"

definition compatible :: "zmtp_options \<Rightarrow> zmtp_options \<Rightarrow> bool" where
  "compatible opt peer \<longleftrightarrow> check_socket_type (zo_type opt) (type_name peer)"

lemma use_other_properties:
  assumes "\<forall>(k, v) \<in> set ps. k \<noteq> ''Identity'' \<and> k \<noteq> ''Socket-Type''"
  shows "use_properties False ps s =
    (Inr None, s\<lparr>mc_zmtp_properties := fold (\<lambda>(k, v). emplace k v) ps (mc_zmtp_properties s)\<rparr>)"
  using assms by (induction ps arbitrary: s) (auto simp: use_property_def store_property_def)

lemma app_names:
  assumes "list_all app_property_ok ps"
  shows "\<forall>(k, v) \<in> set (map (\<lambda>(k, v). (c_str k, c_str v)) ps). k \<noteq> ''Identity'' \<and> k \<noteq> ''Socket-Type''"
proof -
  have "c_str k \<noteq> ''Identity'' \<and> c_str k \<noteq> ''Socket-Type''" if "take 2 k = ''X-''" for k
    using that by (cases k; cases "tl k"; auto simp: c_str_def)
  then show ?thesis using assms by (fastforce simp: list_all_iff app_property_ok_def)
qed

lemma use_basic_properties:
  assumes "options_ok peer"
  shows "use_properties False (basic_properties peer) s =
    (if compatible (mc_options s) peer
     then (Inr None, s\<lparr>mc_routing_id := (if zo_recv_routing_id (mc_options s) \<and> has_identity (zo_type peer)
                          then zo_routing_id peer else mc_routing_id s),
                       mc_zmtp_properties := fold (\<lambda>(k, v). emplace k v) (basic_properties peer) (mc_zmtp_properties s)\<rparr>)
     else (Inr (Some M_EINVAL), s))"
proof -
  have "list_all app_property_ok (zo_app_metadata peer)" using assms by (simp add: options_ok_def)
  note app = use_other_properties [OF app_names [OF this]]
  show ?thesis
    by (simp add: basic_properties_def compatible_def use_property_def store_property_def app set_peer_routing_id_def)
qed

lemma parse_basic_properties:
  assumes "options_ok peer"
  shows "parse_metadata False (concat (map property_bytes (basic_properties peer))) s =
    use_properties False (basic_properties peer) s"
  by (simp add: parse_properties [OF basic_properties_ok [OF assms], of False "[]", simplified]
      parse_metadata.simps [of _ "[]"] metadata_end_def bindX_def split: prod.splits sum.splits)

lemma null_asks_nobody: "zo_zap_domain (mc_options s) = [] \<Longrightarrow> null_ask_handler s = (Inr None, s)"
  by (simp add: null_ask_handler_def zap_required_def)

lemma null_sends:
  assumes "options_ok opt" "zo_zap_domain opt = []"
  shows "null_next_handshake_command (null_mechanism_new opt p h) =
    (Inr (Inr \<lparr>m_flags = 0, m_data = ready_command_name @ concat (map property_bytes (basic_properties opt))\<rparr>),
     (null_mechanism_new opt p h)\<lparr>nm_ready_command_sent := True\<rparr>)"
  using assms
  by (simp add: null_next_handshake_command_def null_asks_nobody null_mechanism_new_def
      mech_new_def mech.defs null_mechanism.defs make_command_ok)

lemma null_receives:
  assumes "options_ok peer" "\<not> nm_ready_command_received s" "\<not> nm_error_command_received s"
  shows "null_process_handshake_command
      \<lparr>m_flags = 0, m_data = ready_command_name @ concat (map property_bytes (basic_properties peer))\<rparr> s =
    use_properties False (basic_properties peer) (s\<lparr>nm_ready_command_received := True\<rparr>)"
  using assms
  by (simp add: null_process_handshake_command_def null_process_ready_command_def parse_basic_properties)

text \<open>
  C32. Two sockets without security. Each sends its READY command; each then takes the command of the
  other, and both accept it when the types of the sockets fit together, or both refuse it. When they
  accept, the handshake is over for both and each knows the properties of the other, and its routing
  id if it asks for one.
\<close>

theorem null_handshake:
  assumes "options_ok oa" "options_ok ob" "zo_zap_domain oa = []" "zo_zap_domain ob = []"
  shows "\<exists>ma mb a b a' b'.
    null_next_handshake_command (null_mechanism_new oa pa ha) = (Inr (Inr ma), a) \<and>
    null_next_handshake_command (null_mechanism_new ob pb hb) = (Inr (Inr mb), b) \<and>
    null_process_handshake_command mb a = (Inr (if compatible oa ob then None else Some M_EINVAL), a') \<and>
    null_process_handshake_command ma b = (Inr (if compatible oa ob then None else Some M_EINVAL), b') \<and>
    (compatible oa ob \<longrightarrow>
       null_status a' = Ready \<and> null_status b' = Ready \<and>
       mc_zmtp_properties a' = properties_of ob \<and> mc_zmtp_properties b' = properties_of oa \<and>
       mc_routing_id a' = (if zo_recv_routing_id oa \<and> has_identity (zo_type ob) then zo_routing_id ob else []) \<and>
       mc_routing_id b' = (if zo_recv_routing_id ob \<and> has_identity (zo_type oa) then zo_routing_id oa else []))"
proof -
  have sym: "compatible ob oa = compatible oa ob" using check_symmetric [OF assms(1,2)] by (simp add: compatible_def)
  have new: "mc_options (null_mechanism_new opt p h) = opt" "mc_routing_id (null_mechanism_new opt p h) = []"
    "mc_zmtp_properties (null_mechanism_new opt p h) = Map.empty"
    "\<not> nm_ready_command_received (null_mechanism_new opt p h)" "\<not> nm_error_command_received (null_mechanism_new opt p h)"
    for opt p h by (simp_all add: null_mechanism_new_def mech_new_def mech.defs null_mechanism.defs)
  show ?thesis
    by (simp add: null_sends [OF assms(1,3)] null_sends [OF assms(2,4)] null_receives [OF assms(1)] new
        null_receives [OF assms(2)] use_basic_properties [OF assms(1)] use_basic_properties [OF assms(2)] sym
        null_status_def properties_of_def)
qed

definition socket_options :: "int \<Rightarrow> string \<Rightarrow> bool \<Rightarrow> zmtp_options" where
  "socket_options t rid recv =
     \<lparr>zo_type = t, zo_routing_id = rid, zo_recv_routing_id = recv, zo_app_metadata = [(''X-App'', ''arbutus'')],
      zo_mechanism = ZMQ_NULL, zo_as_server = False, zo_zap_domain = [], zo_zap_enforce_domain = False,
      zo_plain_username = [], zo_plain_password = [], zo_in_batch = 8192, zo_out_batch = 8192,
      zo_maxmsgsize = - 1, zo_zero_copy = True\<rparr>"

lemma socket_options_ok:
  "options_ok (socket_options ZMQ_REQ ''client'' False)" "options_ok (socket_options ZMQ_ROUTER ''r'' True)"
  "compatible (socket_options ZMQ_REQ ''client'' False) (socket_options ZMQ_ROUTER ''r'' True)"
  by (simp_all add: options_ok_def socket_options_def socket_types app_property_ok_def compatible_def
      check_socket_type_def type_name_def socket_type_names_def)

theorem null_handshake_witness:
  "\<exists>ma mb a b a' b'.
    null_next_handshake_command (null_mechanism_new (socket_options ZMQ_REQ ''client'' False) [] None) = (Inr (Inr ma), a) \<and>
    null_next_handshake_command (null_mechanism_new (socket_options ZMQ_ROUTER ''r'' True) [] None) = (Inr (Inr mb), b) \<and>
    null_process_handshake_command mb a = (Inr None, a') \<and> null_process_handshake_command ma b = (Inr None, b') \<and>
    null_status a' = Ready \<and> null_status b' = Ready \<and> mc_routing_id b' = ''client''"
proof -
  have "zo_zap_domain (socket_options t r x) = []" for t r x by (simp add: socket_options_def)
  from null_handshake [OF socket_options_ok(1,2) this this, of "[]" None "[]" None] show ?thesis
    by (elim exE) (simp add: socket_options_ok(3), auto simp: socket_options_def has_identity_def)
qed


end
