(* ===== verification/Zmtp.thy ===== *)
theory Zmtp
  imports ZmqStream ZmqMechanism
begin

text \<open>
  \<open>libzmq/zmtp_engine.cpp\<close>: how an engine agrees with its peer on a version of the protocol, and the
  commands of an established connection, with which the peers watch each other.
\<close>

unbundle bit_operations_syntax

section \<open>The greeting\<close>

text \<open>
  \<open>gr_sent\<close> is what has been put into \<open>_greeting_send\<close> and \<open>gr_out\<close> the end of it that has not been
  written, so that \<open>_outpos + _outsize\<close> is the end of the former.
\<close>

record greeting =
  gr_size :: nat
  gr_recv :: string
  gr_sent :: string
  gr_out :: string
  gr_pollout :: bool

definition signature_size :: nat where "signature_size = 10"
definition v2_greeting_size :: nat where "v2_greeting_size = 12"
definition v3_greeting_size :: nat where "v3_greeting_size = 64"
definition revision_pos :: nat where "revision_pos = 10"
definition minor_pos :: nat where "minor_pos = 11"

definition ZMTP_1_0 :: char where "ZMTP_1_0 = byte 0"
definition ZMTP_2_0 :: char where "ZMTP_2_0 = byte 1"
definition ZMTP_3_x :: char where "ZMTP_3_x = byte 3"

text \<open>\<open>plug_internal\<close>: the header of a routing id message in the long format of version 1.\<close>

definition plug_internal :: "zmtp_options \<Rightarrow> greeting" where
  "plug_internal opt =
     (let b = [byte UCHAR_MAX] @ put_uint64 (of_nat (length (zo_routing_id opt) + 1)) @ [byte 0x7f] in
      \<lparr>gr_size = v2_greeting_size, gr_recv = [], gr_sent = b, gr_out = b, gr_pollout = True\<rparr>)"

definition append_greeting :: "string \<Rightarrow> greeting \<Rightarrow> greeting" where
  "append_greeting b g =
     g\<lparr>gr_sent := gr_sent g @ b, gr_out := gr_out g @ b, gr_pollout := (gr_out g = [] \<or> gr_pollout g)\<rparr>"

primrec mechanism_name :: "mechanism \<Rightarrow> string" where
  "mechanism_name ZMQ_NULL = ''NULL''"
| "mechanism_name ZMQ_PLAIN = ''PLAIN''"
| "mechanism_name ZMQ_CURVE = ''CURVE''"
| "mechanism_name ZMQ_GSSAPI = ''GSSAPI''"

text \<open>The name of the mechanism, filled up with zeros to twenty bytes.\<close>

definition padded :: "nat \<Rightarrow> string \<Rightarrow> string" where
  "padded n s = s @ replicate (n - length s) (byte 0)"

definition receive_greeting_versioned :: "zmtp_options \<Rightarrow> greeting \<Rightarrow> greeting" where
  "receive_greeting_versioned opt g =
     (let g = (if length (gr_sent g) = signature_size then append_greeting [byte 3] g else g) in
      if signature_size < length (gr_recv g) \<and> length (gr_sent g) = signature_size + 1 then
        (if gr_recv g ! revision_pos = ZMTP_1_0 \<or> gr_recv g ! revision_pos = ZMTP_2_0
         then append_greeting (put_uint8 (of_int (zo_type opt))) g
         else (append_greeting ([byte 1] @ padded 20 (mechanism_name (zo_mechanism opt)) @ replicate 32 (byte 0)) g)
                \<lparr>gr_size := v3_greeting_size\<rparr>)
      else g)"

datatype greeting_rc = Greet_wait | Greet_error | Greet_done bool

partial_function (option) receive_greeting ::
  "zmtp_options \<Rightarrow> (nat \<Rightarrow> 'w \<Rightarrow> read_rc \<times> 'w) \<Rightarrow> greeting \<Rightarrow> 'w \<Rightarrow> (greeting_rc \<times> greeting \<times> 'w) option" where
  "receive_greeting opt rd g w =
     (if \<not> length (gr_recv g) < gr_size g then Some (Greet_done False, g, w)
      else case rd (gr_size g - length (gr_recv g)) w of
          (Read_again, w) \<Rightarrow> Some (Greet_wait, g, w)
        | (Read_error, w) \<Rightarrow> Some (Greet_error, g, w)
        | (Read_data b, w) \<Rightarrow>
            (let g = g\<lparr>gr_recv := gr_recv g @ b\<rparr> in
             if gr_recv g ! 0 \<noteq> byte 0xff then Some (Greet_done True, g, w)
             else if length (gr_recv g) < signature_size then receive_greeting opt rd g w
             else if get_uint8 [gr_recv g ! 9] AND 1 = 0 then Some (Greet_done True, g, w)
             else receive_greeting opt rd (receive_greeting_versioned opt g) w))"

datatype handshake_fun =
    Handshake_v1_0_unversioned | Handshake_v1_0 | Handshake_v2_0 | Handshake_v3_0 | Handshake_v3_1

definition select_handshake_fun :: "bool \<Rightarrow> char \<Rightarrow> char \<Rightarrow> handshake_fun" where
  "select_handshake_fun unversioned revision minor =
     (if unversioned then Handshake_v1_0_unversioned
      else if revision = ZMTP_1_0 then Handshake_v1_0
      else if revision = ZMTP_2_0 then Handshake_v2_0
      else if revision = ZMTP_3_x then (if minor = byte 0 then Handshake_v3_0 else Handshake_v3_1)
      else Handshake_v3_1)"

text \<open>
  The part of \<open>handshake\<close> that finds out which of the functions is to be called, once the greeting is
  complete.
\<close>

datatype greet_result = Hs_wait | Hs_failed | Hs_fun handshake_fun

definition greet ::
  "zmtp_options \<Rightarrow> (nat \<Rightarrow> 'w \<Rightarrow> read_rc \<times> 'w) \<Rightarrow> greeting \<Rightarrow> 'w \<Rightarrow> (greet_result res \<times> greeting \<times> 'w) option" where
  "greet opt rd g w =
     (if \<not> length (gr_recv g) < gr_size g then Some (Inl AssertFailed, g, w)
      else case receive_greeting opt rd g w of
          None \<Rightarrow> None
        | Some (Greet_done unversioned, g, w) \<Rightarrow>
            Some (Inr (Hs_fun (select_handshake_fun unversioned (gr_recv g ! revision_pos) (gr_recv g ! minor_pos))),
                  g, w)
        | Some (Greet_wait, g, w) \<Rightarrow> Some (Inr Hs_wait, g, w)
        | Some (Greet_error, g, w) \<Rightarrow> Some (Inr Hs_failed, g, w))"

text \<open>\<open>out_event\<close> before there is an encoder: the connection takes at most \<open>k\<close> bytes of the greeting.\<close>

definition greet_out_event :: "nat \<Rightarrow> greeting \<Rightarrow> string \<times> greeting" where
  "greet_out_event k g =
     (if gr_out g = [] then ([], g)
      else let rest = drop k (gr_out g) in
        (take k (gr_out g), g\<lparr>gr_out := rest, gr_pollout := (rest \<noteq> [] \<and> gr_pollout g)\<rparr>))"

section \<open>The functions behind the greeting\<close>

text \<open>
  What \<open>_next_msg\<close> and \<open>_process_msg\<close> point to, the mechanism that is made, and what an engine has
  when a handshake function returns. \<open>hk_in\<close> is the input that the decoder gets first.
\<close>

datatype next_fun =
    Routing_id_msg | Pull_msg_from_session | Next_handshake_command | Pull_and_encode
  | Produce_ping_message | Produce_pong_message

datatype process_fun =
    Process_routing_id_msg | Process_handshake_command | Push_msg_to_session | Write_credential
  | Decode_and_push | Push_one_then_decode_and_push

datatype mech_kind =
    Null_mechanism | Plain_server | Plain_client | Curve_server bool | Curve_client bool

record handshaken =
  hk_encoder_class :: enc_class
  hk_encoder :: encoder
  hk_decoder_class :: dec_class
  hk_decoder :: decoder
  hk_in :: string
  hk_subscription_required :: bool
  hk_next_msg :: next_fun
  hk_process_msg :: process_fun
  hk_mechanism :: "mech_kind option"

text \<open>
  The results: \<open>None\<close> inside stands for a protocol error that ends the connection, \<open>None\<close> outside for
  a loop of the encoder that does not end. \<open>mem\<close> says for which sizes there is memory.
\<close>

type_synonym hs_result = "handshaken option res option"

definition codec ::
  "(nat \<Rightarrow> bool) \<Rightarrow> zmtp_options \<Rightarrow> enc_class \<Rightarrow> dec_class \<Rightarrow> decoder \<Rightarrow> handshaken" where
  "codec mem opt C D d =
     \<lparr>hk_encoder_class = C, hk_encoder = encoder_new (zo_out_batch opt), hk_decoder_class = D, hk_decoder = d,
      hk_in = [], hk_subscription_required = False, hk_next_msg = Routing_id_msg,
      hk_process_msg = Process_routing_id_msg, hk_mechanism = None\<rparr>"

definition v1_codec :: "(nat \<Rightarrow> bool) \<Rightarrow> zmtp_options \<Rightarrow> handshaken" where
  "v1_codec mem opt = codec mem opt v1_encoder (v1_decoder mem) (v1_decoder_new (zo_in_batch opt) (zo_maxmsgsize opt))"

definition v2_codec :: "(nat \<Rightarrow> bool) \<Rightarrow> zmtp_options \<Rightarrow> enc_class \<Rightarrow> handshaken" where
  "v2_codec mem opt C =
     codec mem opt C (v2_decoder mem) (v2_decoder_new (zo_in_batch opt) (zo_maxmsgsize opt) (zo_zero_copy opt))"

definition handshake_v1_0_unversioned :: "(nat \<Rightarrow> bool) \<Rightarrow> zmtp_options \<Rightarrow> greeting \<Rightarrow> hs_result" where
  "handshake_v1_0_unversioned mem opt g =
     (if zap_enabled opt then Some (Inr None)
      else let h = v1_codec mem opt;
               header_size = (if UCHAR_MAX \<le> length (zo_routing_id opt) + 1 then 10 else 2) in
        case load_msg v1_encoder \<lparr>m_flags = 0, m_data = zo_routing_id opt\<rparr> (hk_encoder h) of
          Inl x \<Rightarrow> Some (Inl x)
        | Inr en \<Rightarrow>
            (case encode v1_encoder (Some header_size) en of
               None \<Rightarrow> None
             | Some (b, en) \<Rightarrow>
                 if length b \<noteq> header_size then Some (Inl AssertFailed)
                 else Some (Inr (Some (h\<lparr>hk_encoder := en, hk_in := gr_recv g,
                   hk_subscription_required := (zo_type opt = ZMQ_PUB \<or> zo_type opt = ZMQ_XPUB),
                   hk_next_msg := Pull_msg_from_session, hk_process_msg := Process_routing_id_msg\<rparr>)))))"

definition handshake_v1_0 :: "(nat \<Rightarrow> bool) \<Rightarrow> zmtp_options \<Rightarrow> hs_result" where
  "handshake_v1_0 mem opt = Some (Inr (if zap_enabled opt then None else Some (v1_codec mem opt)))"

definition handshake_v2_0 :: "(nat \<Rightarrow> bool) \<Rightarrow> zmtp_options \<Rightarrow> hs_result" where
  "handshake_v2_0 mem opt = Some (Inr (if zap_enabled opt then None else Some (v2_codec mem opt v2_encoder)))"

text \<open>
  The constructor of the PLAIN server asserts that there is a domain for the handler when the options
  enforce one (\<open>plain_server.cpp\<close>). The library is built with CURVE and without GSSAPI.
\<close>

definition plain_server_refused :: "zmtp_options \<Rightarrow> bool" where
  "plain_server_refused opt \<longleftrightarrow> zo_zap_enforce_domain opt \<and> \<not> zap_required opt"

definition handshake_v3_x :: "bool \<Rightarrow> zmtp_options \<Rightarrow> greeting \<Rightarrow> handshaken \<Rightarrow> hs_result" where
  "handshake_v3_x downgrade_sub opt g h =
     (let peer = take 20 (drop 12 (gr_recv g));
          is = (\<lambda>m. zo_mechanism opt = m \<and> peer = padded 20 (mechanism_name m));
          kind = (if is ZMQ_NULL then Some Null_mechanism
                  else if is ZMQ_PLAIN then Some (if zo_as_server opt then Plain_server else Plain_client)
                  else if is ZMQ_CURVE then
                    Some (if zo_as_server opt then Curve_server downgrade_sub else Curve_client downgrade_sub)
                  else None) in
      if kind = Some Plain_server \<and> plain_server_refused opt then Some (Inl AssertFailed)
      else Some (Inr (case kind of
          None \<Rightarrow> None
        | Some k \<Rightarrow> Some (h\<lparr>hk_mechanism := Some k, hk_next_msg := Next_handshake_command,
                             hk_process_msg := Process_handshake_command\<rparr>))))"

definition handshake_v3_0 :: "(nat \<Rightarrow> bool) \<Rightarrow> zmtp_options \<Rightarrow> greeting \<Rightarrow> hs_result" where
  "handshake_v3_0 mem opt g = handshake_v3_x True opt g (v2_codec mem opt v2_encoder)"

definition handshake_v3_1 :: "(nat \<Rightarrow> bool) \<Rightarrow> zmtp_options \<Rightarrow> greeting \<Rightarrow> hs_result" where
  "handshake_v3_1 mem opt g = handshake_v3_x False opt g (v2_codec mem opt v3_1_encoder)"

definition call_handshake_fun :: "(nat \<Rightarrow> bool) \<Rightarrow> zmtp_options \<Rightarrow> handshake_fun \<Rightarrow> greeting \<Rightarrow> hs_result" where
  "call_handshake_fun mem opt f g =
     (case f of
        Handshake_v1_0_unversioned \<Rightarrow> handshake_v1_0_unversioned mem opt g
      | Handshake_v1_0 \<Rightarrow> handshake_v1_0 mem opt
      | Handshake_v2_0 \<Rightarrow> handshake_v2_0 mem opt
      | Handshake_v3_0 \<Rightarrow> handshake_v3_0 mem opt g
      | Handshake_v3_1 \<Rightarrow> handshake_v3_1 mem opt g)"

section \<open>Heartbeats\<close>

text \<open>
  What \<open>_next_msg\<close> points to, the message kept for the answer to a PING, the timers that run and
  those that have been started, with their milliseconds.
\<close>

datatype timer_id = Heartbeat_ivl_timer | Heartbeat_timeout_timer | Heartbeat_ttl_timer

record zmtp =
  zt_next_msg :: next_fun
  zt_pong_msg :: msg
  zt_has_ttl_timer :: bool
  zt_has_timeout_timer :: bool
  zt_timers :: "(timer_id \<times> int) list"
  zt_heartbeat_ttl :: "16 word"
  zt_heartbeat_timeout :: int

definition ping_cmd_name_size :: nat where "ping_cmd_name_size = 5"

definition ping_cmd :: string where "ping_cmd = byte 4 # ''PING''"
definition pong_cmd :: string where "pong_cmd = byte 4 # ''PONG''"

definition add_timer :: "int \<Rightarrow> timer_id \<Rightarrow> zmtp \<Rightarrow> zmtp" where
  "add_timer ms i z = z\<lparr>zt_timers := zt_timers z @ [(i, ms)]\<rparr>"

text \<open>The security mechanism encodes a message or refuses it.\<close>

definition produce_ping_message :: "(msg \<Rightarrow> msg option) \<Rightarrow> zmtp \<Rightarrow> msg option \<times> zmtp" where
  "produce_ping_message mech z =
     (let m = set_flags flag_command \<lparr>m_flags = 0, m_data = ping_cmd @ put_uint16 (zt_heartbeat_ttl z)\<rparr>;
          z = z\<lparr>zt_next_msg := Pull_and_encode\<rparr> in
      (mech m,
       if \<not> zt_has_timeout_timer z \<and> 0 < zt_heartbeat_timeout z
       then (add_timer (zt_heartbeat_timeout z) Heartbeat_timeout_timer z)\<lparr>zt_has_timeout_timer := True\<rparr>
       else z))"

definition produce_pong_message :: "(msg \<Rightarrow> msg option) \<Rightarrow> zmtp \<Rightarrow> msg option \<times> zmtp" where
  "produce_pong_message mech z =
     (mech (zt_pong_msg z), z\<lparr>zt_pong_msg := msg_init, zt_next_msg := Pull_and_encode\<rparr>)"

text \<open>
  A PING carries a time to live in tenths of a second, which is multiplied as a 16-bit number, and a
  context. Both are read from where they should be; in a message that is too short those bytes
  have not been written. The length of the context is an unsigned difference.
\<close>

definition process_heartbeat_message :: "(zmtp, unit) cxx \<Rightarrow> msg \<Rightarrow> (zmtp, unit) cxx" where
  "process_heartbeat_message out m =
     (if \<not> is_ping m then ret ()
      else if length (m_data m) < ping_cmd_name_size + 2 then throw (UB UninitialisedRead)
      else let ttl = get_uint16 (drop ping_cmd_name_size (m_data m)) * 100;
               context = take 16 (drop (ping_cmd_name_size + 2) (m_data m)) in
        thenX (modS (\<lambda>z. if \<not> zt_has_ttl_timer z \<and> 0 < ttl
                         then (add_timer (Word.uint ttl) Heartbeat_ttl_timer z)\<lparr>zt_has_ttl_timer := True\<rparr> else z)) (
        thenX (modS (\<lambda>z. z\<lparr>zt_pong_msg := set_flags flag_command \<lparr>m_flags = 0, m_data = pong_cmd @ context\<rparr>,
                           zt_next_msg := Produce_pong_message\<rparr>))
          out))"

text \<open>The command is told by its name; the answer says whether it is well formed.\<close>

definition command_flags :: "string \<Rightarrow> 8 word" where
  "command_flags nm =
     (if nm = ''PING'' then flag_ping else if nm = ''PONG'' then flag_pong
      else if nm = ''SUBSCRIBE'' then flag_subscribe else if nm = ''CANCEL'' then flag_cancel else 0)"

definition process_command_message :: "(zmtp, unit) cxx \<Rightarrow> msg \<Rightarrow> (zmtp, bool \<times> msg) cxx" where
  "process_command_message out m =
     (case m_data m of
        [] \<Rightarrow> throw (UB UninitialisedRead)
      | c # r \<Rightarrow>
          let n = of_char c in
          if length (m_data m) < n + 1 then ret (False, m)
          else let m = set_flags (command_flags (take n r)) m in
            if is_ping m \<or> is_pong m
            then thenX (process_heartbeat_message out m) (ret (True, m))
            else ret (True, m))"

declare receive_greeting.simps [code]

section \<open>Two engines of this library\<close>

text \<open>
  Two engines that greet each other, with the bytes on their way in both directions. The function
  that is chosen when the greeting is complete runs at once. When it returns true the engine lives on
  and writes what is left of its greeting; when it refuses the peer, \<open>error\<close> deletes the engine, and
  what it had not written is never sent. The other engine can then still read what is on its way,
  until a read fails, at the end of these bytes or earlier; it is deleted in its turn.
\<close>

datatype engine_state = Greeting | Accepted handshaken | Refused | Lost

record side =
  sd_opt :: zmtp_options
  sd_greeting :: greeting
  sd_choice :: "handshake_fun option"
  sd_state :: engine_state

record peers =
  pe_a :: side
  pe_b :: side
  pe_ab :: string
  pe_ba :: string

definition deleted :: "side \<Rightarrow> bool" where
  "deleted s \<longleftrightarrow> sd_state s = Refused \<or> sd_state s = Lost"

definition net_read :: "nat \<Rightarrow> nat \<Rightarrow> string \<Rightarrow> read_rc \<times> string" where
  "net_read k n net =
     (if k = 0 \<or> n = 0 \<or> net = [] then (Read_again, net)
      else (Read_data (take (min k n) net), drop (min k n) net))"

definition net_fail :: "nat \<Rightarrow> string \<Rightarrow> read_rc \<times> string" where
  "net_fail n net = (Read_error, net)"

definition side_write :: "nat \<Rightarrow> side \<Rightarrow> string \<Rightarrow> side \<times> string" where
  "side_write k s net =
     (if gr_pollout (sd_greeting s) \<and> \<not> deleted s then
        (let (b, g) = greet_out_event k (sd_greeting s) in (s\<lparr>sd_greeting := g\<rparr>, net @ b))
      else (s, net))"

text \<open>The part of \<open>in_event_internal\<close> while the engine is handshaking.\<close>

definition side_read ::
  "(nat \<Rightarrow> bool) \<Rightarrow> (nat \<Rightarrow> string \<Rightarrow> read_rc \<times> string) \<Rightarrow> side \<Rightarrow> string \<Rightarrow> (side \<times> string) res option" where
  "side_read mem rd s net =
     (if sd_state s \<noteq> Greeting then Some (Inr (s, net))
      else case greet (sd_opt s) rd (sd_greeting s) net of
          None \<Rightarrow> None
        | Some (Inl x, _) \<Rightarrow> Some (Inl x)
        | Some (Inr Hs_wait, g, net) \<Rightarrow> Some (Inr (s\<lparr>sd_greeting := g\<rparr>, net))
        | Some (Inr Hs_failed, g, net) \<Rightarrow> Some (Inr (s\<lparr>sd_greeting := g, sd_state := Lost\<rparr>, net))
        | Some (Inr (Hs_fun f), g, net) \<Rightarrow>
            (case call_handshake_fun mem (sd_opt s) f g of
               None \<Rightarrow> None
             | Some (Inl x) \<Rightarrow> Some (Inl x)
             | Some (Inr r) \<Rightarrow>
                 Some (Inr (s\<lparr>sd_greeting := g, sd_choice := Some f,
                   sd_state := (case r of None \<Rightarrow> Refused | Some h \<Rightarrow> Accepted h)\<rparr>, net))))"

datatype peer_event = Write_a nat | Write_b nat | Read_a nat | Read_b nat | Fail_a | Fail_b

fun peer_step :: "(nat \<Rightarrow> bool) \<Rightarrow> peer_event \<Rightarrow> peers \<Rightarrow> peers res option" where
  "peer_step mem (Write_a k) p = (let (s, n) = side_write k (pe_a p) (pe_ab p) in Some (Inr (p\<lparr>pe_a := s, pe_ab := n\<rparr>)))"
| "peer_step mem (Write_b k) p = (let (s, n) = side_write k (pe_b p) (pe_ba p) in Some (Inr (p\<lparr>pe_b := s, pe_ba := n\<rparr>)))"
| "peer_step mem (Read_a k) p =
     map_option (map_sum id (\<lambda>(s, n). p\<lparr>pe_a := s, pe_ba := n\<rparr>)) (side_read mem (net_read k) (pe_a p) (pe_ba p))"
| "peer_step mem (Read_b k) p =
     map_option (map_sum id (\<lambda>(s, n). p\<lparr>pe_b := s, pe_ab := n\<rparr>)) (side_read mem (net_read k) (pe_b p) (pe_ab p))"
| "peer_step mem Fail_a p =
     (if deleted (pe_b p) then
        map_option (map_sum id (\<lambda>(s, n). p\<lparr>pe_a := s, pe_ba := n\<rparr>)) (side_read mem net_fail (pe_a p) (pe_ba p))
      else Some (Inr p))"
| "peer_step mem Fail_b p =
     (if deleted (pe_a p) then
        map_option (map_sum id (\<lambda>(s, n). p\<lparr>pe_b := s, pe_ab := n\<rparr>)) (side_read mem net_fail (pe_b p) (pe_ab p))
      else Some (Inr p))"

fun peer_run :: "(nat \<Rightarrow> bool) \<Rightarrow> peer_event list \<Rightarrow> peers \<Rightarrow> peers res option" where
  "peer_run mem [] p = Some (Inr p)"
| "peer_run mem (v # vs) p = (case peer_step mem v p of Some (Inr p') \<Rightarrow> peer_run mem vs p' | r \<Rightarrow> r)"

definition side_new :: "zmtp_options \<Rightarrow> side" where
  "side_new opt = \<lparr>sd_opt = opt, sd_greeting = plug_internal opt, sd_choice = None, sd_state = Greeting\<rparr>"

definition peers_new :: "zmtp_options \<Rightarrow> zmtp_options \<Rightarrow> peers" where
  "peers_new oa ob = \<lparr>pe_a = side_new oa, pe_b = side_new ob, pe_ab = [], pe_ba = []\<rparr>"

text \<open>What an engine with the options \<open>opt\<close> makes of a peer of this library, and when it can.\<close>

definition same_mechanism :: "zmtp_options \<Rightarrow> zmtp_options \<Rightarrow> bool" where
  "same_mechanism opt peer \<longleftrightarrow> zo_mechanism opt = zo_mechanism peer \<and> zo_mechanism opt \<noteq> ZMQ_GSSAPI"

definition agreed :: "(nat \<Rightarrow> bool) \<Rightarrow> zmtp_options \<Rightarrow> handshaken" where
  "agreed mem opt =
     (v2_codec mem opt v3_1_encoder)\<lparr>hk_next_msg := Next_handshake_command,
        hk_process_msg := Process_handshake_command, hk_mechanism := Some
          (case zo_mechanism opt of
             ZMQ_PLAIN \<Rightarrow> if zo_as_server opt then Plain_server else Plain_client
           | ZMQ_CURVE \<Rightarrow> if zo_as_server opt then Curve_server False else Curve_client False
           | _ \<Rightarrow> Null_mechanism)\<rparr>"

definition mechanism_allowed :: "zmtp_options \<Rightarrow> bool" where
  "mechanism_allowed opt \<longleftrightarrow> \<not> (zo_mechanism opt = ZMQ_PLAIN \<and> zo_as_server opt \<and> plain_server_refused opt)"

section \<open>What each side has sent and received\<close>

text \<open>The whole greeting of an engine, and how much of it is sent after so many bytes received.\<close>

definition full :: "zmtp_options \<Rightarrow> string" where
  "full opt = [byte UCHAR_MAX] @ put_uint64 (of_nat (length (zo_routing_id opt) + 1)) @ [byte 0x7f, byte 3, byte 1] @
     padded 20 (mechanism_name (zo_mechanism opt)) @ replicate 32 (byte 0)"

definition reached :: "nat \<Rightarrow> nat" where
  "reached n = (if n < 10 then 10 else if n = 10 then 11 else 64)"

definition greeting_ok :: "zmtp_options \<Rightarrow> zmtp_options \<Rightarrow> greeting \<Rightarrow> bool" where
  "greeting_ok opt peer g \<longleftrightarrow> (let r = length (gr_recv g) in
     r \<le> 64 \<and> gr_recv g = take r (full peer) \<and> gr_sent g = take (reached r) (full opt) \<and>
     gr_size g = (if r \<le> 10 then 12 else 64) \<and> gr_pollout g = (gr_out g \<noteq> []))"

definition side_ok :: "(nat \<Rightarrow> bool) \<Rightarrow> side \<Rightarrow> zmtp_options \<Rightarrow> bool" where
  "side_ok mem s peer \<longleftrightarrow> greeting_ok (sd_opt s) peer (sd_greeting s) \<and> mechanism_allowed (sd_opt s) \<and>
     (if length (gr_recv (sd_greeting s)) = 64
      then sd_choice s = Some Handshake_v3_1 \<and>
        sd_state s = (if same_mechanism (sd_opt s) peer then Accepted (agreed mem (sd_opt s)) else Refused)
      else sd_choice s = None \<and> (sd_state s = Greeting \<or> sd_state s = Lost))"

lemma length_full [simp]: "length (full opt) = 64"
  by (cases "zo_mechanism opt") (simp_all add: full_def padded_def put_uint64_def)

lemma full_nth:
  "full opt ! 0 = byte 0xff" "full opt ! 9 = byte 0x7f" "full opt ! 10 = byte 3" "full opt ! 11 = byte 1"
  by (simp_all add: full_def put_uint64_def UCHAR_MAX_def)

lemma side_new_ok:
  shows "mechanism_allowed opt \<Longrightarrow> side_ok mem (side_new opt) peer" "gr_out (sd_greeting (side_new opt)) = gr_sent (sd_greeting (side_new opt))"
    "gr_recv (sd_greeting (side_new opt)) = []"
  by (simp_all add: side_ok_def greeting_ok_def side_new_def plug_internal_def reached_def full_def
      Let_def v2_greeting_size_def put_uint64_def)

lemma byte_odd: "get_uint8 [byte 0x7f] AND 1 \<noteq> 0"
  by (simp add: get_uint8_def byte_def)

lemma byte_3: "byte 3 \<noteq> ZMTP_1_0" "byte 3 \<noteq> ZMTP_2_0" "byte 3 = ZMTP_3_x" "byte 1 \<noteq> byte 0"
  by (simp_all add: ZMTP_1_0_def ZMTP_2_0_def ZMTP_3_x_def byte_def)

text \<open>The answer to more bytes of the peer's greeting.\<close>

lemma versioned_ok:
  assumes "greeting_ok opt peer g"
    and "r' \<le> 64" "10 \<le> r'" "length (gr_recv g) \<le> r'"
  defines "g' \<equiv> receive_greeting_versioned opt (g\<lparr>gr_recv := take r' (full peer)\<rparr>)"
  shows "greeting_ok opt peer g'" "gr_recv g' = take r' (full peer)"
    "\<exists>add. gr_sent g' = gr_sent g @ add \<and> gr_out g' = gr_out g @ add"
proof -
  define a where "a = take 10 (full opt)"
  define t where "t = [byte 1] @ padded 20 (mechanism_name (zo_mechanism opt)) @ replicate 32 (byte 0)"
  have f: "full opt = a @ [byte 3] @ t" by (simp add: a_def t_def full_def put_uint64_def)
  have "length a = 10" by (simp add: a_def)
  moreover from this have "length t = 53" using length_full [of opt] unfolding f by simp
  ultimately have la: "length a = 10" "length t = 53" by simp_all
  have len: "length (take r' (full peer)) = r'" using assms(2) by simp
  have rev: "take r' (full peer) ! 10 = byte 3" if "10 < r'" using that by (simp add: full_nth)
  have sent: "gr_sent g = take (reached (length (gr_recv g))) (a @ [byte 3] @ t)"
    using assms(1) by (simp add: greeting_ok_def Let_def f)
  have poll: "gr_pollout g = (gr_out g \<noteq> [])" "gr_size g = (if length (gr_recv g) \<le> 10 then 12 else 64)"
    using assms(1) by (simp_all add: greeting_ok_def Let_def)
  note defs = g'_def receive_greeting_versioned_def append_greeting_def signature_size_def revision_pos_def
    v3_greeting_size_def Let_def
  consider "length (gr_recv g) < 10" "r' = 10" | "length (gr_recv g) < 10" "10 < r'"
    | "length (gr_recv g) = 10" "r' = 10" | "length (gr_recv g) = 10" "10 < r'" | "10 < length (gr_recv g)" "10 < r'"
    using assms(3,4) by linarith
  then have "greeting_ok opt peer g' \<and> gr_recv g' = take r' (full peer) \<and>
    (\<exists>add. gr_sent g' = gr_sent g @ add \<and> gr_out g' = gr_out g @ add)"
    by cases (use sent poll la len rev assms(2) byte_3 in
      \<open>simp_all add: defs greeting_ok_def reached_def f\<close>, simp_all add: t_def)
  then show "greeting_ok opt peer g'" "gr_recv g' = take r' (full peer)"
    "\<exists>add. gr_sent g' = gr_sent g @ add \<and> gr_out g' = gr_out g @ add"
    by blast+
qed

lemma received_ok:
  assumes "greeting_ok opt peer g"
    and "r' \<le> 64" "length (gr_recv g) \<le> r'"
  defines "g' \<equiv> (let h = g\<lparr>gr_recv := take r' (full peer)\<rparr> in if r' < 10 then h else receive_greeting_versioned opt h)"
  shows "greeting_ok opt peer g'" "gr_recv g' = take r' (full peer)"
    "\<exists>add. gr_sent g' = gr_sent g @ add \<and> gr_out g' = gr_out g @ add"
proof -
  have "greeting_ok opt peer g' \<and> gr_recv g' = take r' (full peer) \<and>
    (\<exists>add. gr_sent g' = gr_sent g @ add \<and> gr_out g' = gr_out g @ add)"
  proof (cases "r' < 10")
    case True
    then show ?thesis using assms(1,3) by (simp add: g'_def greeting_ok_def reached_def Let_def)
  next
    case False
    then show ?thesis using versioned_ok [OF assms(1,2) _ assms(3)] by (simp add: g'_def Let_def)
  qed
  then show "greeting_ok opt peer g'" "gr_recv g' = take r' (full peer)"
    "\<exists>add. gr_sent g' = gr_sent g @ add \<and> gr_out g' = gr_out g @ add"
    by blast+
qed

lemma take_beginning:
  assumes "xs @ ys = take n f"
  shows "xs = take (length xs) f"
proof -
  have "length xs \<le> n" using arg_cong [OF assms, of length] by simp
  moreover have "xs = take (length xs) (take n f)" unfolding assms [symmetric] by simp
  ultimately show ?thesis by (simp add: min_def)
qed

text \<open>What reading leaves: bytes move from the connection to the greeting, and answers are added.\<close>

definition greet_post ::
  "zmtp_options \<Rightarrow> zmtp_options \<Rightarrow> nat \<Rightarrow> greeting \<Rightarrow> string \<Rightarrow> greeting \<Rightarrow> string \<Rightarrow> bool" where
  "greet_post opt peer k g net g' net' \<longleftrightarrow> greeting_ok opt peer g' \<and> gr_recv g' @ net' = gr_recv g @ net \<and>
     (\<exists>add. gr_sent g' = gr_sent g @ add \<and> gr_out g' = gr_out g @ add) \<and>
     length net' \<le> length net \<and>
     (0 < k \<and> net \<noteq> [] \<and> length (gr_recv g) < 64 \<longrightarrow> length net' < length net)"

lemma greet_post_trans:
  assumes "greet_post opt peer k g1 n1 g2 n2" "gr_recv g1 @ n1 = gr_recv g @ n" "length n1 < length n"
    "\<exists>add. gr_sent g1 = gr_sent g @ add \<and> gr_out g1 = gr_out g @ add"
  shows "greet_post opt peer k g n g2 n2"
  using assms by (auto simp: greet_post_def)

lemma receive_greeting_ok:
  assumes "greeting_ok opt peer g"
    and "gr_recv g @ net = take n (full peer)"
  shows "\<exists>g' net'. receive_greeting opt (net_read k) g net =
       Some (if length (gr_recv g') = 64 then Greet_done False else Greet_wait, g', net') \<and>
     greet_post opt peer k g net g' net'"
  using assms
proof (induction "length net" arbitrary: g net rule: less_induct)
  case less
  let ?r = "length (gr_recv g)"
  have g: "?r \<le> 64" "gr_recv g = take ?r (full peer)" "gr_size g = (if ?r \<le> 10 then 12 else 64)"
    using less.prems(1) by (simp_all add: greeting_ok_def Let_def)
  have "?r = 64 \<or> ?r < gr_size g" using g(1,3) by auto
  then consider "?r = 64" | "?r < gr_size g" "k = 0 \<or> net = []" | "?r < gr_size g" "0 < k" "net \<noteq> []"
    by blast
  then show ?case
  proof cases
    case 1
    then show ?thesis using less.prems(1) g by (subst receive_greeting.simps) (auto simp: greet_post_def)
  next
    case 2
    then show ?thesis using less.prems(1) g
      by (subst receive_greeting.simps) (auto simp: net_read_def greet_post_def)
  next
    case 3
    let ?m = "min k (gr_size g - ?r)"
    let ?b = "take ?m net" and ?net = "drop ?m net"
    let ?r' = "?r + length ?b"
    let ?g = "g\<lparr>gr_recv := gr_recv g @ ?b\<rparr>"
    have b: "0 < length ?b" "?r' \<le> gr_size g" "length ?net < length net" using 3 by auto
    have pre: "gr_recv g @ ?b = take ?r' (full peer)"
      using take_beginning [of "gr_recv g @ ?b" ?net n "full peer"] less.prems(2) by simp
    have r': "?r' \<le> 64" "length (gr_recv g @ ?b) = ?r'" using b(2) g(1,3) by (auto split: if_splits)
    define g' where "g' = (if ?r' < 10 then ?g else receive_greeting_versioned opt ?g)"
    have rest: "gr_recv g @ ?b @ ?net = take n (full peer)" using less.prems(2) by simp
    have g': "greeting_ok opt peer g'" "gr_recv g' = gr_recv g @ ?b"
        "\<exists>add. gr_sent g' = gr_sent g @ add \<and> gr_out g' = gr_out g @ add"
      using received_ok [OF less.prems(1) r'(1)] by (simp_all only: g'_def pre Let_def le_add1)
    have step: "receive_greeting opt (net_read k) g net = receive_greeting opt (net_read k) g' ?net"
    proof -
      have "(gr_recv g @ ?b) ! 0 = byte 0xff" using pre b(1) r'(1) by (simp add: full_nth)
      moreover have "(gr_recv g @ ?b) ! 9 = byte 0x7f" if "\<not> ?r' < 10"
        using pre that r'(1) by (simp add: full_nth)
      ultimately show ?thesis using 3 byte_odd
        by (subst receive_greeting.simps) (simp add: net_read_def Let_def g'_def signature_size_def)
    qed
    have "gr_recv g' @ ?net = take n (full peer)" using rest g'(2) by simp
    from less.hyps [OF b(3) g'(1) this] obtain h net' where
      h: "receive_greeting opt (net_read k) g' ?net =
          Some (if length (gr_recv h) = 64 then Greet_done False else Greet_wait, h, net')"
        "greet_post opt peer k g' ?net h net'" by blast
    have "greet_post opt peer k g net h net'"
      by (rule greet_post_trans [OF h(2) _ b(3) g'(3)]) (simp add: g'(2))
    with h(1) show ?thesis unfolding step by blast
  qed
qed

lemma padded_names: "padded 20 (mechanism_name m) = padded 20 (mechanism_name m') \<longleftrightarrow> m = m'"
  by (cases m; cases m') (simp_all add: padded_def byte_def)

lemma mechanism_in_greeting: "take 20 (drop 12 (full opt)) = padded 20 (mechanism_name (zo_mechanism opt))"
  by (cases "zo_mechanism opt") (simp_all add: full_def put_uint64_def padded_def)

lemma v3_1_with_peer:
  assumes "gr_recv g = full peer" "mechanism_allowed opt"
  shows "call_handshake_fun mem opt Handshake_v3_1 g =
    Some (Inr (if same_mechanism opt peer then Some (agreed mem opt) else None))"
  using assms
  by (cases "zo_mechanism opt"; cases "zo_mechanism peer")
    (simp_all add: call_handshake_fun_def handshake_v3_1_def handshake_v3_x_def same_mechanism_def agreed_def
      mechanism_allowed_def mechanism_in_greeting padded_names Let_def del: mechanism_name.simps)

text \<open>One event at a side.\<close>

definition greeting_flow :: "side \<Rightarrow> string \<Rightarrow> side \<Rightarrow> bool" where
  "greeting_flow x net y \<longleftrightarrow> gr_recv (sd_greeting y) @ net @ gr_out (sd_greeting x) = gr_sent (sd_greeting x)"

lemma flow_prefix:
  assumes "greeting_flow x net y" "side_ok mem x p"
  shows "gr_recv (sd_greeting y) @ net = take (length (gr_recv (sd_greeting y) @ net)) (full (sd_opt x))"
proof (rule take_beginning)
  show "(gr_recv (sd_greeting y) @ net) @ gr_out (sd_greeting x) =
      take (reached (length (gr_recv (sd_greeting x)))) (full (sd_opt x))"
    using assms by (simp add: greeting_flow_def side_ok_def greeting_ok_def Let_def)
qed

lemma side_write_ok:
  assumes "side_ok mem x p" "greeting_flow x net y"
  obtains x' net' where "side_write k x net = (x', net')" "side_ok mem x' p" "greeting_flow x' net' y" "sd_opt x' = sd_opt x"
    "gr_recv (sd_greeting x') = gr_recv (sd_greeting x)" "gr_sent (sd_greeting x') = gr_sent (sd_greeting x)"
    "sd_state x' = sd_state x"
    "0 < k \<and> gr_out (sd_greeting x) \<noteq> [] \<and> \<not> deleted x \<longrightarrow>
       length (gr_out (sd_greeting x')) < length (gr_out (sd_greeting x))"
proof -
  obtain x' net' where w: "side_write k x net = (x', net')" by (metis surj_pair)
  have "gr_pollout (sd_greeting x) = (gr_out (sd_greeting x) \<noteq> [])"
    using assms(1) by (simp add: side_ok_def greeting_ok_def Let_def)
  with w assms show thesis
    by (intro that [OF w])
      (auto simp: side_write_def greet_out_event_def greeting_flow_def side_ok_def greeting_ok_def Let_def split: if_splits)
qed

lemma side_read_ok:
  assumes "side_ok mem y (sd_opt x)" "side_ok mem x p" "greeting_flow x net y"
  obtains y' net' where "side_read mem (net_read k) y net = Some (Inr (y', net'))" "side_ok mem y' (sd_opt x)"
    "greeting_flow x net' y'"
    "sd_opt y' = sd_opt y" "\<exists>add. gr_sent (sd_greeting y') = gr_sent (sd_greeting y) @ add \<and>
       gr_out (sd_greeting y') = gr_out (sd_greeting y) @ add"
    "sd_state y' = Lost \<longleftrightarrow> sd_state y = Lost" "sd_state y = Refused \<longrightarrow> sd_state y' = Refused"
    "0 < k \<and> net \<noteq> [] \<and> sd_state y = Greeting \<longrightarrow> length (gr_recv (sd_greeting y)) < length (gr_recv (sd_greeting y'))"
proof (cases "sd_state y = Greeting")
  case False
  with assms show thesis by (intro that [of y net]) (auto simp: side_read_def)
next
  case True
  let ?g = "sd_greeting y"
  have y: "greeting_ok (sd_opt y) (sd_opt x) ?g" "mechanism_allowed (sd_opt y)"
      "length (gr_recv ?g) < 64"
    using assms(1) True by (auto simp: side_ok_def greeting_ok_def Let_def split: if_splits)
  then have lt: "length (gr_recv ?g) < gr_size ?g" by (auto simp: greeting_ok_def Let_def)
  obtain g' net' where g': "receive_greeting (sd_opt y) (net_read k) ?g net =
        Some (if length (gr_recv g') = 64 then Greet_done False else Greet_wait, g', net')"
      "greet_post (sd_opt y) (sd_opt x) k ?g net g' net'"
    using receive_greeting_ok [OF y(1) flow_prefix [OF assms(3,2)]] by blast
  have ok': "greeting_ok (sd_opt y) (sd_opt x) g'" using g'(2) by (simp add: greet_post_def)
  then have recv: "gr_recv g' = take (length (gr_recv g')) (full (sd_opt x))" by (simp add: greeting_ok_def Let_def)
  have sel: "select_handshake_fun False (gr_recv g' ! revision_pos) (gr_recv g' ! minor_pos) = Handshake_v3_1"
    if "length (gr_recv g') = 64"
    using recv that byte_3 by (simp add: select_handshake_fun_def revision_pos_def minor_pos_def full_nth)
  have call: "call_handshake_fun mem (sd_opt y) Handshake_v3_1 g' =
      Some (Inr (if same_mechanism (sd_opt y) (sd_opt x) then Some (agreed mem (sd_opt y)) else None))"
    if "length (gr_recv g') = 64"
    using recv that by (intro v3_1_with_peer [OF _ y(2)]) simp
  let ?y = "if length (gr_recv g') = 64
    then y\<lparr>sd_greeting := g', sd_choice := Some Handshake_v3_1,
      sd_state := (if same_mechanism (sd_opt y) (sd_opt x) then Accepted (agreed mem (sd_opt y)) else Refused)\<rparr>
    else y\<lparr>sd_greeting := g'\<rparr>"
  have "side_read mem (net_read k) y net = Some (Inr (?y, net'))"
    using True lt g'(1) sel call by (auto simp: side_read_def greet_def)
  moreover have "side_ok mem ?y (sd_opt x)" using assms(1) ok' y(2,3) True by (simp add: side_ok_def)
  moreover have m: "gr_recv g' @ net' = gr_recv ?g @ net" using g'(2) by (simp add: greet_post_def)
  then have "greeting_flow x net' ?y" using assms(3) by (simp add: greeting_flow_def flip: append_assoc)
  moreover have "length (gr_recv ?g) < length (gr_recv g')" if "0 < k" "net \<noteq> []"
  proof -
    have "length net' < length net" using g'(2) that y(3) by (simp add: greet_post_def)
    then show ?thesis using arg_cong [OF m, of length] by simp
  qed
  ultimately show thesis using g'(2) True by (intro that [of ?y net']) (auto simp: greet_post_def)
qed

text \<open>A read that fails loses the connection while the greeting is not complete.\<close>

lemma side_fail_ok:
  assumes "side_ok mem y peer"
  shows "side_read mem net_fail y net =
    Some (Inr (if sd_state y = Greeting then y\<lparr>sd_state := Lost\<rparr> else y, net))"
proof (cases "sd_state y = Greeting")
  case True
  let ?g = "sd_greeting y"
  have "length (gr_recv ?g) < gr_size ?g"
    using assms True by (auto simp: side_ok_def greeting_ok_def Let_def split: if_splits)
  then have "greet (sd_opt y) net_fail ?g net = Some (Inr Hs_failed, ?g, net)"
    by (simp add: greet_def receive_greeting.simps [of _ net_fail] net_fail_def)
  with True show ?thesis by (simp add: side_read_def)
qed (simp add: side_read_def)

section \<open>Both sides together\<close>

text \<open>A connection is lost only behind a refusal of the other engine.\<close>

definition peers_inv :: "(nat \<Rightarrow> bool) \<Rightarrow> zmtp_options \<Rightarrow> zmtp_options \<Rightarrow> peers \<Rightarrow> bool" where
  "peers_inv mem oa ob p \<longleftrightarrow> sd_opt (pe_a p) = oa \<and> sd_opt (pe_b p) = ob \<and>
     side_ok mem (pe_a p) ob \<and> side_ok mem (pe_b p) oa \<and>
     greeting_flow (pe_a p) (pe_ab p) (pe_b p) \<and> greeting_flow (pe_b p) (pe_ba p) (pe_a p) \<and>
     (sd_state (pe_a p) = Lost \<longrightarrow> sd_state (pe_b p) = Refused) \<and>
     (sd_state (pe_b p) = Lost \<longrightarrow> sd_state (pe_a p) = Refused)"

text \<open>Bytes still to be received, and bytes still to be written.\<close>

definition todo :: "peers \<Rightarrow> nat" where
  "todo p = 200 * ((64 - length (gr_recv (sd_greeting (pe_a p)))) + (64 - length (gr_recv (sd_greeting (pe_b p))))) +
     length (gr_out (sd_greeting (pe_a p))) + length (gr_out (sd_greeting (pe_b p)))"

lemma flow_keeps:
  "greeting_flow x net y \<Longrightarrow> gr_recv (sd_greeting y') = gr_recv (sd_greeting y) \<Longrightarrow> greeting_flow x net y'"
  "greeting_flow x net y \<Longrightarrow> \<exists>add. gr_sent (sd_greeting x') = gr_sent (sd_greeting x) @ add \<and>
     gr_out (sd_greeting x') = gr_out (sd_greeting x) @ add \<Longrightarrow> greeting_flow x' net y"
  by (auto simp: greeting_flow_def)

lemma side_bounds:
  assumes "side_ok mem x p" "greeting_flow x net y"
  shows "length (gr_recv (sd_greeting x)) \<le> 64" "length (gr_out (sd_greeting x)) \<le> 64"
    "length (gr_sent (sd_greeting x)) = reached (length (gr_recv (sd_greeting x)))"
proof -
  show "length (gr_recv (sd_greeting x)) \<le> 64" using assms(1) by (simp add: side_ok_def greeting_ok_def Let_def)
  show sent: "length (gr_sent (sd_greeting x)) = reached (length (gr_recv (sd_greeting x)))"
    using assms(1) by (simp add: side_ok_def greeting_ok_def Let_def reached_def)
  show "length (gr_out (sd_greeting x)) \<le> 64"
    using arg_cong [OF assms(2) [unfolded greeting_flow_def], of length] by (simp add: sent reached_def split: if_splits)
qed

text \<open>The two sides are alike.\<close>

definition swap :: "peers \<Rightarrow> peers" where
  "swap p = \<lparr>pe_a = pe_b p, pe_b = pe_a p, pe_ab = pe_ba p, pe_ba = pe_ab p\<rparr>"

lemma swap_simps [simp]:
  "pe_a (swap p) = pe_b p" "pe_b (swap p) = pe_a p" "pe_ab (swap p) = pe_ba p" "pe_ba (swap p) = pe_ab p"
  "(swap p)\<lparr>pe_a := x, pe_ab := n\<rparr> = swap (p\<lparr>pe_b := x, pe_ba := n\<rparr>)"
  "(swap p)\<lparr>pe_a := x, pe_ba := n\<rparr> = swap (p\<lparr>pe_b := x, pe_ab := n\<rparr>)"
  by (simp_all add: swap_def)

lemma swap_inv [simp]: "peers_inv mem ob oa (swap p) = peers_inv mem oa ob p" "todo (swap p) = todo p"
  by (auto simp: peers_inv_def todo_def)

lemma write_event:
  assumes "peers_inv mem oa ob p"
  obtains x net where "side_write k (pe_a p) (pe_ab p) = (x, net)" "peers_inv mem oa ob (p\<lparr>pe_a := x, pe_ab := net\<rparr>)"
    "0 < k \<and> gr_out (sd_greeting (pe_a p)) \<noteq> [] \<and> \<not> deleted (pe_a p) \<longrightarrow> todo (p\<lparr>pe_a := x, pe_ab := net\<rparr>) < todo p"
proof -
  have "side_ok mem (pe_a p) ob" "greeting_flow (pe_a p) (pe_ab p) (pe_b p)" using assms by (simp_all add: peers_inv_def)
  then obtain x net where w: "side_write k (pe_a p) (pe_ab p) = (x, net)" "side_ok mem x ob" "greeting_flow x net (pe_b p)"
      "sd_opt x = sd_opt (pe_a p)" "gr_recv (sd_greeting x) = gr_recv (sd_greeting (pe_a p))"
      "gr_sent (sd_greeting x) = gr_sent (sd_greeting (pe_a p))" "sd_state x = sd_state (pe_a p)"
      "0 < k \<and> gr_out (sd_greeting (pe_a p)) \<noteq> [] \<and> \<not> deleted (pe_a p) \<longrightarrow>
         length (gr_out (sd_greeting x)) < length (gr_out (sd_greeting (pe_a p)))"
    by (rule side_write_ok)
  then show thesis using assms flow_keeps(1) [OF _ w(5), of "pe_b p" "pe_ba p"]
    by (intro that [OF w(1)]) (auto simp: peers_inv_def todo_def)
qed

lemma read_event:
  assumes "peers_inv mem oa ob p"
  obtains x net where "side_read mem (net_read k) (pe_a p) (pe_ba p) = Some (Inr (x, net))"
    "peers_inv mem oa ob (p\<lparr>pe_a := x, pe_ba := net\<rparr>)"
    "0 < k \<and> pe_ba p \<noteq> [] \<and> sd_state (pe_a p) = Greeting \<longrightarrow> todo (p\<lparr>pe_a := x, pe_ba := net\<rparr>) < todo p"
proof -
  have p: "side_ok mem (pe_a p) (sd_opt (pe_b p))" "side_ok mem (pe_b p) oa" "greeting_flow (pe_b p) (pe_ba p) (pe_a p)"
    "greeting_flow (pe_a p) (pe_ab p) (pe_b p)"
    using assms by (simp_all add: peers_inv_def)
  from p(1-3) obtain x net where r: "side_read mem (net_read k) (pe_a p) (pe_ba p) = Some (Inr (x, net))"
      "side_ok mem x (sd_opt (pe_b p))" "greeting_flow (pe_b p) net x" "sd_opt x = sd_opt (pe_a p)"
      "\<exists>add. gr_sent (sd_greeting x) = gr_sent (sd_greeting (pe_a p)) @ add \<and>
         gr_out (sd_greeting x) = gr_out (sd_greeting (pe_a p)) @ add"
      "sd_state x = Lost \<longleftrightarrow> sd_state (pe_a p) = Lost" "sd_state (pe_a p) = Refused \<longrightarrow> sd_state x = Refused"
      "0 < k \<and> pe_ba p \<noteq> [] \<and> sd_state (pe_a p) = Greeting \<longrightarrow>
         length (gr_recv (sd_greeting (pe_a p))) < length (gr_recv (sd_greeting x))"
    by (rule side_read_ok)
  have f: "greeting_flow x (pe_ab p) (pe_b p)" using flow_keeps(2) [OF p(4) r(5)] .
  have "peers_inv mem oa ob (p\<lparr>pe_a := x, pe_ba := net\<rparr>)" using assms r(2-4,6,7) f by (simp add: peers_inv_def)
  moreover have "todo (p\<lparr>pe_a := x, pe_ba := net\<rparr>) < todo p"
    if "length (gr_recv (sd_greeting (pe_a p))) < length (gr_recv (sd_greeting x))"
    using that side_bounds [OF r(2) f] by (simp add: todo_def)
  ultimately show thesis using r(8) by (intro that [OF r(1)]) simp_all
qed

lemma fail_event:
  assumes "peers_inv mem oa ob p" "deleted (pe_b p)"
  shows "let x = (if sd_state (pe_a p) = Greeting then (pe_a p)\<lparr>sd_state := Lost\<rparr> else pe_a p) in
    side_read mem net_fail (pe_a p) (pe_ba p) = Some (Inr (x, pe_ba p)) \<and>
    peers_inv mem oa ob (p\<lparr>pe_a := x, pe_ba := pe_ba p\<rparr>)"
proof -
  have "side_ok mem (pe_a p) ob" using assms(1) by (simp add: peers_inv_def)
  note f = side_fail_ok [OF this]
  show ?thesis
  proof (cases "sd_state (pe_a p) = Greeting")
    case True
    with assms have "sd_state (pe_b p) = Refused" by (auto simp: peers_inv_def deleted_def)
    with True assms(1) f show ?thesis
      by (simp add: Let_def peers_inv_def side_ok_def greeting_flow_def split: if_splits)
  qed (use f assms(1) in simp)
qed

text \<open>An event keeps the invariant; one that moves bytes leaves less to do.\<close>

definition effective :: "peer_event \<Rightarrow> peers \<Rightarrow> bool" where
  "effective v p = (case v of
       Write_a k \<Rightarrow> 0 < k \<and> gr_out (sd_greeting (pe_a p)) \<noteq> [] \<and> \<not> deleted (pe_a p)
     | Write_b k \<Rightarrow> 0 < k \<and> gr_out (sd_greeting (pe_b p)) \<noteq> [] \<and> \<not> deleted (pe_b p)
     | Read_a k \<Rightarrow> 0 < k \<and> pe_ba p \<noteq> [] \<and> sd_state (pe_a p) = Greeting
     | Read_b k \<Rightarrow> 0 < k \<and> pe_ab p \<noteq> [] \<and> sd_state (pe_b p) = Greeting
     | _ \<Rightarrow> False)"

lemma peer_step_ok:
  assumes "peers_inv mem oa ob p"
  shows "\<exists>p'. peer_step mem v p = Some (Inr p') \<and> peers_inv mem oa ob p' \<and> (effective v p \<longrightarrow> todo p' < todo p)"
proof (cases v)
  case (Write_a k)
  show ?thesis by (rule write_event [OF assms, of k]) (simp add: Write_a effective_def)
next
  case (Write_b k)
  show ?thesis by (rule write_event [of mem ob oa "swap p" k]) (use assms in \<open>simp_all add: Write_b effective_def\<close>)
next
  case (Read_a k)
  show ?thesis by (rule read_event [OF assms, of k]) (simp add: Read_a effective_def)
next
  case (Read_b k)
  show ?thesis by (rule read_event [of mem ob oa "swap p" k]) (use assms in \<open>simp_all add: Read_b effective_def\<close>)
next
  case Fail_a
  show ?thesis using fail_event [OF assms] assms by (simp add: Fail_a effective_def Let_def)
next
  case Fail_b
  show ?thesis using fail_event [of mem ob oa "swap p"] assms
    by (auto simp: Fail_b effective_def Let_def)
qed

lemma peer_run_ok:
  "peers_inv mem oa ob p \<Longrightarrow> \<exists>p'. peer_run mem vs p = Some (Inr p') \<and> peers_inv mem oa ob p'"
proof (induction vs arbitrary: p)
  case (Cons v vs)
  then show ?case using peer_step_ok [OF Cons.prems, of v] by auto
qed simp

text \<open>When both engines live and nothing is on its way or waiting to be written, both have chosen.\<close>

lemma no_deadlock:
  assumes "peers_inv mem oa ob p" "\<not> (\<exists>v. effective v p)" "\<not> deleted (pe_a p)" "\<not> deleted (pe_b p)"
  shows "length (gr_recv (sd_greeting (pe_a p))) = 64" "length (gr_recv (sd_greeting (pe_b p))) = 64"
proof -
  let ?a = "sd_greeting (pe_a p)" and ?b = "sd_greeting (pe_b p)"
  have ok: "side_ok mem (pe_a p) ob" "side_ok mem (pe_b p) oa"
    and fl: "greeting_flow (pe_a p) (pe_ab p) (pe_b p)" "greeting_flow (pe_b p) (pe_ba p) (pe_a p)"
    using assms(1) by (simp_all add: peers_inv_def)
  have out: "gr_out ?a = []" "gr_out ?b = []"
    using assms(2-4) by (auto simp: effective_def dest: spec [of _ "Write_a 1"] spec [of _ "Write_b 1"])
  have net: "pe_ba p = [] \<or> length (gr_recv ?a) = 64" "pe_ab p = [] \<or> length (gr_recv ?b) = 64"
    using assms(2-4) ok
    by (auto simp: effective_def side_ok_def deleted_def dest: spec [of _ "Read_a 1"] spec [of _ "Read_b 1"] split: if_splits)
  have "length (gr_recv ?b) + length (pe_ab p) = reached (length (gr_recv ?a))"
    "length (gr_recv ?a) + length (pe_ba p) = reached (length (gr_recv ?b))"
    using arg_cong [OF fl(1) [unfolded greeting_flow_def], of length] arg_cong [OF fl(2) [unfolded greeting_flow_def], of length]
      side_bounds(3) [OF ok(1) fl(1)] side_bounds(3) [OF ok(2) fl(2)] by (simp_all add: out)
  then have "length (gr_recv ?a) = 64 \<and> length (gr_recv ?b) = 64"
    using net by (auto simp: reached_def split: if_splits)
  then show "length (gr_recv ?a) = 64" "length (gr_recv ?b) = 64" by simp_all
qed

lemma handshake_finishes:
  assumes "peers_inv mem oa ob p"
  shows "\<exists>vs p'. peer_run mem vs p = Some (Inr p') \<and> peers_inv mem oa ob p' \<and>
    (length (gr_recv (sd_greeting (pe_a p'))) = 64 \<and> length (gr_recv (sd_greeting (pe_b p'))) = 64 \<or>
     deleted (pe_a p') \<or> deleted (pe_b p'))"
  using assms
proof (induction "todo p" arbitrary: p rule: less_induct)
  case less
  show ?case
  proof (cases "\<exists>v. effective v p")
    case True
    then obtain v p1 where v: "peer_step mem v p = Some (Inr p1)" "peers_inv mem oa ob p1" "todo p1 < todo p"
      using peer_step_ok [OF less.prems] by blast
    from less.hyps [OF v(3,2)] obtain vs p' where "peer_run mem vs p1 = Some (Inr p')" "peers_inv mem oa ob p'"
        "length (gr_recv (sd_greeting (pe_a p'))) = 64 \<and> length (gr_recv (sd_greeting (pe_b p'))) = 64 \<or>
         deleted (pe_a p') \<or> deleted (pe_b p')" by blast
    then show ?thesis using v(1) by (intro exI [of _ "v # vs"] exI [of _ p']) simp
  next
    case False
    then show ?thesis using no_deadlock [OF less.prems] less.prems
      by (intro exI [of _ "[]"] exI [of _ p]) auto
  qed
qed

section \<open>Agreement\<close>

lemma peers_new_inv:
  "mechanism_allowed oa \<Longrightarrow> mechanism_allowed ob \<Longrightarrow> peers_inv mem oa ob (peers_new oa ob)"
  by (simp add: peers_inv_def peers_new_def side_new_ok greeting_flow_def) (simp add: side_new_def)

lemma same_mechanism_sym: "same_mechanism a b = same_mechanism b a"
  by (auto simp: same_mechanism_def)

text \<open>The states an engine can be in.\<close>

lemma states:
  assumes "peers_inv mem oa ob p"
  shows "sd_choice (pe_a p) = None \<or> sd_choice (pe_a p) = Some Handshake_v3_1"
    "sd_choice (pe_b p) = None \<or> sd_choice (pe_b p) = Some Handshake_v3_1"
    "same_mechanism oa ob \<Longrightarrow> sd_state (pe_a p) = Greeting \<or> sd_state (pe_a p) = Accepted (agreed mem oa)"
    "same_mechanism oa ob \<Longrightarrow> sd_state (pe_b p) = Greeting \<or> sd_state (pe_b p) = Accepted (agreed mem ob)"
    "\<not> same_mechanism oa ob \<Longrightarrow> sd_state (pe_a p) = Greeting \<or> deleted (pe_a p)"
    "\<not> same_mechanism oa ob \<Longrightarrow> sd_state (pe_b p) = Greeting \<or> deleted (pe_b p)"
  using assms same_mechanism_sym [of oa ob]
  by (auto simp: peers_inv_def side_ok_def deleted_def split: if_splits)

lemma accepted_at_end:
  assumes "peers_inv mem oa ob p" "same_mechanism oa ob"
  shows "\<exists>vs p'. peer_run mem vs p = Some (Inr p') \<and>
    sd_state (pe_a p') = Accepted (agreed mem oa) \<and> sd_state (pe_b p') = Accepted (agreed mem ob)"
proof -
  obtain vs p' where f: "peer_run mem vs p = Some (Inr p')" "peers_inv mem oa ob p'"
      "length (gr_recv (sd_greeting (pe_a p'))) = 64 \<and> length (gr_recv (sd_greeting (pe_b p'))) = 64 \<or>
       deleted (pe_a p') \<or> deleted (pe_b p')"
    using handshake_finishes [OF assms(1)] by blast
  moreover have "\<not> deleted (pe_a p')" "\<not> deleted (pe_b p')"
    using states(3,4) [OF f(2) assms(2)] by (auto simp: deleted_def)
  ultimately show ?thesis using assms(2) same_mechanism_sym [of oa ob]
    by (intro exI [of _ vs] exI [of _ p']) (auto simp: peers_inv_def side_ok_def)
qed

lemma peer_run_append:
  "peer_run mem vs p = Some (Inr p') \<Longrightarrow> peer_run mem (vs @ vs') p = peer_run mem vs' p'"
  by (induction vs arbitrary: p) (auto split: option.splits sum.splits)

lemma deleted_by_failures:
  assumes "peers_inv mem oa ob p" "\<not> same_mechanism oa ob" "deleted (pe_a p) \<or> deleted (pe_b p)"
  shows "\<exists>p'. peer_run mem [Fail_a, Fail_b] p = Some (Inr p') \<and> peers_inv mem oa ob p' \<and>
    deleted (pe_a p') \<and> deleted (pe_b p')"
proof -
  have ok: "side_ok mem (pe_a p) ob" "side_ok mem (pe_b p) oa" using assms(1) by (simp_all add: peers_inv_def)
  obtain p' where p': "peer_run mem [Fail_a, Fail_b] p = Some (Inr p')" "peers_inv mem oa ob p'"
    using peer_run_ok [OF assms(1)] by blast
  have "deleted (pe_a p') \<and> deleted (pe_b p')"
    using p'(1) assms(3) states(5,6) [OF assms(1,2)]
    by (auto simp: side_fail_ok [OF ok(1)] side_fail_ok [OF ok(2)] split: if_splits)
      (auto simp: deleted_def)
  with p' show ?thesis by blast
qed

lemma refused_at_end:
  assumes "peers_inv mem oa ob p" "\<not> same_mechanism oa ob"
  shows "\<exists>vs p'. peer_run mem vs p = Some (Inr p') \<and> deleted (pe_a p') \<and> deleted (pe_b p') \<and>
    (sd_state (pe_a p') = Refused \<or> sd_state (pe_b p') = Refused)"
proof -
  obtain vs p1 where f: "peer_run mem vs p = Some (Inr p1)" "peers_inv mem oa ob p1"
      "length (gr_recv (sd_greeting (pe_a p1))) = 64 \<and> length (gr_recv (sd_greeting (pe_b p1))) = 64 \<or>
       deleted (pe_a p1) \<or> deleted (pe_b p1)"
    using handshake_finishes [OF assms(1)] by blast
  have "deleted (pe_a p1) \<or> deleted (pe_b p1)"
    using f(2,3) assms(2) by (auto simp: peers_inv_def side_ok_def deleted_def)
  from deleted_by_failures [OF f(2) assms(2) this] obtain p' where
    p': "peer_run mem [Fail_a, Fail_b] p1 = Some (Inr p')" "peers_inv mem oa ob p'"
      "deleted (pe_a p')" "deleted (pe_b p')" by blast
  have "sd_state (pe_a p') = Refused \<or> sd_state (pe_b p') = Refused"
    using p'(2-4) by (auto simp: peers_inv_def deleted_def)
  with p' peer_run_append [OF f(1), of "[Fail_a, Fail_b]"] show ?thesis by metis
qed

text \<open>
  C13. Two engines of this library that greet each other over a connection that takes and gives the bytes
  in any portions, when the options of neither would make a PLAIN server without the domain they
  enforce. In every order of events no assertion fails, and neither takes the other for an older
  peer. When both want the same mechanism, and it is not GSSAPI, no connection is refused or lost,
  and from every state there is a way on to the end, where both have accepted the framing of ZMTP 3.1
  and the mechanism. Otherwise no engine ever accepts the other, and from every state there is a way
  on to the end of both: one of them has refused the other, and the other has refused it or has lost
  its connection.
\<close>

theorem handshake_agrees:
  assumes "mechanism_allowed oa" "mechanism_allowed ob"
  shows "\<exists>p. peer_run mem vs (peers_new oa ob) = Some (Inr p) \<and>
     (sd_choice (pe_a p) = None \<or> sd_choice (pe_a p) = Some Handshake_v3_1) \<and>
     (sd_choice (pe_b p) = None \<or> sd_choice (pe_b p) = Some Handshake_v3_1) \<and>
     (if same_mechanism oa ob
      then \<not> deleted (pe_a p) \<and> \<not> deleted (pe_b p) \<and>
        (\<exists>vs' p'. peer_run mem vs' p = Some (Inr p') \<and>
           sd_state (pe_a p') = Accepted (agreed mem oa) \<and> sd_state (pe_b p') = Accepted (agreed mem ob))
      else (\<forall>h. sd_state (pe_a p) \<noteq> Accepted h \<and> sd_state (pe_b p) \<noteq> Accepted h) \<and>
        (\<exists>vs' p'. peer_run mem vs' p = Some (Inr p') \<and> deleted (pe_a p') \<and> deleted (pe_b p') \<and>
           (sd_state (pe_a p') = Refused \<or> sd_state (pe_b p') = Refused)))"
proof -
  obtain p where p: "peer_run mem vs (peers_new oa ob) = Some (Inr p)" "peers_inv mem oa ob p"
    using peer_run_ok [OF peers_new_inv [OF assms]] by blast
  note st = states [OF p(2)]
  show ?thesis
  proof (cases "same_mechanism oa ob")
    case True
    with st(3,4) have "\<not> deleted (pe_a p)" "\<not> deleted (pe_b p)" by (auto simp: deleted_def)
    with True p(1) st(1,2) accepted_at_end [OF p(2) True] show ?thesis by auto
  next
    case False
    with st(5,6) have "\<forall>h. sd_state (pe_a p) \<noteq> Accepted h \<and> sd_state (pe_b p) \<noteq> Accepted h"
      by (auto simp: deleted_def)
    with False p(1) st(1,2) refused_at_end [OF p(2) False] show ?thesis by auto
  qed
qed

theorem handshake_agrees_witness:
  "let a = socket_options ZMQ_REQ ''client'' False; b = socket_options ZMQ_ROUTER ''r'' True;
       c = b\<lparr>zo_mechanism := ZMQ_PLAIN, zo_as_server := True, zo_zap_enforce_domain := True, zo_zap_domain := ''d''\<rparr>;
       vs = [Write_a 64, Write_b 7, Read_b 64, Write_b 64, Read_a 3] in
   (\<exists>p vs' p'. peer_run (\<lambda>_. True) vs (peers_new a b) = Some (Inr p) \<and> peer_run (\<lambda>_. True) vs' p = Some (Inr p') \<and>
      sd_state (pe_a p') = Accepted (agreed (\<lambda>_. True) a) \<and> sd_state (pe_b p') = Accepted (agreed (\<lambda>_. True) b)) \<and>
   (\<exists>p vs' p'. peer_run (\<lambda>_. True) vs (peers_new a c) = Some (Inr p) \<and> peer_run (\<lambda>_. True) vs' p = Some (Inr p') \<and>
      deleted (pe_a p') \<and> deleted (pe_b p'))"
proof -
  let ?a = "socket_options ZMQ_REQ ''client'' False" and ?b = "socket_options ZMQ_ROUTER ''r'' True"
  let ?c = "?b\<lparr>zo_mechanism := ZMQ_PLAIN, zo_as_server := True, zo_zap_enforce_domain := True, zo_zap_domain := ''d''\<rparr>"
  let ?vs = "[Write_a 64, Write_b 7, Read_b 64, Write_b 64, Read_a 3]"
  have m: "mechanism_allowed ?a" "mechanism_allowed ?b" "mechanism_allowed ?c" "same_mechanism ?a ?b" "\<not> same_mechanism ?a ?c"
    by (simp_all add: mechanism_allowed_def same_mechanism_def socket_options_def plain_server_refused_def zap_required_def)
  have "\<exists>p vs' p'. peer_run (\<lambda>_. True) ?vs (peers_new ?a ?b) = Some (Inr p) \<and> peer_run (\<lambda>_. True) vs' p = Some (Inr p') \<and>
      sd_state (pe_a p') = Accepted (agreed (\<lambda>_. True) ?a) \<and> sd_state (pe_b p') = Accepted (agreed (\<lambda>_. True) ?b)"
    using handshake_agrees [OF m(1,2), of "\<lambda>_. True" ?vs] m(4) by (simp only: if_True) blast
  moreover have "\<exists>p vs' p'. peer_run (\<lambda>_. True) ?vs (peers_new ?a ?c) = Some (Inr p) \<and> peer_run (\<lambda>_. True) vs' p = Some (Inr p') \<and>
      deleted (pe_a p') \<and> deleted (pe_b p')"
    using handshake_agrees [OF m(1,3), of "\<lambda>_. True" ?vs] m(5) by (simp only: if_False) blast
  ultimately show ?thesis by (simp only: Let_def)
qed

section \<open>The answer to a PING\<close>

definition ttl_timer :: "16 word \<Rightarrow> zmtp \<Rightarrow> zmtp" where
  "ttl_timer t z =
     (let ms = (Word.uint t * 100) mod 65536 in
      if \<not> zt_has_ttl_timer z \<and> 0 < ms then (add_timer ms Heartbeat_ttl_timer z)\<lparr>zt_has_ttl_timer := True\<rparr> else z)"

lemma ttl_wraps: "Word.uint (t * 100 :: 16 word) = (Word.uint t * 100) mod 65536"
  by (simp add: uint_word_ariths)

lemma command_flags_ping: "command_flags ''PING'' = flag_ping"
  by (simp add: command_flags_def)

lemma ping_flag:
  assumes "m_flags m AND CMD_TYPE_MASK = 0"
  shows "is_ping (set_flags flag_ping m)"
  using assms by (simp add: is_ping_def set_flags_def flag_ping_def CMD_TYPE_MASK_def and.commute bit.conj_disj_distrib2
      bit.conj_disj_distrib)

lemma ping_command:
  assumes "m_flags m AND CMD_TYPE_MASK = 0" "m_data m = ping_cmd @ rest"
  shows "process_command_message out m =
    thenX (process_heartbeat_message out (set_flags flag_ping m)) (ret (True, set_flags flag_ping m))"
  using ping_flag [OF assms(1)] assms(2)
  by (simp add: process_command_message_def ping_cmd_def byte_def command_flags_ping Let_def)

text \<open>
  C34. A PING command with less than a time to live behind its name makes the engine read bytes that were
  never written. Any other is answered with a PONG that has the first sixteen bytes of its context,
  and the time to live, in tenths of a second, starts a timer unless one runs. Its milliseconds
  are computed in sixteen bits, so that a time of 65.6 seconds becomes one of 64 milliseconds.
\<close>

theorem ping_outcome:
  assumes "m_flags m AND CMD_TYPE_MASK = 0" "m_data m = ping_cmd @ rest"
  shows "(length rest < 2 \<longrightarrow> process_command_message out m z = (Inl (UB UninitialisedRead), z)) \<and>
    (\<forall>t ctx. rest = put_uint16 t @ ctx \<longrightarrow> process_command_message out m z =
       thenX out (ret (True, set_flags flag_ping m))
         ((ttl_timer t z)\<lparr>zt_pong_msg := \<lparr>m_flags = flag_command, m_data = pong_cmd @ take 16 ctx\<rparr>,
                          zt_next_msg := Produce_pong_message\<rparr>))"
proof (intro conjI allI impI)
  note run = ping_command [OF assms] ping_flag [OF assms(1)]
  have d: "m_data (set_flags flag_ping m) = ping_cmd @ rest" "length ping_cmd = 5"
    using assms(2) by (simp_all add: set_flags_def ping_cmd_def)
  show "process_command_message out m z = (Inl (UB UninitialisedRead), z)" if "length rest < 2"
    using run d that by (simp add: process_heartbeat_message_def ping_cmd_name_size_def)
  fix t ctx
  assume r: "rest = put_uint16 t @ ctx"
  have l: "length (put_uint16 t) = 2" "get_uint16 (put_uint16 t @ ctx) = t"
    using get_put_uint16 [of t] by (simp_all add: put_uint16_def get_uint16_def)
  have z: "(if \<not> zt_has_ttl_timer z \<and> 0 < t * 100
      then (add_timer (Word.uint (t * 100)) Heartbeat_ttl_timer z)\<lparr>zt_has_ttl_timer := True\<rparr> else z) = ttl_timer t z"
    unfolding ttl_timer_def Let_def ttl_wraps [symmetric] by (simp add: word_less_def)
  let ?z = "(ttl_timer t z)\<lparr>zt_pong_msg := \<lparr>m_flags = flag_command, m_data = pong_cmd @ take 16 ctx\<rparr>,
                       zt_next_msg := Produce_pong_message\<rparr>"
  have "process_heartbeat_message out (set_flags flag_ping m) z = out ?z"
    using run(2) d l unfolding r
    by (simp add: process_heartbeat_message_def ping_cmd_name_size_def z set_flags_def [of flag_command] Let_def)
  then show "process_command_message out m z = thenX out (ret (True, set_flags flag_ping m)) ?z"
    by (simp add: run(1) thenX_def bindX_def)
qed

theorem ping_outcome_witness:
  "(656 :: int) * 100 = 65600 \<and>
   process_command_message (ret ()) \<lparr>m_flags = flag_command, m_data = ping_cmd @ put_uint16 656 @ ''ctx''\<rparr>
     \<lparr>zt_next_msg = Pull_and_encode, zt_pong_msg = msg_init, zt_has_ttl_timer = False, zt_has_timeout_timer = False,
      zt_timers = [], zt_heartbeat_ttl = 0, zt_heartbeat_timeout = 0\<rparr> =
   (Inr (True, \<lparr>m_flags = 6, m_data = ping_cmd @ put_uint16 656 @ ''ctx''\<rparr>),
    \<lparr>zt_next_msg = Produce_pong_message, zt_pong_msg = \<lparr>m_flags = flag_command, m_data = pong_cmd @ ''ctx''\<rparr>,
     zt_has_ttl_timer = True, zt_has_timeout_timer = False, zt_timers = [(Heartbeat_ttl_timer, 64)],
     zt_heartbeat_ttl = 0, zt_heartbeat_timeout = 0\<rparr>)"
  using ping_outcome [of "\<lparr>m_flags = flag_command, m_data = ping_cmd @ put_uint16 656 @ ''ctx''\<rparr>"
      "put_uint16 656 @ ''ctx''" "ret ()" "\<lparr>zt_next_msg = Pull_and_encode, zt_pong_msg = msg_init, zt_has_ttl_timer = False,
        zt_has_timeout_timer = False, zt_timers = [], zt_heartbeat_ttl = 0, zt_heartbeat_timeout = 0\<rparr>"]
  by (simp add: flag_command_def CMD_TYPE_MASK_def ttl_timer_def add_timer_def set_flags_def flag_ping_def)

section \<open>A peer of the first version\<close>

text \<open>A header that fills the buffer of the caller is taken from the encoder and nothing else is.\<close>

lemma encode_header:
  assumes "en_write e = b" "b \<noteq> []" "en_in_progress e = Some m"
  shows "encode C (Some (length b)) e = Some (b, e\<lparr>en_write := []\<rparr>)"
  using assms by (simp add: encode_def encode_loop.simps [of C _ _ _ "[]"] encode_loop.simps [of C _ _ _ b])

text \<open>
  To a peer that does not tell its version the engine has sent ten bytes, before it could know. They
  are the header, in the long format, of a message of version 1 that carries the routing id, so the
  header that the encoder makes for this message is thrown away. It has the size that is asserted;
  what the encoder still has to write is the routing id, which completes the message on the wire, and
  the decoder starts with all that has been received.
\<close>

theorem old_peer_handshake:
  assumes "\<not> zap_enabled opt"
  shows "\<exists>h. handshake_v1_0_unversioned mem opt g = Some (Inr (Some h)) \<and> hk_in h = gr_recv g \<and>
    pending \<lparr>m_flags = 0, m_data = zo_routing_id opt\<rparr> (hk_encoder h) = zo_routing_id opt \<and>
    gr_sent (plug_internal opt) @ zo_routing_id opt =
      [byte UCHAR_MAX] @ put_uint64 (of_nat (length (zo_routing_id opt) + 1)) @ [byte 0x7f] @ zo_routing_id opt \<and>
    hk_subscription_required h = (zo_type opt = ZMQ_PUB \<or> zo_type opt = ZMQ_XPUB)"
proof -
  let ?m = "\<lparr>m_flags = 0, m_data = zo_routing_id opt\<rparr>"
  let ?n = "length (zo_routing_id opt) + 1"
  define b where "b = (if ?n < UCHAR_MAX then [byte ?n] @ put_uint8 0
    else [byte UCHAR_MAX] @ put_uint64 (of_nat ?n) @ put_uint8 0)"
  define e where "e = (encoder_new (zo_out_batch opt))\<lparr>en_in_progress := Some ?m, en_write := b, en_next := Enc_size_ready,
    en_new_msg := False\<rparr>"
  have "load_msg v1_encoder ?m (encoder_new (zo_out_batch opt)) = Inr e"
    by (simp add: load_msg_def run_next_def enc_next_step_def encoder_new_def v1_encoder_def v1_message_ready_def
        e_def b_def is_subscribe_def is_cancel_def flag_subscribe_def flag_cancel_def Let_def)
  moreover have "length b = (if UCHAR_MAX \<le> ?n then 10 else 2)" "b \<noteq> []"
    by (simp_all add: b_def put_uint8_def put_uint64_def)
  moreover from this have "encode v1_encoder (Some (if UCHAR_MAX \<le> ?n then 10 else 2)) e = Some (b, e\<lparr>en_write := []\<rparr>)"
    using encode_header [of e b ?m v1_encoder] by (simp add: e_def)
  ultimately show ?thesis using assms
    by (simp add: handshake_v1_0_unversioned_def v1_codec_def codec_def Let_def pending_def plug_internal_def)
      (simp add: e_def)
qed

theorem old_peer_handshake_witness:
  "\<exists>h. handshake_v1_0_unversioned (\<lambda>_. True) (socket_options ZMQ_PUB ''id'' False) (plug_internal (socket_options ZMQ_PUB ''id'' False)) =
      Some (Inr (Some h)) \<and> hk_subscription_required h \<and>
    pending \<lparr>m_flags = 0, m_data = ''id''\<rparr> (hk_encoder h) = ''id''"
proof -
  have o: "\<not> zap_enabled (socket_options ZMQ_PUB ''id'' False)" "zo_routing_id (socket_options ZMQ_PUB ''id'' False) = ''id''"
    "zo_type (socket_options ZMQ_PUB ''id'' False) = ZMQ_PUB"
    by (simp_all add: socket_options_def zap_enabled_def)
  from old_peer_handshake [OF o(1)] show ?thesis unfolding o by blast
qed

end
