(* ===== verification/ZmqPlain.thy ===== *)
theory ZmqPlain
  imports ZmqMechanism
begin

text \<open>
  \<open>libzmq\<close>: authentication by user name and password, \<open>plain_client.cpp\<close> and \<open>plain_server.cpp\<close>. The
  server asks the handler of the process, by the state machine that \<open>zap_client.cpp\<close> has for all
  servers, and goes on with the handshake only when the handler agrees.
\<close>

section \<open>The state machine of a server\<close>

datatype zap_state =
    Waiting_for_hello | Sending_welcome | Waiting_for_initiate | Waiting_for_zap_reply
  | Sending_ready | Sending_error | Error_sent | Server_ready

record plain_server = mech +
  zs_state :: zap_state

definition set_state :: "zap_state \<Rightarrow> (plain_server, unit) cxx" where
  "set_state st = modS (\<lambda>s. s\<lparr>zs_state := st\<rparr>)"

text \<open>\<open>ok\<close> is the state after a reply that agrees, a constant of the derived class.\<close>

definition common_handle_zap_status_code :: "zap_state \<Rightarrow> (plain_server, unit) cxx" where
  "common_handle_zap_status_code ok =
     thenX handle_zap_status_code (
     bindX (getS mc_status_code) (\<lambda>c.
       if c ! 0 = CHR ''2'' then set_state ok
       else if c ! 0 = CHR ''3'' then set_state Error_sent
       else set_state Sending_error))"

definition common_receive_zap_reply :: "zap_state \<Rightarrow> (plain_server, zap_rc) cxx" where
  "common_receive_zap_reply ok =
     bindX (getS zs_state) (\<lambda>st.
       if st \<noteq> Waiting_for_zap_reply then throw AssertFailed
       else receive_and_process_zap_reply (common_handle_zap_status_code ok))"

definition zap_errno :: "zap_rc \<Rightarrow> mech_errno option" where
  "zap_errno r = (case r of Zap_error e \<Rightarrow> Some e | _ \<Rightarrow> None)"

definition common_zap_msg_available :: "zap_state \<Rightarrow> (plain_server, mech_errno option) cxx" where
  "common_zap_msg_available ok =
     bindX (getS zs_state) (\<lambda>st.
       if st \<noteq> Waiting_for_zap_reply then throw AssertFailed
       else bindX (common_receive_zap_reply ok) (\<lambda>r. ret (zap_errno r)))"

definition common_status :: "plain_server \<Rightarrow> mech_status" where
  "common_status s =
     (case zs_state s of Server_ready \<Rightarrow> Ready | Error_sent \<Rightarrow> Mech_error | _ \<Rightarrow> Handshaking)"

section \<open>The server\<close>

definition hello_prefix :: string where "hello_prefix = CHR 0x05 # ''HELLO''"
definition welcome_prefix :: string where "welcome_prefix = CHR 0x07 # ''WELCOME''"
definition initiate_prefix :: string where "initiate_prefix = CHR 0x08 # ''INITIATE''"
definition ready_prefix :: string where "ready_prefix = CHR 0x05 # ''READY''"
definition error_prefix :: string where "error_prefix = CHR 0x05 # ''ERROR''"

lemmas prefixes = hello_prefix_def welcome_prefix_def initiate_prefix_def ready_prefix_def error_prefix_def

definition plain_server_new :: "zmtp_options \<Rightarrow> string \<Rightarrow> zap_handler option \<Rightarrow> plain_server res" where
  "plain_server_new opt addr h =
     (if zo_zap_enforce_domain opt \<and> \<not> zap_required opt then Inl AssertFailed
      else Inr (mech.extend (mech_new opt addr h) (plain_server.fields Waiting_for_hello)))"

definition produce_welcome :: msg where
  "produce_welcome = \<lparr>m_flags = 0, m_data = welcome_prefix\<rparr>"

definition produce_error :: "plain_server \<Rightarrow> msg res" where
  "produce_error s =
     (if length (mc_status_code s) \<noteq> 3 then Inl AssertFailed
      else Inr \<lparr>m_flags = 0, m_data = error_prefix @ [byte 3] @ mc_status_code s\<rparr>)"

definition plain_server_next :: "plain_server produced" where
  "plain_server_next =
     bindX (getS (\<lambda>s. s)) (\<lambda>s. case zs_state s of
         Sending_welcome \<Rightarrow> thenX (set_state Waiting_for_initiate) (ret (Inr produce_welcome))
       | Sending_ready \<Rightarrow>
           bindX (liftR (make_command_with_basic_properties ready_prefix (mc_options s))) (\<lambda>m.
             thenX (set_state Server_ready) (ret (Inr m)))
       | Sending_error \<Rightarrow>
           bindX (liftR (produce_error s)) (\<lambda>m. thenX (set_state Error_sent) (ret (Inr m)))
       | _ \<Rightarrow> ret (Inl M_EAGAIN))"

text \<open>User name and password of the command, or nothing when it is malformed.\<close>

definition parse_hello :: "string \<Rightarrow> (string \<times> string) option" where
  "parse_hello b =
     (case b of
        [] \<Rightarrow> None
      | c # r \<Rightarrow>
          let n = of_char c in
          if length r < n then None
          else case drop n r of
              [] \<Rightarrow> None
            | c' # p \<Rightarrow> if length p \<noteq> of_char c' then None else Some (take n r, p))"

definition process_hello :: "msg \<Rightarrow> (plain_server, mech_errno option) cxx" where
  "process_hello m =
     bindX (check_basic_command_structure m) (\<lambda>rc.
       if rc \<noteq> None then ret rc
       else if length (m_data m) < length hello_prefix \<or> take (length hello_prefix) (m_data m) \<noteq> hello_prefix
       then protocol_failure ZMTP_UNEXPECTED_COMMAND
       else case parse_hello (drop (length hello_prefix) (m_data m)) of
           None \<Rightarrow> protocol_failure ZMTP_MALFORMED_COMMAND_HELLO
         | Some (username, password) \<Rightarrow>
             bindX zap_connect (\<lambda>rc.
               if rc \<noteq> None then thenX (emit (Handshake_failed_no_detail M_EFAULT)) (ret rc)
               else
                 thenX (send_zap_request ''PLAIN'' [username, password]) (
                 thenX (set_state Waiting_for_zap_reply) (
                 bindX (common_receive_zap_reply Sending_welcome) (\<lambda>r. ret (zap_errno r))))))"

definition process_initiate :: "msg \<Rightarrow> (plain_server, mech_errno option) cxx" where
  "process_initiate m =
     (if length (m_data m) < length initiate_prefix \<or> take (length initiate_prefix) (m_data m) \<noteq> initiate_prefix
      then protocol_failure ZMTP_UNEXPECTED_COMMAND
      else bindX (parse_metadata False (drop (length initiate_prefix) (m_data m))) (\<lambda>rc.
        if rc = None then thenX (set_state Sending_ready) (ret None) else ret rc))"

definition plain_server_process :: "msg \<Rightarrow> (plain_server, mech_errno option) cxx" where
  "plain_server_process m =
     bindX (getS zs_state) (\<lambda>st. case st of
         Waiting_for_hello \<Rightarrow> process_hello m
       | Waiting_for_initiate \<Rightarrow> process_initiate m
       | _ \<Rightarrow> protocol_failure ZMTP_UNSPECIFIED)"

definition plain_zap_msg_available :: "(plain_server, mech_errno option) cxx" where
  "plain_zap_msg_available = common_zap_msg_available Sending_welcome"

section \<open>The client\<close>

datatype plain_client_state =
    Sending_hello | Waiting_for_welcome | Sending_initiate | Waiting_for_ready
  | Error_command_received | Client_ready

record plain_client = mech +
  pc_state :: plain_client_state

definition set_client_state :: "plain_client_state \<Rightarrow> (plain_client, unit) cxx" where
  "set_client_state st = modS (\<lambda>s. s\<lparr>pc_state := st\<rparr>)"

definition plain_client_new :: "zmtp_options \<Rightarrow> plain_client" where
  "plain_client_new opt = mech.extend (mech_new opt [] None) (plain_client.fields Sending_hello)"

definition produce_hello :: "zmtp_options \<Rightarrow> msg res" where
  "produce_hello opt =
     (let u = zo_plain_username opt; p = zo_plain_password opt in
      if \<not> length u \<le> UCHAR_MAX then Inl AssertFailed
      else if \<not> length p \<le> UCHAR_MAX then Inl AssertFailed
      else Inr \<lparr>m_flags = 0, m_data = hello_prefix @ [byte (length u)] @ u @ [byte (length p)] @ p\<rparr>)"

definition plain_client_next :: "plain_client produced" where
  "plain_client_next =
     bindX (getS (\<lambda>s. s)) (\<lambda>s. case pc_state s of
         Sending_hello \<Rightarrow>
           bindX (liftR (produce_hello (mc_options s))) (\<lambda>m.
             thenX (set_client_state Waiting_for_welcome) (ret (Inr m)))
       | Sending_initiate \<Rightarrow>
           bindX (liftR (make_command_with_basic_properties initiate_prefix (mc_options s))) (\<lambda>m.
             thenX (set_client_state Waiting_for_ready) (ret (Inr m)))
       | _ \<Rightarrow> ret (Inl M_EAGAIN))"

definition process_welcome :: "string \<Rightarrow> (plain_client, mech_errno option) cxx" where
  "process_welcome d =
     bindX (getS pc_state) (\<lambda>st.
       if st \<noteq> Waiting_for_welcome then protocol_failure ZMTP_UNEXPECTED_COMMAND
       else if length d \<noteq> length welcome_prefix then protocol_failure ZMTP_MALFORMED_COMMAND_WELCOME
       else thenX (set_client_state Sending_initiate) (ret None))"

definition process_ready :: "string \<Rightarrow> (plain_client, mech_errno option) cxx" where
  "process_ready d =
     bindX (getS pc_state) (\<lambda>st.
       if st \<noteq> Waiting_for_ready then protocol_failure ZMTP_UNEXPECTED_COMMAND
       else bindX (parse_metadata False (drop (length ready_prefix) d)) (\<lambda>rc.
         if rc = None then thenX (set_client_state Client_ready) (ret None)
         else thenX (emit (Handshake_failed_protocol ZMTP_INVALID_METADATA)) (ret rc)))"

definition process_error :: "string \<Rightarrow> (plain_client, mech_errno option) cxx" where
  "process_error d =
     bindX (getS pc_state) (\<lambda>st.
       if st \<noteq> Waiting_for_welcome \<and> st \<noteq> Waiting_for_ready then protocol_failure ZMTP_UNEXPECTED_COMMAND
       else bindX (process_error_reason d) (\<lambda>rc.
         if rc = None then thenX (set_client_state Error_command_received) (ret None) else ret rc))"

definition plain_client_process :: "msg \<Rightarrow> (plain_client, mech_errno option) cxx" where
  "plain_client_process m =
     (let d = m_data m; has = (\<lambda>p. length d \<ge> length p \<and> take (length p) d = p) in
      if has welcome_prefix then process_welcome d
      else if has ready_prefix then process_ready d
      else if has error_prefix then process_error d
      else protocol_failure ZMTP_UNEXPECTED_COMMAND)"

definition plain_client_status :: "plain_client \<Rightarrow> mech_status" where
  "plain_client_status s =
     (case pc_state s of Client_ready \<Rightarrow> Ready | Error_command_received \<Rightarrow> Mech_error | _ \<Rightarrow> Handshaking)"

section \<open>Runs of a server\<close>

text \<open>
  What happens to a server in the order of time: the peer, which may be anybody, says something; the
  server is asked for its next command; the handler writes frames into the pipe, once there is one,
  and the server is told; the pipe goes away.
\<close>

datatype plain_event = Peer_says msg | Server_says "mech_errno + msg" | Handler_says "msg list" | Told | Pipe_gone

inductive plain_serves :: "plain_server \<Rightarrow> plain_event list \<Rightarrow> plain_server \<Rightarrow> bool" for s0 where
  serves_start: "plain_serves s0 [] s0"
| serves_hear: "plain_serves s0 tr s \<Longrightarrow> plain_server_process m s = (Inr r, s') \<Longrightarrow>
    plain_serves s0 (tr @ [Peer_says m]) s'"
| serves_say: "plain_serves s0 tr s \<Longrightarrow> plain_server_next s = (Inr r, s') \<Longrightarrow>
    plain_serves s0 (tr @ [Server_says r]) s'"
| serves_reply: "plain_serves s0 tr s \<Longrightarrow> mc_pipe s \<Longrightarrow>
    plain_serves s0 (tr @ [Handler_says fs]) (s\<lparr>mc_zap_in := mc_zap_in s @ fs\<rparr>)"
| serves_told: "plain_serves s0 tr s \<Longrightarrow> plain_zap_msg_available s = (Inr r, s') \<Longrightarrow>
    plain_serves s0 (tr @ [Told]) s'"
| serves_gone: "plain_serves s0 tr s \<Longrightarrow>
    plain_serves s0 (tr @ [Pipe_gone]) (s\<lparr>mc_pipe := False, mc_zap_in := []\<rparr>)"

section \<open>What the steps leave alone\<close>

definition keeps_rest :: "'a mech_scheme \<Rightarrow> 'a mech_scheme \<Rightarrow> bool" where
  "keeps_rest s s' \<longleftrightarrow> mc_options s' = mc_options s \<and> mc_peer_address s' = mc_peer_address s \<and>
     mc_handler s' = mc_handler s \<and> mc_zap_out s' = mc_zap_out s"

lemma use_property_frame: "\<exists>r a. use_property k v s = (Inr r, s\<lparr>mc_routing_id := a\<rparr>)"
proof (cases "k = ''Identity'' \<and> zo_recv_routing_id (mc_options s)")
  case True
  then show ?thesis
    by (intro exI [of _ None] exI [of _ v]) (simp add: use_property_def set_peer_routing_id_def)
next
  case False
  then show ?thesis by (auto simp: use_property_def intro!: exI [of _ "mc_routing_id s"])
qed

lemma store_property_frame:
  "\<exists>b c. store_property zap k v s = (Inr (), s\<lparr>mc_zmtp_properties := b, mc_zap_properties := c\<rparr>)"
  by (rule exI [of _ "if zap then mc_zmtp_properties s else emplace k v (mc_zmtp_properties s)"],
      rule exI [of _ "if zap then emplace k v (mc_zap_properties s) else mc_zap_properties s"])
    (simp add: store_property_def)

lemma use_properties_frame:
  "\<exists>r a b c. use_properties zap ps s =
     (Inr r, s\<lparr>mc_routing_id := a, mc_zmtp_properties := b, mc_zap_properties := c\<rparr>)"
proof (induction ps arbitrary: s)
  case Nil
  show ?case by (intro exI [of _ None] exI [of _ "mc_routing_id s"] exI [of _ "mc_zmtp_properties s"]
        exI [of _ "mc_zap_properties s"]) simp
next
  case (Cons q ps)
  obtain k v where q: "q = (k, v)" by force
  obtain r a where u: "use_property k v s = (Inr r, s\<lparr>mc_routing_id := a\<rparr>)"
    using use_property_frame [of k v s] by blast
  obtain b c where t: "store_property zap k v (s\<lparr>mc_routing_id := a\<rparr>) =
      (Inr (), s\<lparr>mc_routing_id := a, mc_zmtp_properties := b, mc_zap_properties := c\<rparr>)"
    using store_property_frame [of zap k v "s\<lparr>mc_routing_id := a\<rparr>"] by auto
  show ?case
  proof (cases r)
    case None
    with u t Cons.IH [of "s\<lparr>mc_routing_id := a, mc_zmtp_properties := b, mc_zap_properties := c\<rparr>"]
    show ?thesis by (auto simp: q)
  next
    case (Some e)
    with u show ?thesis
      by (intro exI [of _ "Some e"] exI [of _ a] exI [of _ "mc_zmtp_properties s"] exI [of _ "mc_zap_properties s"])
        (simp add: q)
  qed
qed

lemma parse_metadata_frame:
  obtains r a b c where "parse_metadata zap p s =
     (Inr r, s\<lparr>mc_routing_id := a, mc_zmtp_properties := b, mc_zap_properties := c\<rparr>)"
proof -
  obtain ps t where p: "p = concat (map property_bytes ps) @ t" "\<forall>q \<in> set ps. property_ok q" "\<not> starts_property t"
    using properties_and_rest [of p] by blast
  obtain r a b c where "use_properties zap ps s =
     (Inr r, s\<lparr>mc_routing_id := a, mc_zmtp_properties := b, mc_zap_properties := c\<rparr>)"
    using use_properties_frame [of zap ps s] by blast
  then have "parse_metadata zap p s =
     (Inr (if r \<noteq> None then r else if t = [] \<or> cut_property t then None else Some M_EPROTO),
      s\<lparr>mc_routing_id := a, mc_zmtp_properties := b, mc_zap_properties := c\<rparr>)"
    unfolding p(1) parse_properties [OF p(2)] parse_rest [OF p(3)] bindX_def by (cases r) simp_all
  then show thesis by (rule that)
qed

lemma protocol_failure_run [simp]:
  "protocol_failure p s = (Inr (Some M_EPROTO), s\<lparr>mc_events := mc_events s @ [Handshake_failed_protocol p]\<rparr>)"
  by (simp add: protocol_failure_def emit_def)

lemma read_zap_frames_ok:
  "\<exists>rc ms q v. read_zap_frames n s = (Inr (rc, ms), s\<lparr>mc_zap_in := q, mc_events := v\<rparr>) \<and>
     suffix q (mc_zap_in s) \<and> (rc = Zap_ok \<longrightarrow> mc_zap_in s = ms @ q \<and> length ms = n)"
proof (induction n arbitrary: s)
  case 0
  show ?case by (intro exI [of _ Zap_ok] exI [of _ "[]"] exI [of _ "mc_zap_in s"] exI [of _ "mc_events s"]) simp
next
  case (Suc n)
  show ?case
  proof (cases "mc_pipe s \<and> mc_zap_in s \<noteq> []")
    case False
    have r: "read_zap_msg s = (Inr (Inl (if mc_pipe s then M_EAGAIN else M_ENOTCONN)), s)"
      using False by (simp add: read_zap_msg_def)
    show ?thesis
      by (intro exI [of _ "if mc_pipe s then Zap_again else Zap_error M_ENOTCONN"] exI [of _ "[]"]
          exI [of _ "mc_zap_in s"] exI [of _ "mc_events s"]) (cases "mc_pipe s"; simp add: r)
  next
    case True
    then obtain m q where q: "mc_zap_in s = m # q" by (cases "mc_zap_in s") auto
    have r: "read_zap_msg s = (Inr (Inr m), s\<lparr>mc_zap_in := q\<rparr>)" using True q by (simp add: read_zap_msg_def)
    obtain rc ms q' v where i: "read_zap_frames n (s\<lparr>mc_zap_in := q\<rparr>) = (Inr (rc, ms), s\<lparr>mc_zap_in := q', mc_events := v\<rparr>)"
        "suffix q' q" "rc = Zap_ok \<longrightarrow> q = ms @ q' \<and> length ms = n"
      using Suc.IH [of "s\<lparr>mc_zap_in := q\<rparr>"] by auto
    show ?thesis
    proof (cases "has_flag m flag_more = (n \<noteq> 0)")
      case False
      have "read_zap_frames (Suc n) s = (Inr (Zap_error M_EPROTO, []),
          s\<lparr>mc_zap_in := q, mc_events := mc_events s @ [Handshake_failed_protocol ZAP_MALFORMED_REPLY]\<rparr>)"
        using False unfolding read_zap_frames.simps bindX_def r by simp
      with q show ?thesis using suffix_ConsI [OF suffix_order.refl, of q m] by (metis zap_rc.distinct(3))
    next
      case True
      have "read_zap_frames (Suc n) s = (Inr (rc, m # ms), s\<lparr>mc_zap_in := q', mc_events := v\<rparr>)"
        using True i(1) unfolding read_zap_frames.simps bindX_def r by simp
      with q i(2,3) show ?thesis by (metis suffix_ConsI append_Cons length_Cons)
    qed
  qed
qed

lemma status_200:
  assumes "valid_status_code c" "c ! 0 = CHR ''2''"
  shows "c = ''200''"
proof -
  have "length c = 3" using assms(1) by (simp add: valid_status_code_def)
  then obtain x y z where "c = [x, y, z]" by (auto simp: numeral_eq_Suc length_Suc_conv)
  then show ?thesis using assms by (simp add: valid_status_code_def)
qed

text \<open>A reply with which the handler agrees, and the user it names.\<close>

definition approves :: "msg list \<Rightarrow> string \<Rightarrow> bool" where
  "approves fs user \<longleftrightarrow> length fs = 7 \<and> m_data (fs ! 0) = [] \<and> m_data (fs ! 1) = ''1.0'' \<and> m_data (fs ! 2) = ''1'' \<and>
     m_data (fs ! 3) = ''200'' \<and> m_data (fs ! 5) = user"

lemma handle_run:
  "\<exists>v. common_handle_zap_status_code ok s = (Inr (), s\<lparr>mc_events := v, zs_state :=
     (if mc_status_code s ! 0 = CHR ''2'' then ok else if mc_status_code s ! 0 = CHR ''3'' then Error_sent
      else Sending_error)\<rparr>)"
proof (cases "mc_status_code s ! 0 = CHR ''2''")
  case True
  then show ?thesis
    by (intro exI [of _ "mc_events s"])
      (simp add: common_handle_zap_status_code_def handle_zap_status_code_def set_state_def)
next
  case False
  obtain i where "handle_zap_status_code s = (Inr (), s\<lparr>mc_events := mc_events s @ [Handshake_failed_auth i]\<rparr>)"
    using False by (simp add: handle_zap_status_code_def emit_def Let_def)
  with False show ?thesis
    by (intro exI [of _ "mc_events s @ [Handshake_failed_auth i]"])
      (simp add: common_handle_zap_status_code_def set_state_def)
qed

definition reply_post :: "zap_state \<Rightarrow> plain_server \<Rightarrow> plain_server \<Rightarrow> bool" where
  "reply_post ok s s' \<longleftrightarrow> keeps_rest s s' \<and> suffix (mc_zap_in s') (mc_zap_in s) \<and>
     (zs_state s' \<in> {Waiting_for_zap_reply, Error_sent, Sending_error} \<or>
      zs_state s' = ok \<and> (\<exists>fs. mc_zap_in s = fs @ mc_zap_in s' \<and> approves fs (mc_user_id s')))"

lemma reply_ok:
  assumes "zs_state s = Waiting_for_zap_reply"
  shows "\<exists>r s'. common_receive_zap_reply ok s = (Inr r, s') \<and> reply_post ok s s'"
proof -
  obtain rc ms q v where f: "read_zap_frames 7 s = (Inr (rc, ms), s\<lparr>mc_zap_in := q, mc_events := v\<rparr>)"
      "suffix q (mc_zap_in s)" "rc = Zap_ok \<longrightarrow> mc_zap_in s = ms @ q \<and> length ms = 7"
    using read_zap_frames_ok [of 7 s] by blast
  let ?bad = "rc \<noteq> Zap_ok \<or> m_data (ms ! 0) \<noteq> [] \<or> m_data (ms ! 1) \<noteq> ''1.0'' \<or> m_data (ms ! 2) \<noteq> ''1'' \<or>
    \<not> valid_status_code (m_data (ms ! 3))"
  show ?thesis
  proof (cases ?bad)
    case True
    let ?s = "s\<lparr>mc_zap_in := q, mc_events := v\<rparr>"
    have "\<exists>r v'. common_receive_zap_reply ok s = (Inr r, ?s\<lparr>mc_events := v'\<rparr>)"
    proof -
      have rc: "common_receive_zap_reply ok s = ret rc ?s" if "rc \<noteq> Zap_ok"
        using that assms f(1) by (simp add: common_receive_zap_reply_def receive_and_process_zap_reply_def)
      have "\<exists>p. common_receive_zap_reply ok s = zap_failure p ?s" if "rc = Zap_ok"
        using that True assms f(1) by (simp add: common_receive_zap_reply_def receive_and_process_zap_reply_def) metis
      with rc show ?thesis by (cases "rc = Zap_ok") (fastforce simp: zap_failure_def intro: exI [of _ v])+
    qed
    then obtain r v' where "common_receive_zap_reply ok s = (Inr r, ?s\<lparr>mc_events := v'\<rparr>)" by blast
    then show ?thesis using assms f(2) by (simp add: reply_post_def keeps_rest_def)
  next
    case False
    define s1 where "s1 = s\<lparr>mc_zap_in := q, mc_events := v, mc_status_code := m_data (ms ! 3),
      mc_user_id := m_data (ms ! 5),
      mc_zap_properties := emplace ''User-Id'' (m_data (ms ! 5)) (mc_zap_properties s)\<rparr>"
    obtain r a b c where p: "parse_metadata True (m_data (ms ! 6)) s1 =
       (Inr r, s1\<lparr>mc_routing_id := a, mc_zmtp_properties := b, mc_zap_properties := c\<rparr>)"
      by (rule parse_metadata_frame)
    have ap: "approves ms (m_data (ms ! 5))" if "m_data (ms ! 3) ! 0 = CHR ''2''"
      using False f(3) status_200 that by (simp add: approves_def)
    let ?s2 = "s1\<lparr>mc_routing_id := a, mc_zmtp_properties := b, mc_zap_properties := c\<rparr>"
    have run: "common_receive_zap_reply ok s =
        (if r \<noteq> None then zap_failure ZAP_INVALID_METADATA
         else thenX (common_handle_zap_status_code ok) (ret Zap_ok)) ?s2"
      using False assms f(1) p
      by (simp add: common_receive_zap_reply_def receive_and_process_zap_reply_def set_user_id_def s1_def)
    show ?thesis
    proof (cases r)
      case None
      obtain v' where "common_handle_zap_status_code ok ?s2 = (Inr (), ?s2\<lparr>mc_events := v', zs_state :=
          (if mc_status_code ?s2 ! 0 = CHR ''2'' then ok else if mc_status_code ?s2 ! 0 = CHR ''3'' then Error_sent
           else Sending_error)\<rparr>)"
        using handle_run [of ok ?s2] by blast
      then show ?thesis using None f ap False run by (auto simp: s1_def reply_post_def keeps_rest_def)
    next
      case (Some e)
      then show ?thesis using run f(2) assms by (auto simp: zap_failure_def s1_def reply_post_def keeps_rest_def)
    qed
  qed
qed

section \<open>A server lets in only whom the handler lets in\<close>

definition hello_data :: "string \<Rightarrow> string \<Rightarrow> string" where
  "hello_data u p = hello_prefix @ [byte (length u)] @ u @ [byte (length p)] @ p"

primrec said_by_handler :: "plain_event \<Rightarrow> msg list" where
  "said_by_handler (Handler_says fs) = fs"
| "said_by_handler (Peer_says m) = []"
| "said_by_handler (Server_says r) = []"
| "said_by_handler Told = []"
| "said_by_handler Pipe_gone = []"

definition handler_frames :: "plain_event list \<Rightarrow> msg list" where
  "handler_frames tr = concat (map said_by_handler tr)"

definition handler_greeting :: "zap_handler option \<Rightarrow> msg list" where
  "handler_greeting h =
     (case h of Some x \<Rightarrow> if zh_recv_routing_id x then [set_flags flag_routing_id msg_init] else [] | None \<Rightarrow> [])"

text \<open>The request that has been made for a user who said hello.\<close>

definition asked_about :: "plain_event list \<Rightarrow> plain_server \<Rightarrow> string \<Rightarrow> string \<Rightarrow> bool" where
  "asked_about tr s u p \<longleftrightarrow> (\<exists>f. Peer_says \<lparr>m_flags = f, m_data = hello_data u p\<rparr> \<in> set tr) \<and>
     mc_zap_out s = handler_greeting (mc_handler s) @ zap_request (mc_options s) (mc_peer_address s) ''PLAIN'' [u, p]"

definition approved :: "plain_event list \<Rightarrow> plain_server \<Rightarrow> bool" where
  "approved tr s \<longleftrightarrow> (\<exists>fs. sublist fs (handler_frames tr) \<and> approves fs (mc_user_id s))"

definition admitted :: "zap_state \<Rightarrow> bool" where
  "admitted st \<longleftrightarrow> st = Sending_welcome \<or> st = Waiting_for_initiate \<or> st = Sending_ready \<or> st = Server_ready"

lemma admitted_simps [simp]:
  "admitted Sending_welcome" "admitted Waiting_for_initiate" "admitted Sending_ready" "admitted Server_ready"
  "\<not> admitted Waiting_for_hello" "\<not> admitted Waiting_for_zap_reply" "\<not> admitted Sending_error" "\<not> admitted Error_sent"
  by (simp_all add: admitted_def)

definition server_inv :: "plain_server \<Rightarrow> plain_event list \<Rightarrow> plain_server \<Rightarrow> bool" where
  "server_inv s0 tr s \<longleftrightarrow> mc_options s = mc_options s0 \<and> mc_peer_address s = mc_peer_address s0 \<and>
     mc_handler s = mc_handler s0 \<and> suffix (mc_zap_in s) (handler_frames tr) \<and>
     (if zs_state s = Waiting_for_hello then \<not> mc_pipe s \<and> mc_zap_out s = [] \<and> handler_frames tr = []
      else (\<exists>u p. asked_about tr s u p)) \<and>
     (admitted (zs_state s) \<longrightarrow> approved tr s)"

lemma handler_frames_append [simp]:
  "handler_frames (tr @ [v]) = handler_frames tr @ said_by_handler v"
  by (simp add: handler_frames_def)

lemma parse_hello_ok:
  assumes "parse_hello b = Some (u, p)"
  shows "b = [byte (length u)] @ u @ [byte (length p)] @ p"
proof -
  obtain c r where b: "b = c # r" "of_char c \<le> length r" using assms
    by (auto simp: parse_hello_def Let_def split: list.splits if_splits)
  then obtain c' where r: "drop (of_char c) r = c' # p" "length p = of_char c'" "u = take (of_char c) r"
    using assms by (auto simp: parse_hello_def Let_def split: list.splits if_splits)
  have "r = u @ c' # p" using r(1,3) by (metis append_take_drop_id)
  moreover have "length u = of_char c" using b(2) r(3) by simp
  ultimately show ?thesis using b(1) r(2) by simp
qed

lemma write_zap_msgs:
  "mc_pipe s \<Longrightarrow> forX fs (\<lambda>m. errno_assert (write_zap_msg m)) s = (Inr (), s\<lparr>mc_zap_out := mc_zap_out s @ fs\<rparr>)"
proof (induction fs arbitrary: s)
  case (Cons m fs)
  have "errno_assert (write_zap_msg m) s = (Inr (), s\<lparr>mc_zap_out := mc_zap_out s @ [m]\<rparr>)"
    using Cons.prems by (simp add: errno_assert_def write_zap_msg_def)
  with Cons.IH [of "s\<lparr>mc_zap_out := mc_zap_out s @ [m]\<rparr>"] Cons.prems show ?case by simp
qed simp

text \<open>A HELLO is refused and nothing is asked, or the handler is asked about its user.\<close>

lemma process_hello_cases:
  assumes "process_hello m s = (Inr r, s')" "zs_state s = Waiting_for_hello" "\<not> mc_pipe s" "mc_zap_out s = []"
  shows "(\<exists>v. s' = s\<lparr>mc_events := v\<rparr>) \<or>
    (\<exists>u p q. m_data m = hello_data u p \<and>
       q = s\<lparr>mc_pipe := True, mc_zap_out := handler_greeting (mc_handler s) @
              zap_request (mc_options s) (mc_peer_address s) ''PLAIN'' [u, p], zs_state := Waiting_for_zap_reply\<rparr> \<and> reply_post Sending_welcome q s')"
proof -
  let ?d = "m_data m"
  let ?b = "drop (length hello_prefix) ?d"
  consider "length ?d \<le> 1 \<or> length ?d \<le> of_char (?d ! 0) \<or> length ?d < length hello_prefix \<or>
      take (length hello_prefix) ?d \<noteq> hello_prefix \<or> parse_hello ?b = None"
    | u p where "\<not> (length ?d \<le> 1 \<or> length ?d \<le> of_char (?d ! 0))" "length hello_prefix \<le> length ?d"
      "take (length hello_prefix) ?d = hello_prefix" "parse_hello ?b = Some (u, p)"
    by fastforce
  then show ?thesis
  proof cases
    case 1
    have "\<exists>x. process_hello m s = protocol_failure x s"
    proof (cases "length ?d \<le> 1 \<or> length ?d \<le> of_char (?d ! 0)")
      case True
      then have "process_hello m s = protocol_failure ZMTP_MALFORMED_COMMAND_UNSPECIFIED s"
        by (simp add: process_hello_def check_basic_command_structure_def)
      then show ?thesis by blast
    next
      case False
      then have "process_hello m s = protocol_failure
          (if length ?d < length hello_prefix \<or> take (length hello_prefix) ?d \<noteq> hello_prefix
           then ZMTP_UNEXPECTED_COMMAND else ZMTP_MALFORMED_COMMAND_HELLO) s"
        using 1 by (auto simp: process_hello_def check_basic_command_structure_def)
      then show ?thesis by blast
    qed
    then show ?thesis using assms(1) by auto
  next
    case (2 u p)
    have d: "?d = hello_data u p" using parse_hello_ok [OF 2(4)] 2(3)
      unfolding hello_data_def by (metis append_take_drop_id)
    define k where "k = (\<lambda>rc :: mech_errno option.
      if rc \<noteq> None then thenX (emit (Handshake_failed_no_detail M_EFAULT)) (ret rc)
      else thenX (send_zap_request ''PLAIN'' [u, p]) (thenX (set_state Waiting_for_zap_reply)
             (bindX (common_receive_zap_reply Sending_welcome) (\<lambda>r. ret (zap_errno r)))))"
    have run: "process_hello m s = bindX zap_connect k s"
      using 2 by (simp add: process_hello_def check_basic_command_structure_def k_def)
    show ?thesis
    proof (cases "mc_handler s")
      case None
      then have "process_hello m s = thenX (emit (Handshake_failed_no_detail M_EFAULT)) (ret (Some M_ECONNREFUSED)) s"
        using assms(3) unfolding run by (simp add: zap_connect_def k_def)
      then show ?thesis using assms(1) by (auto simp: emit_def)
    next
      case (Some h)
      let ?s = "s\<lparr>mc_pipe := True, mc_zap_out := handler_greeting (mc_handler s)\<rparr>"
      let ?q = "s\<lparr>mc_pipe := True, mc_zap_out := handler_greeting (mc_handler s) @
              zap_request (mc_options s) (mc_peer_address s) ''PLAIN'' [u, p], zs_state := Waiting_for_zap_reply\<rparr>"
      have "zap_connect s = (Inl AssertFailed, s) \<or> zap_connect s = (Inr None, ?s)"
        using assms(3,4) Some by (simp add: zap_connect_def handler_greeting_def)
      then have c: "zap_connect s = (Inr None, ?s)" using assms(1) run by auto
      have "process_hello m s = bindX (common_receive_zap_reply Sending_welcome) (\<lambda>r. ret (zap_errno r)) ?q"
        unfolding run using c by (simp add: k_def send_zap_request_def write_zap_msgs set_state_def)
      moreover obtain r' s'' where "common_receive_zap_reply Sending_welcome ?q = (Inr r', s'')" "reply_post Sending_welcome ?q s''"
        using reply_ok [of ?q Sending_welcome] by auto
      ultimately show ?thesis using assms(1) d by auto
    qed
  qed
qed

lemma process_initiate_cases:
  assumes "process_initiate m s = (Inr r, s')"
  shows "keeps_rest s s' \<and> mc_zap_in s' = mc_zap_in s \<and> mc_user_id s' = mc_user_id s \<and>
    zs_state s' \<in> {zs_state s, Sending_ready}"
proof (cases "length (m_data m) < length initiate_prefix \<or> take (length initiate_prefix) (m_data m) \<noteq> initiate_prefix")
  case True
  then have "process_initiate m s = protocol_failure ZMTP_UNEXPECTED_COMMAND s" by (simp add: process_initiate_def)
  with assms show ?thesis by (auto simp: keeps_rest_def)
next
  case False
  obtain r' a b c where p: "parse_metadata False (drop (length initiate_prefix) (m_data m)) s =
      (Inr r', s\<lparr>mc_routing_id := a, mc_zmtp_properties := b, mc_zap_properties := c\<rparr>)"
    by (rule parse_metadata_frame)
  with False have "process_initiate m s = (if r' = None then thenX (set_state Sending_ready) (ret None) else ret r')
      (s\<lparr>mc_routing_id := a, mc_zmtp_properties := b, mc_zap_properties := c\<rparr>)"
    by (simp add: process_initiate_def)
  with assms show ?thesis by (cases r') (auto simp: keeps_rest_def set_state_def)
qed

lemma server_next_cases:
  assumes "plain_server_next s = (Inr r, s')"
  shows "s' = s \<or> (\<exists>st. s' = s\<lparr>zs_state := st\<rparr> \<and> (zs_state s, st) \<in>
    {(Sending_welcome, Waiting_for_initiate), (Sending_ready, Server_ready), (Sending_error, Error_sent)})"
proof (cases "zs_state s")
  case Sending_ready
  then show ?thesis using assms
    by (cases "make_command_with_basic_properties ready_prefix (mc_options s)")
      (auto simp: plain_server_next_def set_state_def)
next
  case Sending_error
  then show ?thesis using assms by (cases "produce_error s") (auto simp: plain_server_next_def set_state_def)
qed (use assms in \<open>auto simp: plain_server_next_def set_state_def\<close>)

text \<open>The effect of a reply, of which there are two causes.\<close>

lemma server_inv_reply:
  assumes "reply_post Sending_welcome q s'" "suffix (mc_zap_in q) (handler_frames tr)" "asked_about tr q u p"
    "mc_options q = mc_options s0" "mc_peer_address q = mc_peer_address s0" "mc_handler q = mc_handler s0"
  shows "server_inv s0 tr s'"
proof -
  have k: "keeps_rest q s'" "suffix (mc_zap_in s') (mc_zap_in q)" using assms(1) by (simp_all add: reply_post_def)
  have "asked_about tr s' u p" using assms(3) k(1) by (simp add: asked_about_def keeps_rest_def)
  moreover have "suffix (mc_zap_in s') (handler_frames tr)" using k(2) assms(2) suffix_order.trans by blast
  moreover have "zs_state s' \<noteq> Waiting_for_hello" using assms(1) by (auto simp: reply_post_def)
  moreover have "approved tr s'" if st: "admitted (zs_state s')"
  proof -
    obtain fs where fs: "mc_zap_in q = fs @ mc_zap_in s'" "approves fs (mc_user_id s')"
      using assms(1) st by (auto simp: reply_post_def)
    then have "sublist fs (handler_frames tr)" using assms(2) by (metis sublist_def suffix_def append.assoc)
    with fs(2) show ?thesis by (auto simp: approved_def)
  qed
  ultimately show ?thesis using assms(4-6) k(1) by (auto simp: server_inv_def keeps_rest_def)
qed

lemma server_inv_trace:
  assumes "server_inv s0 tr s" "zs_state s \<noteq> Waiting_for_hello"
    "keeps_rest s s'" "suffix (mc_zap_in s') (handler_frames (tr @ [v]))" "mc_user_id s' = mc_user_id s"
    "zs_state s' \<noteq> Waiting_for_hello" "admitted (zs_state s') \<longrightarrow> admitted (zs_state s)"
  shows "server_inv s0 (tr @ [v]) s'"
proof -
  obtain u p where "asked_about tr s u p" using assms(1,2) by (auto simp: server_inv_def)
  then have "asked_about (tr @ [v]) s' u p" using assms(3) by (auto simp: asked_about_def keeps_rest_def)
  moreover have "approved (tr @ [v]) s'" if "approved tr s"
  proof -
    from that obtain fs where fs: "sublist fs (handler_frames tr)" "approves fs (mc_user_id s)"
      unfolding approved_def by blast
    have "sublist fs (handler_frames (tr @ [v]))"
      using sublist_order.order.trans [OF fs(1) sublist_append_rightI] by simp
    with fs(2) show ?thesis using assms(5) by (auto simp: approved_def)
  qed
  ultimately show ?thesis using assms(1,3,4,6,7) unfolding server_inv_def keeps_rest_def by (metis (no_types))
qed

lemma server_inv_idle:
  assumes "server_inv s0 tr s" "zs_state s = Waiting_for_hello" "keeps_rest s s'" "\<not> mc_pipe s'" "mc_zap_in s' = []"
    "zs_state s' = Waiting_for_hello" "said_by_handler v = []"
  shows "server_inv s0 (tr @ [v]) s'"
  using assms by (simp add: server_inv_def keeps_rest_def)

lemma suffix_frames:
  "server_inv s0 tr s \<Longrightarrow> said_by_handler v = [] \<Longrightarrow> suffix (mc_zap_in s) (handler_frames (tr @ [v]))"
  by (simp add: server_inv_def)

lemma before_hello:
  assumes "server_inv s0 tr s" "zs_state s = Waiting_for_hello"
  shows "\<not> mc_pipe s" "mc_zap_out s = []" "handler_frames tr = []" "mc_zap_in s = []"
    "mc_options s = mc_options s0" "mc_peer_address s = mc_peer_address s0" "mc_handler s = mc_handler s0"
  using assms by (auto simp: server_inv_def)

lemma server_invariant:
  assumes "plain_serves s0 tr s" "zs_state s0 = Waiting_for_hello" "\<not> mc_pipe s0" "mc_zap_out s0 = []" "mc_zap_in s0 = []"
  shows "server_inv s0 tr s"
  using assms(1)
proof (induction rule: plain_serves.induct)
  case serves_start
  then show ?case using assms(2-5) by (simp add: server_inv_def handler_frames_def)
next
  case (serves_hear tr s m r s')
  note inv = serves_hear.IH
  consider "zs_state s = Waiting_for_hello" | "zs_state s = Waiting_for_initiate"
    | "zs_state s \<noteq> Waiting_for_hello" "zs_state s \<noteq> Waiting_for_initiate" by blast
  then show ?case
  proof cases
    case 1
    note s = before_hello [OF inv 1]
    have "process_hello m s = (Inr r, s')" using serves_hear.hyps(2) 1 by (simp add: plain_server_process_def)
    from process_hello_cases [OF this 1 s(1,2)] show ?thesis
    proof (elim disjE exE conjE)
      fix v assume "s' = s\<lparr>mc_events := v\<rparr>"
      then show ?thesis using 1 s by (intro server_inv_idle [OF inv]) (simp_all add: keeps_rest_def)
    next
      fix u p q
      assume q: "m_data m = hello_data u p" "reply_post Sending_welcome q s'"
        "q = s\<lparr>mc_pipe := True, mc_zap_out := handler_greeting (mc_handler s) @
              zap_request (mc_options s) (mc_peer_address s) ''PLAIN'' [u, p], zs_state := Waiting_for_zap_reply\<rparr>"
      have "Peer_says \<lparr>m_flags = m_flags m, m_data = hello_data u p\<rparr> = Peer_says m" by (simp flip: q(1))
      then have "asked_about (tr @ [Peer_says m]) q u p" using q(3) by (auto simp: asked_about_def)
      then show ?thesis using q(3) s by (intro server_inv_reply [OF q(2)]) simp_all
    qed
  next
    case 2
    then have "process_initiate m s = (Inr r, s')" using serves_hear.hyps(2) by (simp add: plain_server_process_def)
    from process_initiate_cases [OF this] 2 suffix_frames [OF inv, of "Peer_says m"] show ?thesis
      by (intro server_inv_trace [OF inv]) auto
  next
    case 3
    then have "s' = s\<lparr>mc_events := mc_events s @ [Handshake_failed_protocol ZMTP_UNSPECIFIED]\<rparr>"
      using serves_hear.hyps(2) by (cases "zs_state s") (auto simp: plain_server_process_def)
    then show ?thesis using 3 suffix_frames [OF inv, of "Peer_says m"]
      by (intro server_inv_trace [OF inv]) (simp_all add: keeps_rest_def)
  qed
next
  case (serves_say tr s r s')
  note inv = serves_say.IH
  note suf = suffix_frames [OF inv, of "Server_says r"]
  show ?case
  proof (cases "zs_state s = Waiting_for_hello")
    case True
    then have "s' = s" using server_next_cases [OF serves_say.hyps(2)] by auto
    then show ?thesis using True before_hello [OF inv True]
      by (intro server_inv_idle [OF inv]) (simp_all add: keeps_rest_def)
  next
    case False
    have "keeps_rest s s'" "mc_zap_in s' = mc_zap_in s" "mc_user_id s' = mc_user_id s" "zs_state s' \<noteq> Waiting_for_hello"
      "admitted (zs_state s') \<longrightarrow> admitted (zs_state s)"
      using server_next_cases [OF serves_say.hyps(2)] False by (auto simp: keeps_rest_def)
    then show ?thesis using suf False by (intro server_inv_trace [OF inv]) simp_all
  qed
next
  case (serves_reply tr s fs)
  note inv = serves_reply.IH
  have "zs_state s \<noteq> Waiting_for_hello" using inv serves_reply.hyps(2) by (auto simp: server_inv_def)
  moreover have "suffix (mc_zap_in s @ fs) (handler_frames tr @ fs)" using inv by (auto simp: server_inv_def suffix_def)
  ultimately show ?case by (intro server_inv_trace [OF inv]) (simp_all add: keeps_rest_def)
next
  case (serves_told tr s r s')
  note inv = serves_told.IH
  have st: "zs_state s = Waiting_for_zap_reply"
    using serves_told.hyps(2) by (auto simp: plain_zap_msg_available_def common_zap_msg_available_def split: if_splits)
  then obtain r' where r: "common_receive_zap_reply Sending_welcome s = (Inr r', s')" "reply_post Sending_welcome s s'"
    using serves_told.hyps(2) reply_ok [OF st, of Sending_welcome]
    by (auto simp: plain_zap_msg_available_def common_zap_msg_available_def)
  obtain u p where "asked_about tr s u p" using inv st by (auto simp: server_inv_def)
  then have "asked_about (tr @ [Told]) s u p" by (auto simp: asked_about_def)
  with inv show ?case by (intro server_inv_reply [OF r(2)]) (auto simp: server_inv_def)
next
  case (serves_gone tr s)
  note inv = serves_gone.IH
  show ?case
  proof (cases "zs_state s = Waiting_for_hello")
    case True
    then show ?thesis by (intro server_inv_idle [OF inv]) (simp_all add: keeps_rest_def)
  next
    case False
    then show ?thesis by (intro server_inv_trace [OF inv]) (simp_all add: keeps_rest_def)
  qed
qed

text \<open>
  C12. Whatever a peer sends to a server with user names and passwords: when the handshake is over and the
  server takes messages, the peer has said hello with some user name and password, the handler has
  been asked about exactly these and about nothing else, and it has answered with a reply that
  agrees; the name in that reply is the one under which the server knows the peer.
\<close>

theorem plain_server_authenticates:
  assumes "plain_server_new opt addr h = Inr s0" "plain_serves s0 tr s" "common_status s = Ready"
  shows "\<exists>u p f fs. Peer_says \<lparr>m_flags = f, m_data = hello_data u p\<rparr> \<in> set tr \<and>
    mc_zap_out s = handler_greeting h @ zap_request opt addr ''PLAIN'' [u, p] \<and>
    sublist fs (handler_frames tr) \<and> approves fs (mc_user_id s)"
proof -
  have s0: "zs_state s0 = Waiting_for_hello" "\<not> mc_pipe s0" "mc_zap_out s0 = []" "mc_zap_in s0 = []"
    "mc_options s0 = opt" "mc_peer_address s0 = addr" "mc_handler s0 = h"
    using assms(1) by (auto simp: plain_server_new_def mech_new_def mech.defs plain_server.defs split: if_splits)
  have "zs_state s = Server_ready" using assms(3) by (auto simp: common_status_def split: zap_state.splits)
  moreover have inv: "server_inv s0 tr s" using server_invariant [OF assms(2) s0(1-4)] .
  ultimately obtain u p fs where a: "asked_about tr s u p" and f: "sublist fs (handler_frames tr)" "approves fs (mc_user_id s)"
    by (auto simp: server_inv_def approved_def)
  have "mc_options s = opt" "mc_peer_address s = addr" "mc_handler s = h"
    using inv s0(5-7) by (simp_all add: server_inv_def)
  then show ?thesis using a f unfolding asked_about_def by blast
qed

section \<open>A handshake from beginning to end\<close>

definition zap_reply :: "string \<Rightarrow> string \<Rightarrow> msg list" where
  "zap_reply code user = map (zap_frame True) [[], ''1.0'', ''1'', code, [], user] @ [zap_frame False []]"

lemma zap_frame_flag [simp]: "has_flag (zap_frame b d) flag_more = b" "m_data (zap_frame b d) = d"
  by (simp_all add: zap_frame_def has_flag_def flag_more_def)

lemma read_frames_ready:
  "mc_pipe s \<Longrightarrow> mc_zap_in s = m # q \<Longrightarrow> has_flag m flag_more = (n \<noteq> 0) \<Longrightarrow>
   read_zap_frames n (s\<lparr>mc_zap_in := q\<rparr>) = (Inr (rc, ms), s') \<Longrightarrow>
   read_zap_frames (Suc n) s = (Inr (rc, m # ms), s')"
  by (simp add: read_zap_msg_def)

lemma read_zap_reply:
  assumes "mc_pipe s" "mc_zap_in s = zap_reply code user"
  shows "read_zap_frames 7 s = (Inr (Zap_ok, zap_reply code user), s\<lparr>mc_zap_in := []\<rparr>)"
  using assms unfolding zap_reply_def
  by (simp add: eval_nat_numeral read_frames_ready del: read_zap_frames.simps(2))

lemma parse_hello_data:
  "length u \<le> 255 \<Longrightarrow> length p \<le> 255 \<Longrightarrow> parse_hello ([byte (length u)] @ u @ [byte (length p)] @ p) = Some (u, p)"
  by (simp add: parse_hello_def of_char_byte_id Let_def)

definition zap_handler_ok :: "zap_handler \<Rightarrow> bool" where
  "zap_handler_ok h \<longleftrightarrow> zh_type h = ZMQ_REP \<or> zh_type h = ZMQ_ROUTER \<or> zh_type h = ZMQ_SERVER"

lemma server_asks:
  assumes "zs_state s = Waiting_for_hello" "\<not> mc_pipe s" "mc_zap_out s = []" "mc_zap_in s = []"
    "mc_handler s = Some h" "zap_handler_ok h" "length u \<le> 255" "length p \<le> 255"
  shows "plain_server_process \<lparr>m_flags = f, m_data = hello_data u p\<rparr> s =
    (Inr None, s\<lparr>mc_pipe := True, mc_zap_out := handler_greeting (mc_handler s) @
       zap_request (mc_options s) (mc_peer_address s) ''PLAIN'' [u, p], zs_state := Waiting_for_zap_reply\<rparr>)"
proof -
  let ?q = "s\<lparr>mc_pipe := True, mc_zap_out := handler_greeting (mc_handler s) @
       zap_request (mc_options s) (mc_peer_address s) ''PLAIN'' [u, p], zs_state := Waiting_for_zap_reply\<rparr>"
  have c: "zap_connect s = (Inr None, s\<lparr>mc_pipe := True, mc_zap_out := handler_greeting (mc_handler s)\<rparr>)"
    using assms by (simp add: zap_connect_def handler_greeting_def zap_handler_ok_def)
  have "read_zap_msg ?q = (Inr (Inl M_EAGAIN), ?q)" using assms(4) by (simp add: read_zap_msg_def)
  then have "read_zap_frames 7 ?q = (Inr (Zap_again, []), ?q)" by (simp add: eval_nat_numeral)
  then have "common_receive_zap_reply Sending_welcome ?q = (Inr Zap_again, ?q)"
    by (simp add: common_receive_zap_reply_def receive_and_process_zap_reply_def)
  moreover have "check_basic_command_structure \<lparr>m_flags = f, m_data = hello_data u p\<rparr> s = (Inr None, s)"
    by (simp add: check_basic_command_structure_def hello_data_def hello_prefix_def)
  ultimately show ?thesis using assms(1) c parse_hello_data [OF assms(7,8)]
    by (simp add: plain_server_process_def process_hello_def hello_data_def send_zap_request_def write_zap_msgs
        set_state_def zap_errno_def)
qed

definition after_reply :: "string \<Rightarrow> zap_state" where
  "after_reply code = (if code ! 0 = CHR ''2'' then Sending_welcome else if code ! 0 = CHR ''3'' then Error_sent else Sending_error)"

lemma server_told:
  assumes "zs_state s = Waiting_for_zap_reply" "mc_pipe s" "mc_zap_in s = zap_reply code user" "valid_status_code code"
  shows "\<exists>v. plain_zap_msg_available s = (Inr None, s\<lparr>mc_zap_in := [], mc_status_code := code, mc_user_id := user,
     mc_zap_properties := emplace ''User-Id'' user (mc_zap_properties s), mc_events := v, zs_state := after_reply code\<rparr>)"
proof -
  let ?s = "s\<lparr>mc_zap_in := [], mc_status_code := code, mc_user_id := user,
     mc_zap_properties := emplace ''User-Id'' user (mc_zap_properties s)\<rparr>"
  have "receive_and_process_zap_reply (common_handle_zap_status_code Sending_welcome) s =
      thenX (common_handle_zap_status_code Sending_welcome) (ret Zap_ok) ?s"
    using assms(4) unfolding receive_and_process_zap_reply_def
    by (simp add: read_zap_reply [OF assms(2,3)] zap_reply_def set_user_id_def parse_metadata.simps [of _ "[]"] metadata_end_def)
  moreover have sc: "mc_status_code ?s = code" by simp
  obtain v where "common_handle_zap_status_code Sending_welcome ?s = (Inr (), ?s\<lparr>mc_events := v, zs_state := after_reply code\<rparr>)"
    using handle_run [of Sending_welcome ?s] unfolding sc after_reply_def by blast
  ultimately have "plain_zap_msg_available s = (Inr None, ?s\<lparr>mc_events := v, zs_state := after_reply code\<rparr>)"
    using assms(1)
    by (simp add: plain_zap_msg_available_def common_zap_msg_available_def common_receive_zap_reply_def zap_errno_def)
  then show ?thesis by auto
qed

definition learn :: "zmtp_options \<Rightarrow> 'a mech_scheme \<Rightarrow> 'a mech_scheme" where
  "learn peer s = s\<lparr>mc_routing_id := (if zo_recv_routing_id (mc_options s) \<and> has_identity (zo_type peer)
       then zo_routing_id peer else mc_routing_id s),
     mc_zmtp_properties := fold (\<lambda>(k, v). emplace k v) (basic_properties peer) (mc_zmtp_properties s)\<rparr>"

lemma parse_learn:
  assumes "options_ok peer" "compatible (mc_options s) peer"
  shows "parse_metadata False (concat (map property_bytes (basic_properties peer))) s = (Inr None, learn peer s)"
  using assms by (simp add: parse_basic_properties use_basic_properties learn_def)

lemma client_hello:
  assumes "pc_state c = Sending_hello" "length (zo_plain_username (mc_options c)) \<le> 255"
    "length (zo_plain_password (mc_options c)) \<le> 255"
  shows "plain_client_next c =
    (Inr (Inr \<lparr>m_flags = 0, m_data = hello_data (zo_plain_username (mc_options c)) (zo_plain_password (mc_options c))\<rparr>),
     c\<lparr>pc_state := Waiting_for_welcome\<rparr>)"
  using assms
  by (simp add: plain_client_next_def produce_hello_def hello_data_def UCHAR_MAX_def set_client_state_def Let_def)

definition initiate_msg :: "zmtp_options \<Rightarrow> msg" where
  "initiate_msg opt = \<lparr>m_flags = 0, m_data = initiate_prefix @ concat (map property_bytes (basic_properties opt))\<rparr>"

definition ready_msg :: "zmtp_options \<Rightarrow> msg" where
  "ready_msg opt = \<lparr>m_flags = 0, m_data = ready_prefix @ concat (map property_bytes (basic_properties opt))\<rparr>"

text \<open>The four commands that follow a reply with which the handler agrees.\<close>

lemma welcome_taken:
  assumes "pc_state c = Waiting_for_welcome"
  shows "plain_client_process produce_welcome c = (Inr None, c\<lparr>pc_state := Sending_initiate\<rparr>)"
  using assms by (simp add: plain_client_process_def produce_welcome_def process_welcome_def set_client_state_def Let_def)

lemma initiate_sent:
  assumes "pc_state c = Sending_initiate" "options_ok (mc_options c)"
  shows "plain_client_next c = (Inr (Inr (initiate_msg (mc_options c))), c\<lparr>pc_state := Waiting_for_ready\<rparr>)"
  using assms by (simp add: plain_client_next_def make_command_ok set_client_state_def initiate_msg_def)

lemma initiate_taken:
  assumes "zs_state s = Waiting_for_initiate" "options_ok peer" "compatible (mc_options s) peer"
  shows "plain_server_process (initiate_msg peer) s = (Inr None, (learn peer s)\<lparr>zs_state := Sending_ready\<rparr>)"
  using assms by (simp add: plain_server_process_def process_initiate_def initiate_msg_def parse_learn set_state_def)

lemma ready_sent:
  assumes "zs_state s = Sending_ready" "options_ok (mc_options s)"
  shows "plain_server_next s = (Inr (Inr (ready_msg (mc_options s))), s\<lparr>zs_state := Server_ready\<rparr>)"
  using assms by (simp add: plain_server_next_def make_command_ok set_state_def ready_msg_def)

lemma ready_command_taken:
  assumes "pc_state c = Waiting_for_ready" "options_ok peer" "compatible (mc_options c) peer"
  shows "plain_client_process (ready_msg peer) c = (Inr None, (learn peer c)\<lparr>pc_state := Client_ready\<rparr>)"
proof -
  have "plain_client_process (ready_msg peer) c = process_ready (m_data (ready_msg peer)) c"
    by (simp add: plain_client_process_def ready_msg_def prefixes Let_def)
  then show ?thesis using assms by (simp add: process_ready_def ready_msg_def parse_learn set_client_state_def)
qed

text \<open>The command that follows a reply with which it does not agree.\<close>

lemma error_sent:
  assumes "zs_state s = Sending_error" "length (mc_status_code s) = 3"
  shows "plain_server_next s =
    (Inr (Inr \<lparr>m_flags = 0, m_data = error_prefix @ [byte 3] @ mc_status_code s\<rparr>), s\<lparr>zs_state := Error_sent\<rparr>)"
  using assms by (simp add: plain_server_next_def produce_error_def set_state_def)

lemma error_taken:
  assumes "pc_state c = Waiting_for_welcome" "length code = 3"
  shows "\<exists>c'. plain_client_process \<lparr>m_flags = 0, m_data = error_prefix @ [byte 3] @ code\<rparr> c = (Inr None, c') \<and>
    plain_client_status c' = Mech_error"
proof -
  let ?d = "error_prefix @ [byte 3] @ code"
  have "plain_client_process \<lparr>m_flags = 0, m_data = ?d\<rparr> c = process_error ?d c"
    by (simp add: plain_client_process_def prefixes Let_def)
  moreover have "process_error_reason ?d c = thenX (handle_error_reason code) (ret None) c"
    using assms(2) by (simp add: process_error_reason_def error_prefix_def error_command_name_def of_char_byte_id)
  moreover have "\<exists>v. handle_error_reason code c = (Inr (), c\<lparr>mc_events := v\<rparr>)"
  proof (cases "handle_error_reason code = (ret () :: (plain_client, unit) cxx)")
    case True
    then show ?thesis by (intro exI [of _ "mc_events c"]) simp
  next
    case False
    then show ?thesis by (auto simp: handle_error_reason_def emit_def split: if_splits)
  qed
  ultimately show ?thesis using assms(1)
    by (auto simp: process_error_def set_client_state_def plain_client_status_def)
qed

lemma plain_server_new_simps:
  assumes "plain_server_new opt addr h = Inr s"
  shows "zs_state s = Waiting_for_hello" "\<not> mc_pipe s" "mc_zap_out s = []" "mc_zap_in s = []"
    "mc_options s = opt" "mc_peer_address s = addr" "mc_handler s = h" "mc_zmtp_properties s = Map.empty"
  using assms by (auto simp: plain_server_new_def mech_new_def mech.defs plain_server.defs split: if_splits)

lemma plain_client_new_simps:
  "pc_state (plain_client_new opt) = Sending_hello" "mc_options (plain_client_new opt) = opt"
  "mc_zmtp_properties (plain_client_new opt) = Map.empty"
  by (simp_all add: plain_client_new_def mech_new_def mech.defs plain_client.defs)

lemma learn_simps [simp]:
  "mc_options (learn peer s) = mc_options s" "mc_user_id (learn peer s) = mc_user_id s"
  "mc_zmtp_properties s = Map.empty \<Longrightarrow> mc_zmtp_properties (learn peer s) = properties_of peer"
  by (simp_all add: learn_def properties_of_def)

text \<open>The server after the request, and after a reply.\<close>

definition asking :: "string \<Rightarrow> string \<Rightarrow> plain_server \<Rightarrow> plain_server" where
  "asking u p s = s\<lparr>mc_pipe := True, mc_zap_out := handler_greeting (mc_handler s) @
     zap_request (mc_options s) (mc_peer_address s) ''PLAIN'' [u, p], zs_state := Waiting_for_zap_reply\<rparr>"

lemma asking_simps [simp]:
  "mc_options (asking u p s) = mc_options s" "mc_zmtp_properties (asking u p s) = mc_zmtp_properties s"
  "mc_pipe (asking u p s)" "zs_state (asking u p s) = Waiting_for_zap_reply" "mc_zap_in (asking u p s) = mc_zap_in s"
  "mc_zap_out (asking u p s) = handler_greeting (mc_handler s) @ zap_request (mc_options s) (mc_peer_address s) ''PLAIN'' [u, p]"
  by (simp_all add: asking_def)

lemma replied:
  assumes "valid_status_code code" "mc_zap_in s = []"
  obtains s' where "plain_zap_msg_available ((asking u p s)\<lparr>mc_zap_in := zap_reply code user\<rparr>) = (Inr None, s')"
    "mc_options s' = mc_options s" "mc_zmtp_properties s' = mc_zmtp_properties s" "mc_status_code s' = code"
    "mc_user_id s' = user" "zs_state s' = after_reply code"
  using server_told [of "(asking u p s)\<lparr>mc_zap_in := zap_reply code user\<rparr>" code user] assms that by auto

lemma admitted_rest:
  assumes "zs_state s = Sending_welcome" "options_ok (mc_options s)" "options_ok oc" "compatible oc (mc_options s)"
    "compatible (mc_options s) oc"
  defines "s4 \<equiv> (learn oc (s\<lparr>zs_state := Waiting_for_initiate\<rparr>))\<lparr>zs_state := Sending_ready\<rparr>"
  shows "plain_server_next s = (Inr (Inr produce_welcome), s\<lparr>zs_state := Waiting_for_initiate\<rparr>)"
    "plain_server_process (initiate_msg oc) (s\<lparr>zs_state := Waiting_for_initiate\<rparr>) = (Inr None, s4)"
    "plain_server_next s4 = (Inr (Inr (ready_msg (mc_options s))), s4\<lparr>zs_state := Server_ready\<rparr>)"
proof -
  show "plain_server_next s = (Inr (Inr produce_welcome), s\<lparr>zs_state := Waiting_for_initiate\<rparr>)"
    using assms(1) by (simp add: plain_server_next_def set_state_def)
  show "plain_server_process (initiate_msg oc) (s\<lparr>zs_state := Waiting_for_initiate\<rparr>) = (Inr None, s4)"
    using assms(3,5) unfolding s4_def by (intro initiate_taken) simp_all
  show "plain_server_next s4 = (Inr (Inr (ready_msg (mc_options s))), s4\<lparr>zs_state := Server_ready\<rparr>)"
    using ready_sent [of s4] assms(2) by (simp add: s4_def)
qed

text \<open>The exchange after the reply, for both sides.\<close>

lemma plain_success:
  assumes "zs_state s2 = Sending_welcome" "mc_options s2 = os" "mc_zmtp_properties s2 = Map.empty"
    "options_ok os" "options_ok oc" "compatible oc os" "compatible os oc"
  defines "c1 \<equiv> (plain_client_new oc)\<lparr>pc_state := Waiting_for_welcome\<rparr>"
  shows "\<exists>w i r s3 s4 s5 c2 c3 c4.
       plain_server_next s2 = (Inr (Inr w), s3) \<and> plain_client_process w c1 = (Inr None, c2) \<and>
       plain_client_next c2 = (Inr (Inr i), c3) \<and> plain_server_process i s3 = (Inr None, s4) \<and>
       plain_server_next s4 = (Inr (Inr r), s5) \<and> plain_client_process r c3 = (Inr None, c4) \<and>
       common_status s5 = Ready \<and> plain_client_status c4 = Ready \<and> mc_user_id s5 = mc_user_id s2 \<and>
       mc_zmtp_properties s5 = properties_of oc \<and> mc_zmtp_properties c4 = properties_of os"
proof -
  note r = admitted_rest [OF assms(1), unfolded assms(2), OF assms(4-7)]
  let ?c0 = "plain_client_new oc"
  let ?c2 = "?c0\<lparr>pc_state := Sending_initiate\<rparr>" and ?c3 = "?c0\<lparr>pc_state := Waiting_for_ready\<rparr>"
  have "plain_client_process produce_welcome c1 = (Inr None, ?c2)" using welcome_taken [of c1] by (simp add: c1_def)
  moreover have "plain_client_next ?c2 = (Inr (Inr (initiate_msg oc)), ?c3)"
    using initiate_sent [of ?c2] assms(5) by (simp add: plain_client_new_simps)
  moreover have "plain_client_process (ready_msg os) ?c3 = (Inr None, (learn os ?c3)\<lparr>pc_state := Client_ready\<rparr>)"
    using assms(4,6) by (intro ready_command_taken) (simp_all add: plain_client_new_simps)
  ultimately show ?thesis using r assms(3)
    by (intro exI conjI) (assumption | simp add: common_status_def plain_client_status_def plain_client_new_simps)+
qed

lemma plain_refusal:
  assumes "zs_state s2 = Sending_error" "length (mc_status_code s2) = 3" "pc_state c1 = Waiting_for_welcome"
  shows "\<exists>e s3 c2. plain_server_next s2 = (Inr (Inr e), s3) \<and> plain_client_process e c1 = (Inr None, c2) \<and>
       common_status s3 = Mech_error \<and> plain_client_status c2 = Mech_error"
  using error_sent [OF assms(1,2)] error_taken [OF assms(3,2)] by (auto simp: common_status_def)


definition plain_options :: "int \<Rightarrow> zmtp_options" where
  "plain_options t = (socket_options t [] False)
     \<lparr>zo_mechanism := ZMQ_PLAIN, zo_plain_username := ''admin'', zo_plain_password := ''secret'', zo_zap_domain := ''d''\<rparr>"

lemma plain_options_ok:
  "options_ok (plain_options ZMQ_REQ)" "options_ok (plain_options ZMQ_REP)"
  "compatible (plain_options ZMQ_REQ) (plain_options ZMQ_REP)" "compatible (plain_options ZMQ_REP) (plain_options ZMQ_REQ)"
  by (simp_all add: plain_options_def options_ok_def socket_options_def socket_types app_property_ok_def compatible_def
      check_socket_type_def type_name_def socket_type_names_def)

definition example_server :: plain_server where
  "example_server = mech.extend (mech_new (plain_options ZMQ_REP) ''host'' (Some \<lparr>zh_type = ZMQ_REP, zh_recv_routing_id = False\<rparr>))
     (plain_server.fields Waiting_for_hello)"

lemma example_server_new:
  "plain_server_new (plain_options ZMQ_REP) ''host'' (Some \<lparr>zh_type = ZMQ_REP, zh_recv_routing_id = False\<rparr>) = Inr example_server"
  by (simp add: plain_server_new_def example_server_def plain_options_def socket_options_def)


text \<open>A run in which the server lets the client in.\<close>

theorem plain_server_authenticates_witness:
  "\<exists>s u p f fs. common_status s = Ready \<and>
    Peer_says \<lparr>m_flags = f, m_data = hello_data u p\<rparr> \<in> set [Peer_says \<lparr>m_flags = 0, m_data = hello_data ''admin'' ''secret''\<rparr>,
      Handler_says (zap_reply ''200'' ''admin''), Told, Server_says (Inr produce_welcome),
      Peer_says (initiate_msg (plain_options ZMQ_REQ)), Server_says (Inr (ready_msg (plain_options ZMQ_REP)))] \<and>
    mc_zap_out s = zap_request (plain_options ZMQ_REP) ''host'' ''PLAIN'' [u, p] \<and>
    sublist fs (zap_reply ''200'' ''admin'') \<and> approves fs (mc_user_id s)"
proof -
  note s0 = plain_server_new_simps [OF example_server_new]
  have h: "zap_handler_ok \<lparr>zh_type = ZMQ_REP, zh_recv_routing_id = False\<rparr>" by (simp add: zap_handler_ok_def)
  let ?a = "asking ''admin'' ''secret'' example_server"
  have 1: "plain_server_process \<lparr>m_flags = 0, m_data = hello_data ''admin'' ''secret''\<rparr> example_server = (Inr None, ?a)"
    using server_asks [OF s0(1-4,7) h] by (simp add: asking_def)
  have "valid_status_code ''200''" by (simp add: valid_status_code_def)
  then obtain s2 where s2: "plain_zap_msg_available (?a\<lparr>mc_zap_in := zap_reply ''200'' ''admin''\<rparr>) = (Inr None, s2)"
    "mc_options s2 = mc_options example_server" "zs_state s2 = after_reply ''200''"
    using s0(4) by (rule replied)
  have 2: "plain_zap_msg_available (?a\<lparr>mc_zap_in := mc_zap_in ?a @ zap_reply ''200'' ''admin''\<rparr>) = (Inr None, s2)"
    "mc_options s2 = plain_options ZMQ_REP" "zs_state s2 = Sending_welcome"
    using s2 s0(4,5) by (simp_all add: after_reply_def)
  have 3: "options_ok (mc_options s2)" "compatible (plain_options ZMQ_REQ) (mc_options s2)"
    "compatible (mc_options s2) (plain_options ZMQ_REQ)" using plain_options_ok by (simp_all add: 2(2))
  note r = admitted_rest [OF 2(3) 3(1) plain_options_ok(1) 3(2,3)]
  have "mc_pipe ?a" by simp
  note run = serves_say [OF serves_hear [OF serves_say [OF serves_told [OF serves_reply [OF serves_hear [OF serves_start 1]
    this] 2(1)] r(1)] r(2)] r(3)]
  let ?tr = "[Peer_says \<lparr>m_flags = 0, m_data = hello_data ''admin'' ''secret''\<rparr>,
      Handler_says (zap_reply ''200'' ''admin''), Told, Server_says (Inr produce_welcome),
      Peer_says (initiate_msg (plain_options ZMQ_REQ)), Server_says (Inr (ready_msg (plain_options ZMQ_REP)))]"
  define s5 where "s5 = (learn (plain_options ZMQ_REQ) (s2\<lparr>zs_state := Waiting_for_initiate\<rparr>))
    \<lparr>zs_state := Sending_ready, zs_state := Server_ready\<rparr>"
  have s5: "plain_serves example_server ?tr s5" "common_status s5 = Ready"
    using run unfolding s5_def by (simp_all only: append_Nil append_Cons 2(2)) (simp add: common_status_def)
  from plain_server_authenticates [OF example_server_new s5] obtain u p f fs where
    a: "Peer_says \<lparr>m_flags = f, m_data = hello_data u p\<rparr> \<in> set ?tr" and
    b: "mc_zap_out s5 = handler_greeting (Some \<lparr>zh_type = ZMQ_REP, zh_recv_routing_id = False\<rparr>) @
      zap_request (plain_options ZMQ_REP) ''host'' ''PLAIN'' [u, p]" and
    c: "sublist fs (handler_frames ?tr)" "approves fs (mc_user_id s5)" by blast
  have "handler_frames ?tr = zap_reply ''200'' ''admin''" by (simp add: handler_frames_def)
  moreover have "handler_greeting (Some \<lparr>zh_type = ZMQ_REP, zh_recv_routing_id = False\<rparr>) = []"
    by (simp add: handler_greeting_def)
  ultimately show ?thesis using s5(2) a b c by (metis append_Nil)
qed

end
