(* ===== verification/Spec2Isabelle.thy ===== *)
theory Spec2Isabelle
  imports ServerApp Inputs Outputs ZmqExchange ZmqLink Zmtp ZmqPlain
begin

text \<open>
  \<^bold>\<open>Arbutus: the engine, its server and its client.\<close>

  Arbutus is a program for mixing visuals live. The engine (\<open>src/src/Library/Engine\<close>) keeps a \<^emph>\<open>set\<close>: the
  files to play (visuals), the \<^emph>\<open>scenes\<close> that place them in slots given by a layer and a column
  (visual instances), and up to six \<^emph>\<open>layers\<close> that each play one instance and are mixed into a
  picture. A metronome thread delivers beats. The server (\<open>src/src/Apps/Server\<close>) owns the engine and
  takes JSON requests over TCP (through \<open>src/External/ofxNetwork\<close>) and polls a local ZeroMQ socket;
  the client (\<open>src/src/Apps/Client\<close>) sends requests on a ZeroMQ socket. Of \<open>src/External/libzmq\<close> the
  development follows the path such a request takes: the queue, the lock-free pipe over it, the
  two ends of a pipe, fair queueing and load balancing, the REQ and REP sockets, and the calls
  \<open>zmq_send\<close> and \<open>zmq_recv\<close>.

  \<^bold>\<open>How code becomes definitions.\<close> Theory \<open>Prelude\<close> has the vocabulary. A class is a record, an
  enumeration a datatype, an integer a word of its width, a \<open>float\<close> a real number. A member
  function with effects is a function from a state to a result and a state (type \<open>cxx\<close>), a
  result being a value or an exception. The exceptions are told apart by what is thrown, because
  the handlers of the server catch only some of them. Undefined behaviour (\<open>UB\<close>: null and
  dangling pointers, indices out of range, reads of uninitialised members, division by zero), a
  failed assertion of libzmq (\<open>AssertFailed\<close>) and a call that does not come back (\<open>NoReturn\<close>) are
  results too: no definition invents what happens after them. Objects that several
  places point to (visuals, instances, scenes) live in heaps of the record \<open>Store\<close>; a freed
  address is not in its heap, so a pointer left behind is dangling. The singletons of the engine
  are fields of the store.

  \<^bold>\<open>Code outside the repository\<close> is a parameter. Theory \<open>External\<close> has one record of functions for
  each library: \<open>of_api\<close> (openFrameworks, files, devices), \<open>json_api\<close> (the JSON library, a
  submodule) and \<open>player_api\<close> (the video player); \<open>TcpManager\<close> has \<open>os_api\<close>, the system calls
  on sockets. What is documented about them is a predicate (\<open>clamp_doc\<close>, \<open>blend_doc\<close>,
  \<open>replace_doc\<close>, the \<open>json\<close> and \<open>player\<close> ones, \<open>kernel_doc\<close>), and a theorem that relies on it
  has it as a hypothesis. \<open>External_Instances\<close>, and the kernel with one connection at the end of
  \<open>TcpManager\<close>, show that each of them can hold and are what the witnesses compute with.

  \<^bold>\<open>The engine.\<close>

  \<^item> \<open>Utils\<close> (\<open>Misc/Utils\<close>), \<open>Counters\<close> (the contract of a cyclic counter).
  \<^item> \<open>Properties\<close>, \<open>EngineProperties\<close>, \<open>SizeProperties\<close>, \<open>LayerProperties\<close>,
    \<open>VisualInstancesProperties\<close>: the classes under \<open>Properties/\<close>, with a well-formedness
    invariant (every value within its limits) that each setter keeps, the effect of the setters
    on every branch, and the JSON states.
  \<^item> \<open>Controllers\<close>: \<open>Inputs/Controller\<close>, \<open>Main/Action\<close>.
  \<^item> \<open>Store\<close>: the records of all classes and the store.
  \<^item> \<open>Visuals\<close>, \<open>InstanceOps\<close>, \<open>InstanceTable\<close>: \<open>Visuals/*\<close>; an instance with its player, and
    the list of a scene as a table with one instance per slot (adding, replacing, removing).
  \<^item> \<open>LayerOps\<close>, \<open>LayersList\<close>: \<open>Main/Layer\<close>; a layer with its state and the list with the
    selected layer, whose number is proved to stay inside the list in every run in which no layer is
    activated while there is none.
  \<^item> \<open>Scenes\<close>, \<open>SetOps\<close>: \<open>Main/Scene\<close>, \<open>Main/Set\<close>; restoring a scene from its state, navigation
    that keeps the current scene alive.
  \<^item> \<open>Metronome\<close>, \<open>FileHandling\<close>: \<open>Misc/Metronome\<close>, \<open>FileHandling/*\<close>; beats, and saving and
    loading a set, with the conditions under which saving refuses and with writes that fail.
  \<^item> \<open>EngineOps\<close>, \<open>EnginePlay\<close>: \<open>Engine.mm\<close>; sets, resolution, triggering on the beat,
    rendering, tempo and keyboard.
  \<^item> \<open>Inputs\<close>: \<open>Inputs/Midi\<close>, \<open>Inputs/Osc\<close> and the change of their ports, with the global pointers
    to the two objects; which sequences of calls leave a pointer to a deleted object, and that the
    texts of actions fit their arrays.
  \<^item> \<open>Outputs\<close>: \<open>Outputs/SyphonOutputManager\<close>, \<open>Main/Screen\<close>, \<open>FileManager\<close>; what a frame publishes on
    which channel, and that the cleanup thread keeps the tables of the scenes.

  \<^bold>\<open>TCP.\<close> \<open>TcpManager\<close>, \<open>TcpClient\<close>, \<open>TcpServer\<close> model the three classes of \<open>ofxNetwork\<close>.
  \<open>SendAll\<close> is proved to come back with all bytes sent or an error; \<open>receive\<close> to refine the
  splitting of a byte stream at the delimiter; the table of clients, changed by the
  program and by the accepting thread, whose steps between two acquisitions of the lock are interleaved
  with the calls of the program, to keep its numbers distinct and bounded.

  \<^bold>\<open>ZeroMQ.\<close>

  \<^item> \<open>Yqueue\<close>, \<open>Ypipe\<close> (\<open>yqueue.hpp\<close>, \<open>ypipe.hpp\<close>): the queue in chunks implements a list and the
    pipe a channel of flushed and unflushed items, for any interleaving of the operations of its
    two threads. An operation is a step: the threads share the pointer \<open>c\<close> and the spare chunk,
    and both are reached through atomic exchanges. Nothing is lost or doubled, what was flushed is delivered, and
    no wake-up is missed.
  \<^item> \<open>ZmqPipe\<close> (\<open>pipe.cpp\<close>), \<open>PipeClose\<close>: one end with its water marks and commands; two ends with
    the commands between them as a step relation, in which no interleaving of messages and
    shutdown from either side fails an assertion or touches an end that is gone.
  \<^item> \<open>ZmqFq\<close> (\<open>fq.cpp\<close>, \<open>lb.cpp\<close>), \<open>ZmqFair\<close>: well-formedness of the fair queue in all runs, and
    that an active pipe with a message is served within one round.
  \<^item> \<open>ZmqReq\<close> (\<open>dealer.cpp\<close>, \<open>req.cpp\<close>), \<open>ZmqRep\<close> (\<open>router.cpp\<close>, \<open>rep.cpp\<close>), \<open>ZmqWire\<close> (\<open>wire.hpp\<close>).
  \<^item> \<open>ZmqSocket\<close> (\<open>socket_base.cpp\<close>, \<open>zmq.cpp\<close>): sending and receiving with the commands in the
    mailbox. The commands that arrive are arguments, so a theorem about all of them is a theorem
    about all peers.
  \<^item> \<open>ZmqExchange\<close>: both sockets and the pipe between them, one request and its reply.
  \<^item> \<open>ZmqEncoder\<close>, \<open>ZmqDecoder\<close> (\<open>encoder.hpp\<close>, \<open>decoder.hpp\<close> and the classes of the protocol versions):
    messages to bytes and back, with buffers of any size; messages that are made in place in the
    buffer never outnumber the control blocks the allocator has for them.
  \<^item> \<open>ZmqStream\<close> (\<open>stream_engine_base.cpp\<close>), \<open>ZmqLink\<close>: the engine after the handshake, and two of them
    on one connection, which deliver what is sent however the bytes are split.
  \<^item> \<open>Zmtp\<close> (\<open>zmtp_engine.cpp\<close>): the greeting with which two engines find out the version of the
    protocol, as runs of events at two engines and on the bytes between them, in which an engine that
    refuses its peer is deleted with what it has not written; the functions that set up
    encoder, decoder and mechanism for each version; and the heartbeat commands.
  \<^item> \<open>ZmqMechanism\<close> (\<open>mechanism.cpp\<close>, \<open>mechanism_base.cpp\<close>, \<open>zap_client.cpp\<close>, \<open>null_mechanism.cpp\<close>): the
    properties two sockets tell each other, written and parsed, and the requests to an
    authentication handler. The mechanisms are records that extend the one of the base class, as the
    classes do.
  \<^item> \<open>ZmqPlain\<close> (\<open>plain_client.cpp\<close>, \<open>plain_server.cpp\<close>): user name and password. The runs of a server
    are an inductive relation in which the peer may say anything.

  \<^bold>\<open>The applications.\<close> \<open>Messages\<close> (\<open>Apps/Server/Messages\<close>), \<open>ServerApp\<close> (\<open>Protocols/TCP.h\<close>,
  \<open>ofApp.cpp\<close>) and \<open>Ipc\<close> (\<open>Protocols/IPC.h\<close> of the server and the client application): requests
  and answers, errors that reach a client and errors that do not, and the consequence of a server
  that never answers on its REP socket.

  \<^bold>\<open>Interfaces.\<close> A contract that several components share is a locale, interpreted on the
  definitions of the model: \<open>bounded_setter\<close> and \<open>clamped_uint\<close> (setters of the properties),
  \<open>cyclic_counter\<close> (three beat counters), \<open>indexed\<close> (the lists of visuals, layers and
  scenes), \<open>slot_table\<close> (the instances of a scene), \<open>message_channel\<close> (the lock-free pipe, which
  the ends of a pipe rely on), \<open>socket_keeps\<close> (what no command from a peer can change in a
  REQ or REP socket), \<open>frame_writer\<close> (the encoders), \<open>frame_reader\<close> (a decoder) and \<open>framed_link\<close>, which
  joins the last two and is interpreted for versions 2 and 3.1 of the protocol.

  \<^bold>\<open>Loops.\<close> A loop over a list is structural recursion. A loop that waits for the kernel or for the
  next message is a \<open>partial_function\<close> whose value is none when it never ends; the calls around it
  turn that into \<open>NoReturn\<close>, and the theorems about such calls state that they come back:
  \<open>SendAll\<close> because a kernel that follows its documentation accepts at least a byte, \<open>receive\<close>
  because the pending bytes get fewer, the loops of libzmq because a pipe holds finitely many
  parts, the loop over waiting OSC messages because each one taken is not waiting any more. \<open>send\<close> of a socket waits for commands: its argument lists the
  batches that arrive, and when they are used up it is \<open>NoReturn\<close>. No fuel is used.

  \<^bold>\<open>Properties.\<close> C1 to C4 and C9 are the invariants and functional correctness of the engine, C5, C6,
  C8, C10 and C11 those of the message path, C12, C13 and C16 those of the handshake, C7, C14 and C15 of TCP;
  the others state the behaviour of
  single operations, with their errors. Where the code does not do what it means to do, the
  theorem states what it does: \<open>tap\<close> always writes outside its array, the first beat calls an
  uninitialised pointer, a visual waiting for the beat is never started by a frame,
  \<open>Layers::setCount\<close> misses most smaller counts, zooms and centers are not limited, the local socket
  takes one request and logs what nothing has initialised, the server stops without its set file, some
  subscriptions are misread, truncated metadata is accepted, the time to live of a heartbeat wraps, an OSC port that
  does not open leaves pointers to deleted objects.

  \<^bold>\<open>Not modelled.\<close>

  \<^item> Drawing: OpenGL calls, shaders, thumbnails and previews have no state the engine reads.
    The effect of a frame on layers and instances is kept.
  \<^item> Devices: cameras, Syphon servers, MIDI inputs and OSC receivers are only what they answer
    (\<open>of_api\<close>, \<open>syphon_api\<close>, \<open>osc_api\<close>).
  \<^item> \<open>FreeFrame\<close> filters: excluded by the preprocessor.
  \<^item> Rounding of floating-point arithmetic, allocation failure, and data races between the
    metronome thread and the main thread, which the code does not order: a round of
    the thread is one step, and so is a frame.
  \<^item> The rest of libzmq: the CURVE mechanism, which rests on a cryptographic library, GSSAPI and the
    draft sockets, which \<open>cmake-make/platform.hpp\<close> does not build; transports, the session between an engine
    and the pipe of its socket except its pipe to the authentication handler, timers, the other socket
    types, conflating pipes, endpoints, monitors, polling, timeouts and the shutdown of whole sockets; the reference counts behind large messages, which are
    values here. Vendored code that the programs do not reach (tinyxml, test frameworks).
\<close>

end
